(* ===== verification/Clipfan_Prelude.thy ===== *)
theory Clipfan_Prelude
  imports Main "HOL-Library.Sublist" "HOL-Library.Char_ord" "HOL-Library.List_Lexorder"
    "HOL-Library.AList" "HOL-Library.Word" "HOL-Library.Multiset"
begin

text \<open>
  Shared vocabulary of the development: Go strings and byte slices as \<open>string\<close> (one
  \<open>char\<close> per byte, so that \<open>length\<close> is Go's \<open>len\<close>), instants as nanoseconds since
  Go's zero time, results as sums with the error on the left, Go maps as association
  lists, the functions of Go's \<open>strings\<close>, \<open>path\<close>, \<open>strconv\<close> and \<open>sort\<close> packages
  the program calls, and the generic lemmas about them.
\<close>

section \<open>Types\<close>

text \<open>\<open>time.Time\<close> as nanoseconds since the zero time; \<open>IsZero\<close> is equality with 0.\<close>

type_synonym gotime = int

type_synonym bytes = string

text \<open>A Go \<open>(value, error)\<close> pair: \<open>Inl\<close> carries the error, \<open>Inr\<close> the value.\<close>

type_synonym 'a res = "string + 'a"

named_theorems clipfan_simps \<open>unfolding rules of the model's small definitions\<close>

abbreviation is_zero_time :: "gotime \<Rightarrow> bool" where
  "is_zero_time t \<equiv> t = 0"

definition second :: int where
  "second = 1000000000"

text \<open>Seconds between Go's zero time and the Unix epoch; \<open>time.Unix(n, 0)\<close>.\<close>

definition unix_time :: "int \<Rightarrow> gotime" where
  "unix_time n = (n + 62135596800) * second"

text \<open>\<open>t.Unix()\<close>: whole seconds since the epoch, rounded down.\<close>

definition time_unix :: "gotime \<Rightarrow> int" where
  "time_unix t = t div second - 62135596800"

fun and_then :: "'e + 'a \<Rightarrow> ('a \<Rightarrow> 'e + 'b) \<Rightarrow> 'e + 'b" where
  "and_then (Inl e) f = Inl e"
| "and_then (Inr x) f = f x"

definition require :: "bool \<Rightarrow> 'e \<Rightarrow> 'e + unit" where
  "require b e = (if b then Inr () else Inl e)"

text \<open>\<open>fmt.Errorf("prefix: %w", err)\<close>.\<close>

fun wrap_err :: "string \<Rightarrow> 'a res \<Rightarrow> 'a res" where
  "wrap_err p (Inl e) = Inl (p @ '': '' @ e)"
| "wrap_err p (Inr x) = Inr x"

section \<open>Go strings\<close>

definition has_prefix :: "string \<Rightarrow> string \<Rightarrow> bool" where
  "has_prefix s p \<longleftrightarrow> take (length p) s = p"

definition has_suffix :: "string \<Rightarrow> string \<Rightarrow> bool" where
  "has_suffix s p \<longleftrightarrow> has_prefix (rev s) (rev p)"

definition trim_suffix :: "string \<Rightarrow> string \<Rightarrow> string" where
  "trim_suffix s p = (if has_suffix s p then take (length s - length p) s else s)"

definition trim_prefix :: "string \<Rightarrow> string \<Rightarrow> string" where
  "trim_prefix s p = (if has_prefix s p then drop (length p) s else s)"

fun contains_sub :: "string \<Rightarrow> string \<Rightarrow> bool" where
  "contains_sub [] p = (p = [])"
| "contains_sub (c # s) p = (has_prefix (c # s) p \<or> contains_sub s p)"

definition contains_any :: "string \<Rightarrow> string \<Rightarrow> bool" where
  "contains_any s cs = list_ex (\<lambda>c. c \<in> set cs) s"

text \<open>The UTF-8 encodings of the runes for which \<open>unicode.IsSpace\<close> holds.\<close>

definition go_spaces :: "string list" where
  "go_spaces =
    [[CHR 0x09], [CHR 0x0A], [CHR 0x0B], [CHR 0x0C], [CHR 0x0D], [CHR 0x20],
     [CHR 0xC2, CHR 0x85], [CHR 0xC2, CHR 0xA0], [CHR 0xE1, CHR 0x9A, CHR 0x80],
     [CHR 0xE2, CHR 0x80, CHR 0x80], [CHR 0xE2, CHR 0x80, CHR 0x81],
     [CHR 0xE2, CHR 0x80, CHR 0x82], [CHR 0xE2, CHR 0x80, CHR 0x83],
     [CHR 0xE2, CHR 0x80, CHR 0x84], [CHR 0xE2, CHR 0x80, CHR 0x85],
     [CHR 0xE2, CHR 0x80, CHR 0x86], [CHR 0xE2, CHR 0x80, CHR 0x87],
     [CHR 0xE2, CHR 0x80, CHR 0x88], [CHR 0xE2, CHR 0x80, CHR 0x89],
     [CHR 0xE2, CHR 0x80, CHR 0x8A], [CHR 0xE2, CHR 0x80, CHR 0xA8],
     [CHR 0xE2, CHR 0x80, CHR 0xA9], [CHR 0xE2, CHR 0x80, CHR 0xAF],
     [CHR 0xE2, CHR 0x81, CHR 0x9F], [CHR 0xE3, CHR 0x80, CHR 0x80]]"

text \<open>Strip leading occurrences of any of the (non-empty) patterns.\<close>

function strip_front :: "string list \<Rightarrow> string \<Rightarrow> string" where
  "strip_front ps s =
     (case find (\<lambda>p. p \<noteq> [] \<and> has_prefix s p) ps of
        None \<Rightarrow> s
      | Some p \<Rightarrow> strip_front ps (drop (length p) s))"
  by pat_completeness auto
termination
proof (relation "measure (\<lambda>(ps, s). length s)", goal_cases)
  case 1
  show ?case by simp
next
  case (2 ps s p)
  then have p: "p \<noteq> []" "take (length p) s = p"
    by (auto simp: find_Some_iff has_prefix_def)
  then have "s \<noteq> []" by (cases s) auto
  with p(1) show ?case by simp
qed

declare strip_front.simps [simp del]

definition trim_space :: "string \<Rightarrow> string" where
  "trim_space s =
     rev (strip_front (map rev go_spaces) (rev (strip_front go_spaces s)))"

fun split_on :: "char \<Rightarrow> string \<Rightarrow> string list" where
  "split_on c [] = [[]]"
| "split_on c (x # xs) =
     (if x = c then [] # split_on c xs
      else (case split_on c xs of [] \<Rightarrow> [[x]] | y # ys \<Rightarrow> (x # y) # ys))"

fun join_with :: "string \<Rightarrow> string list \<Rightarrow> string" where
  "join_with sep [] = []"
| "join_with sep [x] = x"
| "join_with sep (x # y # zs) = x @ sep @ join_with sep (y # zs)"

definition lower_char :: "char \<Rightarrow> char" where
  "lower_char c = (if 65 \<le> (of_char c :: nat) \<and> (of_char c :: nat) \<le> 90
                   then char_of ((of_char c :: nat) + 32) else c)"

text \<open>
  \<open>strings.ToLower\<close> as far as ASCII results go: besides A--Z only U+212A (Kelvin sign) and
  U+0130 lower to an ASCII letter; every other rune keeps a non-ASCII encoding.
\<close>

fun to_lower :: "string \<Rightarrow> string" where
  "to_lower (a # b # c # s) =
     (if a = CHR 0xE2 \<and> b = CHR 0x84 \<and> c = CHR 0xAA then CHR ''k'' # to_lower s
      else if a = CHR 0xC4 \<and> b = CHR 0xB0 then CHR ''i'' # to_lower (c # s)
      else lower_char a # to_lower (b # c # s))"
| "to_lower [a, b] =
     (if a = CHR 0xC4 \<and> b = CHR 0xB0 then ''i'' else [lower_char a, lower_char b])"
| "to_lower [a] = [lower_char a]"
| "to_lower [] = []"

text \<open>
  The ASCII part of Unicode simple case folding (\<open>strings.EqualFold\<close>, and the field lookup
  of \<open>encoding/json\<close>): A--Z, U+212A folds to k, U+017F (long s) folds to s.
\<close>

fun fold_case :: "string \<Rightarrow> string" where
  "fold_case (a # b # c # s) =
     (if a = CHR 0xE2 \<and> b = CHR 0x84 \<and> c = CHR 0xAA then CHR ''k'' # fold_case s
      else if a = CHR 0xC5 \<and> b = CHR 0xBF then CHR ''s'' # fold_case (c # s)
      else lower_char a # fold_case (b # c # s))"
| "fold_case [a, b] =
     (if a = CHR 0xC5 \<and> b = CHR 0xBF then ''s'' else [lower_char a, lower_char b])"
| "fold_case [a] = [lower_char a]"
| "fold_case [] = []"

definition is_ascii :: "string \<Rightarrow> bool" where
  "is_ascii s = list_all (\<lambda>c. (of_char c :: nat) < 128) s"

abbreviation char_in :: "char \<Rightarrow> char \<Rightarrow> char \<Rightarrow> bool" where
  "char_in lo hi c \<equiv> (of_char lo :: nat) \<le> of_char c \<and> (of_char c :: nat) \<le> of_char hi"

section \<open>UTF-8 in JSON strings\<close>

text \<open>Length of the valid UTF-8 sequence at the front, 0 if there is none (\<open>utf8.DecodeRune\<close>).\<close>

definition cont_byte :: "char \<Rightarrow> bool" where
  "cont_byte c \<longleftrightarrow> char_in (CHR 0x80) (CHR 0xBF) c"

definition utf8_seq2 :: "char \<Rightarrow> char \<Rightarrow> bool" where
  "utf8_seq2 a b \<longleftrightarrow> char_in (CHR 0xC2) (CHR 0xDF) a \<and> cont_byte b"

definition utf8_seq3 :: "char \<Rightarrow> char \<Rightarrow> char \<Rightarrow> bool" where
  "utf8_seq3 a b c \<longleftrightarrow> cont_byte c \<and>
     (a = CHR 0xE0 \<and> char_in (CHR 0xA0) (CHR 0xBF) b \<or>
      a = CHR 0xED \<and> char_in (CHR 0x80) (CHR 0x9F) b \<or>
      (char_in (CHR 0xE1) (CHR 0xEC) a \<or> char_in (CHR 0xEE) (CHR 0xEF) a) \<and> cont_byte b)"

definition utf8_seq4 :: "char \<Rightarrow> char \<Rightarrow> char \<Rightarrow> char \<Rightarrow> bool" where
  "utf8_seq4 a b c d \<longleftrightarrow> cont_byte c \<and> cont_byte d \<and>
     (a = CHR 0xF0 \<and> char_in (CHR 0x90) (CHR 0xBF) b \<or>
      a = CHR 0xF4 \<and> char_in (CHR 0x80) (CHR 0x8F) b \<or>
      char_in (CHR 0xF1) (CHR 0xF3) a \<and> cont_byte b)"

fun utf8_len :: "string \<Rightarrow> nat" where
  "utf8_len (a # b # c # d # _) =
     (if is_ascii [a] then 1 else if utf8_seq2 a b then 2 else if utf8_seq3 a b c then 3
      else if utf8_seq4 a b c d then 4 else 0)"
| "utf8_len [a, b, c] =
     (if is_ascii [a] then 1 else if utf8_seq2 a b then 2 else if utf8_seq3 a b c then 3 else 0)"
| "utf8_len [a, b] = (if is_ascii [a] then 1 else if utf8_seq2 a b then 2 else 0)"
| "utf8_len [a] = (if is_ascii [a] then 1 else 0)"
| "utf8_len [] = 0"

text \<open>
  What a Go string becomes when written as a JSON string and read back: every byte that is not
  part of valid UTF-8 is replaced by U+FFFD.
\<close>

function json_string :: "string \<Rightarrow> string" where
  "json_string s =
     (if s = [] then []
      else if utf8_len s = 0 then [CHR 0xEF, CHR 0xBF, CHR 0xBD] @ json_string (tl s)
      else take (utf8_len s) s @ json_string (drop (utf8_len s) s))"
  by pat_completeness auto
termination by (relation "measure length") auto

declare json_string.simps [simp del]

section \<open>Paths\<close>

text \<open>\<open>filepath.Base\<close> on a slash-separated system.\<close>

definition slash :: char where
  "slash = CHR 0x2F"

definition path_base :: "string \<Rightarrow> string" where
  "path_base p =
     (if p = [] then ''.''
      else let q = rev (dropWhile (\<lambda>c. c = slash) (rev p))
           in if q = [] then [slash] else rev (takeWhile (\<lambda>c. c \<noteq> slash) (rev q)))"

fun clean_step :: "bool \<Rightarrow> string list \<Rightarrow> string \<Rightarrow> string list" where
  "clean_step rooted st c =
     (if c = [] \<or> c = ''.'' then st
      else if c = ''..'' then
        (case st of
           [] \<Rightarrow> (if rooted then [] else [c])
         | t # ts \<Rightarrow> (if t = ''..'' then c # st else ts))
      else c # st)"

text \<open>\<open>path.Clean\<close>: the stack holds the components kept so far, innermost first.\<close>

definition path_clean :: "string \<Rightarrow> string" where
  "path_clean p =
     (let rooted = has_prefix p [slash];
          body = join_with [slash] (rev (foldl (clean_step rooted) [] (split_on slash p)))
      in if rooted then slash # body else if body = [] then ''.'' else body)"

text \<open>\<open>path.Join\<close> of two elements: empty elements are ignored.\<close>

definition path_join :: "string \<Rightarrow> string \<Rightarrow> string" where
  "path_join a b =
     (if a = [] then (if b = [] then [] else path_clean b)
      else if b = [] then path_clean a else path_clean (a @ [slash] @ b))"

section \<open>Decimal numbers\<close>

definition digit :: "nat \<Rightarrow> char" where
  "digit n = char_of (48 + n)"

definition is_digit :: "char \<Rightarrow> bool" where
  "is_digit c \<longleftrightarrow> 48 \<le> (of_char c :: nat) \<and> (of_char c :: nat) \<le> 57"

fun show_nat :: "nat \<Rightarrow> string" where
  "show_nat n = (if n < 10 then [digit n] else show_nat (n div 10) @ [digit (n mod 10)])"

declare show_nat.simps [simp del]

definition show_int :: "int \<Rightarrow> string" where
  "show_int i = (if i < 0 then CHR 0x2D # show_nat (nat (- i)) else show_nat (nat i))"

definition digits_value :: "string \<Rightarrow> nat" where
  "digits_value s = foldl (\<lambda>acc c. 10 * acc + (of_char c - 48)) 0 s"

text \<open>\<open>strconv.ParseUint(s, 10, 64)\<close>; \<open>None\<close> is a syntax or range error.\<close>

definition parse_uint64 :: "string \<Rightarrow> 64 word option" where
  "parse_uint64 s =
     (if s \<noteq> [] \<and> list_all is_digit s \<and> digits_value s < 2 ^ 64
      then Some (of_nat (digits_value s)) else None)"

text \<open>\<open>strconv.ParseInt(s, 10, 64)\<close> and \<open>strconv.Atoi\<close> on a 64-bit system.\<close>

definition parse_int64 :: "string \<Rightarrow> int option" where
  "parse_int64 s =
     (let neg = has_prefix s ''-'';
          d = (if neg \<or> has_prefix s ''+'' then drop 1 s else s)
      in if d \<noteq> [] \<and> list_all is_digit d then
           (let v = int (digits_value d)
            in if neg then (if v \<le> 2 ^ 63 then Some (- v) else None)
               else (if v < 2 ^ 63 then Some v else None))
         else None)"

section \<open>Sorting\<close>

text \<open>\<open>sort.SliceStable\<close> with the given strict order.\<close>

fun insert_by :: "('a \<Rightarrow> 'a \<Rightarrow> bool) \<Rightarrow> 'a \<Rightarrow> 'a list \<Rightarrow> 'a list" where
  "insert_by lt x [] = [x]"
| "insert_by lt x (y # ys) = (if lt y x then y # insert_by lt x ys else x # y # ys)"

definition stable_sort :: "('a \<Rightarrow> 'a \<Rightarrow> bool) \<Rightarrow> 'a list \<Rightarrow> 'a list" where
  "stable_sort lt xs = foldr (insert_by lt) xs []"

section \<open>Lemmas: results\<close>

text \<open>Equations for evaluation: a branch is not looked into before it is chosen, and large numbers are
  kept as integers.\<close>

lemma and_then_case [code_unfold]: "and_then r f = (case r of Inl e \<Rightarrow> Inl e | Inr x \<Rightarrow> f x)"
  by (cases r) simp_all

lemma parse_uint64_code [code]:
  "parse_uint64 s = (let v = foldl (\<lambda>n c. 10 * n + int (of_char c - 48)) 0 s
     in if s \<noteq> [] \<and> list_all is_digit s \<and> v < 18446744073709551616 then Some (word_of_int v) else None)"
proof -
  have "foldl (\<lambda>n c. 10 * n + int (of_char c - 48)) (int a) s = int (foldl (\<lambda>n c. 10 * n + (of_char c - 48)) a s)" for a
  proof (induction s arbitrary: a)
    case (Cons c s)
    from this [of "10 * a + (of_char c - 48)"] show ?case by simp
  qed simp
  from this [of 0] show ?thesis by (auto simp: parse_uint64_def digits_value_def Let_def)
qed

lemma and_then_Inr_iff [simp]:
  "and_then r f = Inr y \<longleftrightarrow> (\<exists>x. r = Inr x \<and> f x = Inr y)"
  by (cases r) auto

lemma and_then_Inl_iff:
  "and_then r f = Inl e \<longleftrightarrow> r = Inl e \<or> (\<exists>x. r = Inr x \<and> f x = Inl e)"
  by (cases r) auto

lemma require_Inr_iff [simp]: "require b e = Inr u \<longleftrightarrow> b"
  by (simp add: require_def)

lemma require_Inl_iff [simp]: "require b e = Inl e' \<longleftrightarrow> \<not> b \<and> e = e'"
  by (auto simp: require_def)

lemma wrap_err_Inr_iff [simp]: "wrap_err p r = Inr x \<longleftrightarrow> r = Inr x"
  by (cases r) auto

section \<open>Lemmas: strings\<close>

lemma has_prefix_iff: "has_prefix s p \<longleftrightarrow> (\<exists>t. s = p @ t)"
  unfolding has_prefix_def
  by (metis append_eq_conv_conj append_take_drop_id)

lemma has_prefix_append [simp]: "has_prefix (p @ t) p"
  by (simp add: has_prefix_def)

lemma has_suffix_iff: "has_suffix s p \<longleftrightarrow> (\<exists>t. s = t @ p)"
proof -
  have "has_suffix s p \<longleftrightarrow> (\<exists>t. rev s = rev p @ t)"
    by (simp add: has_suffix_def has_prefix_iff)
  also have "\<dots> \<longleftrightarrow> (\<exists>t. s = t @ p)"
    by (metis rev_append rev_rev_ident)
  finally show ?thesis .
qed

lemma has_suffix_append [simp]: "has_suffix (t @ p) p"
  by (auto simp: has_suffix_iff)

lemma trim_suffix_append [simp]: "trim_suffix (t @ p) p = t"
  by (simp add: trim_suffix_def)

lemma strip_front_suffix: "\<exists>t. s = t @ strip_front ps s"
proof (induction ps s rule: strip_front.induct)
  case (1 ps s)
  show ?case
  proof (cases "find (\<lambda>p. p \<noteq> [] \<and> has_prefix s p) ps")
    case None
    then show ?thesis by (subst strip_front.simps) simp
  next
    case (Some p)
    then obtain t where "drop (length p) s = t @ strip_front ps (drop (length p) s)"
      using "1.IH" by blast
    with Some show ?thesis
      by (subst strip_front.simps) (simp, metis append.assoc append_take_drop_id)
  qed
qed

lemma strip_front_stuck:
  "p \<in> set ps \<Longrightarrow> p \<noteq> [] \<Longrightarrow> \<not> has_prefix (strip_front ps s) p"
proof (induction ps s rule: strip_front.induct)
  case (1 ps s)
  show ?case
  proof (cases "find (\<lambda>p. p \<noteq> [] \<and> has_prefix s p) ps")
    case None
    then have "strip_front ps s = s" by (subst strip_front.simps) simp
    with None "1.prems" show ?thesis by (auto simp: find_None_iff)
  next
    case (Some q)
    with "1" show ?thesis by (subst strip_front.simps) simp
  qed
qed

lemma strip_front_id:
  "(\<And>p. p \<in> set ps \<Longrightarrow> p \<noteq> [] \<Longrightarrow> \<not> has_prefix s p) \<Longrightarrow> strip_front ps s = s"
  by (subst strip_front.simps) (auto split: option.splits simp: find_Some_iff)

lemma length_strip_front: "length (strip_front ps s) \<le> length s"
  by (metis strip_front_suffix length_append le_add2)

lemma length_trim_space: "length (trim_space s) \<le> length s"
  unfolding trim_space_def
  using length_strip_front [of go_spaces s] length_strip_front
  by (metis length_rev order_trans)

lemma trim_space_sub: "\<exists>a b. s = a @ trim_space s @ b"
proof -
  obtain a where a: "s = a @ strip_front go_spaces s"
    using strip_front_suffix by blast
  obtain b where b: "rev (strip_front go_spaces s) = b @ rev (trim_space s)"
    unfolding trim_space_def using strip_front_suffix by fastforce
  from b have "strip_front go_spaces s = trim_space s @ rev b"
    by (metis rev_append rev_rev_ident)
  with a show ?thesis by auto
qed

lemma split_on_not_Nil [simp]: "split_on c s \<noteq> []"
  by (induction s) (auto split: list.splits)

lemma join_split_on: "join_with [c] (split_on c s) = s"
proof (induction s)
  case (Cons x xs)
  obtain y ys where yy: "split_on c xs = y # ys"
    using split_on_not_Nil by (metis neq_Nil_conv)
  with Cons show ?case by (cases ys) auto
qed simp

lemma split_on_no_sep: "\<forall>t \<in> set (split_on c s). c \<notin> set t"
proof (induction s)
  case (Cons x xs)
  then show ?case by (cases "split_on c xs") auto
qed simp

section \<open>Lemmas: JSON strings\<close>

lemma utf8_len_le: "utf8_len s \<le> length s"
  by (cases s rule: utf8_len.cases) auto

lemma utf8_len_one: "is_ascii [a] \<Longrightarrow> utf8_len (a # s) = 1"
  by (cases "a # s" rule: utf8_len.cases) auto

lemma utf8_len_two: "\<not> is_ascii [a] \<Longrightarrow> utf8_seq2 a b \<Longrightarrow> utf8_len (a # b # s) = 2"
  by (cases "a # b # s" rule: utf8_len.cases) auto

lemma utf8_len_three:
  "\<not> is_ascii [a] \<Longrightarrow> \<not> utf8_seq2 a b \<Longrightarrow> utf8_seq3 a b c \<Longrightarrow> utf8_len (a # b # c # s) = 3"
  by (cases "a # b # c # s" rule: utf8_len.cases) auto

lemma utf8_len_append: "0 < utf8_len s \<Longrightarrow> utf8_len (take (utf8_len s) s @ t) = utf8_len s"
  by (cases s rule: utf8_len.cases)
    (auto simp: utf8_len_one utf8_len_two utf8_len_three numeral_eq_Suc split: if_splits)

lemma utf8_len_replacement: "utf8_len ([CHR 0xEF, CHR 0xBF, CHR 0xBD] @ t) = 3"
  using utf8_len_three [of "CHR 0xEF" "CHR 0xBF" "CHR 0xBD" t]
  by (simp add: is_ascii_def utf8_seq2_def utf8_seq3_def cont_byte_def)

lemma json_string_Nil [simp]: "json_string [] = []"
  by (subst json_string.simps) simp

lemma json_string_idem [simp]: "json_string (json_string s) = json_string s"
proof (induction s rule: json_string.induct)
  case (1 s)
  consider "s = []" | "s \<noteq> []" "utf8_len s = 0" | "s \<noteq> []" "0 < utf8_len s" by auto
  then show ?case
  proof cases
    case 1
    then show ?thesis by simp
  next
    case 2
    then have *: "json_string s = [CHR 0xEF, CHR 0xBF, CHR 0xBD] @ json_string (tl s)"
      by (subst json_string.simps) simp
    show ?thesis
      unfolding * by (subst json_string.simps) (use "1.IH"(1) [OF 2] utf8_len_replacement in simp)
  next
    case 3
    then have *: "json_string s = take (utf8_len s) s @ json_string (drop (utf8_len s) s)"
      by (subst json_string.simps) simp
    have IH: "json_string (json_string (drop (utf8_len s) s)) = json_string (drop (utf8_len s) s)"
      using "1.IH"(2) 3 by simp
    have len: "utf8_len (take (utf8_len s) s @ json_string (drop (utf8_len s) s)) = utf8_len s"
      using 3 by (simp add: utf8_len_append)
    show ?thesis
      unfolding * by (subst json_string.simps) (use 3 len IH utf8_len_le [of s] in \<open>simp add: min_def\<close>)
  qed
qed

lemma json_string_ascii: "is_ascii s \<Longrightarrow> json_string s = s"
proof (induction s)
  case (Cons c s)
  then have "is_ascii [c]" "is_ascii s" by (simp_all add: is_ascii_def)
  with Cons.IH show ?case by (subst json_string.simps) (simp add: utf8_len_one)
qed simp

section \<open>Lemmas: decimal numbers\<close>

lemma of_char_digit [simp]: "n < 10 \<Longrightarrow> (of_char (digit n) :: nat) = 48 + n"
  by (simp add: digit_def)

lemma is_digit_digit [simp]: "n < 10 \<Longrightarrow> is_digit (digit n)"
  by (simp add: is_digit_def)

lemma digits_value_snoc [simp]:
  "digits_value (s @ [c]) = 10 * digits_value s + (of_char c - 48)"
  by (simp add: digits_value_def)

lemma show_nat_not_Nil [simp]: "show_nat n \<noteq> []"
  by (subst show_nat.simps) simp

lemma show_nat_digits: "list_all is_digit (show_nat n)"
proof (induction n rule: show_nat.induct)
  case (1 n)
  then show ?case by (subst show_nat.simps) auto
qed

lemma digits_value_show_nat [simp]: "digits_value (show_nat n) = n"
proof (induction n rule: show_nat.induct)
  case (1 n)
  show ?case
  proof (cases "n < 10")
    case True
    then show ?thesis by (subst show_nat.simps) (simp add: digits_value_def)
  next
    case False
    with "1.IH" have "digits_value (show_nat (n div 10)) = n div 10" by simp
    with False show ?thesis by (subst show_nat.simps) simp
  qed
qed

lemma show_nat_inj: "show_nat m = show_nat n \<longleftrightarrow> m = n"
  by (metis digits_value_show_nat)

lemma parse_uint64_show: "parse_uint64 (show_nat (unat w)) = Some w"
proof -
  have "unat w < 2 ^ 64" using unsigned_less [of w] by simp
  then show ?thesis by (simp add: parse_uint64_def show_nat_digits)
qed

lemma show_nat_no_sign: "\<not> has_prefix (show_nat n) ''-''" "\<not> has_prefix (show_nat n) ''+''"
proof -
  have "list_all is_digit (show_nat n)" by (rule show_nat_digits)
  then show "\<not> has_prefix (show_nat n) ''-''" "\<not> has_prefix (show_nat n) ''+''"
    by (auto simp: has_prefix_iff is_digit_def)
qed

lemma parse_int64_show:
  "- (2 ^ 63) \<le> i \<Longrightarrow> i < 2 ^ 63 \<Longrightarrow> parse_int64 (show_int i) = Some i"
  using show_nat_no_sign
  by (auto simp: parse_int64_def show_int_def Let_def show_nat_digits has_prefix_def)

lemma show_nat_not_minus: "show_nat n \<noteq> CHR 0x2D # s"
  using show_nat_digits [of n] by (auto simp: is_digit_def)

lemma show_int_inj: "show_int i = show_int j \<longleftrightarrow> i = j"
proof -
  have "CHR 0x2D # show_nat (nat (- i)) \<noteq> show_nat (nat j)" for i j
    using show_nat_not_minus by metis
  then show ?thesis
    using show_nat_not_minus
    by (cases "i < 0"; cases "j < 0") (auto simp: show_int_def show_nat_inj)
qed

section \<open>Lemmas: sorting\<close>

lemma mset_insert_by [simp]: "mset (insert_by lt x xs) = add_mset x (mset xs)"
  by (induction xs) auto

lemma mset_stable_sort [simp]: "mset (stable_sort lt xs) = mset xs"
  by (induction xs) (auto simp: stable_sort_def)

lemma set_stable_sort [simp]: "set (stable_sort lt xs) = set xs"
  by (metis mset_stable_sort set_mset_mset)

lemma length_stable_sort [simp]: "length (stable_sort lt xs) = length xs"
  by (metis mset_stable_sort size_mset)

lemma set_insert_by [simp]: "set (insert_by lt x xs) = insert x (set xs)"
  by (metis mset_insert_by set_mset_add_mset_insert set_mset_mset)

lemma sorted_insert_by:
  assumes "\<And>a b c. \<not> lt b a \<Longrightarrow> \<not> lt c b \<Longrightarrow> \<not> lt c a" and "\<And>a b. lt a b \<Longrightarrow> \<not> lt b a"
  shows "sorted_wrt (\<lambda>a b. \<not> lt b a) xs \<Longrightarrow> sorted_wrt (\<lambda>a b. \<not> lt b a) (insert_by lt x xs)"
proof (induction xs)
  case (Cons y ys)
  show ?case
  proof (cases "lt y x")
    case True
    with Cons assms(2) show ?thesis by auto
  next
    case False
    with Cons.prems assms(1) show ?thesis by fastforce
  qed
qed simp

lemma sorted_stable_sort:
  assumes "\<And>a b c. \<not> lt b a \<Longrightarrow> \<not> lt c b \<Longrightarrow> \<not> lt c a" and "\<And>a b. lt a b \<Longrightarrow> \<not> lt b a"
  shows "sorted_wrt (\<lambda>a b. \<not> lt b a) (stable_sort lt xs)"
  unfolding stable_sort_def
  by (induction xs) (simp_all add: sorted_insert_by [OF assms])

text \<open>Elements that compare equal keep their order.\<close>

lemma filter_insert_by:
  "(\<And>y. P x \<Longrightarrow> P y \<Longrightarrow> \<not> lt y x) \<Longrightarrow>
   filter P (insert_by lt x xs) = (if P x then x # filter P xs else filter P xs)"
proof (induction xs)
  case (Cons y ys)
  then show ?case by (cases "P x"; cases "P y") auto
qed simp

lemma filter_stable_sort:
  "(\<And>x y. P x \<Longrightarrow> P y \<Longrightarrow> \<not> lt y x) \<Longrightarrow> filter P (stable_sort lt xs) = filter P xs"
proof (induction xs)
  case (Cons x xs)
  then have "filter P (foldr (insert_by lt) xs []) = filter P xs"
    by (simp add: stable_sort_def)
  with Cons.prems filter_insert_by [of P x lt] show ?case
    by (simp add: stable_sort_def)
qed (simp add: stable_sort_def)

section \<open>Lemmas: association lists as Go maps\<close>

lemma map_of_update [simp]: "map_of (AList.update k v m) = (map_of m)(k \<mapsto> v)"
  by (simp add: update_conv')

lemma map_of_delete [simp]: "map_of (AList.delete k m) = (map_of m)(k := None)"
  by (simp add: delete_conv')

lemma distinct_map_update [simp]:
  "distinct (map fst m) \<Longrightarrow> distinct (map fst (AList.update k v m))"
  by (simp add: distinct_update)

lemma distinct_map_delete [simp]:
  "distinct (map fst m) \<Longrightarrow> distinct (map fst (AList.delete k m))"
  by (simp add: distinct_delete)

lemma length_delete_in:
  "distinct (map fst m) \<Longrightarrow> k \<in> fst ` set m \<Longrightarrow> length (AList.delete k m) < length m"
proof -
  assume "k \<in> fst ` set m"
  then obtain v where "(k, v) \<in> set m" by auto
  then show ?thesis
    unfolding AList.delete_eq
    by (intro length_filter_less [where x = "(k, v)"]) auto
qed

section \<open>Joining a directory and a plain name\<close>

definition plain_name :: "string \<Rightarrow> bool" where
  "plain_name n \<longleftrightarrow> n \<noteq> [] \<and> slash \<notin> set n \<and> n \<noteq> ''.'' \<and> n \<noteq> ''..''"

definition clean_stack_of :: "string \<Rightarrow> string list" where
  "clean_stack_of d = foldl (clean_step (has_prefix d [slash])) [] (split_on slash d)"

definition dir_prefix :: "string \<Rightarrow> string" where
  "dir_prefix d = (if has_prefix d [slash] then [slash] else []) @
     concat (map (\<lambda>c. c @ [slash]) (rev (clean_stack_of d)))"

lemma split_on_plain: "c \<notin> set n \<Longrightarrow> split_on c n = [n]"
  by (induction n) auto

lemma split_on_append: "split_on c (a @ c # b) = split_on c a @ split_on c b"
proof (induction a)
  case (Cons x a)
  then show ?case using split_on_not_Nil [of c a] by (cases "split_on c a") auto
qed simp

lemma join_with_snoc: "join_with [c] (xs @ [n]) = concat (map (\<lambda>x. x @ [c]) xs) @ n"
proof (induction xs)
  case (Cons x xs)
  then show ?case by (cases xs) auto
qed simp

lemma path_join_plain:
  assumes "plain_name n" shows "path_join d n = dir_prefix d @ n"
proof (cases "d = []")
  case True
  have "has_prefix n [slash] = False"
    using assms by (cases n) (auto simp: plain_name_def has_prefix_iff)
  then show ?thesis using True assms
    by (auto simp: path_join_def path_clean_def plain_name_def split_on_plain dir_prefix_def
        clean_stack_of_def has_prefix_iff)
next
  case False
  then have "has_prefix (d @ slash # n) [slash] = has_prefix d [slash]"
    by (cases d) (auto simp: has_prefix_iff)
  then show ?thesis using False assms
    by (auto simp: path_join_def path_clean_def plain_name_def split_on_plain split_on_append
        dir_prefix_def clean_stack_of_def join_with_snoc)
qed

fun clean_comps :: "bool \<Rightarrow> string list \<Rightarrow> bool" where
  "clean_comps rooted [] = True"
| "clean_comps rooted (c # st) \<longleftrightarrow> c \<noteq> [] \<and> c \<noteq> ''.'' \<and> slash \<notin> set c \<and> clean_comps rooted st \<and>
     (c = ''..'' \<longrightarrow> \<not> rooted \<and> set st \<subseteq> {''..''})"

lemma clean_comps_foldl:
  "clean_comps r st \<Longrightarrow> \<forall>c \<in> set cs. slash \<notin> set c \<Longrightarrow> clean_comps r (foldl (clean_step r) st cs)"
proof (induction cs arbitrary: st)
  case (Cons c cs)
  then have "clean_comps r (clean_step r st c)" by (cases st) auto
  with Cons show ?case by simp
qed simp

lemma clean_comps_replay: "clean_comps r st \<Longrightarrow> foldl (clean_step r) [] (rev st) = st"
  by (induction st) (auto split: list.splits)

lemma split_on_concat:
  "\<forall>c \<in> set cs. slash \<notin> set c \<Longrightarrow> 
   split_on slash (concat (map (\<lambda>c. c @ [slash]) cs) @ n) = cs @ split_on slash n"
  by (induction cs) (auto simp: split_on_append split_on_plain)

lemma clean_comps_no_slash: "clean_comps r st \<Longrightarrow> \<forall>c \<in> set st. slash \<notin> set c \<and> c \<noteq> []"
  by (induction st) auto

lemma path_join_neq_dir:
  assumes n: "plain_name n" shows "path_join d n \<noteq> d"
proof
  assume d: "path_join d n = d"
  let ?r = "has_prefix d [slash]" and ?st = "clean_stack_of d"
  have ok: "clean_comps ?r ?st"
    unfolding clean_stack_of_def by (rule clean_comps_foldl) (use split_on_no_sep in auto)
  have eq: "d = dir_prefix d @ n" using d path_join_plain [OF n] by simp
  have "split_on slash d = (if ?r then [[]] else []) @ rev ?st @ [n]"
    using n clean_comps_no_slash [OF ok]
    by (subst eq) (auto simp: dir_prefix_def split_on_concat split_on_plain plain_name_def)
  then have "?st = foldl (clean_step ?r) [] ((if ?r then [[]] else []) @ rev ?st @ [n])"
    by (metis clean_stack_of_def)
  then have "?st = n # ?st"
    using n clean_comps_replay [OF ok] by (cases ?r) (simp_all add: plain_name_def)
  then show False by simp
qed

lemma path_join_inj: "plain_name m \<Longrightarrow> plain_name n \<Longrightarrow> path_join d m = path_join d n \<longleftrightarrow> m = n"
  by (simp add: path_join_plain)

lemma dir_prefix_end: "dir_prefix d = [] \<or> last (dir_prefix d) = slash"
proof (cases "clean_stack_of d" rule: list.exhaust)
  case (Cons a list) then show ?thesis by (simp add: dir_prefix_def)
qed (simp add: dir_prefix_def)

lemma takeWhile_rev_plain: "p = [] \<or> last p = slash \<Longrightarrow> slash \<notin> set n \<Longrightarrow>
  takeWhile (\<lambda>c. c \<noteq> slash) (rev n @ rev p) = rev n"
proof -
  assume p: "p = [] \<or> last p = slash" and n: "slash \<notin> set n"
  have "takeWhile (\<lambda>c. c \<noteq> slash) (rev p) = []"
    using p by (cases p rule: rev_cases) auto
  then show ?thesis using n by (subst takeWhile_append2) auto
qed

lemma path_base_join: "plain_name n \<Longrightarrow> path_base (path_join d n) = n"
proof -
  assume n: "plain_name n"
  then have ne: "n \<noteq> []" "slash \<notin> set n" by (auto simp: plain_name_def)
  then have "dropWhile (\<lambda>c. c = slash) (rev n @ rev (dir_prefix d)) = rev n @ rev (dir_prefix d)"
    by (cases n rule: rev_cases) auto
  then show ?thesis
    using ne takeWhile_rev_plain [OF dir_prefix_end ne(2), of d]
    by (simp add: path_join_plain [OF n] path_base_def)
qed

lemma clean_stack_comps: "clean_comps (has_prefix p [slash]) (clean_stack_of p)"
  unfolding clean_stack_of_def by (rule clean_comps_foldl) (use split_on_no_sep in auto)

lemma split_on_join:
  "cs \<noteq> [] \<Longrightarrow> \<forall>c \<in> set cs. slash \<notin> set c \<Longrightarrow> split_on slash (join_with [slash] cs) = cs"
proof (induction cs)
  case (Cons c cs)
  then show ?case by (cases cs) (auto simp: split_on_append split_on_plain)
qed simp

lemma join_with_eq_Nil:
  "\<forall>c \<in> set cs. c \<noteq> [] \<Longrightarrow> join_with [slash] cs = [] \<longleftrightarrow> cs = []"
  by (cases cs rule: remdups_adj.cases) auto

lemma path_clean_rooted: "has_prefix (path_clean p) [slash] = has_prefix p [slash]"
proof (cases "has_prefix p [slash]")
  case False
  let ?cs = "rev (clean_stack_of p)"
  have ok: "\<forall>c \<in> set ?cs. slash \<notin> set c \<and> c \<noteq> []"
    using clean_comps_no_slash [OF clean_stack_comps] by auto
  have "\<not> has_prefix (join_with [slash] ?cs) [slash]"
  proof (cases ?cs)
    case (Cons c cs)
    with ok show ?thesis by (cases cs; cases c) (auto simp: has_prefix_iff)
  qed (simp add: has_prefix_iff)
  with False show ?thesis
    by (auto simp: path_clean_def clean_stack_of_def has_prefix_iff slash_def Let_def split: if_splits)
qed (simp add: path_clean_def has_prefix_iff)

lemma clean_stack_clean: "clean_stack_of (path_clean p) = clean_stack_of p"
proof -
  let ?st = "clean_stack_of p" and ?r = "has_prefix p [slash]"
  have ok: "\<forall>c \<in> set (rev ?st). slash \<notin> set c \<and> c \<noteq> []"
    using clean_comps_no_slash [OF clean_stack_comps] by auto
  have "foldl (clean_step ?r) [] (split_on slash (path_clean p)) = ?st"
  proof (cases "?st = []")
    case True
    then show ?thesis
      by (simp add: path_clean_def clean_stack_of_def slash_def)
  next
    case False
    then have "split_on slash (path_clean p) = (if ?r then [[]] else []) @ rev ?st"
      using ok join_with_eq_Nil [of "rev ?st"] split_on_join [of "rev ?st"]
      by (auto simp: path_clean_def clean_stack_of_def [symmetric])
    then show ?thesis using clean_comps_replay [OF clean_stack_comps, of p] by (cases ?r) simp_all
  qed
  then show ?thesis by (simp add: clean_stack_of_def [of "path_clean p"] path_clean_rooted)
qed

lemma clean_stack_join:
  assumes "slash \<notin> set n"
  shows "clean_stack_of (path_join d n) = clean_step (has_prefix d [slash]) (clean_stack_of d) n"
proof -
  have n: "has_prefix n [slash] = False" using assms by (cases n) (auto simp: has_prefix_iff)
  have d: "has_prefix (d @ slash # n) [slash] = has_prefix d [slash]" if "d \<noteq> []"
    using that by (cases d) (auto simp: has_prefix_iff)
  have "clean_stack_of [] = []" by (simp add: clean_stack_of_def)
  moreover have "clean_stack_of n = clean_step False [] n" if "n \<noteq> []"
    using n assms by (simp add: clean_stack_of_def split_on_plain)
  moreover have "clean_stack_of (d @ slash # n) =
      clean_step (has_prefix d [slash]) (clean_stack_of d) n" if "d \<noteq> []"
    using d [OF that] assms by (simp add: clean_stack_of_def split_on_append split_on_plain)
  ultimately show ?thesis
    by (auto simp: path_join_def clean_stack_clean has_prefix_iff)
qed

text \<open>A name without a slash addresses the same file as a plain name only if it is that name.\<close>

lemma path_join_plain_eq:
  assumes n: "plain_name n" and m: "slash \<notin> set m" and eq: "path_join d m = path_join d n"
  shows "m = n"
proof -
  have "clean_step (has_prefix d [slash]) (clean_stack_of d) m = n # clean_stack_of d"
    using clean_stack_join [OF m, of d] clean_stack_join [of n d] n eq by (simp add: plain_name_def)
  moreover have "length (clean_stack_of d) < Suc (length (clean_stack_of d))" by simp
  ultimately show ?thesis
    using n by (auto simp: plain_name_def split: if_splits list.splits)
qed

lemma trim_space_id:
  assumes "s \<noteq> []" "hd s \<notin> hd ` set go_spaces" "last s \<notin> last ` set go_spaces"
  shows "trim_space s = s"
proof -
  have ne: "[] \<notin> set go_spaces" by (simp add: go_spaces_def)
  have "strip_front go_spaces s = s"
  proof (rule strip_front_id)
    fix p assume p: "p \<in> set go_spaces" "p \<noteq> []"
    show "\<not> has_prefix s p"
    proof
      assume "has_prefix s p"
      with p(2) have "hd s = hd p" by (auto simp: has_prefix_iff)
      with p(1) assms(2) show False by auto
    qed
  qed
  moreover have "strip_front (map rev go_spaces) (rev s) = rev s"
  proof (rule strip_front_id)
    fix p assume p: "p \<in> set (map rev go_spaces)" "p \<noteq> []"
    then obtain q where q: "q \<in> set go_spaces" "p = rev q" by auto
    show "\<not> has_prefix (rev s) p"
    proof
      assume "has_prefix (rev s) p"
      with p(2) have "hd (rev s) = hd p" by (auto simp: has_prefix_iff)
      with q p(2) have "last s = last q" by (simp add: hd_rev)
      with q(1) assms(3) show False by auto
    qed
  qed
  ultimately show ?thesis by (simp add: trim_space_def)
qed

end
