(* ===== verification/Clipfan_Crypto.thy ===== *)
theory Clipfan_Crypto
  imports Clipfan_Prelude
begin

unbundle bit_operations_syntax

text \<open>
  The byte-level functions the program uses from Go's \<open>crypto\<close> and \<open>encoding\<close> packages:
  SHA-256, HMAC, hexadecimal and standard base64, with their round trips, and the key
  derivation \<open>hkdfSHA256\<close> of \<open>internal/transport/auth.go\<close>. They are executable definitions;
  nothing is assumed of them.
\<close>

section \<open>SHA-256\<close>

type_synonym w32 = "32 word"

type_synonym sha_state = "w32 \<times> w32 \<times> w32 \<times> w32 \<times> w32 \<times> w32 \<times> w32 \<times> w32"

definition rotr32 :: "nat \<Rightarrow> w32 \<Rightarrow> w32" where
  "rotr32 n w = drop_bit n w OR push_bit (32 - n) w"

definition sha_k :: "w32 list" where
  "sha_k =
    [1116352408, 1899447441, 3049323471, 3921009573, 961987163, 1508970993, 2453635748,
     2870763221, 3624381080, 310598401, 607225278, 1426881987, 1925078388, 2162078206,
     2614888103, 3248222580, 3835390401, 4022224774, 264347078, 604807628, 770255983,
     1249150122, 1555081692, 1996064986, 2554220882, 2821834349, 2952996808, 3210313671,
     3336571891, 3584528711, 113926993, 338241895, 666307205, 773529912, 1294757372,
     1396182291, 1695183700, 1986661051, 2177026350, 2456956037, 2730485921, 2820302411,
     3259730800, 3345764771, 3516065817, 3600352804, 4094571909, 275423344, 430227734,
     506948616, 659060556, 883997877, 958139571, 1322822218, 1537002063, 1747873779,
     1955562222, 2024104815, 2227730452, 2361852424, 2428436474, 2756734187, 3204031479,
     3329325298]"

definition word_of_bytes :: "string \<Rightarrow> w32" where
  "word_of_bytes bs = foldl (\<lambda>acc c. 256 * acc + of_char c) 0 bs"

definition bytes_of_word :: "w32 \<Rightarrow> string" where
  "bytes_of_word w =
     [char_of (uint (drop_bit 24 w)), char_of (uint (drop_bit 16 w)),
      char_of (uint (drop_bit 8 w)), char_of (uint w)]"

definition sha_pad :: "bytes \<Rightarrow> bytes" where
  "sha_pad m =
     m @ [CHR 0x80] @ replicate ((119 - length m mod 64) mod 64) (CHR 0x00) @
     map (\<lambda>i. char_of (8 * int (length m) div 256 ^ i)) [7, 6, 5, 4, 3, 2, 1, 0]"

fun chunks :: "nat \<Rightarrow> 'a list \<Rightarrow> 'a list list" where
  "chunks n xs = (if n = 0 \<or> xs = [] then [] else take n xs # chunks n (drop n xs))"

declare chunks.simps [simp del]

fun sha_schedule :: "nat \<Rightarrow> w32 list \<Rightarrow> w32 list" where
  "sha_schedule 0 ws = ws"
| "sha_schedule (Suc n) ws =
     (let i = length ws;
          w15 = ws ! (i - 15); w2 = ws ! (i - 2);
          s0 = rotr32 7 w15 XOR rotr32 18 w15 XOR drop_bit 3 w15;
          s1 = rotr32 17 w2 XOR rotr32 19 w2 XOR drop_bit 10 w2
      in sha_schedule n (ws @ [ws ! (i - 16) + s0 + ws ! (i - 7) + s1]))"

fun sha_round :: "sha_state \<Rightarrow> w32 \<times> w32 \<Rightarrow> sha_state" where
  "sha_round (a, b, c, d, e, f, g, h) (k, w) =
     (let s1 = rotr32 6 e XOR rotr32 11 e XOR rotr32 25 e;
          ch = (e AND f) XOR (NOT e AND g);
          t1 = h + s1 + ch + k + w;
          s0 = rotr32 2 a XOR rotr32 13 a XOR rotr32 22 a;
          maj = (a AND b) XOR (a AND c) XOR (b AND c)
      in (t1 + s0 + maj, a, b, c, d + t1, e, f, g))"

fun sha_add :: "sha_state \<Rightarrow> sha_state \<Rightarrow> sha_state" where
  "sha_add (a, b, c, d, e, f, g, h) (a', b', c', d', e', f', g', h') =
     (a + a', b + b', c + c', d + d', e + e', f + f', g + g', h + h')"

definition sha_block :: "sha_state \<Rightarrow> bytes \<Rightarrow> sha_state" where
  "sha_block st blk =
     sha_add st (foldl sha_round st
       (zip sha_k (sha_schedule 48 (map word_of_bytes (chunks 4 blk)))))"

definition sha_init :: sha_state where
  "sha_init = (1779033703, 3144134277, 1013904242, 2773480762,
               1359893119, 2600822924, 528734635, 1541459225)"

fun sha_output :: "sha_state \<Rightarrow> bytes" where
  "sha_output (a, b, c, d, e, f, g, h) =
     concat (map bytes_of_word [a, b, c, d, e, f, g, h])"

definition sha256 :: "bytes \<Rightarrow> bytes" where
  "sha256 m = sha_output (foldl sha_block sha_init (chunks 64 (sha_pad m)))"

section \<open>HMAC and key derivation\<close>

definition xor_pad :: "8 word \<Rightarrow> bytes \<Rightarrow> bytes" where
  "xor_pad p k = map (\<lambda>c. char_of (uint (of_char c XOR p))) k"

text \<open>\<open>hmac.New(sha256.New, key)\<close> followed by \<open>Write(m)\<close> and \<open>Sum(nil)\<close>.\<close>

definition hmac_sha256 :: "bytes \<Rightarrow> bytes \<Rightarrow> bytes" where
  "hmac_sha256 key m =
     (let k0 = (if length key > 64 then sha256 key else key);
          k = k0 @ replicate (64 - length k0) (CHR 0x00)
      in sha256 (xor_pad 0x5C k @ sha256 (xor_pad 0x36 k @ m)))"

text \<open>
  The expansion loop of \<open>hkdfSHA256\<close>: \<open>counter\<close> is a Go \<open>byte\<close>, and the first argument bounds
  the number of iterations left.
\<close>

fun hkdf_expand :: "nat \<Rightarrow> bytes \<Rightarrow> bytes \<Rightarrow> 8 word \<Rightarrow> bytes \<Rightarrow> bytes \<Rightarrow> nat \<Rightarrow> bytes option" where
  "hkdf_expand fuel prk info counter okm prev len =
     (if len \<le> length okm then Some okm
      else (case fuel of
              0 \<Rightarrow> None
            | Suc n \<Rightarrow>
                (let prev' = hmac_sha256 prk (prev @ info @ [char_of (uint counter)])
                 in hkdf_expand n prk info (counter + 1) (okm @ prev') prev' len)))"

declare hkdf_expand.simps [simp del]

definition hkdfSHA256 :: "bytes \<Rightarrow> bytes \<Rightarrow> bytes \<Rightarrow> nat \<Rightarrow> bytes option" where
  "hkdfSHA256 ikm salt info len =
     map_option (take len)
       (hkdf_expand (len div 32 + 1) (hmac_sha256 salt ikm) info 1 [] [] len)"

section \<open>Hexadecimal\<close>

definition hex_digit :: "nat \<Rightarrow> char" where
  "hex_digit n = (if n < 10 then char_of (48 + n) else char_of (87 + n))"

definition hex_value :: "char \<Rightarrow> nat option" where
  "hex_value c =
     (let n = of_char c :: nat
      in if 48 \<le> n \<and> n \<le> 57 then Some (n - 48)
         else if 97 \<le> n \<and> n \<le> 102 then Some (n - 87)
         else if 65 \<le> n \<and> n \<le> 70 then Some (n - 55) else None)"

fun hex_encode :: "bytes \<Rightarrow> string" where
  "hex_encode [] = []"
| "hex_encode (c # cs) =
     hex_digit (of_char c div 16) # hex_digit (of_char c mod 16) # hex_encode cs"

text \<open>\<open>hex.DecodeString\<close>: odd length or a foreign character is an error.\<close>

fun hex_decode :: "string \<Rightarrow> bytes option" where
  "hex_decode [] = Some []"
| "hex_decode [c] = None"
| "hex_decode (a # b # cs) =
     (case (hex_value a, hex_value b, hex_decode cs) of
        (Some x, Some y, Some r) \<Rightarrow> Some (char_of (16 * x + y) # r)
      | _ \<Rightarrow> None)"

section \<open>Base64\<close>

definition b64_char :: "nat \<Rightarrow> char" where
  "b64_char n =
     (if n < 26 then char_of (65 + n)
      else if n < 52 then char_of (71 + n)
      else if n < 62 then char_of (n - 4)
      else if n = 62 then CHR 0x2B else CHR 0x2F)"

definition b64_value :: "char \<Rightarrow> nat option" where
  "b64_value c =
     (let n = of_char c :: nat
      in if 65 \<le> n \<and> n \<le> 90 then Some (n - 65)
         else if 97 \<le> n \<and> n \<le> 122 then Some (n - 71)
         else if 48 \<le> n \<and> n \<le> 57 then Some (n + 4)
         else if n = 43 then Some 62 else if n = 47 then Some 63 else None)"

abbreviation pad_char :: char where "pad_char \<equiv> CHR 0x3D"

text \<open>\<open>base64.StdEncoding.EncodeToString\<close>.\<close>

fun b64_encode :: "bytes \<Rightarrow> string" where
  "b64_encode [] = []"
| "b64_encode [a] =
     (let x = of_char a :: nat in [b64_char (x div 4), b64_char (x mod 4 * 16), pad_char, pad_char])"
| "b64_encode [a, b] =
     (let x = of_char a :: nat; y = of_char b :: nat
      in [b64_char (x div 4), b64_char (x mod 4 * 16 + y div 16), b64_char (y mod 16 * 4), pad_char])"
| "b64_encode (a # b # c # cs) =
     (let x = of_char a :: nat; y = of_char b :: nat; z = of_char c :: nat
      in b64_char (x div 4) # b64_char (x mod 4 * 16 + y div 16) #
         b64_char (y mod 16 * 4 + z div 64) # b64_char (z mod 64) # b64_encode cs)"

fun b64_groups :: "string \<Rightarrow> bytes option" where
  "b64_groups [] = Some []"
| "b64_groups (p # q # r # s # rest) =
     (case (b64_value p, b64_value q) of
        (Some a, Some b) \<Rightarrow>
          (if r = pad_char then
             (if s = pad_char \<and> rest = [] then Some [char_of (a * 4 + b div 16)] else None)
           else (case b64_value r of
               None \<Rightarrow> None
             | Some c \<Rightarrow>
                 (if s = pad_char then
                    (if rest = []
                     then Some [char_of (a * 4 + b div 16), char_of (b mod 16 * 16 + c div 4)]
                     else None)
                  else (case (b64_value s, b64_groups rest) of
                      (Some d, Some more) \<Rightarrow>
                        Some (char_of (a * 4 + b div 16) # char_of (b mod 16 * 16 + c div 4) #
                              char_of (c mod 4 * 64 + d) # more)
                    | _ \<Rightarrow> None))))
      | _ \<Rightarrow> None)"
| "b64_groups _ = None"

text \<open>\<open>base64.StdEncoding.DecodeString\<close>: carriage returns and newlines are skipped.\<close>

definition b64_decode :: "string \<Rightarrow> bytes option" where
  "b64_decode s = b64_groups (filter (\<lambda>c. c \<noteq> CHR 0x0A \<and> c \<noteq> CHR 0x0D) s)"

section \<open>Lemmas\<close>

lemma of_char_less_256 [simp]: "(of_char c :: nat) < 256"
  using of_char_mod_256 [of c, where 'a = nat] by (metis mod_less_divisor zero_less_numeral)

lemma length_bytes_of_word [simp]: "length (bytes_of_word w) = 4"
  by (simp add: bytes_of_word_def)

lemma length_sha256 [simp]: "length (sha256 m) = 32"
proof -
  have "length (sha_output st) = 32" for st
    by (cases st rule: sha_output.cases) simp
  then show ?thesis by (simp add: sha256_def)
qed

lemma length_hmac [simp]: "length (hmac_sha256 k m) = 32"
  by (simp add: hmac_sha256_def Let_def)

lemma hkdf_expand_enough:
  "len \<le> length okm + 32 * fuel \<Longrightarrow>
   \<exists>out. hkdf_expand fuel prk info counter okm prev len = Some out \<and> len \<le> length out"
proof (induction fuel arbitrary: counter okm prev)
  case 0
  then show ?case by (subst hkdf_expand.simps) simp
next
  case (Suc n)
  show ?case
  proof (cases "len \<le> length okm")
    case True
    then show ?thesis by (subst hkdf_expand.simps) simp
  next
    case False
    let ?prev = "hmac_sha256 prk (prev @ info @ [char_of (uint counter)])"
    have "len \<le> length (okm @ ?prev) + 32 * n" using Suc.prems by simp
    from Suc.IH [OF this, of "counter + 1" ?prev] False show ?thesis
      by (subst hkdf_expand.simps) (simp add: Let_def)
  qed
qed

lemma hkdfSHA256_length: "\<exists>okm. hkdfSHA256 ikm salt info len = Some okm \<and> length okm = len"
proof -
  have "len \<le> length ([] :: bytes) + 32 * (len div 32 + 1)" by simp
  then obtain out where
    "hkdf_expand (len div 32 + 1) (hmac_sha256 salt ikm) info 1 [] [] len = Some out" "len \<le> length out"
    using hkdf_expand_enough by blast
  then show ?thesis by (simp add: hkdfSHA256_def)
qed

lemma hex_value_digit [simp]: "n < 16 \<Longrightarrow> hex_value (hex_digit n) = Some n"
  by (auto simp: hex_value_def hex_digit_def Let_def)

lemma hex_decode_encode [simp]: "hex_decode (hex_encode bs) = Some bs"
proof (induction bs)
  case (Cons c cs)
  have "(of_char c :: nat) div 16 < 16"
    using of_char_less_256 [of c] by (simp add: div_less_iff_less_mult)
  with Cons show ?case by (simp add: mult_div_mod_eq)
qed simp

lemma hex_encode_inj: "hex_encode a = hex_encode b \<longleftrightarrow> a = b"
  by (metis hex_decode_encode option.inject)

lemma length_hex_encode [simp]: "length (hex_encode bs) = 2 * length bs"
  by (induction bs) auto

lemma b64_value_char [simp]: "n < 64 \<Longrightarrow> b64_value (b64_char n) = Some n"
  by (auto simp: b64_value_def b64_char_def Let_def)

lemma b64_char_not:
  "n < 64 \<Longrightarrow> b64_char n \<noteq> pad_char \<and> b64_char n \<noteq> CHR 0x0A \<and> b64_char n \<noteq> CHR 0x0D"
proof -
  assume n: "n < 64"
  have "b64_value pad_char = None" "b64_value (CHR 0x0A) = None" "b64_value (CHR 0x0D) = None"
    by (simp_all add: b64_value_def)
  with n b64_value_char [OF n] show ?thesis by (metis option.distinct(1))
qed

lemma b64_bounds:
  fixes a b c :: char
  defines "x \<equiv> of_char a :: nat" and "y \<equiv> of_char b :: nat" and "z \<equiv> of_char c :: nat"
  shows "x div 4 < 64" "x mod 4 * 16 < 64" "x mod 4 * 16 + y div 16 < 64" "y mod 16 * 4 < 64"
    "y mod 16 * 4 + z div 64 < 64" "z mod 64 < 64" "y div 16 < 16" "z div 64 < 4"
proof -
  have xyz: "x < 256" "y < 256" "z < 256" by (simp_all add: x_def y_def z_def)
  then show "x div 4 < 64" "y div 16 < 16" "z div 64 < 4" "x mod 4 * 16 < 64" "y mod 16 * 4 < 64"
    "z mod 64 < 64" by simp_all
  have "x mod 4 \<le> 3" "y mod 16 \<le> 15" "y div 16 \<le> 15" "z div 64 \<le> 3"
    using xyz by (auto simp: less_Suc_eq_le [symmetric])
  then show "x mod 4 * 16 + y div 16 < 64" "y mod 16 * 4 + z div 64 < 64" by linarith+
qed

lemma b64_groups_encode: "b64_groups (b64_encode bs) = Some bs"
proof (induction bs rule: b64_encode.induct)
  case (2 a)
  show ?case
    by (simp add: Let_def b64_char_not b64_bounds)
next
  case (3 a b)
  show ?case
    by (simp add: Let_def b64_char_not b64_bounds)
next
  case (4 a b c cs)
  then show ?case
    by (simp add: Let_def b64_char_not b64_bounds)
qed simp

lemma b64_encode_plain: "c \<in> set (b64_encode bs) \<Longrightarrow> c \<noteq> CHR 0x0A \<and> c \<noteq> CHR 0x0D"
proof (induction bs rule: b64_encode.induct)
  case (2 a)
  then show ?case
    by (auto simp: Let_def b64_char_not b64_bounds)
next
  case (3 a b)
  then show ?case
    by (auto simp: Let_def b64_char_not b64_bounds)
next
  case (4 a b c cs)
  then show ?case
    by (auto simp: Let_def b64_char_not b64_bounds)
qed simp

lemma b64_decode_encode [simp]: "b64_decode (b64_encode bs) = Some bs"
proof -
  have "filter (\<lambda>c. c \<noteq> CHR 0x0A \<and> c \<noteq> CHR 0x0D) (b64_encode bs) = b64_encode bs"
    using b64_encode_plain by (simp add: filter_id_conv)
  then show ?thesis by (simp add: b64_decode_def b64_groups_encode)
qed

end
