(* ===== verification/Clipfan_GCM.thy ===== *)
theory Clipfan_GCM
  imports Clipfan_Crypto
begin

text \<open>
  The authenticated encryption that \<open>internal/transport/crypto.go\<close> takes from Go's
  \<open>crypto/aes\<close> and \<open>crypto/cipher\<close>: AES with a 32-byte key and GCM with a 12-byte nonce, a
  16-byte tag and no additional data, as executable functions on byte strings.
\<close>

unbundle bit_operations_syntax

type_synonym w8 = "8 word"

section \<open>AES-256\<close>

definition aes_sbox :: "w8 list" where
  "aes_sbox =
    [99, 124, 119, 123, 242, 107, 111, 197, 48, 1, 103, 43, 254, 215, 171, 118,
     202, 130, 201, 125, 250, 89, 71, 240, 173, 212, 162, 175, 156, 164, 114, 192,
     183, 253, 147, 38, 54, 63, 247, 204, 52, 165, 229, 241, 113, 216, 49, 21,
     4, 199, 35, 195, 24, 150, 5, 154, 7, 18, 128, 226, 235, 39, 178, 117,
     9, 131, 44, 26, 27, 110, 90, 160, 82, 59, 214, 179, 41, 227, 47, 132,
     83, 209, 0, 237, 32, 252, 177, 91, 106, 203, 190, 57, 74, 76, 88, 207,
     208, 239, 170, 251, 67, 77, 51, 133, 69, 249, 2, 127, 80, 60, 159, 168,
     81, 163, 64, 143, 146, 157, 56, 245, 188, 182, 218, 33, 16, 255, 243, 210,
     205, 12, 19, 236, 95, 151, 68, 23, 196, 167, 126, 61, 100, 93, 25, 115,
     96, 129, 79, 220, 34, 42, 144, 136, 70, 238, 184, 20, 222, 94, 11, 219,
     224, 50, 58, 10, 73, 6, 36, 92, 194, 211, 172, 98, 145, 149, 228, 121,
     231, 200, 55, 109, 141, 213, 78, 169, 108, 86, 244, 234, 101, 122, 174, 8,
     186, 120, 37, 46, 28, 166, 180, 198, 232, 221, 116, 31, 75, 189, 139, 138,
     112, 62, 181, 102, 72, 3, 246, 14, 97, 53, 87, 185, 134, 193, 29, 158,
     225, 248, 152, 17, 105, 217, 142, 148, 155, 30, 135, 233, 206, 85, 40, 223,
     140, 161, 137, 13, 191, 230, 66, 104, 65, 153, 45, 15, 176, 84, 187, 22]"

definition aes_sub :: "w8 \<Rightarrow> w8" where
  "aes_sub b = aes_sbox ! unat b"

definition aes_xtime :: "w8 \<Rightarrow> w8" where
  "aes_xtime b = (if bit b 7 then push_bit 1 b XOR 27 else push_bit 1 b)"

definition xor_words :: "w8 list \<Rightarrow> w8 list \<Rightarrow> w8 list" where
  "xor_words a b = map2 (XOR) a b"

text \<open>The key schedule: \<open>ws\<close> holds the words made so far, the newest first.\<close>

fun aes_expand :: "nat \<Rightarrow> nat \<Rightarrow> w8 \<Rightarrow> w8 list list \<Rightarrow> w8 list list" where
  "aes_expand 0 i rc ws = ws"
| "aes_expand (Suc n) i rc ws =
     (let prev = hd ws;
          t = (if i mod 8 = 0 then xor_words (map aes_sub (rotate1 prev)) [rc, 0, 0, 0]
               else if i mod 8 = 4 then map aes_sub prev else prev);
          rc' = (if i mod 8 = 0 then aes_xtime rc else rc)
      in aes_expand n (Suc i) rc' (xor_words (ws ! 7) t # ws))"

definition aes_round_keys :: "bytes \<Rightarrow> w8 list list" where
  "aes_round_keys key =
     chunks 16 (concat (rev (aes_expand 52 8 1 (rev (chunks 4 (map of_char key))))))"

definition aes_shift_rows :: "w8 list \<Rightarrow> w8 list" where
  "aes_shift_rows s = map (\<lambda>i. s ! i) [0, 5, 10, 15, 4, 9, 14, 3, 8, 13, 2, 7, 12, 1, 6, 11]"

fun aes_mix_column :: "w8 list \<Rightarrow> w8 list" where
  "aes_mix_column [a, b, c, d] =
     (let t = a XOR b XOR c XOR d in
      [a XOR t XOR aes_xtime (a XOR b), b XOR t XOR aes_xtime (b XOR c),
       c XOR t XOR aes_xtime (c XOR d), d XOR t XOR aes_xtime (d XOR a)])"
| "aes_mix_column xs = xs"

definition aes_mix :: "w8 list \<Rightarrow> w8 list" where
  "aes_mix s = concat (map aes_mix_column (chunks 4 s))"

fun aes_rounds :: "w8 list list \<Rightarrow> w8 list \<Rightarrow> w8 list" where
  "aes_rounds [] s = s"
| "aes_rounds [k] s = xor_words (aes_shift_rows (map aes_sub s)) k"
| "aes_rounds (k # ks) s = aes_rounds ks (xor_words (aes_mix (aes_shift_rows (map aes_sub s))) k)"

definition aes_encrypt :: "w8 list list \<Rightarrow> bytes \<Rightarrow> bytes" where
  "aes_encrypt ks blk =
     map (\<lambda>w. char_of (uint w)) (aes_rounds (tl ks) (xor_words (map of_char blk) (hd ks)))"

section \<open>GCM\<close>

type_synonym w128 = "128 word"

definition block_word :: "bytes \<Rightarrow> w128" where
  "block_word bs = foldl (\<lambda>acc c. push_bit 8 acc OR of_char c) 0 (bs @ replicate (16 - length bs) (CHR 0x00))"

definition word_block :: "w128 \<Rightarrow> bytes" where
  "word_block w = map (\<lambda>i. char_of (uint (drop_bit (8 * i) w) mod 256)) (rev [0..<16])"

fun gf_mult_loop :: "nat \<Rightarrow> w128 \<Rightarrow> w128 \<Rightarrow> w128 \<Rightarrow> w128" where
  "gf_mult_loop 0 x z v = z"
| "gf_mult_loop (Suc n) x z v =
     gf_mult_loop n x (if bit x n then z XOR v else z)
       (if bit v 0 then drop_bit 1 v XOR push_bit 120 225 else drop_bit 1 v)"

definition gf_mult :: "w128 \<Rightarrow> w128 \<Rightarrow> w128" where
  "gf_mult x y = gf_mult_loop 128 x 0 y"

definition ghash :: "w128 \<Rightarrow> w128 list \<Rightarrow> w128" where
  "ghash h blocks = foldl (\<lambda>y b. gf_mult (y XOR b) h) 0 blocks"

fun ctr_stream :: "w8 list list \<Rightarrow> bytes \<Rightarrow> 32 word \<Rightarrow> nat \<Rightarrow> bytes" where
  "ctr_stream ks nonce ctr 0 = []"
| "ctr_stream ks nonce ctr (Suc n) =
     aes_encrypt ks (nonce @ bytes_of_word ctr) @ ctr_stream ks nonce (ctr + 1) n"

definition xor_bytes :: "bytes \<Rightarrow> bytes \<Rightarrow> bytes" where
  "xor_bytes a b = map2 (\<lambda>x y. char_of (uint (of_char x XOR of_char y :: w8))) a b"

definition gcm_crypt :: "bytes \<Rightarrow> bytes \<Rightarrow> bytes \<Rightarrow> bytes" where
  "gcm_crypt key nonce p =
     xor_bytes p (ctr_stream (aes_round_keys key) nonce 2 ((length p + 15) div 16))"

definition gcm_tag :: "bytes \<Rightarrow> bytes \<Rightarrow> bytes \<Rightarrow> bytes" where
  "gcm_tag key nonce c =
     (let ks = aes_round_keys key;
          h = block_word (aes_encrypt ks (replicate 16 (CHR 0x00)));
          s = ghash h (map block_word (chunks 16 c) @ [of_nat (8 * length c)])
      in word_block (s XOR block_word (aes_encrypt ks (nonce @ bytes_of_word 1))))"

definition gcm_nonce_size :: nat where "gcm_nonce_size = 12"

definition gcm_seal :: "bytes \<Rightarrow> bytes \<Rightarrow> bytes \<Rightarrow> bytes" where
  "gcm_seal key nonce p = (let c = gcm_crypt key nonce p in c @ gcm_tag key nonce c)"

definition gcm_open :: "bytes \<Rightarrow> bytes \<Rightarrow> bytes \<Rightarrow> bytes res" where
  "gcm_open key nonce ct =
     (if length ct < 16 then Inl ''cipher: message authentication failed''
      else let c = take (length ct - 16) ct; tag = drop (length ct - 16) ct
           in if gcm_tag key nonce c = tag then Inr (gcm_crypt key nonce c)
              else Inl ''cipher: message authentication failed'')"

section \<open>Sizes\<close>

lemma chunks_exact:
  "0 < n \<Longrightarrow> length xs = n * k \<Longrightarrow> length (chunks n xs) = k \<and> (\<forall>c \<in> set (chunks n xs). length c = n)"
proof (induction k arbitrary: xs)
  case 0
  then show ?case by (simp add: chunks.simps)
next
  case (Suc k)
  have n: "n \<le> length xs" "xs \<noteq> []" and d: "length (drop n xs) = n * k" using Suc.prems by auto
  have c: "chunks n xs = take n xs # chunks n (drop n xs)"
    using Suc.prems(1) n(2) by (simp add: chunks.simps [of n xs])
  have t: "length (take n xs) = n" using n(1) by simp
  show ?case unfolding c using Suc.IH [OF Suc.prems(1) d] t by (simp del: length_take)
qed

lemma aes_expand_sizes:
  "8 \<le> length ws \<Longrightarrow> \<forall>w \<in> set ws. length w = 4 \<Longrightarrow>
   length (aes_expand n i rc ws) = n + length ws \<and> (\<forall>w \<in> set (aes_expand n i rc ws). length w = 4)"
proof (induction n i rc ws rule: aes_expand.induct)
  case (2 n i rc ws)
  have "ws \<noteq> []" using 2(2) by auto
  then have "length (hd ws) = 4" "length (ws ! 7) = 4" using 2(2,3) hd_in_set by auto
  then have w: "length (xor_words (ws ! 7) (if i mod 8 = 0 then xor_words (map aes_sub (rotate1 (hd ws))) [rc, 0, 0, 0]
      else if i mod 8 = 4 then map aes_sub (hd ws) else hd ws)) = 4"
    by (simp add: xor_words_def)
  show ?case using "2.IH" [OF refl refl refl] 2(2,3) w by (simp add: Let_def)
qed simp

lemma aes_round_keys_sizes:
  assumes "length key = 32"
  shows "length (aes_round_keys key) = 15 \<and> (\<forall>k \<in> set (aes_round_keys key). length k = 16)"
proof -
  let ?ws = "rev (chunks 4 (map of_char key :: w8 list))"
  let ?e = "rev (aes_expand 52 8 1 ?ws)"
  have "length ?ws = 8" "\<forall>w \<in> set ?ws. length w = 4"
    using chunks_exact [of 4 "map of_char key :: w8 list" 8] assms by auto
  then have e: "length ?e = 60" "\<forall>w \<in> set ?e. length w = 4"
    using aes_expand_sizes [of ?ws 52 8 1] by auto
  then have "length (concat ?e) = 16 * 15"
    by (simp add: length_concat sum_list_triv cong: map_cong del: set_rev)
  then show ?thesis unfolding aes_round_keys_def by (intro chunks_exact) simp_all
qed

lemma length_aes_rounds:
  "ks \<noteq> [] \<Longrightarrow> \<forall>k \<in> set ks. length k = 16 \<Longrightarrow> length (aes_rounds ks s) = 16"
  by (induction ks s rule: aes_rounds.induct) (auto simp: xor_words_def aes_shift_rows_def)

lemma length_aes_encrypt: "length key = 32 \<Longrightarrow> length (aes_encrypt (aes_round_keys key) b) = 16"
proof -
  assume "length key = 32"
  note ks = aes_round_keys_sizes [OF this]
  then obtain k1 k2 ks where "aes_round_keys key = k1 # k2 # ks"
    by (cases "aes_round_keys key" rule: remdups_adj.cases) auto
  with ks show ?thesis using length_aes_rounds [of "k2 # ks"] by (simp add: aes_encrypt_def)
qed

lemma length_ctr_stream: "length key = 32 \<Longrightarrow> length (ctr_stream (aes_round_keys key) nonce c n) = 16 * n"
  by (induction n arbitrary: c) (simp_all add: length_aes_encrypt)

section \<open>Decryption inverts encryption\<close>

lemma char_word_roundtrip: "char_of (uint (of_char c :: w8)) = c"
proof -
  have "(of_char c :: w8) = word_of_int (of_char c)" by (rule of_int_of_char [symmetric])
  then have "uint (of_char c :: w8) = of_char c mod 256" by (simp only: uint_word_of_int) simp
  then show ?thesis by simp
qed

lemma of_char_char_of_word: "of_char (char_of (uint (w :: w8))) = w"
proof -
  have "uint w mod 256 = uint w" using uint_range_size [of w] by (simp add: word_size)
  then have "(of_char (char_of (uint w)) :: int) = uint w" by simp
  then show ?thesis by (metis of_int_of_char word_of_int_uint)
qed

lemma xor_bytes_cancel: "length p \<le> length k \<Longrightarrow> xor_bytes (xor_bytes p k) k = p"
proof (induction p k rule: list_induct2')
  case (4 x xs y ys)
  then show ?case by (simp add: xor_bytes_def of_char_char_of_word char_word_roundtrip xor.assoc)
qed (simp_all add: xor_bytes_def)

lemma length_xor_bytes: "length (xor_bytes p k) = min (length p) (length k)"
  by (simp add: xor_bytes_def)

lemma stream_enough: "length key = 32 \<Longrightarrow>
  length p \<le> length (ctr_stream (aes_round_keys key) nonce c ((length p + 15) div 16))"
  by (simp add: length_ctr_stream)

lemma length_gcm_crypt: "length key = 32 \<Longrightarrow> length (gcm_crypt key nonce p) = length p"
  using stream_enough [of key p nonce 2] by (simp add: gcm_crypt_def length_xor_bytes)

lemma gcm_crypt_cancel: "length key = 32 \<Longrightarrow> gcm_crypt key nonce (gcm_crypt key nonce p) = p"
  using xor_bytes_cancel [OF stream_enough] length_gcm_crypt [of key nonce p]
  by (simp add: gcm_crypt_def)

lemma length_gcm_tag [simp]: "length (gcm_tag key nonce c) = 16"
  by (simp add: gcm_tag_def word_block_def Let_def)

lemma gcm_open_seal: "length key = 32 \<Longrightarrow> gcm_open key nonce (gcm_seal key nonce p) = Inr p"
  by (simp add: gcm_open_def gcm_seal_def Let_def gcm_crypt_cancel)

lemma gcm_open_Inr:
  assumes "length key = 32"
  shows "gcm_open key nonce ct = Inr p \<longleftrightarrow> ct = gcm_seal key nonce p"
proof
  assume "gcm_open key nonce ct = Inr p"
  then have "gcm_tag key nonce (take (length ct - 16) ct) = drop (length ct - 16) ct"
    "p = gcm_crypt key nonce (take (length ct - 16) ct)"
    by (auto simp: gcm_open_def Let_def split: if_splits)
  then show "ct = gcm_seal key nonce p"
    using append_take_drop_id [of "length ct - 16" ct]
    by (simp add: gcm_seal_def Let_def gcm_crypt_cancel [OF assms])
qed (simp add: gcm_open_seal assms)

end
