(* ===== verification/Clipfan_FS.thy ===== *)
theory Clipfan_FS
  imports Clipfan_Prelude
begin

text \<open>
  The calls of Go's \<open>os\<close> package that the program makes on its own files, and the file
  routines of \<open>internal/store/state.go\<close>, \<open>internal/config/config.go\<close> and
  \<open>internal/config/v2.go\<close> built on them. A file system is an association list from paths to
  nodes; a regular file holds the document its bytes denote, or \<open>None\<close> while they are empty or
  partially written. Every call consumes one entry of a fault schedule, so that a statement
  about all schedules covers every combination of failing calls, and a schedule that fails
  from some point on is a crash at that point.
\<close>

section \<open>Operating system interface\<close>

datatype 'd node =
    Regular (node_mode: nat) (node_data: "'d option") (node_mtime: int)
  | Directory (dir_mode: nat)
  | Symlink
  | Special

datatype fault = Works | Fails | Short

datatype os_error = ErrNotExist | ErrExist | ErrIO | ErrMsg string

record 'd fs =
  nodes :: "(string \<times> 'd node) list"
  faults :: "fault list"
  clock :: int

type_synonym ('d, 'a) io = "'d fs \<Rightarrow> (os_error + 'a) \<times> 'd fs"

definition node_at :: "'d fs \<Rightarrow> string \<Rightarrow> 'd node option" where
  "node_at s p = map_of (nodes s) p"

definition set_node :: "string \<Rightarrow> 'd node \<Rightarrow> 'd fs \<Rightarrow> 'd fs" where
  "set_node p n s = s\<lparr>nodes := AList.update p n (nodes s)\<rparr>"

definition del_node :: "string \<Rightarrow> 'd fs \<Rightarrow> 'd fs" where
  "del_node p s = s\<lparr>nodes := AList.delete p (nodes s)\<rparr>"

definition is_dir_node :: "'d node \<Rightarrow> bool" where
  "is_dir_node n = (case n of Directory _ \<Rightarrow> True | _ \<Rightarrow> False)"

definition is_regular_node :: "'d node \<Rightarrow> bool" where
  "is_regular_node n = (case n of Regular _ _ _ \<Rightarrow> True | _ \<Rightarrow> False)"

definition take_fault :: "'d fs \<Rightarrow> fault \<times> 'd fs" where
  "take_fault s =
     (case faults s of [] \<Rightarrow> (Works, s) | f # fs \<Rightarrow> (f, s\<lparr>faults := fs\<rparr>))"

text \<open>A system call that either fails with an I/O error or does its work.\<close>

definition syscall :: "('d, 'a) io \<Rightarrow> ('d, 'a) io" where
  "syscall m s = (case take_fault s of (f, s') \<Rightarrow> if f = Fails then (Inl ErrIO, s') else m s')"

definition io_return :: "'a \<Rightarrow> ('d, 'a) io" where
  "io_return x s = (Inr x, s)"

definition io_fail :: "os_error \<Rightarrow> ('d, 'a) io" where
  "io_fail e s = (Inl e, s)"

definition io_bind :: "('d, 'a) io \<Rightarrow> ('a \<Rightarrow> ('d, 'b) io) \<Rightarrow> ('d, 'b) io" where
  "io_bind m f s = (case m s of (Inl e, s') \<Rightarrow> (Inl e, s') | (Inr x, s') \<Rightarrow> f x s')"

lemma io_bind_case [code_unfold]:
  "io_bind m f = (\<lambda>s. case m s of (r, s') \<Rightarrow> (case r of Inl e \<Rightarrow> (Inl e, s') | Inr x \<Rightarrow> f x s'))"
  by (auto simp: io_bind_def fun_eq_iff split: prod.splits sum.splits)

definition os_lstat :: "string \<Rightarrow> ('d, 'd node) io" where
  "os_lstat p = syscall (\<lambda>s. case node_at s p of None \<Rightarrow> (Inl ErrNotExist, s) | Some n \<Rightarrow> (Inr n, s))"

definition os_mkdir_all :: "string \<Rightarrow> nat \<Rightarrow> ('d, unit) io" where
  "os_mkdir_all p mode = syscall (\<lambda>s.
     case node_at s p of
       None \<Rightarrow> (Inr (), set_node p (Directory mode) s)
     | Some (Regular _ _ _) \<Rightarrow> (Inl (ErrMsg ''not a directory''), s)
     | Some Special \<Rightarrow> (Inl (ErrMsg ''not a directory''), s)
     | Some _ \<Rightarrow> (Inr (), s))"

definition os_chmod :: "string \<Rightarrow> nat \<Rightarrow> ('d, unit) io" where
  "os_chmod p mode = syscall (\<lambda>s.
     case node_at s p of
       None \<Rightarrow> (Inl ErrNotExist, s)
     | Some (Regular _ d t) \<Rightarrow> (Inr (), set_node p (Regular mode d t) s)
     | Some (Directory _) \<Rightarrow> (Inr (), set_node p (Directory mode) s)
     | Some _ \<Rightarrow> (Inr (), s))"

text \<open>\<open>os.OpenFile(p, O_WRONLY|O_CREATE|O_EXCL, mode)\<close>: the file is new and empty. A directory that is missing above it
  is one of the faults of the schedule.\<close>

definition os_create_excl :: "string \<Rightarrow> nat \<Rightarrow> ('d, unit) io" where
  "os_create_excl p mode = syscall (\<lambda>s.
     case node_at s p of
       None \<Rightarrow> (Inr (), set_node p (Regular mode None (clock s)) s)
     | Some _ \<Rightarrow> (Inl ErrExist, s))"

text \<open>\<open>file.Write\<close> of a whole document: it may fail or write fewer bytes than asked.\<close>

definition file_write :: "string \<Rightarrow> 'd \<Rightarrow> ('d, unit) io" where
  "file_write p d s = (case take_fault s of (f, s') \<Rightarrow>
     (case node_at s' p of
        Some (Regular m _ t) \<Rightarrow>
          (case f of
             Works \<Rightarrow> (Inr (), set_node p (Regular m (Some d) (clock s')) s')
           | Fails \<Rightarrow> (Inl ErrIO, set_node p (Regular m None (clock s')) s')
           | Short \<Rightarrow> (Inl (ErrMsg ''short write''), set_node p (Regular m None (clock s')) s'))
      | _ \<Rightarrow> (Inl ErrIO, s')))"

definition file_chmod :: "string \<Rightarrow> nat \<Rightarrow> ('d, unit) io" where
  "file_chmod p mode = os_chmod p mode"

definition file_close :: "('d, unit) io" where
  "file_close = syscall (io_return ())"

definition file_sync :: "('d, unit) io" where
  "file_sync = syscall (io_return ())"

definition os_rename :: "string \<Rightarrow> string \<Rightarrow> ('d, unit) io" where
  "os_rename a b = syscall (\<lambda>s.
     case (node_at s a, node_at s b) of
       (None, _) \<Rightarrow> (Inl ErrNotExist, s)
     | (Some n, Some (Directory _)) \<Rightarrow> (Inl (ErrMsg ''file exists''), s)
     | (Some n, _) \<Rightarrow> (Inr (), set_node b n (del_node a s)))"

text \<open>\<open>os.Remove\<close> refuses a directory that still has entries.\<close>

definition has_entries :: "'d fs \<Rightarrow> string \<Rightarrow> bool" where
  "has_entries s p = list_ex (\<lambda>(q, _). has_prefix q (p @ [slash])) (nodes s)"

definition os_remove :: "string \<Rightarrow> ('d, unit) io" where
  "os_remove p = syscall (\<lambda>s.
     case node_at s p of
       None \<Rightarrow> (Inl ErrNotExist, s)
     | Some n \<Rightarrow>
         if is_dir_node n \<and> has_entries s p then (Inl (ErrMsg ''directory not empty''), s)
         else (Inr (), del_node p s))"

definition os_read_file :: "string \<Rightarrow> ('d, 'd option) io" where
  "os_read_file p = syscall (\<lambda>s.
     case node_at s p of
       None \<Rightarrow> (Inl ErrNotExist, s)
     | Some (Regular _ d _) \<Rightarrow> (Inr d, s)
     | Some _ \<Rightarrow> (Inl ErrIO, s))"

section \<open>File routines of the store\<close>

definition privateDirMode :: nat where "privateDirMode = 448"  \<comment> \<open>0o700\<close>

definition privateFileMode :: nat where "privateFileMode = 384"  \<comment> \<open>0o600\<close>

definition ensurePrivateDir :: "string \<Rightarrow> ('d, unit) io" where
  "ensurePrivateDir path =
     io_bind (os_mkdir_all path privateDirMode) (\<lambda>_.
     io_bind (os_lstat path) (\<lambda>info.
     if \<not> is_dir_node info then io_fail (ErrMsg ''state directory is not a directory'')
     else os_chmod path privateDirMode))"

definition repairStateFile :: "string \<Rightarrow> string \<Rightarrow> ('d, unit) io" where
  "repairStateFile stateDir path =
     io_bind (ensurePrivateDir stateDir) (\<lambda>_.
     io_bind (os_lstat path) (\<lambda>info.
     if \<not> is_regular_node info then io_fail (ErrMsg ''state file is not a regular file'')
     else os_chmod path privateFileMode))"

definition removePathIfExists :: "string \<Rightarrow> ('d, unit) io" where
  "removePathIfExists path s = (case os_lstat path s of
     (Inl e, s') \<Rightarrow> (if e = ErrNotExist then (Inr (), s') else (Inl e, s'))
   | (Inr _, s') \<Rightarrow> os_remove path s')"

text \<open>The deferred \<open>if cleanup { os.Remove(tmp) }\<close>: runs when the body returned an error.\<close>

definition with_cleanup :: "string \<Rightarrow> ('d, 'a) io \<Rightarrow> ('d, 'a) io" where
  "with_cleanup tmp m s = (case m s of
     (Inl e, s') \<Rightarrow> (Inl e, snd (os_remove tmp s'))
   | (Inr x, s') \<Rightarrow> (Inr x, s'))"

definition tmp_of :: "string \<Rightarrow> string" where
  "tmp_of path = path @ ''.tmp''"

definition writeAtomic :: "string \<Rightarrow> 'd \<Rightarrow> nat \<Rightarrow> ('d, unit) io" where
  "writeAtomic path data mode =
     io_bind (removePathIfExists (tmp_of path)) (\<lambda>_.
     io_bind (os_create_excl (tmp_of path) mode) (\<lambda>_.
     with_cleanup (tmp_of path)
       (io_bind (file_write (tmp_of path) data) (\<lambda>_.
        io_bind (file_chmod (tmp_of path) mode) (\<lambda>_.
        io_bind file_close (\<lambda>_.
        os_rename (tmp_of path) path))))))"

section \<open>File routines of the configuration\<close>

definition ensureConfigDir :: "string \<Rightarrow> ('d, unit) io" where
  "ensureConfigDir dir =
     io_bind (os_mkdir_all dir 448) (\<lambda>_.
     io_bind (os_lstat dir) (\<lambda>info.
     if \<not> is_dir_node info then io_fail (ErrMsg ''config directory is not a directory'')
     else os_chmod dir 448))"

definition repairConfigFile :: "string \<Rightarrow> ('d, unit) io" where
  "repairConfigFile path =
     io_bind (os_lstat path) (\<lambda>info.
     if \<not> is_regular_node info then io_fail (ErrMsg ''config file is not a regular file'')
     else os_chmod path 384)"

definition writeConfigAtomic :: "string \<Rightarrow> 'd \<Rightarrow> nat \<Rightarrow> ('d, unit) io" where
  "writeConfigAtomic path data mode =
     io_bind (removePathIfExists (tmp_of path)) (\<lambda>_.
     io_bind (os_create_excl (tmp_of path) mode) (\<lambda>_.
     with_cleanup (tmp_of path)
       (io_bind (file_write (tmp_of path) data) (\<lambda>_.
        io_bind (file_chmod (tmp_of path) mode) (\<lambda>_.
        io_bind file_close (\<lambda>_.
        os_rename (tmp_of path) path))))))"

text \<open>
  \<open>writeConfigV2Atomic\<close>: the temporary name (prefix, process id and counter) is an argument;
  the directory is synced after the rename, outside the cleanup.
\<close>

definition writeConfigV2Atomic :: "string \<Rightarrow> string \<Rightarrow> 'd \<Rightarrow> nat \<Rightarrow> ('d, unit) io" where
  "writeConfigV2Atomic tmp path data mode =
     io_bind (os_create_excl tmp mode) (\<lambda>_.
     io_bind (with_cleanup tmp
       (io_bind (file_write tmp data) (\<lambda>_.
        io_bind (file_chmod tmp mode) (\<lambda>_.
        io_bind file_sync (\<lambda>_.
        io_bind file_close (\<lambda>_.
        os_rename tmp path)))))) (\<lambda>_.
     file_sync))"

section \<open>Lemmas\<close>

lemma node_at_set_node [simp]:
  "node_at (set_node p n s) q = (if q = p then Some n else node_at s q)"
  by (simp add: node_at_def set_node_def)

lemma node_at_del_node [simp]:
  "node_at (del_node p s) q = (if q = p then None else node_at s q)"
  by (simp add: node_at_def del_node_def)

lemma node_at_take_fault [simp]: "node_at (snd (take_fault s)) q = node_at s q"
  by (auto simp: take_fault_def node_at_def split: list.splits)

lemma node_at_faults [simp]: "node_at (s\<lparr>faults := fs\<rparr>) q = node_at s q"
  by (simp add: node_at_def)

lemma tmp_of_neq [simp]: "tmp_of path \<noteq> path" "path \<noteq> tmp_of path"
  by (auto simp: tmp_of_def)

text \<open>\<open>touches P m\<close>: whatever the faults, \<open>m\<close> leaves every path outside \<open>P\<close> as it was.\<close>

definition touches :: "string set \<Rightarrow> ('d, 'a) io \<Rightarrow> bool" where
  "touches P m \<longleftrightarrow> (\<forall>s r s' q. m s = (r, s') \<longrightarrow> q \<notin> P \<longrightarrow> node_at s' q = node_at s q)"

lemma touchesI:
  "(\<And>s r s' q. m s = (r, s') \<Longrightarrow> q \<notin> P \<Longrightarrow> node_at s' q = node_at s q) \<Longrightarrow> touches P m"
  by (auto simp: touches_def)

lemma touchesD: "touches P m \<Longrightarrow> m s = (r, s') \<Longrightarrow> q \<notin> P \<Longrightarrow> node_at s' q = node_at s q"
  by (auto simp: touches_def)

lemma quiet_nodes: "touches {} m \<Longrightarrow> m s = (r, s') \<Longrightarrow> node_at s' = node_at s"
  by (auto dest: touchesD)

lemma take_fault_node_at: "take_fault s = (f, s') \<Longrightarrow> node_at s' q = node_at s q"
  by (metis node_at_take_fault snd_conv)

lemma touches_bind:
  assumes "touches P m" and "\<And>x. touches P (f x)"
  shows "touches P (io_bind m f)"
proof (rule touchesI)
  fix s r s' q assume r: "io_bind m f s = (r, s')" and q: "q \<notin> P"
  obtain r1 s1 where m: "m s = (r1, s1)" by fastforce
  then have "node_at s1 q = node_at s q" using assms(1) q by (blast dest: touchesD)
  moreover have "node_at s' q = node_at s1 q"
    using r m q assms(2) by (cases r1) (auto simp: io_bind_def dest: touchesD)
  ultimately show "node_at s' q = node_at s q" by simp
qed

lemma touches_syscall:
  assumes "\<And>s r s' q. m s = (r, s') \<Longrightarrow> q \<notin> P \<Longrightarrow> node_at s' q = node_at s q"
  shows "touches P (syscall m)"
proof (rule touchesI)
  fix s r s' q assume r: "syscall m s = (r, s')" and q: "q \<notin> P"
  obtain f s1 where t: "take_fault s = (f, s1)" by fastforce
  show "node_at s' q = node_at s q"
    using r q assms take_fault_node_at [OF t]
    by (cases "f = Fails") (auto simp: syscall_def t)
qed

lemma touches_mono: "touches P m \<Longrightarrow> P \<subseteq> Q \<Longrightarrow> touches Q m"
  unfolding touches_def by blast

lemma touches_calls:
  "touches {p} (os_chmod p mode)" "touches {p} (os_create_excl p mode)"
  "touches {p} (os_mkdir_all p mode)" "touches {p} (os_remove p)"
  "touches {} (os_lstat p)" "touches {} (os_read_file p)"
  "touches {} file_close" "touches {} file_sync"
  unfolding os_chmod_def os_create_excl_def os_mkdir_all_def os_remove_def os_lstat_def
    os_read_file_def file_close_def file_sync_def io_return_def
  by (rule touches_syscall; auto split: option.splits node.splits if_splits)+

lemma touches_rename: "touches {a, b} (os_rename a b)"
  unfolding os_rename_def
  by (rule touches_syscall) (auto split: option.splits node.splits)

lemma touches_write: "touches {p} (file_write p d)"
  by (rule touchesI)
    (auto simp: file_write_def dest: take_fault_node_at
      split: prod.splits option.splits node.splits fault.splits)

lemma touches_removePathIfExists: "touches {p} (removePathIfExists p)"
proof (rule touchesI)
  fix s :: "'d fs" and r s' q assume r: "removePathIfExists p s = (r, s')" and q: "q \<notin> {p}"
  obtain r1 s1 where l: "os_lstat p s = (r1, s1)" by fastforce
  then have "node_at s1 q = node_at s q" using touchesD [OF touches_calls(5)] by blast
  moreover have "node_at s' q = node_at s1 q"
    using r l q touchesD [OF touches_calls(4)]
    by (cases r1) (auto simp: removePathIfExists_def split: if_splits)
  ultimately show "node_at s' q = node_at s q" by simp
qed

lemma touches_with_cleanup:
  assumes "touches P m" and "tmp \<in> P" shows "touches P (with_cleanup tmp m)"
proof (rule touchesI)
  fix s r s' q assume r: "with_cleanup tmp m s = (r, s')" and q: "q \<notin> P"
  obtain r1 s1 where m: "m s = (r1, s1)" by fastforce
  then have "node_at s1 q = node_at s q" using assms(1) q by (blast dest: touchesD)
  moreover obtain r2 s2 where rm: "os_remove tmp s1 = (r2, s2)" by fastforce
  moreover have "node_at s2 q = node_at s1 q"
    using touchesD [OF touches_calls(4) rm, of q] q assms(2) by auto
  ultimately show "node_at s' q = node_at s q"
    using r m by (cases r1) (auto simp: with_cleanup_def)
qed

lemmas touches_intros =
  touches_bind touches_with_cleanup touches_calls touches_rename touches_write
  touches_removePathIfExists

section \<open>Triples for file routines\<close>

text \<open>
  \<open>triple P m Q E\<close>: from a state with \<open>P\<close>, a successful run of \<open>m\<close> ends in \<open>Q\<close> (of its value)
  and a failing one in \<open>E\<close>, for every fault schedule.
\<close>

definition triple :: "('d fs \<Rightarrow> bool) \<Rightarrow> ('d, 'a) io \<Rightarrow> ('a \<Rightarrow> 'd fs \<Rightarrow> bool) \<Rightarrow> ('d fs \<Rightarrow> bool) \<Rightarrow> bool" where
  "triple P m Q E \<longleftrightarrow>
     (\<forall>s r s'. P s \<longrightarrow> m s = (r, s') \<longrightarrow> (case r of Inl _ \<Rightarrow> E s' | Inr x \<Rightarrow> Q x s'))"

lemma tripleI:
  "(\<And>s x s'. P s \<Longrightarrow> m s = (Inr x, s') \<Longrightarrow> Q x s') \<Longrightarrow>
   (\<And>s e s'. P s \<Longrightarrow> m s = (Inl e, s') \<Longrightarrow> E s') \<Longrightarrow> triple P m Q E"
  by (auto simp: triple_def split: sum.splits)

lemma tripleD:
  "triple P m Q E \<Longrightarrow> P s \<Longrightarrow> m s = (Inr x, s') \<Longrightarrow> Q x s'"
  "triple P m Q E \<Longrightarrow> P s \<Longrightarrow> m s = (Inl e, s') \<Longrightarrow> E s'"
  by (fastforce simp: triple_def split: sum.splits)+

lemma triple_bind:
  assumes m: "triple P m Q E" and f: "\<And>x. triple (Q x) (f x) R E"
  shows "triple P (io_bind m f) R E"
proof (rule tripleI)
  fix s y s' assume P: "P s" and r: "io_bind m f s = (Inr y, s')"
  obtain r1 s1 where m1: "m s = (r1, s1)" by fastforce
  with r obtain x where x: "r1 = Inr x" "f x s1 = (Inr y, s')"
    by (cases r1) (auto simp: io_bind_def)
  with m1 have "Q x s1" using tripleD(1) [OF m P] by simp
  with x(2) show "R y s'" using tripleD(1) [OF f] by blast
next
  fix s e s' assume P: "P s" and r: "io_bind m f s = (Inl e, s')"
  obtain r1 s1 where m1: "m s = (r1, s1)" by fastforce
  show "E s'"
  proof (cases r1)
    case (Inl e1)
    with r m1 have "m s = (Inl e, s')" by (auto simp: io_bind_def)
    then show ?thesis using tripleD(2) [OF m P] by simp
  next
    case (Inr x)
    with r m1 have "f x s1 = (Inl e, s')" "Q x s1"
      using tripleD(1) [OF m P] by (auto simp: io_bind_def)
    then show ?thesis using tripleD(2) [OF f] by blast
  qed
qed

lemma triple_cleanup:
  assumes m: "triple P m Q E"
    and rm: "\<And>s r s'. E s \<Longrightarrow> os_remove tmp s = (r, s') \<Longrightarrow> E s'"
  shows "triple P (with_cleanup tmp m) Q E"
proof (rule tripleI)
  fix s y s' assume "P s" and "with_cleanup tmp m s = (Inr y, s')"
  then show "Q y s'"
    using tripleD(1) [OF m] by (auto simp: with_cleanup_def split: prod.splits sum.splits)
next
  fix s e s' assume P: "P s" and r: "with_cleanup tmp m s = (Inl e, s')"
  then obtain s1 where s1: "m s = (Inl e, s1)" "s' = snd (os_remove tmp s1)"
    by (auto simp: with_cleanup_def split: prod.splits sum.splits)
  then have "E s1" using tripleD(2) [OF m P] by simp
  with s1(2) show "E s'" using rm by (metis prod.collapse)
qed

text \<open>A call that does not touch \<open>p\<close> keeps what stands at \<open>p\<close>, in both outcomes.\<close>

lemma triple_frame:
  "touches T m \<Longrightarrow> p \<notin> T \<Longrightarrow>
   triple (\<lambda>s. node_at s p = n) m (\<lambda>_ s. node_at s p = n) (\<lambda>s. node_at s p = n)"
  by (rule tripleI) (auto dest: touchesD)

lemma file_write_Inr:
  "file_write p d s = (Inr x, s') \<Longrightarrow> \<exists>m t. node_at s' p = Some (Regular m (Some d) t)"
  by (auto simp: file_write_def split: prod.splits option.splits node.splits fault.splits)

lemma syscallE:
  assumes "syscall m s = (r, s')"
  obtains s1 where "\<And>q. node_at s1 q = node_at s q" and "r = Inl ErrIO" and "s' = s1"
        | s1 where "\<And>q. node_at s1 q = node_at s q" and "m s1 = (r, s')"
proof -
  obtain f s1 where t: "take_fault s = (f, s1)" by fastforce
  with assms that take_fault_node_at [OF t] show thesis
    by (cases "f = Fails") (auto simp: syscall_def)
qed

lemma os_chmod_Inr:
  "os_chmod p mode s = (Inr x, s') \<Longrightarrow> node_at s p = Some (Regular m d t) \<Longrightarrow>
   node_at s' p = Some (Regular mode d t)"
  unfolding os_chmod_def by (erule syscallE) auto

lemma os_rename_Inr:
  "os_rename a b s = (Inr x, s') \<Longrightarrow> a \<noteq> b \<Longrightarrow>
   node_at s' b = node_at s a \<and> node_at s' a = None"
  unfolding os_rename_def
  by (erule syscallE) (auto split: option.splits node.splits)

lemma os_rename_Inl:
  "os_rename a b s = (Inl e, s') \<Longrightarrow> node_at s' q = node_at s q"
  unfolding os_rename_def
  by (erule syscallE) (auto split: option.splits node.splits)

text \<open>The body between creation and rename, shared by the three atomic writers.\<close>

definition holds_old :: "string \<Rightarrow> 'd node option \<Rightarrow> 'd fs \<Rightarrow> bool" where
  "holds_old path old s \<longleftrightarrow> node_at s path = old"

definition staged :: "string \<Rightarrow> string \<Rightarrow> nat option \<Rightarrow> 'd \<Rightarrow> 'd node option \<Rightarrow> 'd fs \<Rightarrow> bool" where
  "staged tmp path mode d old s \<longleftrightarrow>
     node_at s path = old \<and>
     (\<exists>m t. node_at s tmp = Some (Regular m (Some d) t) \<and> (\<forall>k. mode = Some k \<longrightarrow> m = k))"

definition installed :: "string \<Rightarrow> string \<Rightarrow> nat \<Rightarrow> 'd \<Rightarrow> 'd fs \<Rightarrow> bool" where
  "installed tmp path mode d s \<longleftrightarrow>
     node_at s tmp = None \<and> (\<exists>t. node_at s path = Some (Regular mode (Some d) t))"

lemma triple_stage_write:
  "tmp \<noteq> path \<Longrightarrow>
   triple (holds_old path old) (file_write tmp d)
     (\<lambda>_. staged tmp path None d old) (holds_old path old)"
  by (rule tripleI)
    (auto simp: staged_def holds_old_def dest: file_write_Inr touchesD [OF touches_write])

lemma triple_stage_chmod:
  "tmp \<noteq> path \<Longrightarrow>
   triple (staged tmp path None d old) (file_chmod tmp mode)
     (\<lambda>_. staged tmp path (Some mode) d old) (holds_old path old)"
  by (rule tripleI)
    (auto simp: staged_def holds_old_def file_chmod_def
      dest: os_chmod_Inr touchesD [OF touches_calls(1)])

lemma triple_stage_quiet:
  assumes "touches {} m"
  shows "triple (staged tmp path mode d old) m (\<lambda>_. staged tmp path mode d old) (holds_old path old)"
  by (rule tripleI) (auto simp: staged_def holds_old_def quiet_nodes [OF assms])

lemma triple_stage_rename:
  "tmp \<noteq> path \<Longrightarrow>
   triple (staged tmp path (Some mode) d old) (os_rename tmp path)
     (\<lambda>_. installed tmp path mode d) (holds_old path old)"
  by (rule tripleI)
    (auto simp: staged_def holds_old_def installed_def dest: os_rename_Inr os_rename_Inl)

lemma triple_holds_old:
  assumes "touches T m" and "path \<notin> T"
  shows "triple (holds_old path old) m (\<lambda>_. holds_old path old) (holds_old path old)"
  using triple_frame [OF assms] by (simp add: holds_old_def [abs_def])

lemma holds_old_remove:
  "tmp \<noteq> path \<Longrightarrow> holds_old path old s \<Longrightarrow> os_remove tmp s = (r, s') \<Longrightarrow> holds_old path old s'"
  by (auto simp: holds_old_def dest: touchesD [OF touches_calls(4)])

section \<open>Atomic replacement\<close>

lemma writeAtomic_triple:
  "triple (holds_old path old) (writeAtomic path d mode)
     (\<lambda>_. installed (tmp_of path) path mode d) (holds_old path old)"
proof -
  let ?tmp = "tmp_of path"
  have body: "triple (holds_old path old)
      (io_bind (file_write ?tmp d) (\<lambda>_. io_bind (file_chmod ?tmp mode) (\<lambda>_.
         io_bind file_close (\<lambda>_. os_rename ?tmp path))))
      (\<lambda>_. installed ?tmp path mode d) (holds_old path old)"
    by (rule triple_bind [OF triple_stage_write], simp,
        rule triple_bind [OF triple_stage_chmod], simp,
        rule triple_bind [OF triple_stage_quiet], rule touches_calls,
        rule triple_stage_rename, simp)
  have clean: "triple (holds_old path old) (with_cleanup ?tmp
      (io_bind (file_write ?tmp d) (\<lambda>_. io_bind (file_chmod ?tmp mode) (\<lambda>_.
         io_bind file_close (\<lambda>_. os_rename ?tmp path)))))
      (\<lambda>_. installed ?tmp path mode d) (holds_old path old)"
    by (rule triple_cleanup [OF body]) (auto intro: holds_old_remove [rotated])
  show ?thesis unfolding writeAtomic_def
    by (rule triple_bind [OF triple_holds_old], rule touches_removePathIfExists, simp,
        rule triple_bind [OF triple_holds_old], rule touches_calls, simp, rule clean)
qed

lemma writeConfigAtomic_triple:
  "triple (holds_old path old) (writeConfigAtomic path d mode)
     (\<lambda>_. installed (tmp_of path) path mode d) (holds_old path old)"
  using writeAtomic_triple by (simp add: writeAtomic_def writeConfigAtomic_def)

lemma writeAtomic_touches: "touches {path, tmp_of path} (writeAtomic path d mode)"
proof -
  let ?P = "{path, tmp_of path}"
  have "touches ?P (removePathIfExists (tmp_of path))" "touches ?P (os_create_excl (tmp_of path) mode)"
    "touches ?P (file_write (tmp_of path) d)" "touches ?P (file_chmod (tmp_of path) mode)"
    "touches ?P file_close" "touches ?P (os_rename (tmp_of path) path)"
    by (auto simp: file_chmod_def intro: touches_mono touches_intros)
  then show ?thesis unfolding writeAtomic_def
    by (intro touches_bind touches_with_cleanup) auto
qed

lemma writeConfigV2Atomic_touches: "touches {path, tmp} (writeConfigV2Atomic tmp path d mode)"
proof -
  let ?P = "{path, tmp}"
  have "touches ?P (os_create_excl tmp mode)" "touches ?P (file_write tmp d)"
    "touches ?P (file_chmod tmp mode)" "touches ?P file_sync" "touches ?P file_close"
    "touches ?P (os_rename tmp path)"
    by (auto simp: file_chmod_def intro: touches_mono touches_intros)
  then show ?thesis unfolding writeConfigV2Atomic_def
    by (intro touches_bind touches_with_cleanup) auto
qed

lemma triple_weaken:
  "triple P m Q E \<Longrightarrow> (\<And>s. E s \<Longrightarrow> E' s) \<Longrightarrow> triple P m Q E'"
  by (fastforce intro: tripleI dest: tripleD)

lemma writeConfigV2Atomic_triple:
  assumes "tmp \<noteq> path"
  shows "triple (holds_old path old) (writeConfigV2Atomic tmp path d mode)
     (\<lambda>_. installed tmp path mode d) (\<lambda>s. holds_old path old s \<or> installed tmp path mode d s)"
proof -
  let ?body = "io_bind (file_write tmp d) (\<lambda>_. io_bind (file_chmod tmp mode) (\<lambda>_.
      io_bind file_sync (\<lambda>_. io_bind file_close (\<lambda>_. os_rename tmp path))))"
  have body: "triple (holds_old path old) ?body
      (\<lambda>_. installed tmp path mode d) (holds_old path old)"
    by (rule triple_bind [OF triple_stage_write], rule assms,
        rule triple_bind [OF triple_stage_chmod], rule assms,
        rule triple_bind [OF triple_stage_quiet], rule touches_calls,
        rule triple_bind [OF triple_stage_quiet], rule touches_calls,
        rule triple_stage_rename, rule assms)
  have clean: "triple (holds_old path old) (with_cleanup tmp ?body)
      (\<lambda>_. installed tmp path mode d) (holds_old path old)"
    by (rule triple_cleanup [OF body]) (auto intro: holds_old_remove [rotated] simp: assms)
  have sync: "triple (installed tmp path mode d) file_sync
      (\<lambda>_. installed tmp path mode d) (installed tmp path mode d)"
    by (rule tripleI) (auto simp: installed_def quiet_nodes [OF touches_calls(8)])
  show ?thesis unfolding writeConfigV2Atomic_def
    by (rule triple_bind [OF triple_weaken [OF triple_holds_old]], rule touches_calls,
        use assms in simp, simp,
        rule triple_bind [OF triple_weaken [OF clean]], simp,
        rule triple_weaken [OF sync], simp)
qed

lemma syscall_no_fault: "faults s = [] \<Longrightarrow> syscall m s = m s"
  by (simp add: syscall_def take_fault_def)

lemma faults_set_node [simp]: "faults (set_node p n s) = faults s"
  by (simp add: set_node_def)

lemma faults_del_node [simp]: "faults (del_node p s) = faults s"
  by (simp add: del_node_def)

lemmas fault_free =
  syscall_no_fault io_bind_def with_cleanup_def os_lstat_def os_create_excl_def os_remove_def
  os_rename_def file_write_def file_chmod_def os_chmod_def file_close_def file_sync_def
  io_return_def io_fail_def take_fault_def os_mkdir_all_def os_read_file_def

lemma removePathIfExists_no_fault:
  "faults s = [] \<Longrightarrow> \<forall>m. node_at s p \<noteq> Some (Directory m) \<Longrightarrow>
   \<exists>s'. removePathIfExists p s = (Inr (), s') \<and> faults s' = [] \<and>
     node_at s' p = None \<and> (\<forall>q. q \<noteq> p \<longrightarrow> node_at s' q = node_at s q)"
  by (auto simp: removePathIfExists_def fault_free is_dir_node_def split: option.splits node.splits)

lemma writeAtomic_no_fault:
  assumes "faults s = []" and "\<forall>m. node_at s path \<noteq> Some (Directory m)"
    and "\<forall>m. node_at s (tmp_of path) \<noteq> Some (Directory m)"
  shows "fst (writeAtomic path d mode s) = Inr ()"
proof -
  obtain s1 where s1: "removePathIfExists (tmp_of path) s = (Inr (), s1)" "faults s1 = []"
    "node_at s1 (tmp_of path) = None" "node_at s1 path = node_at s path"
    using removePathIfExists_no_fault [OF assms(1,3)] tmp_of_neq by metis
  with assms(2) show ?thesis
    by (auto simp: writeAtomic_def fault_free split: option.splits node.splits)
qed

section \<open>Properties\<close>

text \<open>C35. \<open>writeAtomic\<close> replaces a file all at once whatever call fails: on success the target is
  a private regular file with exactly the new document and no temporary is left, on error the
  target is untouched, and no path other than the target and its temporary changes.\<close>

theorem writeAtomic_all_or_nothing:
  "case writeAtomic path d mode s of (r, s') \<Rightarrow>
     (case r of
        Inl _ \<Rightarrow> node_at s' path = node_at s path
      | Inr _ \<Rightarrow> (\<exists>t. node_at s' path = Some (Regular mode (Some d) t)) \<and>
                 node_at s' (tmp_of path) = None) \<and>
     {q. node_at s' q \<noteq> node_at s q} \<subseteq> {path, tmp_of path}"
proof -
  obtain r s' where w: "writeAtomic path d mode s = (r, s')" by fastforce
  have "holds_old path (node_at s path) s" by (simp add: holds_old_def)
  then have "case r of Inl _ \<Rightarrow> holds_old path (node_at s path) s'
      | Inr _ \<Rightarrow> installed (tmp_of path) path mode d s'"
    using writeAtomic_triple w by (fastforce simp: triple_def split: sum.splits)
  moreover have "{q. node_at s' q \<noteq> node_at s q} \<subseteq> {path, tmp_of path}"
    using touchesD [OF writeAtomic_touches w] by blast
  ultimately show ?thesis
    using w by (auto simp: holds_old_def installed_def split: sum.splits)
qed

text \<open>C40. \<open>writeAtomic\<close> does succeed when no system call fails and neither the target nor the
  temporary name is a directory, even if a stale temporary file is in the way.\<close>

theorem writeAtomic_succeeds:
  assumes "faults s = []" and "\<forall>m. node_at s path \<noteq> Some (Directory m)"
    and "\<forall>m. node_at s (tmp_of path) \<noteq> Some (Directory m)"
  shows "fst (writeAtomic path d mode s) = Inr ()"
  by (rule writeAtomic_no_fault [OF assms])

definition fs_example :: "string fs" where
  "fs_example = \<lparr>nodes = [(''a'', Regular 420 (Some ''old'') 1), (''a.tmp'', Regular 420 None 1)],
                 faults = [], clock = 7\<rparr>"

theorem writeAtomic_succeeds_witness:
  "fst (writeAtomic ''a'' ''new'' privateFileMode fs_example) = Inr ()"
  by (rule writeAtomic_succeeds) (simp_all add: fs_example_def node_at_def tmp_of_def)

text \<open>\<open>writeConfigV2Atomic\<close> leaves either the old config or the complete new one, never a
  partial file; success means the new one is installed. (An error after the rename, from the
  directory sync, is reported although the new config is already in place.)\<close>

lemma writeConfigV2Atomic_old_or_new:
  assumes "tmp \<noteq> path" and "writeConfigV2Atomic tmp path d mode s = (r, s')"
  shows "(node_at s' path = node_at s path \<and> r \<noteq> Inr () \<or>
          (\<exists>t. node_at s' path = Some (Regular mode (Some d) t)) \<and> node_at s' tmp = None) \<and>
         {q. node_at s' q \<noteq> node_at s q} \<subseteq> {path, tmp}"
proof
  have "holds_old path (node_at s path) s" by (simp add: holds_old_def)
  then show "node_at s' path = node_at s path \<and> r \<noteq> Inr () \<or>
         (\<exists>t. node_at s' path = Some (Regular mode (Some d) t)) \<and> node_at s' tmp = None"
    using writeConfigV2Atomic_triple [OF assms(1)] assms(2)
    by (cases r) (fastforce simp: holds_old_def installed_def dest: tripleD)+
  show "{q. node_at s' q \<noteq> node_at s q} \<subseteq> {path, tmp}"
    using touchesD [OF writeConfigV2Atomic_touches assms(2)] by blast
qed

lemma writeConfigV2Atomic_old_or_new_witness:
  "node_at (snd (writeConfigV2Atomic ''t'' ''a'' ''new'' 384 fs_example)) ''t'' = None"
  using writeConfigV2Atomic_old_or_new [of "''t''" "''a''" "''new''" 384 fs_example "Inr ()"
      "snd (writeConfigV2Atomic ''t'' ''a'' ''new'' 384 fs_example)"]
  by (simp add: writeConfigV2Atomic_def fault_free fs_example_def node_at_def set_node_def
      del_node_def)

end
