(* ===== verification/Clipfan_Store.thy ===== *)
theory Clipfan_Store
  imports Clipfan_FS Clipfan_Crypto
begin

text \<open>
  The clipboard content of \<open>internal/clipboard/clipboard.go\<close> and the store of
  \<open>internal/store\<close>: the history file (\<open>history.go\<close>), the content-addressed image directory
  (\<open>store.go\<close>, \<open>imagepath.go\<close>) and the state files (\<open>state.go\<close>). Files hold the document
  their JSON text denotes; strings pass through \<open>json_string\<close> when written. The history lock
  makes every exported operation one step.
\<close>

section \<open>Clipboard content\<close>

definition KindText :: string where "KindText = ''text''"
definition KindImage :: string where "KindImage = ''image''"

record content =
  c_ID :: string
  c_Kind :: string
  c_Bytes :: bytes
  c_Hash :: bytes
  c_TS :: gotime
  c_Concealed :: bool

definition new_content :: "string \<Rightarrow> bytes \<Rightarrow> gotime \<Rightarrow> content" where
  "new_content kind body ts =
     \<lparr>c_ID = [], c_Kind = kind, c_Bytes = body, c_Hash = sha256 body, c_TS = ts, c_Concealed = False\<rparr>"

section \<open>History entries\<close>

record history_entry =
  h_ID :: string
  h_Kind :: string
  h_Preview :: string
  h_Text :: string
  h_ImagePath :: string
  h_SizeBytes :: nat
  h_Origin :: string
  h_TS :: gotime
  h_Pinned :: bool

record state_meta =
  st_Kind :: string
  st_TS :: gotime
  st_ImagePath :: string

datatype store_doc =
    HistoryDoc "history_entry list"
  | StateDoc state_meta
  | Blob bytes

type_synonym 'a store_io = "(store_doc, 'a) io"

definition DefaultMaxHistory :: int where "DefaultMaxHistory = 200"

definition previewLen :: nat where "previewLen = 140"

text \<open>The regular expression \<open>^\s*https?://\S+\s*$\<close>.\<close>

definition re_space :: "char \<Rightarrow> bool" where
  "re_space c \<longleftrightarrow> c \<in> {CHR 0x09, CHR 0x0A, CHR 0x0C, CHR 0x0D, CHR 0x20}"

definition urlRe_match :: "bytes \<Rightarrow> bool" where
  "urlRe_match body =
     (let s = dropWhile re_space body;
          rest = (if has_prefix s ''http://'' then Some (drop 7 s)
                  else if has_prefix s ''https://'' then Some (drop 8 s) else None)
      in (case rest of
            None \<Rightarrow> False
          | Some r \<Rightarrow> takeWhile (\<lambda>c. \<not> re_space c) r \<noteq> [] \<and>
                      list_all re_space (dropWhile (\<lambda>c. \<not> re_space c) r)))"

definition classify :: "string \<Rightarrow> bytes \<Rightarrow> string" where
  "classify kind body =
     (if kind = KindImage then ''image'' else if urlRe_match body then ''link'' else ''text'')"

definition preview :: "bytes \<Rightarrow> string \<Rightarrow> string" where
  "preview body imagePath =
     (if imagePath \<noteq> [] then path_base imagePath
      else let s = trim_space body in if length s > previewLen then take previewLen s else s)"

section \<open>Reading and writing the history file\<close>

definition historyPath :: "string \<Rightarrow> string" where
  "historyPath sd = path_join sd ''history.json''"

text \<open>An entry as it comes back from its JSON encoding.\<close>

definition json_entry :: "history_entry \<Rightarrow> history_entry" where
  "json_entry e = e\<lparr>h_ID := json_string (h_ID e), h_Kind := json_string (h_Kind e),
     h_Preview := json_string (h_Preview e), h_Text := json_string (h_Text e),
     h_ImagePath := json_string (h_ImagePath e), h_Origin := json_string (h_Origin e)\<rparr>"

definition readHistory :: "string \<Rightarrow> history_entry list store_io" where
  "readHistory sd s = (case repairStateFile sd (historyPath sd) s of
     (Inl e, s') \<Rightarrow> (if e = ErrNotExist then (Inr [], s') else (Inl e, s'))
   | (Inr _, s') \<Rightarrow>
       io_bind (os_read_file (historyPath sd)) (\<lambda>d.
         case d of Some (HistoryDoc l) \<Rightarrow> io_return l | _ \<Rightarrow> io_fail (ErrMsg ''json'')) s')"

definition writeHistory :: "string \<Rightarrow> history_entry list \<Rightarrow> unit store_io" where
  "writeHistory sd l =
     io_bind (ensurePrivateDir sd) (\<lambda>_.
       writeAtomic (historyPath sd) (HistoryDoc (map json_entry l)) privateFileMode)"

section \<open>Retention\<close>

text \<open>\<open>capLimit\<close>: \<open>loaded\<close> is the outcome of \<open>config.Load\<close>, its \<open>MaxHistory\<close> when it succeeded.\<close>

definition capLimit :: "int option \<Rightarrow> int" where
  "capLimit loaded = (case loaded of Some m \<Rightarrow> (if m > 0 then m else DefaultMaxHistory)
                                   | None \<Rightarrow> DefaultMaxHistory)"

text \<open>The keeping loop of \<open>capTrim\<close>; the integer is \<open>unpinnedBudget - usedUnpinned\<close>.\<close>

fun trim_loop :: "int \<Rightarrow> history_entry list \<Rightarrow> history_entry list" where
  "trim_loop budget [] = []"
| "trim_loop budget (e # es) =
     (if h_Pinned e then e # trim_loop budget es
      else if 0 < budget then e # trim_loop (budget - 1) es
      else trim_loop budget es)"

definition pinnedCount :: "history_entry list \<Rightarrow> int" where
  "pinnedCount l = int (length (filter h_Pinned l))"

definition capTrim :: "history_entry list \<Rightarrow> int \<Rightarrow> history_entry list" where
  "capTrim l cap =
     (if int (length l) \<le> cap then l
      else let unpinnedBudget = cap - pinnedCount l;
               unpinnedBudget = (if unpinnedBudget < 0 then 0 else unpinnedBudget)
           in trim_loop unpinnedBudget l)"

section \<open>History operations\<close>

text \<open>The new list built by \<open>AppendHistory\<close>: the entry of a repeated copy floats to the top.\<close>

definition make_entry :: "content \<Rightarrow> string \<Rightarrow> string \<Rightarrow> history_entry" where
  "make_entry c origin imagePath =
     \<lparr>h_ID = hex_encode (c_Hash c),
      h_Kind = classify (c_Kind c) (c_Bytes c),
      h_Preview = preview (c_Bytes c) imagePath,
      h_Text = (if c_Kind c = KindImage then [] else c_Bytes c),
      h_ImagePath = (if c_Kind c = KindImage then imagePath else []),
      h_SizeBytes = length (c_Bytes c),
      h_Origin = origin, h_TS = c_TS c, h_Pinned = False\<rparr>"

fun carry_pin :: "string \<Rightarrow> bool \<Rightarrow> history_entry list \<Rightarrow> bool" where
  "carry_pin i p [] = p"
| "carry_pin i p (e # es) = carry_pin i (if h_ID e = i then h_Pinned e else p) es"

definition float_entry :: "history_entry \<Rightarrow> history_entry list \<Rightarrow> history_entry list" where
  "float_entry entry l =
     entry\<lparr>h_Pinned := carry_pin (h_ID entry) (h_Pinned entry) l\<rparr> #
     filter (\<lambda>e. h_ID e \<noteq> h_ID entry) l"

definition AppendHistory ::
  "string \<Rightarrow> int option \<Rightarrow> content \<Rightarrow> string \<Rightarrow> string \<Rightarrow> unit store_io" where
  "AppendHistory sd loaded c origin imagePath =
     io_bind (readHistory sd) (\<lambda>l.
       writeHistory sd (capTrim (float_entry (make_entry c origin imagePath) l) (capLimit loaded)))"

definition history_before :: "history_entry \<Rightarrow> history_entry \<Rightarrow> bool" where
  "history_before a b =
     (if h_Pinned a \<noteq> h_Pinned b then h_Pinned a else h_TS a > h_TS b)"

definition sort_history :: "int \<Rightarrow> history_entry list \<Rightarrow> history_entry list" where
  "sort_history limit l =
     (let l' = stable_sort history_before l
      in if limit > 0 \<and> int (length l') > limit then take (nat limit) l' else l')"

definition LoadHistory :: "string \<Rightarrow> int \<Rightarrow> history_entry list store_io" where
  "LoadHistory sd limit = io_bind (readHistory sd) (\<lambda>l. io_return (sort_history limit l))"

definition Recap :: "string \<Rightarrow> int option \<Rightarrow> unit store_io" where
  "Recap sd loaded = io_bind (readHistory sd) (\<lambda>l. writeHistory sd (capTrim l (capLimit loaded)))"

definition set_pinned :: "string \<Rightarrow> bool \<Rightarrow> history_entry list \<Rightarrow> history_entry list" where
  "set_pinned i p l = map (\<lambda>e. if h_ID e = i then e\<lparr>h_Pinned := p\<rparr> else e) l"

definition SetPinned :: "string \<Rightarrow> string \<Rightarrow> bool \<Rightarrow> unit store_io" where
  "SetPinned sd i p = io_bind (readHistory sd) (\<lambda>l. writeHistory sd (set_pinned i p l))"

definition imagesDir :: "string \<Rightarrow> string" where
  "imagesDir sd = path_join sd ''images''"

definition imageFileName :: "string \<Rightarrow> string" where
  "imageFileName path =
     (if path = [] then []
      else let name = path_base path
           in if name = ''.'' \<or> name = [slash] then [] else name)"

text \<open>The two loops of \<open>removeUnreferencedImages\<close>; the removal error is ignored.\<close>

definition referenced_names :: "history_entry list \<Rightarrow> string list" where
  "referenced_names kept = filter (\<lambda>n. n \<noteq> []) (map (\<lambda>e. imageFileName (h_ImagePath e)) kept)"

fun remove_images :: "string \<Rightarrow> string list \<Rightarrow> history_entry list \<Rightarrow> store_doc fs \<Rightarrow> store_doc fs" where
  "remove_images sd referenced [] s = s"
| "remove_images sd referenced (e # es) s =
     (let name = imageFileName (h_ImagePath e)
      in if name = [] \<or> name \<in> set referenced then remove_images sd referenced es s
         else remove_images sd referenced es (snd (os_remove (path_join (imagesDir sd) name) s)))"

definition removeUnreferencedImages ::
  "string \<Rightarrow> history_entry list \<Rightarrow> history_entry list \<Rightarrow> unit store_io" where
  "removeUnreferencedImages sd removed kept s =
     (Inr (), remove_images sd (referenced_names kept) removed s)"

definition DeleteEntry :: "string \<Rightarrow> string \<Rightarrow> unit store_io" where
  "DeleteEntry sd i =
     io_bind (readHistory sd) (\<lambda>l.
       let out = filter (\<lambda>e. h_ID e \<noteq> i) l; removed = filter (\<lambda>e. \<not> h_ID e \<noteq> i) l
       in io_bind (writeHistory sd out) (\<lambda>_. removeUnreferencedImages sd removed out))"

definition ClearUnpinned :: "string \<Rightarrow> unit store_io" where
  "ClearUnpinned sd =
     io_bind (readHistory sd) (\<lambda>l.
       let out = filter h_Pinned l; removed = filter (\<lambda>e. \<not> h_Pinned e) l
       in io_bind (writeHistory sd out) (\<lambda>_. removeUnreferencedImages sd removed out))"

definition EntryByID :: "string \<Rightarrow> string \<Rightarrow> history_entry option store_io" where
  "EntryByID sd i = io_bind (readHistory sd) (\<lambda>l. io_return (find (\<lambda>e. h_ID e = i) l))"

definition ReferencedImages :: "string \<Rightarrow> string list store_io" where
  "ReferencedImages sd = io_bind (readHistory sd) (\<lambda>l.
     io_return (map (\<lambda>e. path_base (h_ImagePath e)) (filter (\<lambda>e. h_ImagePath e \<noteq> []) l)))"

section \<open>The image directory\<close>

definition maxImages :: int where "maxImages = 50"

definition image_name :: "bytes \<Rightarrow> string" where
  "image_name body = hex_encode (sha256 body) @ ''.png''"

text \<open>\<open>SaveImage\<close> up to the \<open>go gc(dir)\<close>, which is the separate step \<open>gc\<close>.\<close>

definition SaveImage :: "string \<Rightarrow> bytes \<Rightarrow> string store_io" where
  "SaveImage sd body =
     io_bind (ensurePrivateDir sd) (\<lambda>_.
     io_bind (ensurePrivateDir (imagesDir sd)) (\<lambda>_.
     let path = path_join (imagesDir sd) (image_name body)
     in (\<lambda>s. case os_lstat path s of
          (Inr info, s') \<Rightarrow>
            (if \<not> is_regular_node info then (Inl (ErrMsg ''image file is not a regular file''), s')
             else io_bind (os_chmod path privateFileMode) (\<lambda>_. io_return path) s')
        | (Inl _, s') \<Rightarrow>
            io_bind (writeAtomic path (Blob body) privateFileMode) (\<lambda>_. io_return path) s')))"

text \<open>The entries \<open>os.ReadDir\<close> lists in a directory, with their names.\<close>

definition dir_entries :: "string \<Rightarrow> 'd fs \<Rightarrow> (string \<times> 'd node) list" where
  "dir_entries dir s =
     map (\<lambda>(p, n). (drop (length dir + 1) p, n))
       (filter (\<lambda>(p, n). has_prefix p (dir @ [slash]) \<and> slash \<notin> set (drop (length dir + 1) p))
          (nodes s))"

definition mtime_of :: "'d node \<Rightarrow> int" where
  "mtime_of n = (case n of Regular _ _ t \<Rightarrow> t | _ \<Rightarrow> 0)"

definition os_read_dir :: "string \<Rightarrow> ('d, (string \<times> 'd node) list) io" where
  "os_read_dir dir = syscall (\<lambda>s.
     case node_at s dir of
       None \<Rightarrow> (Inl ErrNotExist, s)
     | Some (Directory _) \<Rightarrow> (Inr (dir_entries dir s), s)
     | Some _ \<Rightarrow> (Inl ErrIO, s))"

text \<open>The collecting loop of \<open>gc\<close>: directories and entries whose \<open>Info\<close> fails are skipped.\<close>

fun gc_stamps :: "string \<Rightarrow> (string \<times> 'd node) list \<Rightarrow> 'd fs \<Rightarrow> (string \<times> int) list \<times> 'd fs" where
  "gc_stamps dir [] s = ([], s)"
| "gc_stamps dir ((name, n) # es) s =
     (if is_dir_node n then gc_stamps dir es s
      else (case os_lstat (path_join dir name) s of
              (Inl _, s') \<Rightarrow> gc_stamps dir es s'
            | (Inr info, s') \<Rightarrow>
                (case gc_stamps dir es s' of (rest, s'') \<Rightarrow> ((name, mtime_of info) # rest, s''))))"

text \<open>The removal loop of \<open>gc\<close> over the images, oldest first.\<close>

fun gc_loop :: "string \<Rightarrow> string list \<Rightarrow> int \<Rightarrow> string list \<Rightarrow> store_doc fs \<Rightarrow> store_doc fs" where
  "gc_loop dir referenced toRemove [] s = s"
| "gc_loop dir referenced toRemove (name # names) s =
     (if toRemove = 0 then s
      else if name \<in> set referenced then gc_loop dir referenced toRemove names s
      else (case os_remove (path_join dir name) s of
              (Inr _, s') \<Rightarrow> gc_loop dir referenced (toRemove - 1) names s'
            | (Inl _, s') \<Rightarrow> gc_loop dir referenced toRemove names s'))"

definition gc :: "string \<Rightarrow> int option \<Rightarrow> store_doc fs \<Rightarrow> store_doc fs" where
  "gc sd loaded s =
     (let dir = imagesDir sd in
      case os_read_dir dir s of
        (Inl _, s0) \<Rightarrow> s0
      | (Inr entries, s0) \<Rightarrow>
          (case ReferencedImages sd s0 of (r, s1) \<Rightarrow>
          (case gc_stamps dir entries s1 of (all, s2) \<Rightarrow>
           (let referenced = (case r of Inl _ \<Rightarrow> [] | Inr names \<Rightarrow> names);
                bound = (if capLimit loaded > maxImages then capLimit loaded else maxImages)
            in if int (length all) \<le> bound then s2
               else gc_loop dir referenced (int (length all) - bound)
                      (map fst (stable_sort (\<lambda>a b. snd a < snd b) all)) s2))))"

section \<open>State files and the image-path guard\<close>

definition statePath :: "string \<Rightarrow> string" where "statePath sd = path_join sd ''state.json''"
definition textPath :: "string \<Rightarrow> string" where "textPath sd = path_join sd ''current.txt''"

definition json_state :: "state_meta \<Rightarrow> state_meta" where
  "json_state st = st\<lparr>st_Kind := json_string (st_Kind st), st_ImagePath := json_string (st_ImagePath st)\<rparr>"

definition SaveState :: "string \<Rightarrow> state_meta \<Rightarrow> bytes \<Rightarrow> unit store_io" where
  "SaveState sd st text =
     io_bind (ensurePrivateDir sd) (\<lambda>_.
     io_bind (writeAtomic (statePath sd) (StateDoc (json_state st)) privateFileMode) (\<lambda>_.
     writeAtomic (textPath sd) (Blob text) privateFileMode))"

definition LoadText :: "string \<Rightarrow> bytes option store_io" where
  "LoadText sd s = (case repairStateFile sd (textPath sd) s of
     (Inl e, s') \<Rightarrow> (if e = ErrNotExist then (Inr None, s') else (Inl e, s'))
   | (Inr _, s') \<Rightarrow>
       io_bind (os_read_file (textPath sd)) (\<lambda>d.
         case d of Some (Blob b) \<Rightarrow> io_return (Some b) | _ \<Rightarrow> io_fail ErrIO) s')"

definition LoadState :: "string \<Rightarrow> state_meta store_io" where
  "LoadState sd s = (case repairStateFile sd (statePath sd) s of
     (Inl e, s') \<Rightarrow>
       (if e = ErrNotExist then (Inr \<lparr>st_Kind = [], st_TS = 0, st_ImagePath = []\<rparr>, s')
        else (Inl e, s'))
   | (Inr _, s') \<Rightarrow>
       io_bind (os_read_file (statePath sd)) (\<lambda>d.
         case d of Some (StateDoc st) \<Rightarrow> io_return st | _ \<Rightarrow> io_fail (ErrMsg ''json'')) s')"

definition isHex64 :: "string \<Rightarrow> bool" where
  "isHex64 s \<longleftrightarrow> length s = 64 \<and>
     list_all (\<lambda>c. char_in (CHR ''0'') (CHR ''9'') c \<or> char_in (CHR ''a'') (CHR ''f'') c) s"

definition IsImageStorePath :: "string \<Rightarrow> store_doc fs \<Rightarrow> string \<Rightarrow> bool" where
  "IsImageStorePath sd fs s =
     (let base = path_base (trim_space s)
      in if \<not> has_suffix base ''.png'' \<or> \<not> isHex64 (trim_suffix base ''.png'') then False
         else node_at fs (path_join (imagesDir sd) base) \<noteq> None)"

section \<open>Lemmas: retention\<close>

lemma filter_pinned_trim_loop: "filter h_Pinned (trim_loop b l) = filter h_Pinned l"
  by (induction b l rule: trim_loop.induct) auto

lemma filter_unpinned_trim_loop:
  "0 \<le> b \<Longrightarrow> filter (\<lambda>e. \<not> h_Pinned e) (trim_loop b l) = take (nat b) (filter (\<lambda>e. \<not> h_Pinned e) l)"
proof (induction b l rule: trim_loop.induct)
  case (2 b e es)
  show ?case
  proof (cases "h_Pinned e")
    case False
    show ?thesis
    proof (cases "0 < b")
      case True
      then have "nat b = Suc (nat (b - 1))" by simp
      with 2 False True show ?thesis by simp
    next
      case nb: False
      with "2.prems" have "b = 0" by simp
      with 2 False show ?thesis by simp
    qed
  qed (use 2 in simp)
qed simp

lemma subseq_trim_loop: "subseq (trim_loop b l) l"
  by (induction b l rule: trim_loop.induct) auto

lemma capTrim_subseq: "subseq (capTrim l cap) l"
  by (simp add: capTrim_def Let_def subseq_trim_loop)

lemma set_capTrim: "set (capTrim l cap) \<subseteq> set l"
  by (auto elim: list_emb_set [OF capTrim_subseq])

lemma filter_pinned_capTrim: "filter h_Pinned (capTrim l cap) = filter h_Pinned l"
  by (simp add: capTrim_def Let_def filter_pinned_trim_loop)

lemma filter_unpinned_capTrim:
  "filter (\<lambda>e. \<not> h_Pinned e) (capTrim l cap) =
   take (nat (cap - pinnedCount l)) (filter (\<lambda>e. \<not> h_Pinned e) l)"
proof (cases "int (length l) \<le> cap")
  case True
  have "length (filter h_Pinned l) + length (filter (\<lambda>e. \<not> h_Pinned e) l) = length l"
    by (rule sum_length_filter_compl)
  with True show ?thesis by (simp add: capTrim_def pinnedCount_def)
next
  case False
  then show ?thesis
    by (cases "cap - pinnedCount l < 0") (auto simp: capTrim_def Let_def filter_unpinned_trim_loop)
qed

lemma length_filter_split:
  "length l = length (filter h_Pinned l) + length (filter (\<lambda>e. \<not> h_Pinned e) l)"
  by (simp add: sum_length_filter_compl)

lemma length_capTrim:
  "length (capTrim l cap) = max (length (filter h_Pinned l)) (min (length l) (nat cap))"
proof -
  have "length (capTrim l cap) = length (filter h_Pinned l) +
      min (nat (cap - pinnedCount l)) (length (filter (\<lambda>e. \<not> h_Pinned e) l))"
    by (subst length_filter_split)
      (simp add: filter_pinned_capTrim filter_unpinned_capTrim min.commute)
  with length_filter_split [of l] show ?thesis
    by (cases "int (length (filter h_Pinned l)) \<le> cap") (auto simp: pinnedCount_def)
qed

section \<open>Lemmas: floating an entry\<close>

definition distinct_ids :: "history_entry list \<Rightarrow> bool" where
  "distinct_ids l \<longleftrightarrow> distinct (map h_ID l)"

lemma distinct_ids_subseq: "subseq k l \<Longrightarrow> distinct_ids l \<Longrightarrow> distinct_ids k"
  unfolding distinct_ids_def
  by (auto simp: subseq_conv_nths simp flip: nths_map)

lemma float_entry_distinct: "distinct_ids l \<Longrightarrow> distinct_ids (float_entry entry l)"
  unfolding distinct_ids_def float_entry_def
  by (auto simp: distinct_map_filter)

lemma carry_pin_absent: "i \<notin> set (map h_ID l) \<Longrightarrow> carry_pin i p l = p"
  by (induction l arbitrary: p) auto

lemma carry_pin_present:
  "distinct (map h_ID l) \<Longrightarrow> e \<in> set l \<Longrightarrow> h_ID e = i \<Longrightarrow> carry_pin i p l = h_Pinned e"
  by (induction l arbitrary: p) (auto simp: carry_pin_absent)

section \<open>The history file as an abstract list\<close>

text \<open>What the history file holds: nothing yet is the empty list, an unreadable file is \<open>None\<close>.\<close>

definition history_list :: "string \<Rightarrow> store_doc fs \<Rightarrow> history_entry list option" where
  "history_list sd s = (case node_at s (historyPath sd) of
     None \<Rightarrow> Some []
   | Some (Regular _ (Some (HistoryDoc l)) _) \<Rightarrow> Some l
   | Some _ \<Rightarrow> None)"

lemma plain_names [simp]:
  "plain_name ''history.json''" "plain_name ''images''" "plain_name ''state.json''"
  "plain_name ''current.txt''"
  by (simp_all add: plain_name_def slash_def)

lemma historyPath_neq [simp]: "historyPath sd \<noteq> sd" "sd \<noteq> historyPath sd"
  using path_join_neq_dir [of "''history.json''" sd] by (auto simp: historyPath_def)

lemma ensurePrivateDir_touches: "touches {p} (ensurePrivateDir p)"
  unfolding ensurePrivateDir_def
  by (intro touches_bind touches_mono [OF touches_calls(5)] touches_calls)
    (auto intro: touches_calls touchesI simp: io_fail_def)

lemma history_list_ensure:
  "ensurePrivateDir sd s = (r, s') \<Longrightarrow> history_list sd s' = history_list sd s"
  using touchesD [OF ensurePrivateDir_touches] by (fastforce simp: history_list_def)

lemma history_list_quiet: "touches {} m \<Longrightarrow> m s = (r, s') \<Longrightarrow> history_list sd s' = history_list sd s"
  by (simp add: history_list_def quiet_nodes)

lemma history_list_chmod:
  "os_chmod p m s = (r, s') \<Longrightarrow> history_list sd s' = history_list sd s"
  unfolding os_chmod_def
  by (erule syscallE) (auto simp: history_list_def split: option.splits node.splits if_splits)

lemma os_lstat_cases:
  assumes "os_lstat p s = (r, s')"
  shows "node_at s' = node_at s \<and>
    (case r of Inr n \<Rightarrow> node_at s p = Some n | Inl e \<Rightarrow> e = ErrIO \<or> e = ErrNotExist \<and> node_at s p = None)"
  using assms quiet_nodes [OF touches_calls(5) assms] unfolding os_lstat_def
  by (elim syscallE) (auto split: option.splits)


lemma io_bindE:
  assumes "io_bind m f s = (r, s')"
  obtains e where "m s = (Inl e, s')" "r = Inl e"
        | x s1 where "m s = (Inr x, s1)" "f x s1 = (r, s')"
  using assms by (auto simp: io_bind_def split: prod.splits sum.splits)

lemma os_mkdir_all_Inr:
  "os_mkdir_all p m s = (Inr u, s') \<Longrightarrow> node_at s' p \<noteq> None"
  unfolding os_mkdir_all_def
  by (erule syscallE) (auto split: option.splits node.splits)

lemma os_mkdir_all_Inl: "os_mkdir_all p m s = (Inl e, s') \<Longrightarrow> e \<noteq> ErrNotExist"
  unfolding os_mkdir_all_def
  by (erule syscallE) (auto split: option.splits node.splits)

lemma os_chmod_Inl: "os_chmod p m s = (Inl e, s') \<Longrightarrow> node_at s p \<noteq> None \<Longrightarrow> e \<noteq> ErrNotExist"
  unfolding os_chmod_def
  by (erule syscallE) (auto split: option.splits node.splits)

lemma ensurePrivateDir_Inl: "ensurePrivateDir p s = (Inl e, s') \<Longrightarrow> e \<noteq> ErrNotExist"
  unfolding ensurePrivateDir_def
  by (elim io_bindE)
    (auto dest!: os_mkdir_all_Inr os_mkdir_all_Inl os_lstat_cases os_chmod_Inl
      simp: io_fail_def split: if_splits)

lemma repairStateFile_history:
  assumes "repairStateFile sd (historyPath sd) s = (r, s')"
  shows "history_list sd s' = history_list sd s \<and>
         (r = Inl ErrNotExist \<longrightarrow> history_list sd s = Some [])"
  using assms unfolding repairStateFile_def
proof (elim io_bindE)
  fix u s1 e assume "ensurePrivateDir sd s = (Inr u, s1)" "os_lstat (historyPath sd) s1 = (Inl e, s')"
    "r = Inl e"
  then show ?thesis
    using history_list_ensure [of sd s "Inr u" s1] os_lstat_cases [of "historyPath sd" s1]
    by (auto simp: history_list_def)
next
  fix u s1 n s2 assume "ensurePrivateDir sd s = (Inr u, s1)"
    "os_lstat (historyPath sd) s1 = (Inr n, s2)"
    "(if \<not> is_regular_node n then io_fail (ErrMsg ''state file is not a regular file'')
      else os_chmod (historyPath sd) privateFileMode) s2 = (r, s')"
  then show ?thesis
    using history_list_ensure [of sd s "Inr u" s1] os_lstat_cases [of "historyPath sd" s1 "Inr n" s2]
      history_list_quiet [OF touches_calls(5), of "historyPath sd" s1 "Inr n" s2 sd]
    by (auto simp: io_fail_def history_list_chmod [of _ _ s2 r s'] dest: os_chmod_Inl split: if_splits)
qed (auto dest: ensurePrivateDir_Inl history_list_ensure)

lemma os_read_file_cases:
  assumes "os_read_file p s = (r, s')"
  shows "node_at s' = node_at s \<and>
     (\<forall>d. r = Inr d \<longrightarrow> (\<exists>m t. node_at s p = Some (Regular m d t)))"
  using assms quiet_nodes [OF touches_calls(6) assms] unfolding os_read_file_def
  by (elim syscallE) (auto split: option.splits node.splits)

lemma readHistory_sound:
  assumes "readHistory sd s = (r, s')"
  shows "history_list sd s' = history_list sd s \<and> (\<forall>l. r = Inr l \<longrightarrow> history_list sd s = Some l)"
proof -
  obtain r1 s1 where r1: "repairStateFile sd (historyPath sd) s = (r1, s1)" by fastforce
  note rep = repairStateFile_history [OF r1]
  show ?thesis
  proof (cases r1)
    case (Inl e)
    with assms rep r1 show ?thesis by (auto simp: readHistory_def split: if_splits)
  next
    case (Inr u)
    obtain r2 s2 where r2: "os_read_file (historyPath sd) s1 = (r2, s2)" by fastforce
    note rd = os_read_file_cases [OF r2]
    from rd have "history_list sd s2 = history_list sd s1" by (simp add: history_list_def)
    moreover have "r2 = Inr (Some (HistoryDoc l)) \<Longrightarrow> history_list sd s1 = Some l" for l
      using rd by (auto simp: history_list_def)
    ultimately show ?thesis
      using assms rep r1 r2 Inr
      by (cases r2) (auto simp: readHistory_def io_bind_def io_return_def io_fail_def
          split: option.splits store_doc.splits)
  qed
qed

lemma writeHistory_sound:
  assumes "writeHistory sd l s = (r, s')"
  shows "history_list sd s' =
    (case r of Inl _ \<Rightarrow> history_list sd s | Inr _ \<Rightarrow> Some (map json_entry l))"
  using assms unfolding writeHistory_def
proof (elim io_bindE)
  fix u s1 assume e: "ensurePrivateDir sd s = (Inr u, s1)" and
    w: "writeAtomic (historyPath sd) (HistoryDoc (map json_entry l)) privateFileMode s1 = (r, s')"
  have "holds_old (historyPath sd) (node_at s1 (historyPath sd)) s1" by (simp add: holds_old_def)
  then show ?thesis
    using w history_list_ensure [OF e] tripleD [OF writeAtomic_triple]
    by (cases r) (fastforce simp: holds_old_def installed_def history_list_def)+
qed (auto dest: history_list_ensure)

section \<open>Read-modify-write of the history file\<close>

text \<open>The identifiers are distinct and survive the JSON encoding.\<close>

definition history_wf :: "history_entry list \<Rightarrow> bool" where
  "history_wf l \<longleftrightarrow> distinct_ids l \<and> list_all (\<lambda>e. json_string (h_ID e) = h_ID e) l"

definition rewrite_history :: "string \<Rightarrow> (history_entry list \<Rightarrow> history_entry list) \<Rightarrow> unit store_io" where
  "rewrite_history sd f = io_bind (readHistory sd) (\<lambda>l. writeHistory sd (f l))"

lemma rewrite_history_sound:
  assumes "rewrite_history sd f s = (r, s')"
  shows "case r of Inl _ \<Rightarrow> history_list sd s' = history_list sd s
     | Inr _ \<Rightarrow> \<exists>l. history_list sd s = Some l \<and> history_list sd s' = Some (map json_entry (f l))"
  using assms unfolding rewrite_history_def
proof (elim io_bindE)
  fix l s1 assume "readHistory sd s = (Inr l, s1)" "writeHistory sd (f l) s1 = (r, s')"
  then show ?thesis
    using readHistory_sound [of sd s "Inr l" s1] writeHistory_sound [of sd "f l" s1 r s']
    by (cases r) auto
qed (auto dest: readHistory_sound)

lemma json_entry_id [simp]: "h_ID (json_entry e) = json_string (h_ID e)"
  by (simp add: json_entry_def)

lemma history_wf_json: "history_wf l \<Longrightarrow> history_wf (map json_entry l)"
  by (auto simp: history_wf_def distinct_ids_def list_all_iff comp_def cong: map_cong)

text \<open>
  An update of the history list keeps the list well formed; what an update promises, and what
  the read-modify-write of any such update keeps of the file.
\<close>

locale history_update =
  fixes f :: "history_entry list \<Rightarrow> history_entry list"
  assumes keeps_wf: "history_wf l \<Longrightarrow> history_wf (f l)"
begin

lemma file_stays_wf:
  assumes "rewrite_history sd f s = (r, s')" and "\<forall>l. history_list sd s = Some l \<longrightarrow> history_wf l"
  shows "\<forall>l. history_list sd s' = Some l \<longrightarrow> history_wf l"
  using rewrite_history_sound [OF assms(1)] assms(2)
  by (cases r) (auto intro!: history_wf_json keeps_wf)

end

lemma history_wf_subseq: "subseq k l \<Longrightarrow> history_wf l \<Longrightarrow> history_wf k"
  unfolding history_wf_def list_all_iff
  by (blast intro: distinct_ids_subseq elim: list_emb_set)

lemma history_wf_ids: "map h_ID k = map h_ID l \<Longrightarrow> history_wf k = history_wf l"
proof -
  assume eq: "map h_ID k = map h_ID l"
  have "history_wf l = (distinct (map h_ID l) \<and> list_all (\<lambda>i. json_string i = i) (map h_ID l))" for l
    by (simp add: history_wf_def distinct_ids_def list.pred_map comp_def)
  with eq show ?thesis by simp
qed

lemma hex_encode_ascii: "is_ascii (hex_encode bs)"
proof (induction bs)
  case (Cons c cs)
  have "is_ascii [hex_digit n]" if "n < 16" for n
    using that by (auto simp: is_ascii_def hex_digit_def)
  moreover have "of_char c div 16 < (16 :: nat)"
    using of_char_less_256 [of c] by (simp add: div_less_iff_less_mult)
  ultimately show ?case using Cons by (simp add: is_ascii_def)
qed (simp add: is_ascii_def)

lemma hex_id_json: "json_string (hex_encode h) = hex_encode h"
  by (rule json_string_ascii) (simp add: hex_encode_ascii)

interpretation recap: history_update "\<lambda>l. capTrim l cap" for cap
  by unfold_locales (rule history_wf_subseq [OF capTrim_subseq])

interpretation append: history_update
  "\<lambda>l. capTrim (float_entry (make_entry c origin imagePath) l) cap" for c origin imagePath cap
proof
  fix l assume "history_wf l"
  then have "history_wf (float_entry (make_entry c origin imagePath) l)"
    using float_entry_distinct [of l "make_entry c origin imagePath"]
    by (auto simp: history_wf_def float_entry_def make_entry_def list_all_iff hex_id_json)
  then show "history_wf (capTrim (float_entry (make_entry c origin imagePath) l) cap)"
    by (rule history_wf_subseq [OF capTrim_subseq])
qed

interpretation pin: history_update "set_pinned i p" for i p
proof
  fix l assume "history_wf l"
  moreover have "map h_ID (set_pinned i p l) = map h_ID l" by (simp add: set_pinned_def)
  ultimately show "history_wf (set_pinned i p l)" using history_wf_ids by blast
qed

interpretation keep: history_update "filter P" for P
  by unfold_locales (rule history_wf_subseq [OF subseq_filter_left])

section \<open>Removing images leaves the history file\<close>

lemma remove_image_history:
  assumes "slash \<notin> set name"
  shows "path_join (imagesDir sd) name \<noteq> historyPath sd"
proof
  assume eq: "path_join (imagesDir sd) name = historyPath sd"
  let ?st = "clean_stack_of sd"
  have im: "clean_stack_of (imagesDir sd) = ''images'' # ?st"
    by (simp add: imagesDir_def clean_stack_join slash_def)
  have hp: "clean_stack_of (historyPath sd) = ''history.json'' # ?st"
    by (simp add: historyPath_def clean_stack_join slash_def)
  have "clean_step r (''images'' # ?st) name \<noteq> ''history.json'' # ?st" for r
    by (auto split: if_splits)
  then show False using eq im hp clean_stack_join [OF assms, of "imagesDir sd"] by metis
qed

lemma path_base_no_slash: "slash \<notin> set (path_base p) \<or> path_base p = [slash]"
  by (auto simp: path_base_def slash_def Let_def dest: set_takeWhileD)

lemma imageFileName_no_slash: "slash \<notin> set (imageFileName p)"
  using path_base_no_slash [of p] by (auto simp: imageFileName_def Let_def)

lemma remove_images_history:
  "history_list sd (remove_images sd refs rm s) = history_list sd s"
proof (induction sd refs rm s rule: remove_images.induct)
  case (2 sd refs e es s)
  obtain r s1 where rm: "os_remove (path_join (imagesDir sd) (imageFileName (h_ImagePath e))) s = (r, s1)"
    by fastforce
  have "node_at s1 (historyPath sd) = node_at s (historyPath sd)"
    using touchesD [OF touches_calls(4) rm] remove_image_history [OF imageFileName_no_slash] by (metis singletonD)
  then have "history_list sd s1 = history_list sd s" by (simp add: history_list_def)
  then show ?case using 2 rm by (simp add: Let_def)
qed simp

section \<open>Sequences of history operations\<close>

datatype history_op =
    OpAppend content string string
  | OpRecap
  | OpPin string bool
  | OpDelete string
  | OpClear

fun run_history_op :: "string \<Rightarrow> int option \<Rightarrow> history_op \<Rightarrow> unit store_io" where
  "run_history_op sd loaded (OpAppend c origin imagePath) = AppendHistory sd loaded c origin imagePath"
| "run_history_op sd loaded OpRecap = Recap sd loaded"
| "run_history_op sd loaded (OpPin i p) = SetPinned sd i p"
| "run_history_op sd loaded (OpDelete i) = DeleteEntry sd i"
| "run_history_op sd loaded OpClear = ClearUnpinned sd"

text \<open>Any sequence of operations, each under its own loaded configuration; an operation that
  returns an error is followed by the next one like any other.\<close>

inductive history_run :: "string \<Rightarrow> store_doc fs \<Rightarrow> store_doc fs \<Rightarrow> bool" for sd where
  run_start: "history_run sd s s"
| run_step: "history_run sd s t \<Longrightarrow> run_history_op sd loaded op t = (r, u) \<Longrightarrow> history_run sd s u"

definition wf_file :: "string \<Rightarrow> store_doc fs \<Rightarrow> bool" where
  "wf_file sd s \<longleftrightarrow> (case history_list sd s of None \<Rightarrow> True | Some l \<Rightarrow> history_wf l)"

lemma wf_file_iff: "wf_file sd s \<longleftrightarrow> (\<forall>l. history_list sd s = Some l \<longrightarrow> history_wf l)"
  by (simp add: wf_file_def split: option.splits)

lemma io_bind_assoc: "io_bind (io_bind m f) g = io_bind m (\<lambda>x. io_bind (f x) g)"
  by (rule ext) (simp add: io_bind_def split: prod.splits sum.splits)

lemma rewrite_then_remove:
  assumes "io_bind (readHistory sd) (\<lambda>l. io_bind (writeHistory sd (f l))
             (\<lambda>_. removeUnreferencedImages sd (g l) (f l))) s = (r, s')"
  shows "\<exists>s1. rewrite_history sd f s = (r, s1) \<and> history_list sd s' = history_list sd s1"
  using assms unfolding rewrite_history_def
  by (elim io_bindE) (auto simp: io_bind_def removeUnreferencedImages_def remove_images_history)

lemma run_history_op_rewrite:
  assumes "run_history_op sd loaded op s = (r, s')"
  shows "\<exists>f s1. history_update f \<and> rewrite_history sd f s = (r, s1) \<and>
    history_list sd s' = history_list sd s1"
proof (cases op)
  case (OpAppend c origin imagePath)
  with assms have "rewrite_history sd
      (\<lambda>l. capTrim (float_entry (make_entry c origin imagePath) l) (capLimit loaded)) s = (r, s')"
    by (simp add: AppendHistory_def rewrite_history_def)
  then show ?thesis using append.history_update_axioms by blast
next
  case OpRecap
  with assms have "rewrite_history sd (\<lambda>l. capTrim l (capLimit loaded)) s = (r, s')"
    by (simp add: Recap_def rewrite_history_def)
  then show ?thesis using recap.history_update_axioms by blast
next
  case (OpPin i p)
  with assms have "rewrite_history sd (set_pinned i p) s = (r, s')"
    by (simp add: SetPinned_def rewrite_history_def)
  then show ?thesis using pin.history_update_axioms by blast
next
  case (OpDelete i)
  with assms have "io_bind (readHistory sd) (\<lambda>l. io_bind (writeHistory sd (filter (\<lambda>e. h_ID e \<noteq> i) l))
     (\<lambda>_. removeUnreferencedImages sd (filter (\<lambda>e. \<not> h_ID e \<noteq> i) l) (filter (\<lambda>e. h_ID e \<noteq> i) l))) s
     = (r, s')" by (simp add: DeleteEntry_def Let_def)
  from rewrite_then_remove [OF this] show ?thesis using keep.history_update_axioms by blast
next
  case OpClear
  with assms have "io_bind (readHistory sd) (\<lambda>l. io_bind (writeHistory sd (filter h_Pinned l))
     (\<lambda>_. removeUnreferencedImages sd (filter (\<lambda>e. \<not> h_Pinned e) l) (filter h_Pinned l))) s
     = (r, s')" by (simp add: ClearUnpinned_def Let_def)
  from rewrite_then_remove [OF this] show ?thesis using keep.history_update_axioms by blast
qed

lemma run_history_op_wf:
  assumes "run_history_op sd loaded op s = (r, s')" and "wf_file sd s"
  shows "wf_file sd s'"
proof -
  obtain f s1 where f: "history_update f" "rewrite_history sd f s = (r, s1)"
    "history_list sd s' = history_list sd s1"
    using run_history_op_rewrite [OF assms(1)] by blast
  have "\<forall>l. history_list sd s1 = Some l \<longrightarrow> history_wf l"
    by (rule history_update.file_stays_wf [OF f(1,2)]) (use assms(2) in \<open>simp add: wf_file_iff\<close>)
  with f(3) show ?thesis by (simp add: wf_file_iff)
qed

section \<open>Images on disk\<close>

text \<open>The path of a stored image is neither the state directory nor one of its own files.\<close>

lemma image_path_neq:
  assumes "plain_name n"
  shows "path_join (imagesDir sd) n \<noteq> sd" "path_join (imagesDir sd) n \<noteq> historyPath sd"
    "path_join (imagesDir sd) n \<noteq> imagesDir sd"
proof -
  have n: "slash \<notin> set n" using assms by (simp add: plain_name_def)
  have "clean_stack_of (path_join (imagesDir sd) n) = n # ''images'' # clean_stack_of sd"
    using assms by (simp add: imagesDir_def clean_stack_join slash_def plain_name_def)
  then show "path_join (imagesDir sd) n \<noteq> sd"
    by (metis length_Cons n_not_Suc_n not_less_eq lessI less_not_refl2 Suc_n_not_le_n le_SucI le_refl)
  show "path_join (imagesDir sd) n \<noteq> historyPath sd" by (rule remove_image_history [OF n])
  show "path_join (imagesDir sd) n \<noteq> imagesDir sd" by (rule path_join_neq_dir [OF assms])
qed

lemma remove_images_keeps:
  assumes "plain_name n" and "n \<in> set refs"
  shows "node_at (remove_images sd refs rm s) (path_join (imagesDir sd) n) =
         node_at s (path_join (imagesDir sd) n)"
proof (induction rm arbitrary: s)
  case (Cons e es)
  let ?m = "imageFileName (h_ImagePath e)"
  obtain r s1 where rm: "os_remove (path_join (imagesDir sd) ?m) s = (r, s1)" by fastforce
  have "node_at s1 (path_join (imagesDir sd) n) = node_at s (path_join (imagesDir sd) n)"
    if "?m \<noteq> n"
    using touchesD [OF touches_calls(4) rm] that
      path_join_plain_eq [OF assms(1) imageFileName_no_slash] by (metis singletonD)
  then show ?case using Cons assms(2) rm by (auto simp: Let_def)
qed simp

lemma gc_loop_keeps:
  assumes "plain_name n" and "n \<in> set refs" and "\<forall>m \<in> set names. slash \<notin> set m"
  shows "node_at (gc_loop dir refs k names s) (path_join dir n) = node_at s (path_join dir n)"
  using assms(3)
proof (induction names arbitrary: k s)
  case (Cons m names)
  obtain r s1 where rm: "os_remove (path_join dir m) s = (r, s1)" by fastforce
  have "node_at s1 (path_join dir n) = node_at s (path_join dir n)" if "m \<noteq> n"
    using touchesD [OF touches_calls(4) rm] that Cons.prems
      path_join_plain_eq [OF assms(1)] by (metis list.set_intros(1) singletonD)
  then show ?case using Cons assms(2) rm by (cases r) auto
qed simp

lemma gc_stamps_spec:
  "gc_stamps dir es s = (all, s') \<Longrightarrow>
   node_at s' = node_at s \<and> set (map fst all) \<subseteq> set (map fst es)"
proof (induction es arbitrary: s all s')
  case (Cons e es)
  obtain name n where e: "e = (name, n)" by fastforce
  obtain r s1 where st: "os_lstat (path_join dir name) s = (r, s1)" by fastforce
  note q = quiet_nodes [OF touches_calls(5) st]
  obtain a0 t0 where r0: "gc_stamps dir es s = (a0, t0)" by fastforce
  obtain a1 t1 where r1: "gc_stamps dir es s1 = (a1, t1)" by fastforce
  show ?case using Cons.prems Cons.IH [OF r0] Cons.IH [OF r1] st q e r0 r1
    by (cases r) (auto split: if_splits, force)
qed simp

lemma readHistory_touches: "touches {sd, historyPath sd} (readHistory sd)"
proof (rule touchesI)
  fix s r s' q assume r: "readHistory sd s = (r, s')" and q: "q \<notin> {sd, historyPath sd}"
  have t: "touches {sd, historyPath sd} (repairStateFile sd (historyPath sd))"
    unfolding repairStateFile_def
    by (intro touches_bind touches_mono [OF ensurePrivateDir_touches] touches_mono [OF touches_calls(5)])
      (auto intro: touchesI touches_mono [OF touches_calls(1)] simp: io_fail_def)
  obtain r1 s1 where r1: "repairStateFile sd (historyPath sd) s = (r1, s1)" by fastforce
  have q1: "node_at s1 q = node_at s q" by (rule touchesD [OF t r1 q])
  obtain r2 s2 where r2: "os_read_file (historyPath sd) s1 = (r2, s2)" by fastforce
  have "node_at s2 = node_at s1" by (rule quiet_nodes [OF touches_calls(6) r2])
  with r r1 r2 q1 show "node_at s' q = node_at s q"
    by (cases r1; cases r2)
      (auto simp: readHistory_def io_bind_def io_return_def io_fail_def
        split: option.splits store_doc.splits if_splits)
qed

lemma os_read_dir_cases:
  assumes "os_read_dir dir s = (r, s')"
  shows "node_at s' = node_at s \<and> (\<forall>es. r = Inr es \<longrightarrow> (\<forall>m \<in> set (map fst es). slash \<notin> set m))"
proof -
  have "touches {} (os_read_dir dir)"
    unfolding os_read_dir_def
    by (rule touches_syscall) (auto split: option.splits node.splits)
  from quiet_nodes [OF this assms] show ?thesis
    using assms unfolding os_read_dir_def
    by (elim syscallE) (auto simp: dir_entries_def split: option.splits node.splits)
qed

lemma ReferencedImages_spec:
  assumes "ReferencedImages sd s = (Inr names, s')"
  shows "\<exists>l. history_list sd s = Some l \<and>
    names = map (\<lambda>e. path_base (h_ImagePath e)) (filter (\<lambda>e. h_ImagePath e \<noteq> []) l)"
  using assms readHistory_sound unfolding ReferencedImages_def
  by (elim io_bindE) (auto simp: io_return_def)

lemma ReferencedImages_touches: "touches {sd, historyPath sd} (ReferencedImages sd)"
  unfolding ReferencedImages_def
  by (rule touches_bind [OF readHistory_touches]) (auto intro: touchesI simp: io_return_def)


lemma gc_keeps:
  assumes "plain_name n" and "history_list sd s = Some l" and "e \<in> set l"
    and "h_ImagePath e \<noteq> []" and "path_base (h_ImagePath e) = n"
    and "\<forall>s0 err s1. os_read_dir (imagesDir sd) s = (r0, s0) \<longrightarrow> ReferencedImages sd s0 \<noteq> (Inl err, s1)"
    and r0: "r0 = fst (os_read_dir (imagesDir sd) s)"
  shows "node_at (gc sd loaded s) (path_join (imagesDir sd) n) = node_at s (path_join (imagesDir sd) n)"
proof -
  let ?p = "path_join (imagesDir sd) n"
  obtain s0 where d: "os_read_dir (imagesDir sd) s = (r0, s0)" using r0 by (metis prod.collapse)
  note d' = os_read_dir_cases [OF d]
  show ?thesis
  proof (cases r0)
    case (Inl err)
    with d d' show ?thesis by (simp add: gc_def)
  next
    case (Inr entries)
    obtain names s1 where ri: "ReferencedImages sd s0 = (Inr names, s1)"
      using assms(6) d by (metis sum.exhaust surj_pair)
    have "history_list sd s0 = Some l" using d' assms(2) by (simp add: history_list_def)
    then have n: "n \<in> set names" using ReferencedImages_spec [OF ri] assms(3-5) by auto
    have p1: "node_at s1 ?p = node_at s0 ?p"
      using touchesD [OF ReferencedImages_touches ri] image_path_neq [OF assms(1)] by auto
    obtain all s2 where st: "gc_stamps (imagesDir sd) entries s1 = (all, s2)" by fastforce
    note st' = gc_stamps_spec [OF st]
    have "\<forall>m \<in> set (map fst (stable_sort lt all)). slash \<notin> set m" for lt
      using st' d' Inr set_stable_sort [of lt all] by fastforce
    then have "node_at (gc_loop (imagesDir sd) names k (map fst (stable_sort lt all)) s2) ?p =
        node_at s2 ?p" for lt k
      by (rule gc_loop_keeps [OF assms(1) n])
    then show ?thesis using d d' Inr ri p1 st st' by (simp add: gc_def Let_def)
  qed
qed

lemma readHistory_no_fault:
  assumes "faults s = []" and "node_at s sd = Some (Directory m)" and "history_list sd s = Some l"
  shows "\<exists>s'. readHistory sd s = (Inr l, s') \<and> faults s' = []"
proof (cases "node_at s (historyPath sd)")
  case None
  then show ?thesis using assms
    by (auto simp: readHistory_def repairStateFile_def ensurePrivateDir_def fault_free
        is_dir_node_def history_list_def)
next
  case (Some n)
  with assms(3) obtain k t where "n = Regular k (Some (HistoryDoc l)) t"
    by (auto simp: history_list_def split: node.splits option.splits store_doc.splits)
  with Some show ?thesis using assms(1,2)
    by (auto simp: readHistory_def repairStateFile_def ensurePrivateDir_def fault_free
        is_dir_node_def is_regular_node_def)
qed

lemma os_read_dir_no_fault: "faults s = [] \<Longrightarrow> snd (os_read_dir dir s) = s"
  by (auto simp: os_read_dir_def fault_free split: option.splits node.splits)

lemma ReferencedImages_no_fault:
  assumes "faults s = []" and "node_at s sd = Some (Directory m)" and "history_list sd s = Some l"
  shows "ReferencedImages sd s \<noteq> (Inl err, s1)"
  using readHistory_no_fault [OF assms]
  by (auto simp: ReferencedImages_def io_bind_def io_return_def)

section \<open>Saving an image\<close>

lemma isHex64_digest: "isHex64 (hex_encode (sha256 b))"
proof -
  have "list_all (\<lambda>c. char_in (CHR ''0'') (CHR ''9'') c \<or> char_in (CHR ''a'') (CHR ''f'') c)
      (hex_encode bs)" for bs
  proof (induction bs)
    case (Cons c cs)
    have "char_in (CHR ''0'') (CHR ''9'') (hex_digit n) \<or> char_in (CHR ''a'') (CHR ''f'') (hex_digit n)"
      if "n < 16" for n
      using that by (auto simp: hex_digit_def)
    moreover have "of_char c div 16 < (16 :: nat)"
      using of_char_less_256 [of c] by (simp add: div_less_iff_less_mult)
    ultimately show ?case using Cons by simp
  qed simp
  then show ?thesis by (simp add: isHex64_def length_sha256)
qed

lemma hex64_no_slash: "isHex64 h \<Longrightarrow> slash \<notin> set h"
  by (auto simp: isHex64_def list_all_iff slash_def)

lemma image_name_plain: "plain_name (image_name b)"
  using hex64_no_slash [OF isHex64_digest, of b]
  by (auto simp: plain_name_def image_name_def slash_def)

lemma writeAtomic_Inr:
  "writeAtomic p d m s = (Inr u, s') \<Longrightarrow> \<exists>t. node_at s' p = Some (Regular m (Some d) t)"
  using tripleD(1) [OF writeAtomic_triple, of p "node_at s p" s]
  by (fastforce simp: holds_old_def installed_def)

lemma ensurePrivateDir_Inr:
  "ensurePrivateDir p s = (Inr u, s') \<Longrightarrow> node_at s' p = Some (Directory privateDirMode)"
  unfolding ensurePrivateDir_def
  by (elim io_bindE)
    (auto simp: io_fail_def os_chmod_def is_dir_node_def dest!: os_lstat_cases elim!: syscallE
      split: if_splits node.splits option.splits)

lemma SaveImage_result:
  assumes "SaveImage sd body s = (Inr path, s')"
  shows "path = path_join (imagesDir sd) (image_name body) \<and>
    (\<exists>d t. node_at s' path = Some (Regular privateFileMode d t) \<and>
      (node_at s path = None \<longrightarrow> d = Some (Blob body)))"
proof -
  let ?p = "path_join (imagesDir sd) (image_name body)"
  obtain s1 s2 where
    e: "ensurePrivateDir sd s = (Inr (), s1)" "ensurePrivateDir (imagesDir sd) s1 = (Inr (), s2)" and
    r: "(case os_lstat ?p s2 of
          (Inr info, s') \<Rightarrow>
            (if \<not> is_regular_node info then (Inl (ErrMsg ''image file is not a regular file''), s')
             else io_bind (os_chmod ?p privateFileMode) (\<lambda>_. io_return ?p) s')
        | (Inl _, s') \<Rightarrow>
            io_bind (writeAtomic ?p (Blob body) privateFileMode) (\<lambda>_. io_return ?p) s') = (Inr path, s')"
    using assms unfolding SaveImage_def Let_def by (elim io_bindE) auto
  have old: "node_at s2 ?p = node_at s ?p"
    using touchesD [OF ensurePrivateDir_touches e(1), of ?p]
      touchesD [OF ensurePrivateDir_touches e(2), of ?p] image_path_neq [OF image_name_plain]
    by auto
  obtain r3 s3 where st: "os_lstat ?p s2 = (r3, s3)" by fastforce
  note st' = os_lstat_cases [OF st]
  show ?thesis
  proof (cases r3)
    case (Inl err)
    with r st have "writeAtomic ?p (Blob body) privateFileMode s3 = (Inr (), s')" "path = ?p"
      by (auto simp: io_return_def elim!: io_bindE)
    then show ?thesis using writeAtomic_Inr by fastforce
  next
    case (Inr n)
    with r st have "is_regular_node n" "os_chmod ?p privateFileMode s3 = (Inr (), s')" "path = ?p"
      by (auto simp: io_return_def elim!: io_bindE split: if_splits)
    moreover from this obtain k d t where "n = Regular k d t"
      by (auto simp: is_regular_node_def split: node.splits)
    ultimately show ?thesis using os_chmod_Inr [of ?p privateFileMode s3 "()" s'] st' Inr old by auto
  qed
qed

lemma state_paths_neq:
  "statePath sd \<noteq> textPath sd" "statePath sd \<noteq> tmp_of (textPath sd)"
  "statePath sd \<noteq> sd" "textPath sd \<noteq> sd" "sd \<noteq> tmp_of (textPath sd)" "sd \<noteq> tmp_of (statePath sd)"
proof -
  have t: "tmp_of (path_join sd n) = path_join sd (n @ ''.tmp'')"
    if "plain_name n" "plain_name (n @ ''.tmp'')" for n
    using that by (simp add: tmp_of_def path_join_plain)
  have p: "plain_name ''current.txt.tmp''" "plain_name ''state.json.tmp''"
    by (simp_all add: plain_name_def slash_def)
  show "statePath sd \<noteq> textPath sd" "statePath sd \<noteq> tmp_of (textPath sd)"
    using t [of "''current.txt''"] p by (simp_all add: statePath_def textPath_def path_join_inj)
  show "statePath sd \<noteq> sd" "textPath sd \<noteq> sd"
    by (simp_all add: statePath_def textPath_def path_join_neq_dir)
  show "sd \<noteq> tmp_of (textPath sd)" "sd \<noteq> tmp_of (statePath sd)"
    using t [of "''current.txt''"] t [of "''state.json''"] p path_join_neq_dir [OF p(1), of sd]
      path_join_neq_dir [OF p(2), of sd]
    by (simp_all add: statePath_def textPath_def not_sym)
qed

lemma SaveState_result:
  assumes "SaveState sd st text s = (Inr u, s')"
  shows "node_at s' sd = Some (Directory privateDirMode) \<and>
    (\<exists>t. node_at s' (statePath sd) = Some (Regular privateFileMode (Some (StateDoc (json_state st))) t)) \<and>
    (\<exists>t. node_at s' (textPath sd) = Some (Regular privateFileMode (Some (Blob text)) t))"
proof -
  obtain s1 s2 where e: "ensurePrivateDir sd s = (Inr (), s1)" and
    w: "writeAtomic (statePath sd) (StateDoc (json_state st)) privateFileMode s1 = (Inr (), s2)"
      "writeAtomic (textPath sd) (Blob text) privateFileMode s2 = (Inr (), s')"
    using assms unfolding SaveState_def by (elim io_bindE) auto
  have "node_at s2 sd = node_at s1 sd" "node_at s' sd = node_at s2 sd"
    "node_at s' (statePath sd) = node_at s2 (statePath sd)"
    using touchesD [OF writeAtomic_touches w(1)] touchesD [OF writeAtomic_touches w(2)]
      state_paths_neq [of sd] by auto
  then show ?thesis
    using ensurePrivateDir_Inr [OF e] writeAtomic_Inr [OF w(1)] writeAtomic_Inr [OF w(2)] by simp
qed

lemma load_no_fault:
  assumes "faults s = []" and "node_at s sd = Some (Directory m)"
  shows "node_at s (textPath sd) = Some (Regular k (Some (Blob b)) t) \<Longrightarrow>
           fst (LoadText sd s) = Inr (Some b)"
    and "node_at s (statePath sd) = Some (Regular k (Some (StateDoc st)) t) \<Longrightarrow>
           fst (LoadState sd s) = Inr st"
  using assms state_paths_neq [of sd]
  by (auto simp: LoadText_def LoadState_def repairStateFile_def ensurePrivateDir_def fault_free
      is_dir_node_def is_regular_node_def)

lemma image_path_neq_tmp:
  assumes "plain_name n" shows "path_join (imagesDir sd) n \<noteq> tmp_of (historyPath sd)"
proof -
  have "tmp_of (historyPath sd) = path_join sd ''history.json.tmp''"
    by (simp add: historyPath_def tmp_of_def path_join_plain plain_name_def slash_def)
  moreover have "clean_stack_of (path_join sd ''history.json.tmp'') = ''history.json.tmp'' # clean_stack_of sd"
    by (simp add: clean_stack_join slash_def)
  moreover have "clean_stack_of (path_join (imagesDir sd) n) = n # ''images'' # clean_stack_of sd"
    using assms by (simp add: imagesDir_def clean_stack_join slash_def plain_name_def)
  moreover have "n # ''images'' # clean_stack_of sd \<noteq> ''history.json.tmp'' # clean_stack_of sd" by simp
  ultimately show ?thesis by auto
qed

lemma writeHistory_touches:
  "touches {sd, historyPath sd, tmp_of (historyPath sd)} (writeHistory sd l)"
  unfolding writeHistory_def
  by (intro touches_bind touches_mono [OF ensurePrivateDir_touches] touches_mono [OF writeAtomic_touches])
    auto

lemma imagesDir_neq: "imagesDir sd \<noteq> sd"
  by (simp add: imagesDir_def path_join_neq_dir)

lemma image_tmp_neq:
  "tmp_of (path_join (imagesDir sd) (image_name b)) \<notin> {sd, imagesDir sd, historyPath sd}"
proof -
  have n: "plain_name (image_name b @ ''.tmp'')"
    using image_name_plain [of b] by (auto simp: plain_name_def image_name_def slash_def)
  then have "tmp_of (path_join (imagesDir sd) (image_name b)) = path_join (imagesDir sd) (image_name b @ ''.tmp'')"
    by (simp add: tmp_of_def path_join_plain image_name_plain)
  then show ?thesis using image_path_neq [OF n] by auto
qed

lemma path_base_image_name: "path_base (image_name b) = image_name b"
  using path_base_join [OF image_name_plain, of "[]" b] image_name_plain [of b]
  by (simp add: path_join_plain dir_prefix_def clean_stack_of_def has_prefix_def)

lemma trim_space_image_name: "trim_space (image_name b) = image_name b"
proof (rule trim_space_id)
  have ne: "hex_encode (sha256 b) \<noteq> []"
    using length_hex_encode [of "sha256 b"] by (auto simp: length_sha256 simp del: length_hex_encode)
  then have "hd (image_name b) \<in> set (hex_encode (sha256 b))"
    by (simp add: image_name_def)
  then have "char_in (CHR ''0'') (CHR ''9'') (hd (image_name b)) \<or> char_in (CHR ''a'') (CHR ''f'') (hd (image_name b))"
    using isHex64_digest [of b] by (auto simp: isHex64_def list_all_iff)
  then show "hd (image_name b) \<notin> hd ` set go_spaces" by (auto simp: go_spaces_def)
qed (auto simp: image_name_def go_spaces_def)

section \<open>Properties\<close>

text \<open>Retention keeps every pinned entry, in order, and of the unpinned ones exactly the newest
  that fit beside them, so the list has as many entries as the cap allows, or as there are
  pinned ones.\<close>

lemma capTrim_retention:
  "filter h_Pinned (capTrim l cap) = filter h_Pinned l \<and>
   filter (\<lambda>e. \<not> h_Pinned e) (capTrim l cap) =
     take (nat (cap - pinnedCount l)) (filter (\<lambda>e. \<not> h_Pinned e) l) \<and>
   subseq (capTrim l cap) l \<and>
   length (capTrim l cap) = max (length (filter h_Pinned l)) (min (length l) (nat cap))"
  using filter_pinned_capTrim filter_unpinned_capTrim capTrim_subseq length_capTrim by simp

text \<open>Whatever sequence of appends, recaps, pins, deletions and clears runs on the history,
  and whichever file operation fails in it, the file never holds two entries with one
  identifier.\<close>

lemma history_ids_stay_distinct:
  assumes "history_run sd s t" and "wf_file sd s"
  shows "wf_file sd t"
  using assms by (induction rule: history_run.induct) (auto dest: run_history_op_wf)

text \<open>A store with one unpinned entry, used to show the statements below at work.\<close>

definition entry_example :: history_entry where
  "entry_example = \<lparr>h_ID = ''ab'', h_Kind = ''text'', h_Preview = ''x'', h_Text = ''x'',
     h_ImagePath = [], h_SizeBytes = 1, h_Origin = ''mac'', h_TS = 5, h_Pinned = False\<rparr>"

definition store_example :: "store_doc fs" where
  "store_example = \<lparr>nodes = [(''/s'', Directory 448),
     (''/s/history.json'', Regular 384 (Some (HistoryDoc [entry_example])) 1)], faults = [], clock = 7\<rparr>"

lemma history_list_example: "history_list ''/s'' store_example = Some [entry_example]"
  by (simp add: history_list_def store_example_def node_at_def historyPath_def path_join_def
      path_clean_def slash_def has_prefix_def)

lemma history_wf_example: "history_wf [entry_example]"
  by (simp add: history_wf_def distinct_ids_def entry_example_def json_string_ascii is_ascii_def)

lemma history_ids_stay_distinct_witness:
  "wf_file ''/s'' (snd (ClearUnpinned ''/s'' store_example))"
proof (rule history_ids_stay_distinct)
  show "history_run ''/s'' store_example (snd (ClearUnpinned ''/s'' store_example))"
    by (rule run_step [OF run_start, of _ None OpClear]) (simp add: prod_eq_iff)
  show "wf_file ''/s'' store_example"
    by (simp add: wf_file_def history_list_example history_wf_example)
qed

lemma carry_pin_eq:
  "distinct_ids l \<Longrightarrow> carry_pin i False l \<longleftrightarrow> (\<exists>e \<in> set l. h_ID e = i \<and> h_Pinned e)"
proof (cases "\<exists>e \<in> set l. h_ID e = i")
  case True
  then obtain e where e: "e \<in> set l" "h_ID e = i" by blast
  assume "distinct_ids l"
  then have d: "distinct (map h_ID l)" by (simp add: distinct_ids_def)
  have "carry_pin i False l = h_Pinned e" by (rule carry_pin_present [OF d e])
  moreover have "e' = e" if "e' \<in> set l" "h_ID e' = i" for e'
    using d e that unfolding distinct_map by (metis inj_onD)
  ultimately show ?thesis using e by metis
next
  case False
  then show ?thesis using carry_pin_absent [of i l] by auto
qed

lemma make_entry_unpinned [simp]: "h_Pinned (make_entry c origin imagePath) = False"
  "h_ID (make_entry c origin imagePath) = hex_encode (c_Hash c)"
  by (simp_all add: make_entry_def)

lemma json_entry_pinned [simp]: "h_Pinned (json_entry e) = h_Pinned e"
  by (simp add: json_entry_def)

lemma pinnedCount_float:
  assumes "distinct_ids l" and "\<not> h_Pinned n"
  shows "pinnedCount (float_entry n l) \<le> pinnedCount l"
proof -
  let ?here = "filter (\<lambda>e. h_Pinned e \<and> h_ID e = h_ID n) l"
  have "length (filter h_Pinned l) =
      length (filter h_Pinned (filter (\<lambda>e. h_ID e \<noteq> h_ID n) l)) + length ?here"
    using sum_length_filter_compl [of "\<lambda>e. h_ID e \<noteq> h_ID n" "filter h_Pinned l"]
    by (simp add: conj_commute)
  moreover have "0 < length ?here" if "carry_pin (h_ID n) False l"
    using that carry_pin_eq [OF assms(1)] by (auto simp: filter_empty_conv)
  ultimately show ?thesis
    using assms(2) by (cases "carry_pin (h_ID n) False l") (simp_all add: float_entry_def pinnedCount_def Suc_le_eq)
qed

lemma capTrim_Cons_kept:
  "h_Pinned e \<or> pinnedCount l < cap \<Longrightarrow> capTrim (e # l) cap \<noteq> [] \<and> hd (capTrim (e # l) cap) = e"
  by (auto simp: capTrim_def pinnedCount_def Let_def)

lemma pinned_in_capTrim: "e \<in> set l \<Longrightarrow> h_Pinned e \<Longrightarrow> e \<in> set (capTrim l cap)"
proof -
  assume "e \<in> set l" "h_Pinned e"
  then have "e \<in> set (filter h_Pinned (capTrim l cap))" by (simp add: filter_pinned_capTrim)
  then show ?thesis by simp
qed

lemma json_filter_ids:
  "\<forall>e \<in> set k. json_string (h_ID e) = h_ID e \<Longrightarrow>
   filter (\<lambda>e. h_ID e \<noteq> i) (map json_entry k) = map json_entry (filter (\<lambda>e. h_ID e \<noteq> i) k)"
  by (induction k) auto

text \<open>What floating and trimming do to a well-formed list, before and after its encoding.\<close>

lemma append_list:
  assumes wf: "history_wf l" and n: "\<not> h_Pinned n" "json_string (h_ID n) = h_ID n" and cap: "0 < cap"
  defines "pin \<equiv> \<exists>e \<in> set l. h_ID e = h_ID n \<and> h_Pinned e"
    and "old \<equiv> filter (\<lambda>e. h_ID e \<noteq> h_ID n) l"
    and "l' \<equiv> map json_entry (capTrim (float_entry n l) cap)"
  shows "pin \<or> pinnedCount old < cap \<Longrightarrow> l' \<noteq> [] \<and> hd l' = json_entry (n\<lparr>h_Pinned := pin\<rparr>)"
    and "\<forall>e \<in> set l. h_Pinned e \<longrightarrow> (\<exists>e' \<in> set l'. h_ID e' = h_ID e \<and> h_Pinned e')"
    and "subseq (filter (\<lambda>e. h_ID e \<noteq> h_ID n) l') (map json_entry old)"
    and "int (length l') \<le> max cap (pinnedCount l)"
    and "let full = n\<lparr>h_Pinned := pin\<rparr> # old in subseq l' (map json_entry full) \<and>
      filter h_Pinned l' = map json_entry (filter h_Pinned full) \<and>
      filter (\<lambda>e. \<not> h_Pinned e) l' = map json_entry (take (nat (cap - pinnedCount full)) (filter (\<lambda>e. \<not> h_Pinned e) full))"
proof -
  have ids: "distinct_ids l" "\<forall>e \<in> set l. json_string (h_ID e) = h_ID e"
    using wf by (auto simp: history_wf_def list_all_iff)
  define top where "top = n\<lparr>h_Pinned := pin\<rparr>"
  have fl: "float_entry n l = top # old"
    using carry_pin_eq [OF ids(1)] n(1) by (simp add: float_entry_def top_def pin_def old_def)
  have top: "h_ID top = h_ID n" "h_Pinned top = pin" by (simp_all add: top_def)
  show "l' \<noteq> [] \<and> hd l' = json_entry (n\<lparr>h_Pinned := pin\<rparr>)" if "pin \<or> pinnedCount old < cap"
    using capTrim_Cons_kept [of top old cap] that top fl by (simp add: l'_def hd_map flip: top_def)
  show "\<forall>e \<in> set l. h_Pinned e \<longrightarrow> (\<exists>e' \<in> set l'. h_ID e' = h_ID e \<and> h_Pinned e')"
  proof (intro ballI impI)
    fix e assume e: "e \<in> set l" "h_Pinned e"
    define k where "k = (if h_ID e = h_ID n then top else e)"
    have k: "k \<in> set (top # old)" "h_Pinned k" "h_ID k = h_ID e"
      using e top by (auto simp: k_def pin_def old_def)
    then have "json_entry k \<in> set l'"
      using pinned_in_capTrim [OF k(1,2)] fl by (simp add: l'_def)
    then show "\<exists>e' \<in> set l'. h_ID e' = h_ID e \<and> h_Pinned e'"
      using k ids(2) e(1) by (intro bexI [of _ "json_entry k"]) simp_all
  qed
  have "\<forall>e \<in> set (top # old). json_string (h_ID e) = h_ID e"
    using ids(2) n(2) top by (auto simp: old_def)
  then have "\<forall>e \<in> set (capTrim (top # old) cap). json_string (h_ID e) = h_ID e"
    using set_capTrim by blast
  moreover have "filter (\<lambda>e. h_ID e \<noteq> h_ID n) (top # old) = old"
    using top by (simp add: old_def)
  ultimately show "subseq (filter (\<lambda>e. h_ID e \<noteq> h_ID n) l') (map json_entry old)"
    using subseq_filter [OF capTrim_subseq, of "\<lambda>e. h_ID e \<noteq> h_ID n" "top # old" cap]
    by (simp only: l'_def fl json_filter_ids subseq_map)
  show "int (length l') \<le> max cap (pinnedCount l)"
    using length_capTrim [of "float_entry n l" cap] pinnedCount_float [OF ids(1) n(1)] cap
    by (auto simp: l'_def pinnedCount_def)
  have "h_Pinned \<circ> json_entry = h_Pinned" "(\<lambda>e. \<not> h_Pinned e) \<circ> json_entry = (\<lambda>e. \<not> h_Pinned e)" by auto
  then show "let full = n\<lparr>h_Pinned := pin\<rparr> # old in subseq l' (map json_entry full) \<and>
      filter h_Pinned l' = map json_entry (filter h_Pinned full) \<and>
      filter (\<lambda>e. \<not> h_Pinned e) l' = map json_entry (take (nat (cap - pinnedCount full)) (filter (\<lambda>e. \<not> h_Pinned e) full))"
    using filter_pinned_capTrim [of "top # old" cap] filter_unpinned_capTrim [of "top # old" cap] subseq_map [OF capTrim_subseq [of "top # old" cap], of json_entry]
    unfolding Let_def l'_def fl filter_map by (simp only: top_def)
qed

lemma capLimit_pos: "0 < capLimit loaded"
  by (simp add: capLimit_def DefaultMaxHistory_def split: option.splits)

lemma AppendHistory_result:
  assumes "AppendHistory sd loaded c origin imagePath s = (r, s')"
    and "history_list sd s = Some l"
  shows "case r of Inl _ \<Rightarrow> history_list sd s' = Some l
    | Inr _ \<Rightarrow> history_list sd s' =
        Some (map json_entry (capTrim (float_entry (make_entry c origin imagePath) l) (capLimit loaded)))"
  using assms rewrite_history_sound [of sd
      "\<lambda>l. capTrim (float_entry (make_entry c origin imagePath) l) (capLimit loaded)" s r s']
  by (auto simp: AppendHistory_def rewrite_history_def split: sum.splits)

lemma no_faults_example: "faults store_example = []" "node_at store_example ''/s'' = Some (Directory 448)"
  by (simp_all add: store_example_def node_at_def)

lemma example_paths: "historyPath ''/s'' = ''/s/history.json''" "tmp_of ''/s/history.json'' = ''/s/history.json.tmp''"
  by (simp_all add: historyPath_def path_join_def path_clean_def slash_def has_prefix_def tmp_of_def)

text \<open>C26. A successful \<open>AppendHistory\<close> leaves exactly this: of the list that has the clip on top, with the pin a
  previous copy of it had, and below it the other entries in their old order, all the pinned entries and as
  many of the first of the others as the cap leaves room for. So the clip is on top whenever the pinned entries
  leave room, no pinned entry is lost, and an unpinned one only when the cap is exceeded; a failing one leaves
  the history as it was.\<close>

theorem AppendHistory_effect:
  assumes "AppendHistory sd loaded c origin imagePath s = (r, s')"
    and "history_list sd s = Some l" and "history_wf l"
  shows "case r of
     Inl _ \<Rightarrow> history_list sd s' = Some l
   | Inr _ \<Rightarrow> (\<exists>l'. history_list sd s' = Some l' \<and>
       (let i = hex_encode (c_Hash c); old = filter (\<lambda>e. h_ID e \<noteq> i) l;
            pin = (\<exists>e \<in> set l. h_ID e = i \<and> h_Pinned e);
            full = (make_entry c origin imagePath)\<lparr>h_Pinned := pin\<rparr> # old in
        subseq l' (map json_entry full) \<and>
        filter h_Pinned l' = map json_entry (filter h_Pinned full) \<and>
        filter (\<lambda>e. \<not> h_Pinned e) l' =
          map json_entry (take (nat (capLimit loaded - pinnedCount full)) (filter (\<lambda>e. \<not> h_Pinned e) full)) \<and>
        (pin \<or> pinnedCount old < capLimit loaded \<longrightarrow> l' \<noteq> [] \<and> hd l' = json_entry (hd full)) \<and>
        (\<forall>e \<in> set l. h_Pinned e \<longrightarrow> (\<exists>e' \<in> set l'. h_ID e' = h_ID e \<and> h_Pinned e')) \<and>
        int (length l') \<le> max (capLimit loaded) (pinnedCount l)))"
proof (cases r)
  case (Inl e)
  with AppendHistory_result [OF assms(1,2)] show ?thesis by simp
next
  case (Inr u)
  have n: "\<not> h_Pinned (make_entry c origin imagePath)"
    "json_string (h_ID (make_entry c origin imagePath)) = h_ID (make_entry c origin imagePath)"
    by (simp_all add: hex_id_json)
  note facts = append_list [OF assms(3) n capLimit_pos [of loaded], unfolded make_entry_unpinned(2) Let_def]
  show ?thesis
    using AppendHistory_result [OF assms(1,2)] Inr facts(1,2,4,5)
    by (simp only: sum.case Let_def list.sel) blast
qed

definition clip_example :: content where
  "clip_example = \<lparr>c_ID = [], c_Kind = KindText, c_Bytes = ''x'', c_Hash = ''h'', c_TS = 9, c_Concealed = False\<rparr>"

lemma AppendHistory_example: "\<exists>s'. AppendHistory ''/s'' (Some 2) clip_example ''mac'' [] store_example = (Inr (), s')"
  by (simp add: AppendHistory_def readHistory_def writeHistory_def writeAtomic_def repairStateFile_def
      ensurePrivateDir_def removePathIfExists_def fault_free store_example_def example_paths node_at_def
      set_node_def del_node_def is_dir_node_def is_regular_node_def)

theorem AppendHistory_effect_witness:
  "\<exists>s'. AppendHistory ''/s'' (Some 2) clip_example ''mac'' [] store_example = (Inr (), s') \<and>
     history_list ''/s'' s' = Some [json_entry (make_entry clip_example ''mac'' []), entry_example]"
proof -
  obtain s' where r: "AppendHistory ''/s'' (Some 2) clip_example ''mac'' [] store_example = (Inr (), s')"
    using AppendHistory_example by blast
  have e: "h_ID entry_example \<noteq> hex_encode (c_Hash clip_example)" "\<not> h_Pinned entry_example" "json_entry entry_example = entry_example"
    "capLimit (Some 2) = 2" "h_Pinned_update (\<lambda>_. False) (make_entry clip_example ''mac'' []) = make_entry clip_example ''mac'' []"
    by code_simp+
  have all: "filter (\<lambda>e. \<not> h_Pinned e) l' = l'" if "filter h_Pinned l' = []" for l' using that by (simp add: filter_id_conv filter_empty_conv)
  from AppendHistory_effect [OF r history_list_example history_wf_example] obtain l' where
    "history_list ''/s'' s' = Some l'" "filter h_Pinned l' = []"
    "filter (\<lambda>e. \<not> h_Pinned e) l' = [json_entry (make_entry clip_example ''mac'' []), entry_example]"
    by (auto simp: Let_def e pinnedCount_def)
  with r all [of l'] show ?thesis by simp
qed

lemma rewrite_remove_effect:
  assumes r: "io_bind (readHistory sd) (\<lambda>l. io_bind (writeHistory sd (f l))
             (\<lambda>_. removeUnreferencedImages sd (g l) (f l))) s = (Inr u, s')"
    and hl: "history_list sd s = Some l"
  shows "history_list sd s' = Some (map json_entry (f l))"
    and "e \<in> set (f l) \<Longrightarrow> plain_name (imageFileName (h_ImagePath e)) \<Longrightarrow>
         node_at s' (path_join (imagesDir sd) (imageFileName (h_ImagePath e))) =
         node_at s (path_join (imagesDir sd) (imageFileName (h_ImagePath e)))"
proof -
  obtain s1 s2 where rd: "readHistory sd s = (Inr l, s1)" and wr: "writeHistory sd (f l) s1 = (Inr (), s2)"
    and s': "s' = remove_images sd (referenced_names (f l)) (g l) s2"
    using r readHistory_sound [of sd s] hl
    by (elim io_bindE) (auto simp: removeUnreferencedImages_def)
  show "history_list sd s' = Some (map json_entry (f l))"
    using writeHistory_sound [OF wr] by (simp add: s' remove_images_history)
  assume e: "e \<in> set (f l)" and n: "plain_name (imageFileName (h_ImagePath e))"
  let ?n = "imageFileName (h_ImagePath e)" and ?P = "{sd, historyPath sd, tmp_of (historyPath sd)}"
  let ?p = "path_join (imagesDir sd) ?n"
  have "?n \<in> set (referenced_names (f l))"
    using e n by (auto simp: referenced_names_def plain_name_def)
  then have "node_at s' ?p = node_at s2 ?p" unfolding s' by (rule remove_images_keeps [OF n])
  moreover have "?p \<notin> ?P" using image_path_neq [OF n] image_path_neq_tmp [OF n] by auto
  then have "node_at s2 ?p = node_at s1 ?p" "node_at s1 ?p = node_at s ?p"
    using touchesD [OF writeHistory_touches wr] touchesD [OF readHistory_touches rd] by auto
  ultimately show "node_at s' ?p = node_at s ?p" by simp
qed

text \<open>\<open>DeleteEntry\<close> removes exactly the entries with the given identifier and \<open>ClearUnpinned\<close>
  exactly the unpinned ones, and neither deletes the image file of an entry that stays.\<close>

lemma removal_keeps_the_rest:
  assumes "history_list sd s = Some l"
    and "op = OpDelete i \<and> keep = (\<lambda>e. h_ID e \<noteq> i) \<or> op = OpClear \<and> keep = h_Pinned"
    and "run_history_op sd loaded op s = (Inr u, s')"
  shows "history_list sd s' = Some (map json_entry (filter keep l)) \<and>
    (\<forall>e \<in> set l. keep e \<and> plain_name (imageFileName (h_ImagePath e)) \<longrightarrow>
       node_at s' (path_join (imagesDir sd) (imageFileName (h_ImagePath e))) =
       node_at s (path_join (imagesDir sd) (imageFileName (h_ImagePath e))))"
proof -
  have "io_bind (readHistory sd) (\<lambda>l. io_bind (writeHistory sd (filter keep l))
     (\<lambda>_. removeUnreferencedImages sd (filter (\<lambda>e. \<not> keep e) l) (filter keep l))) s = (Inr u, s')"
    using assms(2,3) by (auto simp: DeleteEntry_def ClearUnpinned_def Let_def)
  note eff = rewrite_remove_effect [OF this assms(1)]
  show ?thesis using eff(1) eff(2) by simp
qed

lemma ClearUnpinned_example: "\<exists>s'. ClearUnpinned ''/s'' store_example = (Inr (), s')"
  by (simp add: ClearUnpinned_def readHistory_def writeHistory_def writeAtomic_def repairStateFile_def
      ensurePrivateDir_def removePathIfExists_def fault_free store_example_def example_paths node_at_def
      set_node_def del_node_def is_dir_node_def is_regular_node_def removeUnreferencedImages_def)

lemma removal_keeps_the_rest_witness:
  "\<exists>s'. run_history_op ''/s'' None OpClear store_example = (Inr (), s') \<and>
     history_list ''/s'' s' = Some []"
proof -
  obtain s' where s': "run_history_op ''/s'' None OpClear store_example = (Inr (), s')"
    using ClearUnpinned_example by auto
  then show ?thesis
    using removal_keeps_the_rest [OF history_list_example, of OpClear undefined h_Pinned None "()" s']
    by (simp add: entry_example_def)
qed

text \<open>\<open>LoadHistory\<close> returns the stored entries with the pinned ones first and newest first within
  each group; entries that compare equal keep their stored order, a limit cuts only from the
  end, and without a limit nothing is lost.\<close>

lemma LoadHistory_sorted:
  "case LoadHistory sd limit s of
     (Inl _, s') \<Rightarrow> history_list sd s' = history_list sd s
   | (Inr out, s') \<Rightarrow> (\<exists>l sorted. history_list sd s = Some l \<and> history_list sd s' = Some l \<and>
       mset sorted = mset l \<and> sorted_wrt (\<lambda>a b. \<not> history_before b a) sorted \<and>
       filter (\<lambda>e. h_Pinned e = p \<and> h_TS e = t) sorted = filter (\<lambda>e. h_Pinned e = p \<and> h_TS e = t) l \<and>
       out = (if limit \<le> 0 then sorted else take (nat limit) sorted))"
proof -
  obtain r s' where r: "LoadHistory sd limit s = (r, s')" by fastforce
  have st: "sort_history limit l =
      (if limit \<le> 0 then stable_sort history_before l else take (nat limit) (stable_sort history_before l))" for l
    by (auto simp: sort_history_def Let_def)
  have "sorted_wrt (\<lambda>a b. \<not> history_before b a) (stable_sort history_before l)" for l
    by (rule sorted_stable_sort) (auto simp: history_before_def split: if_splits)
  moreover have "filter (\<lambda>e. h_Pinned e = p \<and> h_TS e = t) (stable_sort history_before l) =
      filter (\<lambda>e. h_Pinned e = p \<and> h_TS e = t) l" for l
    by (rule filter_stable_sort) (auto simp: history_before_def)
  moreover have "case r of Inl _ \<Rightarrow> history_list sd s' = history_list sd s
      | Inr out \<Rightarrow> (\<exists>l. history_list sd s = Some l \<and> history_list sd s' = Some l \<and> out = sort_history limit l)"
    using r readHistory_sound unfolding LoadHistory_def by (elim io_bindE) (auto simp: io_return_def)
  ultimately show ?thesis
  proof (cases r)
    case (Inr out)
    assume sorted: "\<And>l. sorted_wrt (\<lambda>a b. \<not> history_before b a) (stable_sort history_before l)"
      and stable: "\<And>l. filter (\<lambda>e. h_Pinned e = p \<and> h_TS e = t) (stable_sort history_before l) =
        filter (\<lambda>e. h_Pinned e = p \<and> h_TS e = t) l"
      and "case r of Inl _ \<Rightarrow> history_list sd s' = history_list sd s
        | Inr out \<Rightarrow> (\<exists>l. history_list sd s = Some l \<and> history_list sd s' = Some l \<and> out = sort_history limit l)"
    with Inr obtain l where l: "history_list sd s = Some l" "history_list sd s' = Some l"
      "out = sort_history limit l" by auto
    have "mset (stable_sort history_before l) = mset l" by simp
    with l(3) sorted [of l] stable [of l] have "\<exists>srt. mset srt = mset l \<and>
        sorted_wrt (\<lambda>a b. \<not> history_before b a) srt \<and>
        filter (\<lambda>e. h_Pinned e = p \<and> h_TS e = t) srt = filter (\<lambda>e. h_Pinned e = p \<and> h_TS e = t) l \<and>
        out = (if limit \<le> 0 then srt else take (nat limit) srt)"
      using st by blast
    with r Inr l show ?thesis by simp
  qed (use r in simp)
qed

text \<open>The image collector never deletes an image that a history entry still refers to, as long as
  the history can be read (no file operation fails and the state directory is there).\<close>

lemma gc_spares_referenced:
  assumes "faults s = []" and "node_at s sd = Some (Directory m)"
    and "history_list sd s = Some l" and "e \<in> set l" and "h_ImagePath e \<noteq> []"
    and "plain_name (path_base (h_ImagePath e))"
  shows "node_at (gc sd loaded s) (path_join (imagesDir sd) (path_base (h_ImagePath e))) =
         node_at s (path_join (imagesDir sd) (path_base (h_ImagePath e)))"
proof (rule gc_keeps [OF assms(6,3,4,5) refl _ refl], intro allI impI)
  fix s0 err s1
  assume "os_read_dir (imagesDir sd) s = (fst (os_read_dir (imagesDir sd) s), s0)"
  then have "s0 = s" using os_read_dir_no_fault [OF assms(1)] by (metis snd_conv)
  then show "ReferencedImages sd s0 \<noteq> (Inl err, s1)"
    using ReferencedImages_no_fault [OF assms(1-3)] by simp
qed

definition image_store_example :: "store_doc fs" where
  "image_store_example = \<lparr>nodes = [(''/s'', Directory 448), (''/s/images'', Directory 448),
     (''/s/images/a.png'', Regular 384 (Some (Blob ''png'')) 1),
     (''/s/history.json'', Regular 384 (Some (HistoryDoc [entry_example\<lparr>h_ImagePath := ''/s/images/a.png''\<rparr>])) 1)],
     faults = [], clock = 7\<rparr>"

lemma image_example_list:
  "history_list ''/s'' image_store_example = Some [entry_example\<lparr>h_ImagePath := ''/s/images/a.png''\<rparr>]"
  by (simp add: history_list_def image_store_example_def node_at_def example_paths)

lemma image_example_base: "path_base ''/s/images/a.png'' = ''a.png''" "imagesDir ''/s'' = ''/s/images''"
  "path_join ''/s/images'' ''a.png'' = ''/s/images/a.png''"
  by (simp_all add: path_base_def slash_def imagesDir_def path_join_def path_clean_def has_prefix_def)

lemma gc_spares_referenced_witness:
  "node_at (gc ''/s'' (Some 60) image_store_example) ''/s/images/a.png'' =
   Some (Regular 384 (Some (Blob ''png'')) 1)"
  using gc_spares_referenced [OF _ _ image_example_list, of 448
      "entry_example\<lparr>h_ImagePath := ''/s/images/a.png''\<rparr>" "Some 60"]
  by (simp add: image_example_base plain_name_def slash_def)
    (simp add: image_store_example_def node_at_def)

text \<open>A successful \<open>SaveImage\<close> returns the content address of the image below the state
  directory, where a private regular file now stands, with exactly the given bytes if there was none
  before; text that names this file, on whatever host its path was built, is recognised by
  \<open>IsImageStorePath\<close>.\<close>

lemma SaveImage_stores:
  assumes "SaveImage sd body s = (Inr path, s')" and "path_base (trim_space text) = path_base path"
  shows "path = path_join (imagesDir sd) (hex_encode (sha256 body) @ ''.png'') \<and>
    (\<exists>d t. node_at s' path = Some (Regular privateFileMode d t) \<and>
       (node_at s path = None \<longrightarrow> d = Some (Blob body))) \<and>
    IsImageStorePath sd s' text"
proof -
  note res = SaveImage_result [OF assms(1)]
  have "path_base (trim_space text) = image_name body"
    using res assms(2) path_base_join [OF image_name_plain] by simp
  moreover have "has_suffix (image_name body) ''.png''" "trim_suffix (image_name body) ''.png'' = hex_encode (sha256 body)"
    by (simp_all add: image_name_def has_suffix_iff trim_suffix_def)
  ultimately show ?thesis
    using res isHex64_digest [of body] by (auto simp: IsImageStorePath_def image_name_def)
qed

lemma SaveImage_no_fault:
  assumes "faults s = []" and "node_at s sd = Some (Directory k)"
    and "node_at s (imagesDir sd) = Some (Directory k)"
    and new: "\<And>q. q \<notin> {sd, imagesDir sd, historyPath sd} \<Longrightarrow> node_at s q = None"
  shows "\<exists>s'. SaveImage sd body s = (Inr (path_join (imagesDir sd) (image_name body)), s')"
proof -
  let ?p = "path_join (imagesDir sd) (image_name body)"
  obtain s1 where s1: "ensurePrivateDir sd s = (Inr (), s1)" "faults s1 = []"
    using assms(1,2) by (auto simp: ensurePrivateDir_def fault_free is_dir_node_def)
  have d1: "node_at s1 (imagesDir sd) = Some (Directory k)"
    using touchesD [OF ensurePrivateDir_touches s1(1)] assms(3) imagesDir_neq by auto
  obtain s2 where s2: "ensurePrivateDir (imagesDir sd) s1 = (Inr (), s2)" "faults s2 = []"
    using s1(2) d1 by (auto simp: ensurePrivateDir_def fault_free is_dir_node_def)
  have q: "node_at s2 q = None" if "q \<notin> {sd, imagesDir sd, historyPath sd}" for q
    using touchesD [OF ensurePrivateDir_touches s1(1), of q]
      touchesD [OF ensurePrivateDir_touches s2(1), of q] new [OF that] that by auto
  have p: "?p \<notin> {sd, imagesDir sd, historyPath sd}" "tmp_of ?p \<notin> {sd, imagesDir sd, historyPath sd}"
    using image_path_neq [OF image_name_plain] image_tmp_neq by auto
  have "fst (writeAtomic ?p (Blob body) privateFileMode s2) = Inr ()"
    by (rule writeAtomic_no_fault) (use s2(2) q [OF p(1)] q [OF p(2)] in simp_all)
  then obtain s3 where "writeAtomic ?p (Blob body) privateFileMode s2 = (Inr (), s3)"
    by (metis prod.collapse)
  then show ?thesis
    using s1(1) s2 q [OF p(1)]
    by (simp add: SaveImage_def io_bind_def Let_def os_lstat_def syscall_no_fault io_return_def)
qed

definition empty_store_example :: "store_doc fs" where
  "empty_store_example = \<lparr>nodes = [(''/s'', Directory 448), (''/s/images'', Directory 448)],
     faults = [], clock = 7\<rparr>"

lemma SaveImage_stores_witness:
  "\<exists>s' path. SaveImage ''/s'' ''png'' empty_store_example = (Inr path, s') \<and>
     (\<exists>t. node_at s' path = Some (Regular privateFileMode (Some (Blob ''png'')) t))"
proof -
  let ?p = "path_join (imagesDir ''/s'') (image_name ''png'')"
  have old: "node_at empty_store_example q = None" if "q \<notin> {''/s'', imagesDir ''/s'', historyPath ''/s''}" for q
    using that by (auto simp: empty_store_example_def node_at_def image_example_base)
  obtain s' where s': "SaveImage ''/s'' ''png'' empty_store_example = (Inr ?p, s')"
    using SaveImage_no_fault [of empty_store_example "''/s''" 448 "''png''", OF _ _ _ old]
    by (auto simp: empty_store_example_def node_at_def image_example_base)
  have "trim_space (image_name ''png'') = image_name ''png''" by (rule trim_space_image_name)
  moreover have "path_base (image_name ''png'') = image_name ''png''" by (rule path_base_image_name)
  ultimately have "path_base (trim_space (image_name ''png'')) = path_base ?p"
    using path_base_join [OF image_name_plain] by simp
  with s' show ?thesis
    using SaveImage_stores [OF s', of "image_name ''png''"] old image_path_neq [OF image_name_plain] by auto
qed

text \<open>What \<open>SaveState\<close> stored, \<open>LoadText\<close> returns byte for byte and \<open>LoadState\<close> as encoded.\<close>

lemma SaveState_roundtrip:
  assumes "SaveState sd st text s = (Inr u, s')" and "faults s' = []"
  shows "fst (LoadText sd s') = Inr (Some text) \<and> fst (LoadState sd s') = Inr (json_state st)"
  using SaveState_result [OF assms(1)] load_no_fault [OF assms(2)] by blast

lemma state_example_paths:
  "statePath ''/s'' = ''/s/state.json''" "textPath ''/s'' = ''/s/current.txt''"
  "tmp_of ''/s/state.json'' = ''/s/state.json.tmp''" "tmp_of ''/s/current.txt'' = ''/s/current.txt.tmp''"
  by (simp_all add: statePath_def textPath_def path_join_def path_clean_def slash_def has_prefix_def tmp_of_def)

lemma SaveState_example:
  "\<exists>s'. SaveState ''/s'' st ''hi'' empty_store_example = (Inr (), s') \<and> faults s' = []"
  by (simp add: SaveState_def writeAtomic_def ensurePrivateDir_def removePathIfExists_def fault_free
      empty_store_example_def state_example_paths node_at_def set_node_def del_node_def is_dir_node_def)

lemma SaveState_roundtrip_witness:
  "\<exists>s'. SaveState ''/s'' \<lparr>st_Kind = ''text'', st_TS = 3, st_ImagePath = []\<rparr> ''hi'' empty_store_example =
      (Inr (), s') \<and> fst (LoadText ''/s'' s') = Inr (Some ''hi'')"
  using SaveState_example [of "\<lparr>st_Kind = ''text'', st_TS = 3, st_ImagePath = []\<rparr>"]
    SaveState_roundtrip [of "''/s''" _ "''hi''" empty_store_example "()"] by blast

end
