(* ===== verification/Clipfan_Replay.thy ===== *)
theory Clipfan_Replay
  imports Clipfan_Prelude
begin

text \<open>
  Host names (\<open>internal/transport/hostnames.go\<close>) and the two memories that reject repeats: the
  bounded set of clip identifiers (\<open>internal/daemon/seen.go\<close>) and the request nonce cache
  (\<open>internal/transport/nonce.go\<close>). The bounded set is specified by the locale
  \<open>recency_memory\<close>, a list of keys with the oldest first.
\<close>

section \<open>Host names\<close>

definition ShortName :: "string \<Rightarrow> string" where
  "ShortName h = takeWhile (\<lambda>c. c \<noteq> CHR ''.'') (trim_suffix h ''.local'')"

definition RecipientMatches :: "string \<Rightarrow> string \<Rightarrow> bool" where
  "RecipientMatches recipient identity \<longleftrightarrow>
     ShortName recipient \<noteq> [] \<and> ShortName recipient = ShortName identity"

definition minMatchLen :: nat where "minMatchLen = 6"

definition HostsMatch :: "string \<Rightarrow> string \<Rightarrow> bool" where
  "HostsMatch a b =
     (let sa = ShortName a; sb = ShortName b in
      if sa = [] \<or> sb = [] then False
      else if sa = sb then True
      else let (long, short) = (if length sa > length sb then (sa, sb) else (sb, sa))
           in if length short < minMatchLen then False else has_suffix long (''-'' @ short))"

section \<open>The set of seen clip identifiers\<close>

definition seenCap :: nat where "seenCap = 256"

record seenSet =
  members :: "(string \<times> unit) list"
  order :: "string list"

definition newSeenSet :: seenSet where
  "newSeenSet = \<lparr>members = [], order = []\<rparr>"

definition seen_has :: "seenSet \<Rightarrow> string \<Rightarrow> bool" where
  "seen_has s i \<longleftrightarrow> map_of (members s) i \<noteq> None"

definition seen_add :: "string \<Rightarrow> seenSet \<Rightarrow> seenSet" where
  "seen_add i s =
     (if seen_has s i then s
      else let s1 = s\<lparr>members := AList.update i () (members s), order := order s @ [i]\<rparr>
           in if length (order s1) > seenCap
              then s1\<lparr>order := tl (order s1), members := AList.delete (hd (order s1)) (members s1)\<rparr>
              else s1)"

section \<open>The request nonce cache\<close>

record nonceCache =
  nc_ttl :: gotime
  nc_seen :: "(string \<times> gotime) list"

definition newNonceCache :: "gotime \<Rightarrow> nonceCache" where
  "newNonceCache ttl = \<lparr>nc_ttl = ttl, nc_seen = []\<rparr>"

definition nonce_accept :: "string \<Rightarrow> gotime \<Rightarrow> nonceCache \<Rightarrow> bool \<times> nonceCache" where
  "nonce_accept nonce now c =
     (if nonce = [] then (False, c)
      else let expiresBefore = now - nc_ttl c;
               c1 = c\<lparr>nc_seen := filter (\<lambda>(n, seenAt). seenAt > expiresBefore) (nc_seen c)\<rparr>
           in (case map_of (nc_seen c1) nonce of
                 Some seenAt \<Rightarrow>
                   (if seenAt + nc_ttl c1 > now then (False, c1)
                    else (True, c1\<lparr>nc_seen := AList.update nonce now (nc_seen c1)\<rparr>))
               | None \<Rightarrow> (True, c1\<lparr>nc_seen := AList.update nonce now (nc_seen c1)\<rparr>)))"

section \<open>The contract of a bounded memory\<close>

text \<open>
  \<open>mem\<close> lists what a memory holds, oldest first. A new key is appended and, beyond the
  capacity, the oldest one is dropped; a known key changes nothing.
\<close>

locale recency_memory =
  fixes ok :: "'s \<Rightarrow> bool" and mem :: "'s \<Rightarrow> 'k list" and has :: "'s \<Rightarrow> 'k \<Rightarrow> bool"
    and add :: "'k \<Rightarrow> 's \<Rightarrow> 's" and cap :: nat
  assumes has_mem: "ok s \<Longrightarrow> has s k \<longleftrightarrow> k \<in> set (mem s)"
    and ok_distinct: "ok s \<Longrightarrow> distinct (mem s) \<and> length (mem s) \<le> cap"
    and add_ok: "ok s \<Longrightarrow> ok (add k s)"
    and add_old: "ok s \<Longrightarrow> k \<in> set (mem s) \<Longrightarrow> mem (add k s) = mem s"
    and add_new: "ok s \<Longrightarrow> k \<notin> set (mem s) \<Longrightarrow>
      mem (add k s) = drop (Suc (length (mem s)) - cap) (mem s @ [k])"
    and cap_pos: "0 < cap"
begin

text \<open>A key stands at most one place nearer to the front after each addition.\<close>

lemma add_position:
  assumes "ok s" and "mem s = pre @ k # post" and "length post + 1 < cap"
  shows "\<exists>pre' post'. mem (add j s) = pre' @ k # post' \<and> length post' \<le> Suc (length post)"
proof (cases "j \<in> set (mem s)")
  case True
  with add_old [OF assms(1)] assms(2) have "mem (add j s) = pre @ k # post" by simp
  then show ?thesis by (intro exI [of _ pre] exI [of _ post]) simp
next
  case False
  have len: "length (mem s) \<le> cap" using ok_distinct [OF assms(1)] by simp
  let ?d = "Suc (length (mem s)) - cap"
  have d: "?d \<le> length pre" using assms(2,3) len by simp
  have "mem (add j s) = drop ?d (mem s @ [j])" by (rule add_new [OF assms(1) False])
  also have "\<dots> = drop ?d pre @ k # (post @ [j])" using assms(2) d by simp
  finally show ?thesis by (intro exI [of _ "drop ?d pre"] exI [of _ "post @ [j]"]) simp
qed

lemma fold_ok: "ok s \<Longrightarrow> ok (fold add ks s)"
  by (induction ks arbitrary: s) (auto simp: add_ok)

lemma fold_position:
  assumes "ok s" and "mem s = pre @ k # post" and "length post + length js < cap"
  shows "has (fold add js s) k"
  using assms
proof (induction js arbitrary: s pre post)
  case Nil
  then show ?case by (simp add: has_mem)
next
  case (Cons j js)
  then obtain pre' post' where p: "mem (add j s) = pre' @ k # post'" "length post' \<le> Suc (length post)"
    using add_position [of s pre k post j] by auto
  show ?case
    using Cons.IH [OF add_ok [OF Cons.prems(1)] p(1)] p(2) Cons.prems(3) by simp
qed

lemma remembered:
  assumes "ok s" and "\<not> has s k" and "length js < cap"
  shows "has (fold add js (add k s)) k"
proof -
  have "mem (add k s) = drop (Suc (length (mem s)) - cap) (mem s) @ [k]"
    using add_new [OF assms(1)] assms(1,2) ok_distinct [OF assms(1)] cap_pos
    by (simp add: has_mem)
  then show ?thesis using fold_position [OF add_ok [OF assms(1)]] assms(3) by simp
qed

end

section \<open>The seen set meets the contract\<close>

definition seen_ok :: "seenSet \<Rightarrow> bool" where
  "seen_ok s \<longleftrightarrow> distinct (order s) \<and> length (order s) \<le> seenCap \<and>
     distinct (map fst (members s)) \<and> set (map fst (members s)) = set (order s)"

lemma seen_has_iff: "seen_has s i \<longleftrightarrow> i \<in> set (map fst (members s))"
  by (auto simp: seen_has_def map_of_eq_None_iff)

lemma seen_add_old: "seen_has s i \<Longrightarrow> seen_add i s = s"
  by (simp add: seen_add_def)

lemma seen_add_order:
  "seen_ok s \<Longrightarrow> \<not> seen_has s i \<Longrightarrow>
   order (seen_add i s) = drop (Suc (length (order s)) - seenCap) (order s @ [i])"
proof -
  assume ok: "seen_ok s" and new: "\<not> seen_has s i"
  show ?thesis
  proof (cases "length (order s) < seenCap")
    case False
    with ok have "length (order s) = seenCap" by (simp add: seen_ok_def)
    then have "Suc (length (order s)) - seenCap = 1" by simp
    then have "drop (Suc (length (order s)) - seenCap) (order s @ [i]) = tl (order s @ [i])"
      by (simp only: drop_Suc One_nat_def drop_0)
    with new False show ?thesis by (simp add: seen_add_def Let_def)
  qed (use new in \<open>simp add: seen_add_def Let_def\<close>)
qed

lemma seen_add_ok:
  assumes "seen_ok s" shows "seen_ok (seen_add i s)"
proof (cases "seen_has s i")
  case False
  have m: "distinct (order s @ [i])" "set (map fst (AList.update i () (members s))) = set (order s @ [i])"
    "distinct (map fst (AList.update i () (members s)))"
    using assms False by (auto simp: seen_ok_def seen_has_iff dom_update distinct_update)
  show ?thesis
  proof (cases "length (order s @ [i]) > seenCap")
    case True
    then obtain x xs where x: "order s @ [i] = x # xs" by (cases "order s @ [i]") auto
    have "length xs \<le> seenCap" using assms x by (auto simp: seen_ok_def dest: arg_cong [where f = length])
    then show ?thesis
      using False True x m by (auto simp: seen_add_def seen_ok_def Let_def delete_keys distinct_removeAll)
  qed (use False m in \<open>simp add: seen_add_def seen_ok_def Let_def\<close>)
qed (simp add: seen_add_old assms)

interpretation seen: recency_memory seen_ok order seen_has seen_add seenCap
proof
  fix s k
  show "seen_has s k \<longleftrightarrow> k \<in> set (order s)" if "seen_ok s"
    using that by (simp add: seen_has_iff seen_ok_def)
  show "distinct (order s) \<and> length (order s) \<le> seenCap" if "seen_ok s"
    using that by (simp add: seen_ok_def)
  show "order (seen_add k s) = order s" if "seen_ok s" "k \<in> set (order s)"
    using that by (simp add: seen_add_old seen_has_iff seen_ok_def)
  show "order (seen_add k s) = drop (Suc (length (order s)) - seenCap) (order s @ [k])"
    if "seen_ok s" "k \<notin> set (order s)"
    using that seen_add_order by (simp add: seen_has_iff seen_ok_def)
qed (simp_all add: seen_add_ok seenCap_def)

lemma newSeenSet_ok [simp]: "seen_ok newSeenSet"
  by (simp add: newSeenSet_def seen_ok_def seenCap_def)


section \<open>Nonces\<close>

lemma nonce_accept_ttl [simp]: "nc_ttl (snd (nonce_accept n t c)) = nc_ttl c"
  by (simp add: nonce_accept_def Let_def split: option.splits)

definition nonces_ok :: "nonceCache \<Rightarrow> bool" where
  "nonces_ok c \<longleftrightarrow> distinct (map fst (nc_seen c))"

lemma distinct_fst_filter: "distinct (map fst xs) \<Longrightarrow> distinct (map fst (filter P xs))"
  by (rule distinct_map_filter)

lemma nonce_accept_ok: "nonces_ok c \<Longrightarrow> nonces_ok (snd (nonce_accept n t c))"
  by (auto simp: nonces_ok_def nonce_accept_def Let_def distinct_update distinct_fst_filter
      split: option.splits)

lemma map_of_fst_filter:
  "distinct (map fst xs) \<Longrightarrow> map_of xs k = Some v \<Longrightarrow> P (k, v) \<Longrightarrow> map_of (filter P xs) k = Some v"
  by (auto simp: distinct_fst_filter)

text \<open>An entry younger than the lifetime survives an acceptance of any other nonce.\<close>

lemma nonce_kept:
  assumes "nonces_ok c" and "map_of (nc_seen c) n = Some t" and "now < t + nc_ttl c"
  shows "map_of (nc_seen (snd (nonce_accept m now c))) n = Some t"
proof -
  have k: "map_of (filter (\<lambda>(n, seenAt). seenAt > now - nc_ttl c) (nc_seen c)) n = Some t"
    using assms by (intro map_of_fst_filter) (auto simp: nonces_ok_def)
  then show ?thesis
    using assms(2,3) by (cases "m = n") (auto simp: nonce_accept_def Let_def split: option.splits)
qed

lemma nonce_rejected:
  assumes "nonces_ok c" and "map_of (nc_seen c) n = Some t" and "now < t + nc_ttl c"
  shows "fst (nonce_accept n now c) = False"
proof -
  have "map_of (filter (\<lambda>(n, seenAt). seenAt > now - nc_ttl c) (nc_seen c)) n = Some t"
    using assms by (intro map_of_fst_filter) (auto simp: nonces_ok_def)
  then show ?thesis using assms(3) by (simp add: nonce_accept_def Let_def)
qed

definition accept_all :: "(string \<times> gotime) list \<Rightarrow> nonceCache \<Rightarrow> nonceCache" where
  "accept_all reqs c = fold (\<lambda>(m, t) c. snd (nonce_accept m t c)) reqs c"

lemma accept_all_keeps:
  assumes "nonces_ok c" and "map_of (nc_seen c) n = Some t"
    and "\<forall>(m, t') \<in> set reqs. t' < t + nc_ttl c"
  shows "nonces_ok (accept_all reqs c) \<and> map_of (nc_seen (accept_all reqs c)) n = Some t \<and>
    nc_ttl (accept_all reqs c) = nc_ttl c"
  using assms
proof (induction reqs arbitrary: c)
  case (Cons r reqs)
  obtain m t' where r: "r = (m, t')" by fastforce
  show ?case
    using Cons.IH [of "snd (nonce_accept m t' c)"] Cons.prems nonce_kept [of c n t t' m]
      nonce_accept_ok [of c m t'] by (simp add: r accept_all_def)
qed (simp add: accept_all_def)

lemma nonce_accepted:
  "fst (nonce_accept n t c) \<Longrightarrow> map_of (nc_seen (snd (nonce_accept n t c))) n = Some t"
  by (auto simp: nonce_accept_def Let_def split: option.splits if_splits)

section \<open>Properties\<close>

text \<open>C38. The set of seen clip identifiers is bounded, holds no identifier twice, and recognises a
  new identifier for at least the next 255 additions, whatever they are.\<close>

theorem seenSet_window:
  assumes "seen_ok s" and "\<not> seen_has s i" and "length js < seenCap"
  shows "seen_has (fold seen_add js (seen_add i s)) i \<and>
    seen_ok (fold seen_add js (seen_add i s)) \<and>
    length (members (fold seen_add js (seen_add i s))) \<le> 256"
proof -
  let ?t = "fold seen_add js (seen_add i s)"
  have ok: "seen_ok ?t" by (intro seen.fold_ok seen.add_ok assms(1))
  then have "length (map fst (members ?t)) = card (set (order ?t))"
    unfolding seen_ok_def by (metis distinct_card)
  moreover have "card (set (order ?t)) \<le> 256"
    using ok card_length [of "order ?t"] by (simp add: seen_ok_def seenCap_def)
  ultimately show ?thesis using ok seen.remembered [OF assms] by simp
qed

theorem seenSet_window_witness:
  "seen_has (fold seen_add [''b'', ''c''] (seen_add ''a'' newSeenSet)) ''a''"
  using seenSet_window [OF newSeenSet_ok, of "''a''" "[''b'', ''c'']"]
  by (simp add: newSeenSet_def seen_has_def seenCap_def)

text \<open>C37. A nonce accepted once is refused for the whole lifetime of the cache, whatever other
  requests arrive meanwhile and in whatever order of their clocks, and a non-empty nonce that is
  not in the cache is accepted.\<close>

theorem nonce_no_replay:
  assumes "nonces_ok c" and "fst (nonce_accept n t c)"
    and "\<forall>(m, t') \<in> set reqs. t' < t + nc_ttl c" and "now < t + nc_ttl c"
  shows "\<not> fst (nonce_accept n now (accept_all reqs (snd (nonce_accept n t c)))) \<and>
    (\<forall>m. m \<noteq> [] \<and> map_of (nc_seen c) m = None \<longrightarrow> fst (nonce_accept m now c))"
proof -
  let ?c = "snd (nonce_accept n t c)"
  have "nonces_ok (accept_all reqs ?c) \<and> map_of (nc_seen (accept_all reqs ?c)) n = Some t \<and>
      nc_ttl (accept_all reqs ?c) = nc_ttl ?c"
    by (rule accept_all_keeps) (use assms nonce_accept_ok nonce_accepted in auto)
  then have "\<not> fst (nonce_accept n now (accept_all reqs ?c))" using nonce_rejected assms(4) by simp
  moreover have "map_of (filter P xs) m = None" if "map_of xs m = None"
    for P and xs :: "(string \<times> gotime) list" and m
    using that by (auto simp: map_of_eq_None_iff)
  ultimately show ?thesis by (auto simp: nonce_accept_def Let_def)
qed

theorem nonce_no_replay_witness:
  "\<not> fst (nonce_accept ''n'' 120 (accept_all [(''m'', 60)] (snd (nonce_accept ''n'' 5 (newNonceCache 120)))))"
  using nonce_no_replay [of "newNonceCache 120" "''n''" 5 "[(''m'', 60)]" 120]
  by (simp add: newNonceCache_def nonces_ok_def nonce_accept_def)

text \<open>The recipient check of a signed clip is a partial equivalence on the short names and
  admits only hosts that the looser alias check admits as well; the alias check is symmetric.\<close>

lemma RecipientMatches_strict:
  "RecipientMatches a b = RecipientMatches b a \<and> HostsMatch a b = HostsMatch b a \<and>
   {b. RecipientMatches a b} \<subseteq> {b. HostsMatch a b} \<and>
   {c. \<exists>b. RecipientMatches a b \<and> RecipientMatches b c} \<subseteq> {c. RecipientMatches a c}"
proof -
  have sym: "HostsMatch a b = HostsMatch b a"
  proof (cases "length (ShortName a)" "length (ShortName b)" rule: linorder_cases)
    case equal
    then have "\<not> has_suffix (ShortName b) (''-'' @ ShortName a)" "\<not> has_suffix (ShortName a) (''-'' @ ShortName b)"
      by (auto simp: has_suffix_iff dest: arg_cong [where f = length])
    then show ?thesis by (auto simp: HostsMatch_def Let_def)
  qed (auto simp: HostsMatch_def Let_def)
  then show ?thesis by (auto simp: RecipientMatches_def HostsMatch_def)
qed

end
