(* ===== verification/Clipfan_Auth.thy ===== *)
theory Clipfan_Auth
  imports Clipfan_GCM Clipfan_Store Clipfan_Replay
begin

text \<open>
  Message authentication and encryption of \<open>internal/transport\<close>: request and response signatures
  (\<open>auth.go\<close>), body encryption (\<open>crypto.go\<close>), clip envelopes (\<open>envelope.go\<close>) and the payload of
  the local daemon's current clip (\<open>current.go\<close>). An \<open>*Auth\<close> is the optional raw key; random
  bytes are arguments, \<open>None\<close> when the system source fails.
\<close>

section \<open>Keys\<close>

definition AuthVersionRequestHMAC :: string where
  "AuthVersionRequestHMAC = ''clipfan-v1/request-hmac''"
definition hkdfSalt :: string where "hkdfSalt = ''clipfan-v1/hkdf-salt''"
definition sshHelloHMACLabel :: string where "sshHelloHMACLabel = ''clipfan-v1/ssh-hello-hmac''"
definition bodyAEADLabel :: string where "bodyAEADLabel = ''clipfan-v1/body-aead''"

definition HeaderAuthVersion :: string where "HeaderAuthVersion = ''X-Clipfan-Auth-Version''"
definition HeaderTimestamp :: string where "HeaderTimestamp = ''X-Clipfan-Ts''"
definition HeaderNonce :: string where "HeaderNonce = ''X-Clipfan-Nonce''"
definition HeaderSignature :: string where "HeaderSignature = ''X-Clipfan-Sig''"

definition ErrAuthVersionMismatch :: string where "ErrAuthVersionMismatch = ''auth_version_mismatch''"
definition ErrBadSignature :: string where "ErrBadSignature = ''bad_signature''"

type_synonym auth = bytes

definition NewAuth :: "string \<Rightarrow> auth res" where
  "NewAuth b64Key = (case b64_decode b64Key of
     None \<Rightarrow> Inl ''illegal base64 data''
   | Some k \<Rightarrow>
       (if length k < 16 then Inl ''shared key too short (need 16+ bytes after base64 decode)''
        else Inr k))"

definition DeriveKey :: "bytes \<Rightarrow> string \<Rightarrow> bytes res" where
  "DeriveKey rawKey label =
     (if label \<in> {AuthVersionRequestHMAC, sshHelloHMACLabel, bodyAEADLabel}
      then (case hkdfSHA256 rawKey hkdfSalt label 32 of
              Some k \<Rightarrow> Inr k | None \<Rightarrow> Inl ''hkdf'')
      else Inl (''unknown clipfan key label: '' @ label))"

definition RequestHMACKey :: "auth option \<Rightarrow> bytes res" where
  "RequestHMACKey a = (case a of
     None \<Rightarrow> Inl ''auth required''
   | Some key \<Rightarrow> DeriveKey key AuthVersionRequestHMAC)"

definition requestSigningKey :: "auth option \<Rightarrow> string \<Rightarrow> bytes res" where
  "requestSigningKey a authVersion = (case a of
     None \<Rightarrow> Inl ''auth required''
   | Some key \<Rightarrow>
       (if authVersion = [] then Inr key
        else if authVersion = AuthVersionRequestHMAC then RequestHMACKey a
        else Inl (''unsupported auth version: '' @ authVersion)))"

section \<open>Canonical forms\<close>

abbreviation nl :: string where "nl \<equiv> [CHR 0x0A]"

definition canonicalRequest :: "string \<Rightarrow> string \<Rightarrow> string \<Rightarrow> string \<Rightarrow> bytes \<Rightarrow> bytes" where
  "canonicalRequest meth requestURI timestamp nonce body =
     meth @ nl @ requestURI @ nl @ timestamp @ nl @ nonce @ nl @ body"

definition canonicalRequestWithAuthVersion ::
  "string \<Rightarrow> string \<Rightarrow> string \<Rightarrow> string \<Rightarrow> bytes \<Rightarrow> string \<Rightarrow> bytes" where
  "canonicalRequestWithAuthVersion meth requestURI timestamp nonce body authVersion =
     (if authVersion = [] then canonicalRequest meth requestURI timestamp nonce body
      else meth @ nl @ requestURI @ nl @ timestamp @ nl @ nonce @ nl @
           ''auth_version='' @ authVersion @ nl @ body)"

definition canonicalResponse :: "string \<Rightarrow> bytes \<Rightarrow> bytes" where
  "canonicalResponse requestNonce body = ''response'' @ nl @ requestNonce @ nl @ body"

definition canonicalResponseWithAuthVersion :: "string \<Rightarrow> bytes \<Rightarrow> string \<Rightarrow> bytes" where
  "canonicalResponseWithAuthVersion requestNonce body authVersion =
     (if authVersion = [] then canonicalResponse requestNonce body
      else ''response'' @ nl @ requestNonce @ nl @ ''auth_version='' @ authVersion @ nl @ body)"

section \<open>Signatures\<close>

definition SignRequest :: "auth \<Rightarrow> string \<Rightarrow> string \<Rightarrow> string \<Rightarrow> string \<Rightarrow> bytes \<Rightarrow> string" where
  "SignRequest a meth requestURI timestamp nonce body =
     hex_encode (hmac_sha256 a (canonicalRequest meth requestURI timestamp nonce body))"

definition VerifyRequest ::
  "auth \<Rightarrow> string \<Rightarrow> string \<Rightarrow> string \<Rightarrow> string \<Rightarrow> bytes \<Rightarrow> string \<Rightarrow> unit res" where
  "VerifyRequest a meth requestURI timestamp nonce body sig = (case hex_decode sig of
     None \<Rightarrow> Inl ''encoding/hex''
   | Some expect \<Rightarrow>
       (if expect \<noteq> hmac_sha256 a (canonicalRequest meth requestURI timestamp nonce body)
        then Inl ''bad signature'' else Inr ()))"

definition SignRequestWithAuthVersion ::
  "auth option \<Rightarrow> string \<Rightarrow> string \<Rightarrow> string \<Rightarrow> string \<Rightarrow> bytes \<Rightarrow> string \<Rightarrow> string res" where
  "SignRequestWithAuthVersion a meth requestURI timestamp nonce body authVersion =
     and_then (requestSigningKey a authVersion) (\<lambda>key.
       Inr (hex_encode (hmac_sha256 key
         (canonicalRequestWithAuthVersion meth requestURI timestamp nonce body authVersion))))"

definition VerifyRequestWithAuthVersion ::
  "auth option \<Rightarrow> string \<Rightarrow> string \<Rightarrow> string \<Rightarrow> string \<Rightarrow> bytes \<Rightarrow> string \<Rightarrow> string \<Rightarrow> unit res" where
  "VerifyRequestWithAuthVersion a meth requestURI timestamp nonce body sig authVersion =
     (case hex_decode sig of
        None \<Rightarrow> Inl ''encoding/hex''
      | Some expect \<Rightarrow>
          and_then (requestSigningKey a authVersion) (\<lambda>key.
            if expect \<noteq> hmac_sha256 key
                 (canonicalRequestWithAuthVersion meth requestURI timestamp nonce body authVersion)
            then Inl ''bad signature'' else Inr ()))"

definition VerifyRequestRequiredAuthVersion ::
  "auth option \<Rightarrow> string \<Rightarrow> string \<Rightarrow> string \<Rightarrow> string \<Rightarrow> bytes \<Rightarrow> string \<Rightarrow> string \<Rightarrow> string \<Rightarrow> unit res" where
  "VerifyRequestRequiredAuthVersion a meth requestURI timestamp nonce body sig authVersion requiredAuthVersion =
     (if authVersion \<noteq> requiredAuthVersion then Inl ErrAuthVersionMismatch
      else case VerifyRequestWithAuthVersion a meth requestURI timestamp nonce body sig authVersion of
             Inl _ \<Rightarrow> Inl ErrBadSignature
           | Inr _ \<Rightarrow> Inr ())"

definition SignResponse :: "auth \<Rightarrow> string \<Rightarrow> bytes \<Rightarrow> string" where
  "SignResponse a requestNonce body = hex_encode (hmac_sha256 a (canonicalResponse requestNonce body))"

definition VerifyResponse :: "auth \<Rightarrow> string \<Rightarrow> bytes \<Rightarrow> string \<Rightarrow> unit res" where
  "VerifyResponse a requestNonce body sig = (case hex_decode sig of
     None \<Rightarrow> Inl ''encoding/hex''
   | Some expect \<Rightarrow>
       (if expect \<noteq> hmac_sha256 a (canonicalResponse requestNonce body)
        then Inl ''bad response signature'' else Inr ()))"

definition SignResponseWithAuthVersion :: "auth option \<Rightarrow> string \<Rightarrow> bytes \<Rightarrow> string \<Rightarrow> string res" where
  "SignResponseWithAuthVersion a requestNonce body authVersion =
     and_then (requestSigningKey a authVersion) (\<lambda>key.
       Inr (hex_encode (hmac_sha256 key
         (canonicalResponseWithAuthVersion requestNonce body authVersion))))"

definition VerifyResponseWithAuthVersion ::
  "auth option \<Rightarrow> string \<Rightarrow> bytes \<Rightarrow> string \<Rightarrow> string \<Rightarrow> unit res" where
  "VerifyResponseWithAuthVersion a requestNonce body sig authVersion = (case hex_decode sig of
     None \<Rightarrow> Inl ''encoding/hex''
   | Some expect \<Rightarrow>
       and_then (requestSigningKey a authVersion) (\<lambda>key.
         if expect \<noteq> hmac_sha256 key (canonicalResponseWithAuthVersion requestNonce body authVersion)
         then Inl ''bad response signature'' else Inr ()))"

section \<open>Signed request headers\<close>

text \<open>\<open>NewClipID\<close>: sixteen random bytes in hexadecimal, empty when the source fails.\<close>

definition NewClipID :: "bytes option \<Rightarrow> string" where
  "NewClipID rnd = (case rnd of None \<Rightarrow> [] | Some b \<Rightarrow> hex_encode b)"

record SignedRequestOptions =
  opt_Timestamp :: gotime
  opt_Nonce :: string
  opt_AuthVersion :: string

definition SignedRequestHeaders ::
  "auth option \<Rightarrow> gotime \<Rightarrow> bytes option \<Rightarrow> string \<Rightarrow> string \<Rightarrow> bytes \<Rightarrow> SignedRequestOptions \<Rightarrow>
   (string \<times> string) list res" where
  "SignedRequestHeaders a now rnd meth requestURI body opts =
     (let t = (if is_zero_time (opt_Timestamp opts) then now else opt_Timestamp opts);
          nonce = (if opt_Nonce opts = [] then NewClipID rnd else opt_Nonce opts)
      in if nonce = [] then Inl ''generate request nonce''
         else let ts = show_int (time_unix t) in
           and_then (SignRequestWithAuthVersion a meth requestURI ts nonce body (opt_AuthVersion opts))
             (\<lambda>sig. Inr ([(HeaderTimestamp, ts), (HeaderNonce, nonce), (HeaderSignature, sig)] @
                (if opt_AuthVersion opts \<noteq> [] then [(HeaderAuthVersion, opt_AuthVersion opts)] else []))))"

section \<open>Encrypted bodies\<close>

definition bodyCipher :: "auth option \<Rightarrow> bytes res" where
  "bodyCipher a = (case a of None \<Rightarrow> Inl ''auth required'' | Some key \<Rightarrow> Inr (sha256 key))"

definition SealBody :: "auth option \<Rightarrow> bytes option \<Rightarrow> bytes \<Rightarrow> (string \<times> string) res" where
  "SealBody a rnd plain =
     and_then (bodyCipher a) (\<lambda>key.
       case rnd of
         None \<Rightarrow> Inl ''random''
       | Some nonceBytes \<Rightarrow> Inr (b64_encode (gcm_seal key nonceBytes plain), b64_encode nonceBytes))"

definition OpenBody :: "auth option \<Rightarrow> string \<Rightarrow> string \<Rightarrow> bytes res" where
  "OpenBody a nonce body =
     and_then (bodyCipher a) (\<lambda>key.
       case b64_decode nonce of
         None \<Rightarrow> Inl ''illegal base64 data''
       | Some nonceBytes \<Rightarrow>
           (if length nonceBytes \<noteq> gcm_nonce_size then Inl ''invalid body nonce''
            else case b64_decode body of
                   None \<Rightarrow> Inl ''illegal base64 data''
                 | Some ciphertext \<Rightarrow> gcm_open key nonceBytes ciphertext))"

section \<open>Envelopes\<close>

record Envelope =
  e_ID :: string
  e_Origin :: string
  e_Recipient :: string
  e_TS :: gotime
  e_Kind :: string
  e_Body :: string
  e_Nonce :: string
  e_Concealed :: bool

datatype envelope_error = ErrWrongRecipient | ErrFutureEnvelopeTimestamp | ErrEnvelopeDecrypt string

definition signatureSkew :: gotime where "signatureSkew = 120 * second"

definition BuildEnvelope ::
  "auth option \<Rightarrow> bytes option \<Rightarrow> content \<Rightarrow> string \<Rightarrow> string \<Rightarrow> Envelope res" where
  "BuildEnvelope a rnd c origin recipient =
     and_then (SealBody a rnd (c_Bytes c)) (\<lambda>(body, bodyNonce).
       Inr \<lparr>e_ID = c_ID c, e_Origin = origin, e_Recipient = recipient, e_TS = c_TS c,
            e_Kind = c_Kind c, e_Body = body, e_Nonce = bodyNonce, e_Concealed = c_Concealed c\<rparr>)"

definition OpenEnvelope ::
  "auth option \<Rightarrow> Envelope \<Rightarrow> string \<Rightarrow> gotime \<Rightarrow> envelope_error + (content \<times> string)" where
  "OpenEnvelope a env recipientIdentity receivedAt =
     (if recipientIdentity \<noteq> [] \<and> \<not> RecipientMatches (e_Recipient env) recipientIdentity
      then Inl ErrWrongRecipient
      else if e_TS env > receivedAt + signatureSkew then Inl ErrFutureEnvelopeTimestamp
      else case OpenBody a (e_Nonce env) (e_Body env) of
             Inl e \<Rightarrow> Inl (ErrEnvelopeDecrypt e)
           | Inr raw \<Rightarrow>
               Inr ((new_content (e_Kind env) raw (e_TS env))
                      \<lparr>c_ID := e_ID env, c_Concealed := e_Concealed env\<rparr>, e_Origin env))"

section \<open>The payload of the current clip\<close>

record CurrentPayload =
  p_HasCurrent :: bool
  p_NullReason :: string
  p_ID :: string
  p_Kind :: string
  p_Body :: bytes
  p_TS :: gotime
  p_Origin :: string

definition CurrentPayloadFromContent :: "content \<Rightarrow> string \<Rightarrow> CurrentPayload" where
  "CurrentPayloadFromContent c origin =
     \<lparr>p_HasCurrent = True, p_NullReason = [], p_ID = c_ID c, p_Kind = c_Kind c,
      p_Body = c_Bytes c, p_TS = c_TS c, p_Origin = origin\<rparr>"

definition NoCurrentPayload :: "string \<Rightarrow> CurrentPayload" where
  "NoCurrentPayload reason =
     \<lparr>p_HasCurrent = False, p_NullReason = (if reason = [] then ''no_visible_current'' else reason),
      p_ID = [], p_Kind = [], p_Body = [], p_TS = 0, p_Origin = []\<rparr>"

definition payload_content :: "CurrentPayload \<Rightarrow> content option res" where
  "payload_content p =
     (if \<not> p_HasCurrent p then Inr None
      else if p_ID p = [] \<or> is_zero_time (p_TS p) then Inl ''invalid current payload''
      else if p_Kind p \<notin> {KindText, KindImage} then Inl ''invalid current kind''
      else Inr (Some ((new_content (p_Kind p) (p_Body p) (p_TS p))\<lparr>c_ID := p_ID p\<rparr>)))"


section \<open>Lemmas\<close>

lemma DeriveKey_known:
  "label \<in> {AuthVersionRequestHMAC, sshHelloHMACLabel, bodyAEADLabel} \<Longrightarrow>
   \<exists>k. DeriveKey raw label = Inr k \<and> length k = 32"
  using hkdfSHA256_length [of raw hkdfSalt label 32] by (auto simp: DeriveKey_def)

lemma requestSigningKey_known:
  "a \<noteq> None \<Longrightarrow> v = [] \<or> v = AuthVersionRequestHMAC \<Longrightarrow> \<exists>k. requestSigningKey a v = Inr k"
  using DeriveKey_known [of AuthVersionRequestHMAC]
  by (auto simp: requestSigningKey_def RequestHMACKey_def split: option.splits)

lemma hex_decode_eq_encode: "hex_decode (hex_encode bs) = Some cs \<longleftrightarrow> bs = cs"
  by simp

text \<open>A field without a newline is determined by its line.\<close>

lemma line_inj:
  "CHR 0x0A \<notin> set a \<Longrightarrow> CHR 0x0A \<notin> set b \<Longrightarrow> a @ CHR 0x0A # x = b @ CHR 0x0A # y \<longleftrightarrow> a = b \<and> x = y"
proof (induction a arbitrary: b)
  case Nil
  then show ?case by (cases b) auto
next
  case (Cons c a)
  then show ?case by (cases b) auto
qed

definition no_newline :: "string \<Rightarrow> bool" where
  "no_newline s \<longleftrightarrow> CHR 0x0A \<notin> set s"

lemma canonicalRequestWithAuthVersion_inj:
  assumes "list_all no_newline [m, u, t, n, v, m', u', t', n', v']" and "(v = []) = (v' = [])"
    and "canonicalRequestWithAuthVersion m u t n b v = canonicalRequestWithAuthVersion m' u' t' n' b' v'"
  shows "m = m' \<and> u = u' \<and> t = t' \<and> n = n' \<and> b = b' \<and> v = v'"
  using assms
  by (auto simp: canonicalRequestWithAuthVersion_def canonicalRequest_def no_newline_def line_inj
      split: if_splits)

lemma VerifyRequestWithAuthVersion_iff:
  "VerifyRequestWithAuthVersion a m u t n b sig v = Inr () \<longleftrightarrow>
   (\<exists>key. requestSigningKey a v = Inr key \<and>
      hex_decode sig = Some (hmac_sha256 key (canonicalRequestWithAuthVersion m u t n b v)))"
  by (cases "requestSigningKey a v")
    (auto simp: VerifyRequestWithAuthVersion_def split: option.splits)

lemma OpenBody_SealBody:
  assumes "SealBody (Some k) rnd plain = Inr (body, nonce)" and "\<forall>r. rnd = Some r \<longrightarrow> length r = gcm_nonce_size"
  shows "OpenBody (Some k) nonce body = Inr plain"
  using assms
  by (auto simp: SealBody_def OpenBody_def bodyCipher_def gcm_open_seal length_sha256
      split: option.splits)

lemma OpenBody_iff:
  "OpenBody (Some k) nonce body = Inr plain \<longleftrightarrow>
   (\<exists>n. b64_decode nonce = Some n \<and> length n = gcm_nonce_size \<and>
      b64_decode body = Some (gcm_seal (sha256 k) n plain))"
  by (auto simp: OpenBody_def bodyCipher_def gcm_open_Inr length_sha256 split: option.splits)

lemma envelope_opens:
  assumes "BuildEnvelope (Some k) (Some nonce) c origin recipient = Inr env"
    and "length nonce = gcm_nonce_size"
    and "identity = [] \<or> RecipientMatches recipient identity"
    and "c_TS c \<le> receivedAt + signatureSkew"
  shows "OpenEnvelope (Some k) env identity receivedAt = Inr (c\<lparr>c_Hash := sha256 (c_Bytes c)\<rparr>, origin)"
proof -
  obtain body bn where s: "SealBody (Some k) (Some nonce) (c_Bytes c) = Inr (body, bn)"
    using assms(1) by (auto simp: BuildEnvelope_def and_then_Inr_iff)
  have "OpenBody (Some k) bn body = Inr (c_Bytes c)"
    by (rule OpenBody_SealBody [OF s]) (simp add: assms(2))
  moreover from s assms(1) have "env = \<lparr>e_ID = c_ID c, e_Origin = origin, e_Recipient = recipient,
      e_TS = c_TS c, e_Kind = c_Kind c, e_Body = body, e_Nonce = bn, e_Concealed = c_Concealed c\<rparr>"
    by (simp add: BuildEnvelope_def)
  ultimately show ?thesis
    using assms(3,4) by (auto simp: OpenEnvelope_def new_content_def)
qed

section \<open>Properties\<close>

text \<open>C36. A request signed for a supported auth version verifies under it; a request verifies exactly
  when its signature decodes to the keyed hash of its canonical form; and without a key or
  with an unknown version neither signing nor verifying succeeds.\<close>

theorem request_signature_exact:
  "(case SignRequestWithAuthVersion a m u t n b v of
      Inr sig \<Rightarrow> VerifyRequestWithAuthVersion a m u t n b sig v = Inr () \<and>
        a \<noteq> None \<and> v \<in> {[], AuthVersionRequestHMAC}
    | Inl _ \<Rightarrow> (\<forall>sig. VerifyRequestWithAuthVersion a m u t n b sig v \<noteq> Inr ()) \<and>
        (a \<noteq> None \<and> v \<in> {[], AuthVersionRequestHMAC}) = False) \<and>
   {s. VerifyRequestWithAuthVersion a m u t n b s v = Inr ()} =
     {s. \<exists>key. requestSigningKey a v = Inr key \<and>
        hex_decode s = Some (hmac_sha256 key (canonicalRequestWithAuthVersion m u t n b v))}"
proof (cases "requestSigningKey a v")
  case (Inl e)
  moreover from this have "a = None \<or> v \<notin> {[], AuthVersionRequestHMAC}"
    using requestSigningKey_known [of a v] by auto
  ultimately show ?thesis
    by (auto simp: SignRequestWithAuthVersion_def VerifyRequestWithAuthVersion_iff)
next
  case (Inr key)
  then have "a \<noteq> None \<and> v \<in> {[], AuthVersionRequestHMAC}"
    by (auto simp: requestSigningKey_def split: option.splits if_splits)
  with Inr show ?thesis
    by (auto simp: SignRequestWithAuthVersion_def VerifyRequestWithAuthVersion_iff)
qed

text \<open>Requests of one auth version whose fields hold no newline have the same canonical form
  only when they agree in every signed field and in the body.\<close>

lemma canonical_request_injective:
  assumes "list_all no_newline [m, u, t, n, v, m', u', t', n', v']" and "(v = []) = (v' = [])"
  shows "canonicalRequestWithAuthVersion m u t n b v = canonicalRequestWithAuthVersion m' u' t' n' b' v' \<longleftrightarrow>
    (m, u, t, n, b, v) = (m', u', t', n', b', v')"
  using canonicalRequestWithAuthVersion_inj [OF assms] by auto

lemma canonical_request_injective_witness:
  "canonicalRequestWithAuthVersion ''GET'' ''/v1/current'' ''1'' ''n'' [] AuthVersionRequestHMAC \<noteq>
   canonicalRequestWithAuthVersion ''GET'' ''/v1/peers'' ''1'' ''n'' [] AuthVersionRequestHMAC"
  using canonical_request_injective [of "''GET''" "''/v1/current''" "''1''" "''n''" AuthVersionRequestHMAC
      "''GET''" "''/v1/peers''" "''1''" "''n''" AuthVersionRequestHMAC "[]" "[]"]
  by (simp add: no_newline_def AuthVersionRequestHMAC_def)

text \<open>An envelope built with a key opens under that key at its addressee, no earlier than the
  allowed skew before its time, to the same clip: identity, kind, bytes, time and concealment
  are preserved and the hash is that of the bytes.\<close>

lemma envelope_roundtrip:
  assumes "BuildEnvelope (Some k) (Some nonce) c origin recipient = Inr env"
    and "length nonce = gcm_nonce_size"
    and "identity = [] \<or> RecipientMatches recipient identity"
    and "c_TS c \<le> receivedAt + signatureSkew"
  shows "OpenEnvelope (Some k) env identity receivedAt = Inr (c\<lparr>c_Hash := sha256 (c_Bytes c)\<rparr>, origin)"
  by (rule envelope_opens [OF assms])

lemma envelope_roundtrip_witness:
  "\<exists>env. BuildEnvelope (Some ''k'') (Some ''123456789012'') (new_content KindText ''hi'' 7) ''mac'' ''box.local'' = Inr env \<and>
     OpenEnvelope (Some ''k'') env ''box'' 9 = Inr (new_content KindText ''hi'' 7, ''mac'')"
proof -
  obtain env where env: "BuildEnvelope (Some ''k'') (Some ''123456789012'') (new_content KindText ''hi'' 7) ''mac'' ''box.local'' = Inr env"
    by (simp add: BuildEnvelope_def SealBody_def bodyCipher_def)
  have "OpenEnvelope (Some ''k'') env ''box'' 9 =
      Inr ((new_content KindText ''hi'' 7)\<lparr>c_Hash := sha256 (c_Bytes (new_content KindText ''hi'' 7))\<rparr>, ''mac'')"
    by (rule envelope_roundtrip [OF env])
      (simp_all add: gcm_nonce_size_def RecipientMatches_def ShortName_def trim_suffix_def has_suffix_def
        has_prefix_def
        new_content_def signatureSkew_def second_def)
  with env show ?thesis by (simp add: new_content_def)
qed

text \<open>C28. \<open>OpenEnvelope\<close> accepts an envelope only when it is addressed to this host, is not from the
  future, and its body is exactly what sealing the clip's bytes under the shared key produces;
  every other envelope is one of the three errors.\<close>

theorem OpenEnvelope_exact:
  "(case OpenEnvelope (Some k) env identity receivedAt of
      Inr (c, origin) \<Rightarrow>
        (identity = [] \<or> RecipientMatches (e_Recipient env) identity) \<and>
        e_TS env \<le> receivedAt + signatureSkew \<and> origin = e_Origin env \<and>
        (\<exists>n. b64_decode (e_Nonce env) = Some n \<and> length n = gcm_nonce_size \<and>
           b64_decode (e_Body env) = Some (gcm_seal (sha256 k) n (c_Bytes c))) \<and>
        c = \<lparr>c_ID = e_ID env, c_Kind = e_Kind env, c_Bytes = c_Bytes c, c_Hash = sha256 (c_Bytes c),
             c_TS = e_TS env, c_Concealed = e_Concealed env\<rparr>
    | Inl ErrWrongRecipient \<Rightarrow> identity \<noteq> [] \<and> \<not> RecipientMatches (e_Recipient env) identity
    | Inl ErrFutureEnvelopeTimestamp \<Rightarrow> e_TS env > receivedAt + signatureSkew
    | Inl (ErrEnvelopeDecrypt _) \<Rightarrow>
        \<not> (\<exists>n p. b64_decode (e_Nonce env) = Some n \<and> length n = gcm_nonce_size \<and>
             b64_decode (e_Body env) = Some (gcm_seal (sha256 k) n p)))"
proof (cases "OpenBody (Some k) (e_Nonce env) (e_Body env)")
  case (Inl e)
  then have "\<not> (\<exists>n p. b64_decode (e_Nonce env) = Some n \<and> length n = gcm_nonce_size \<and>
      b64_decode (e_Body env) = Some (gcm_seal (sha256 k) n p))"
    using OpenBody_iff [of k "e_Nonce env" "e_Body env"] by (metis Inl_Inr_False)
  with Inl show ?thesis by (auto simp: OpenEnvelope_def)
next
  case (Inr raw)
  then show ?thesis
    using OpenBody_iff [of k "e_Nonce env" "e_Body env" raw]
    by (auto simp: OpenEnvelope_def new_content_def)
qed

text \<open>The payload of a current clip with an identity, a time and a known kind decodes to that
  clip (unconcealed, with the hash of its bytes); every other payload is refused, and no
  current clip decodes to none.\<close>

lemma current_payload_roundtrip:
  "payload_content (CurrentPayloadFromContent c origin) =
     (if c_ID c = [] \<or> is_zero_time (c_TS c) then Inl ''invalid current payload''
      else if c_Kind c \<notin> {KindText, KindImage} then Inl ''invalid current kind''
      else Inr (Some (c\<lparr>c_Hash := sha256 (c_Bytes c), c_Concealed := False\<rparr>))) \<and>
   payload_content (NoCurrentPayload reason) = Inr None \<and> p_NullReason (NoCurrentPayload reason) \<noteq> []"
  by (simp add: payload_content_def CurrentPayloadFromContent_def NoCurrentPayload_def new_content_def)

end
