(* ===== verification/Clipfan_Daemon.thy ===== *)
theory Clipfan_Daemon
  imports Clipfan_Auth
begin

text \<open>
  The clipboard core of the daemon, \<open>internal/daemon/daemon.go\<close>: polling the local clipboard,
  receiving clips, restoring history entries, and the record of the current clip that keeps the
  daemon from echoing its own writes. What the daemon does to the outside is recorded in its state:
  the clips given to the SSH runtime (\<open>d_published\<close>), the clipboard writes (\<open>d_written\<close>) and the
  tmux buffers (\<open>d_tmux\<close>). What the outside decides is the argument \<open>world\<close>: the clipboard read, the
  random bytes, the clock, whether a clipboard write succeeds, and the history cap.
\<close>

section \<open>State\<close>

definition empty_content :: content where
  "empty_content = \<lparr>c_ID = [], c_Kind = [], c_Bytes = [], c_Hash = replicate 32 (CHR 0x00), c_TS = 0,
     c_Concealed = False\<rparr>"

record currentClip =
  cur_id :: string
  cur_kind :: string
  cur_hash :: bytes
  cur_imagePath :: string
  cur_content :: content
  cur_origin :: string
  cur_visible :: bool

definition no_current :: currentClip where
  "no_current = \<lparr>cur_id = [], cur_kind = [], cur_hash = replicate 32 (CHR 0x00), cur_imagePath = [],
     cur_content = empty_content, cur_origin = [], cur_visible = False\<rparr>"

datatype clip_write = WriteText bytes | WriteImage bytes string

record daemon =
  d_safeMode :: bool
  d_origin :: string
  d_stateDir :: string
  d_hasRuntime :: bool
  d_seen :: seenSet
  d_lastTS :: gotime
  d_current :: currentClip
  d_recv :: "(string \<times> gotime) list"
  d_fs :: "store_doc fs"
  d_published :: "(content \<times> string \<times> string) list"
  d_written :: "clip_write list"
  d_tmux :: "bytes list"

record world =
  w_read :: "content res"
  w_random :: "bytes option"
  w_now :: gotime
  w_write_ok :: bool
  w_cap :: "int option"

definition new_daemon :: "bool \<Rightarrow> string \<Rightarrow> string \<Rightarrow> bool \<Rightarrow> store_doc fs \<Rightarrow> daemon" where
  "new_daemon safe origin sd hasRuntime fs =
     \<lparr>d_safeMode = safe, d_origin = origin, d_stateDir = sd, d_hasRuntime = hasRuntime,
      d_seen = newSeenSet, d_lastTS = 0, d_current = no_current, d_recv = [], d_fs = fs,
      d_published = [], d_written = [], d_tmux = []\<rparr>"

section \<open>Operations\<close>

definition isEcho :: "daemon \<Rightarrow> content \<Rightarrow> bool" where
  "isEcho d c =
     (let cur = d_current d in
      if cur_id cur = [] then False
      else if c_Kind c = cur_kind cur \<and> c_Hash c = cur_hash cur then True
      else if cur_kind cur = KindImage \<and> c_Kind c = KindText
      then trim_space (c_Bytes c) = cur_imagePath cur
      else False)"

definition publishSSH :: "content \<Rightarrow> string \<Rightarrow> string \<Rightarrow> daemon \<Rightarrow> daemon" where
  "publishSSH c origin skipOrigin d =
     (if d_safeMode d then d
      else if \<not> d_hasRuntime d then d
      else d\<lparr>d_published := d_published d @ [(c, origin, skipOrigin)]\<rparr>)"

text \<open>Running a store operation whose error the caller only logs.\<close>

definition store_do :: "(daemon \<Rightarrow> 'a store_io) \<Rightarrow> daemon \<Rightarrow> (os_error + 'a) \<times> daemon" where
  "store_do m d = (case m d (d_fs d) of (r, fs') \<Rightarrow> (r, d\<lparr>d_fs := fs'\<rparr>))"

definition append_history :: "world \<Rightarrow> content \<Rightarrow> string \<Rightarrow> string \<Rightarrow> daemon \<Rightarrow> daemon" where
  "append_history w c origin imagePath d =
     snd (store_do (\<lambda>d. AppendHistory (d_stateDir d) (w_cap w) c origin imagePath) d)"

definition recordRecv :: "gotime \<Rightarrow> string \<Rightarrow> daemon \<Rightarrow> daemon" where
  "recordRecv now origin d = d\<lparr>d_recv := AList.update origin now (d_recv d)\<rparr>"

text \<open>The first critical section of \<open>pollOnce\<close> and \<open>Restore\<close>, and the adoption of a clip.\<close>

definition note_local :: "content \<Rightarrow> daemon \<Rightarrow> daemon" where
  "note_local c d = d\<lparr>d_seen := seen_add (c_ID c) (d_seen d), d_lastTS := c_TS c\<rparr>"

definition adopt :: "content \<Rightarrow> string \<Rightarrow> string \<Rightarrow> string \<Rightarrow> bool \<Rightarrow> daemon \<Rightarrow> daemon" where
  "adopt c kind imagePath origin visible d =
     d\<lparr>d_current := \<lparr>cur_id = c_ID c, cur_kind = kind, cur_hash = c_Hash c, cur_imagePath = imagePath,
                      cur_content = c, cur_origin = origin, cur_visible = visible\<rparr>\<rparr>"

text \<open>The image of a local clip: the path is empty when the image cannot be saved.\<close>

definition save_local_image :: "content \<Rightarrow> daemon \<Rightarrow> string \<times> daemon" where
  "save_local_image c d =
     (if c_Kind c = KindImage then
        (case store_do (\<lambda>d. SaveImage (d_stateDir d) (c_Bytes c)) d of
           (Inr p, d') \<Rightarrow> (p, d') | (Inl _, d') \<Rightarrow> ([], d'))
      else ([], d))"

definition pollOnce :: "world \<Rightarrow> daemon \<Rightarrow> bool \<times> daemon" where
  "pollOnce w d =
     (if d_safeMode d then (False, d)
      else case w_read w of
        Inl _ \<Rightarrow> (False, d)
      | Inr c0 \<Rightarrow>
          if c_Bytes c0 = [] then (False, d)
          else if c_Kind c0 = KindText \<and> IsImageStorePath (d_stateDir d) (d_fs d) (c_Bytes c0)
          then (False, d)
          else if isEcho d c0 then (False, d)
          else let c = c0\<lparr>c_ID := NewClipID (w_random w)\<rparr> in
          if c_ID c = [] then (False, d)
          else let d1 = note_local c d in
          if c_Concealed c then (True, adopt c (c_Kind c) [] (d_origin d1) False d1)
          else case save_local_image c d1 of (imagePath, d2) \<Rightarrow>
            let d3 = append_history w c (d_origin d2) imagePath d2;
                d4 = adopt c (c_Kind c) imagePath (d_origin d3) True d3
            in (True, publishSSH c (d_origin d4) [] d4))"

text \<open>The critical section of \<open>onReceive\<close>: whether the clip goes on, and the state after it.\<close>

definition admit :: "content \<Rightarrow> daemon \<Rightarrow> bool \<times> daemon" where
  "admit c d =
     (if seen_has (d_seen d) (c_ID c) then (False, d)
      else if c_Concealed c then (False, d\<lparr>d_seen := seen_add (c_ID c) (d_seen d)\<rparr>)
      else if \<not> is_zero_time (d_lastTS d) \<and> c_TS c < d_lastTS d then (False, d)
      else (True, d\<lparr>d_seen := seen_add (c_ID c) (d_seen d), d_lastTS := c_TS c\<rparr>))"

definition write_clipboard :: "world \<Rightarrow> clip_write \<Rightarrow> daemon \<Rightarrow> daemon" where
  "write_clipboard w x d = (if w_write_ok w then d\<lparr>d_written := d_written d @ [x]\<rparr> else d)"

text \<open>What follows the critical section, with the saved image path of an image clip.\<close>

definition deliver :: "world \<Rightarrow> content \<Rightarrow> string \<Rightarrow> string \<Rightarrow> daemon \<Rightarrow> daemon" where
  "deliver w c origin imagePath d =
     (let isImage = (c_Kind c = KindImage);
          textPayload = (if isImage then imagePath else c_Bytes c);
          st = (if isImage then \<lparr>st_Kind = ''image'', st_TS = c_TS c, st_ImagePath = imagePath\<rparr>
                else \<lparr>st_Kind = ''text'', st_TS = c_TS c, st_ImagePath = []\<rparr>);
          d1 = snd (store_do (\<lambda>d. SaveState (d_stateDir d) st textPayload) d);
          d2 = append_history w c origin (if isImage then imagePath else []) d1;
          d3 = write_clipboard w (if isImage then WriteImage (c_Bytes c) imagePath else WriteText textPayload) d2;
          d4 = (if w_write_ok w
                then (if isImage then adopt c KindImage imagePath origin True d3
                      else adopt c KindText [] origin True d3)
                else d3);
          d5 = d4\<lparr>d_tmux := d_tmux d4 @ [textPayload]\<rparr>
      in publishSSH c origin origin d5)"

definition onReceive :: "world \<Rightarrow> content \<Rightarrow> string \<Rightarrow> daemon \<Rightarrow> daemon" where
  "onReceive w c origin d =
     (if d_safeMode d then d
      else if c_Kind c = KindText \<and> IsImageStorePath (d_stateDir d) (d_fs d) (c_Bytes c) then d
      else if isEcho d c then d
      else if c_ID c = [] then d
      else case admit c d of
        (False, d1) \<Rightarrow> d1
      | (True, d1) \<Rightarrow>
          let d2 = recordRecv (w_now w) origin d1 in
          if c_Kind c = KindImage then
            (case store_do (\<lambda>d. SaveImage (d_stateDir d) (c_Bytes c)) d2 of
               (Inl _, d3) \<Rightarrow> d3
             | (Inr p, d3) \<Rightarrow> deliver w c origin p d3)
          else deliver w c origin [] d2)"

definition currentHandler :: "daemon \<Rightarrow> CurrentPayload" where
  "currentHandler d =
     (let cur = d_current d in
      if \<not> cur_visible cur \<or> c_ID (cur_content cur) = [] then NoCurrentPayload ''no_visible_current''
      else CurrentPayloadFromContent (cur_content cur) (cur_origin cur))"

text \<open>The tail of \<open>Restore\<close>, from minting the identifier on.\<close>

definition restore_finish :: "world \<Rightarrow> history_entry \<Rightarrow> content \<Rightarrow> daemon \<Rightarrow> daemon" where
  "restore_finish w e c0 d =
     (let c = c0\<lparr>c_ID := NewClipID (w_random w)\<rparr> in
      if c_ID c = [] then d
      else let d1 = note_local c d;
               d2 = (if w_write_ok w
                     then (if h_Kind e = ''image'' then adopt c KindImage (h_ImagePath e) (d_origin d1) True d1
                           else adopt c KindText [] (d_origin d1) True d1)
                     else d1);
               d3 = append_history w c (d_origin d2) (if h_Kind e = ''image'' then h_ImagePath e else []) d2
           in publishSSH c (d_origin d3) [] d3)"

definition Restore :: "world \<Rightarrow> string \<Rightarrow> daemon \<Rightarrow> (os_error + unit) \<times> daemon" where
  "Restore w i d = (case store_do (\<lambda>d. EntryByID (d_stateDir d) i) d of
     (Inl e, d0) \<Rightarrow> (Inl e, d0)
   | (Inr None, d0) \<Rightarrow> (Inl (ErrMsg (''history entry '' @ i @ '' not found'')), d0)
   | (Inr (Some e), d0) \<Rightarrow>
       (if h_Kind e = ''image'' then
          (case store_do (\<lambda>d. os_read_file (h_ImagePath e)) d0 of
             (Inr (Some (Blob body)), d1) \<Rightarrow>
               (Inr (), restore_finish w e (new_content KindImage body (w_now w))
                          (write_clipboard w (WriteImage body (h_ImagePath e)) d1))
           | (Inr _, d1) \<Rightarrow> (Inl ErrIO, d1)
           | (Inl er, d1) \<Rightarrow> (Inl er, d1))
        else (Inr (), restore_finish w e (new_content KindText (h_Text e) (w_now w))
                        (write_clipboard w (WriteText (h_Text e)) d0))))"

text \<open>\<open>setMaxHistory\<close>: \<open>preflight\<close>, \<open>load\<close> and \<open>save\<close> are the outcomes of the storage check, of
  loading the configuration and of saving it with the new cap.\<close>

definition clampMaxHistory :: "int \<Rightarrow> int" where
  "clampMaxHistory n = (let n1 = (if n < 50 then 50 else n) in if n1 > 5000 then 5000 else n1)"

definition setMaxHistory ::
  "os_error + unit \<Rightarrow> os_error + unit \<Rightarrow> (int \<Rightarrow> os_error + unit) \<Rightarrow> int \<Rightarrow> daemon \<Rightarrow> (os_error + unit) \<times> daemon" where
  "setMaxHistory preflight load save n d = (case preflight of
     Inl e \<Rightarrow> (Inl e, d)
   | Inr _ \<Rightarrow>
       (if n \<le> 0 then (Inl (ErrMsg (''max_history must be positive, got '' @ show_int n)), d)
        else let n' = clampMaxHistory n in
          (case load of
             Inl e \<Rightarrow> (Inl e, d)
           | Inr _ \<Rightarrow>
               (case save n' of
                  Inl e \<Rightarrow> (Inl e, d)
                | Inr _ \<Rightarrow> store_do (\<lambda>d. Recap (d_stateDir d) (Some n')) d))))"

text \<open>The adoption of the clipboard found at start, in \<open>Run\<close>.\<close>

definition startup_adopt :: "world \<Rightarrow> daemon \<Rightarrow> daemon" where
  "startup_adopt w d = (case w_read w of
     Inl _ \<Rightarrow> d
   | Inr c \<Rightarrow>
       (if c_Bytes c = [] then d
        else d\<lparr>d_lastTS := c_TS c,
               d_current := no_current\<lparr>cur_id := ''startup'',
                 cur_kind := (if c_Kind c = KindImage then KindImage else KindText),
                 cur_hash := c_Hash c\<rparr>\<rparr>))"

definition clipboardPollActiveInterval :: gotime where "clipboardPollActiveInterval = 250 * 1000000"
definition clipboardPollIdleInterval :: gotime where "clipboardPollIdleInterval = 2 * second"
definition clipboardPollIdleAfter :: int where "clipboardPollIdleAfter = 8"

definition nextClipboardPollInterval :: "int \<Rightarrow> bool \<Rightarrow> gotime \<times> int" where
  "nextClipboardPollInterval idlePolls changed =
     (if changed then (clipboardPollActiveInterval, 0)
      else let n = idlePolls + 1
           in if n \<ge> clipboardPollIdleAfter then (clipboardPollIdleInterval, n)
              else (clipboardPollActiveInterval, n))"

section \<open>The daemon as a transition system\<close>

text \<open>
  One step is one call: a poll, a received clip, a restore, a change of the history or of its cap by a
  request, the adoption of the clipboard at start, the image collector of a saved image. The identifiers minted by a poll or a restore are fresh random
  values, so they are not among those seen.
\<close>

definition fresh_random :: "world \<Rightarrow> daemon \<Rightarrow> bool" where
  "fresh_random w d \<longleftrightarrow> \<not> seen_has (d_seen d) (NewClipID (w_random w))"

inductive daemon_step :: "daemon \<Rightarrow> daemon \<Rightarrow> bool" where
  step_poll: "fresh_random w d \<Longrightarrow> daemon_step d (snd (pollOnce w d))"
| step_receive: "daemon_step d (onReceive w c origin d)"
| step_restore: "fresh_random w d \<Longrightarrow> \<not> d_safeMode d \<Longrightarrow> daemon_step d (snd (Restore w i d))"
| step_history: "daemon_step d (snd (store_do (\<lambda>d. run_history_op (d_stateDir d) cap op) d))"
| step_startup: "\<not> d_safeMode d \<Longrightarrow> daemon_step d (startup_adopt w d)"
| step_max_history: "daemon_step d (snd (setMaxHistory preflight load save n d))"
| step_gc: "daemon_step d (d\<lparr>d_fs := gc (d_stateDir d) cap (d_fs d)\<rparr>)"

inductive_cases daemon_stepE: "daemon_step d d'"

inductive daemon_reach :: "daemon \<Rightarrow> daemon \<Rightarrow> bool" where
  reach_start: "daemon_reach d d"
| reach_step: "daemon_reach d e \<Longrightarrow> daemon_step e f \<Longrightarrow> daemon_reach d f"

section \<open>The relay the daemon implements\<close>

text \<open>
  The abstract specification: a relay remembers identifiers, keeps a log of what it passed on and
  exposes at most one clip. A step does nothing new, hides the exposed clip, remembers an
  identifier, or takes a clip that is new and not concealed, which it may pass on and expose.
\<close>

record relay =
  r_seen :: seenSet
  r_log :: "(content \<times> string \<times> string) list"
  r_exposed :: "content option"

inductive relay_step :: "relay \<Rightarrow> relay \<Rightarrow> bool" where
  relay_idle: "relay_step r r"
| relay_hide: "relay_step r (r\<lparr>r_exposed := None\<rparr>)"
| relay_note: "\<not> seen_has (r_seen r) i \<Longrightarrow> x \<in> {r_exposed r, None} \<Longrightarrow>
    relay_step r (r\<lparr>r_seen := seen_add i (r_seen r), r_exposed := x\<rparr>)"
| relay_take: "\<not> seen_has (r_seen r) (c_ID c) \<Longrightarrow> \<not> c_Concealed c \<Longrightarrow> ps \<in> {[], [(c, origin, skip)]} \<Longrightarrow>
    x \<in> {r_exposed r, Some c} \<Longrightarrow>
    relay_step r (r\<lparr>r_seen := seen_add (c_ID c) (r_seen r), r_log := r_log r @ ps, r_exposed := x\<rparr>)"

inductive_cases relay_stepE: "relay_step r r'"

definition abs_relay :: "daemon \<Rightarrow> relay" where
  "abs_relay d = \<lparr>r_seen = d_seen d, r_log = d_published d,
     r_exposed = (if cur_visible (d_current d) then Some (cur_content (d_current d)) else None)\<rparr>"

section \<open>What the parts of an operation keep\<close>

lemma store_do_frame [simp]:
  "abs_relay (snd (store_do m d)) = abs_relay d"
  "d_safeMode (snd (store_do m d)) = d_safeMode d"
  "d_hasRuntime (snd (store_do m d)) = d_hasRuntime d"
  "d_origin (snd (store_do m d)) = d_origin d"
  "d_seen (snd (store_do m d)) = d_seen d"
  "d_current (snd (store_do m d)) = d_current d"
  "d_lastTS (snd (store_do m d)) = d_lastTS d"
  "d_stateDir (snd (store_do m d)) = d_stateDir d"
  "d_published (snd (store_do m d)) = d_published d"
  by (simp_all add: store_do_def abs_relay_def split: prod.splits)

lemma store_do_result:
  "store_do m d = (r, d') \<Longrightarrow> d' = d\<lparr>d_fs := snd (m d (d_fs d))\<rparr> \<and> r = fst (m d (d_fs d))"
  by (auto simp: store_do_def split: prod.splits)

lemma append_history_frame [simp]:
  "abs_relay (append_history w c o' p d) = abs_relay d"
  "d_safeMode (append_history w c o' p d) = d_safeMode d"
  "d_hasRuntime (append_history w c o' p d) = d_hasRuntime d"
  "d_origin (append_history w c o' p d) = d_origin d"
  "d_seen (append_history w c o' p d) = d_seen d"
  "d_current (append_history w c o' p d) = d_current d"
  "d_lastTS (append_history w c o' p d) = d_lastTS d"
  "d_published (append_history w c o' p d) = d_published d"
  by (simp_all add: append_history_def)

lemma abs_relay_ops [simp]:
  "abs_relay (write_clipboard w x d) = abs_relay d"
  "abs_relay (recordRecv t o' d) = abs_relay d"
  "abs_relay (d\<lparr>d_tmux := l\<rparr>) = abs_relay d"
  "abs_relay (d\<lparr>d_fs := fs\<rparr>) = abs_relay d"
  "abs_relay (d\<lparr>d_lastTS := t\<rparr>) = abs_relay d"
  "abs_relay (d\<lparr>d_seen := sn\<rparr>) = (abs_relay d)\<lparr>r_seen := sn\<rparr>"
  "abs_relay (adopt c k p o' v d) = (abs_relay d)\<lparr>r_exposed := if v then Some c else None\<rparr>"
  "abs_relay (note_local c d) = (abs_relay d)\<lparr>r_seen := seen_add (c_ID c) (d_seen d)\<rparr>"
  by (simp_all add: abs_relay_def write_clipboard_def recordRecv_def adopt_def note_local_def)

lemma abs_relay_sel [simp]:
  "r_seen (abs_relay d) = d_seen d"
  "r_log (abs_relay d) = d_published d"
  by (simp_all add: abs_relay_def)

lemma abs_relay_publish:
  "\<exists>ps \<in> {[], [(c, o', s)]}. abs_relay (publishSSH c o' s d) = (abs_relay d)\<lparr>r_log := r_log (abs_relay d) @ ps\<rparr>"
  by (simp add: publishSSH_def abs_relay_def)

lemma save_local_image_result:
  "save_local_image c d = (p, d') \<Longrightarrow> \<exists>fs. d' = d\<lparr>d_fs := fs\<rparr>"
proof -
  assume h: "save_local_image c d = (p, d')"
  have "d\<lparr>d_fs := d_fs d\<rparr> = d" by (cases d) simp
  with h show ?thesis
    by (auto simp: save_local_image_def dest!: store_do_result intro: exI [of _ "d_fs d"]
        split: if_splits prod.splits sum.splits)
qed

text \<open>A clip that is taken: remembered, perhaps exposed and perhaps passed on.\<close>

lemma relay_taken:
  assumes new: "\<not> seen_has (d_seen d) (c_ID c)" and plain: "\<not> c_Concealed c"
    and pre: "abs_relay e = (abs_relay d)\<lparr>r_seen := seen_add (c_ID c) (d_seen d), r_exposed := x\<rparr>"
    and x: "x \<in> {r_exposed (abs_relay d), Some c}"
  shows "relay_step (abs_relay d) (abs_relay (publishSSH c o' s e))"
proof -
  obtain ps where ps: "ps \<in> {[], [(c, o', s)]}"
    "abs_relay (publishSSH c o' s e) = (abs_relay e)\<lparr>r_log := r_log (abs_relay e) @ ps\<rparr>"
    using abs_relay_publish by blast
  have "abs_relay (publishSSH c o' s e) = (abs_relay d)\<lparr>r_seen := seen_add (c_ID c) (r_seen (abs_relay d)),
      r_log := r_log (abs_relay d) @ ps, r_exposed := x\<rparr>"
    unfolding ps(2) pre by simp
  then show ?thesis using relay_take [of "abs_relay d" c ps o' s x] new plain ps(1) x by simp
qed


lemma relay_noted:
  assumes "\<not> seen_has (d_seen d) i"
    and "abs_relay e = (abs_relay d)\<lparr>r_seen := seen_add i (d_seen d), r_exposed := x\<rparr>"
    and "x \<in> {r_exposed (abs_relay d), None}"
  shows "relay_step (abs_relay d) (abs_relay e)"
  using relay_note [of "abs_relay d" i x] assms by simp

lemma exposed_same [simp]: "(abs_relay d)\<lparr>r_seen := s, r_exposed := r_exposed (abs_relay d)\<rparr> = (abs_relay d)\<lparr>r_seen := s\<rparr>"
  by (simp add: abs_relay_def)

section \<open>Every operation is a step of the relay\<close>

lemma pollOnce_relay:
  assumes "fresh_random w d"
  shows "relay_step (abs_relay d) (abs_relay (snd (pollOnce w d)))"
proof (cases "\<exists>c0. w_read w = Inr c0 \<and> snd (pollOnce w d) \<noteq> d")
  case True
  then obtain c0 where r: "w_read w = Inr c0" and ch: "snd (pollOnce w d) \<noteq> d" by blast
  define c where "c = c0\<lparr>c_ID := NewClipID (w_random w)\<rparr>"
  have new: "\<not> seen_has (d_seen d) (c_ID c)" using assms by (simp add: fresh_random_def c_def)
  obtain p d2 where sv: "save_local_image c (note_local c d) = (p, d2)" by fastforce
  from save_local_image_result [OF sv] obtain fs where d2: "d2 = (note_local c d)\<lparr>d_fs := fs\<rparr>" by blast
  show ?thesis
  proof (cases "c_Concealed c")
    case True
    with r ch have "snd (pollOnce w d) = adopt c (c_Kind c) [] (d_origin (note_local c d)) False (note_local c d)"
      by (auto simp: pollOnce_def Let_def c_def split: if_splits)
    then show ?thesis by (intro relay_noted [OF new, where x = None]) simp_all
  next
    case False
    let ?d3 = "append_history w c (d_origin d2) p d2"
    from False r ch sv have e: "snd (pollOnce w d) =
        publishSSH c (d_origin d) [] (adopt c (c_Kind c) p (d_origin d) True ?d3)"
      by (auto simp: pollOnce_def Let_def c_def d2 adopt_def note_local_def split: if_splits prod.splits)
    show ?thesis unfolding e by (rule relay_taken [OF new False, where x = "Some c"]) (simp_all add: d2)
  qed
next
  case False
  then have "snd (pollOnce w d) = d" by (auto simp: pollOnce_def split: sum.splits)
  then show ?thesis by (simp add: relay_idle)
qed


lemma admit_refused: "admit c d = (False, e) \<Longrightarrow> relay_step (abs_relay d) (abs_relay e)"
  by (auto simp: admit_def relay_idle split: if_splits
      intro!: relay_noted [where x = "r_exposed (abs_relay d)"])

lemma admit_accepted:
  "admit c d = (True, e) \<Longrightarrow> \<not> seen_has (d_seen d) (c_ID c) \<and> \<not> c_Concealed c \<and>
     e = d\<lparr>d_seen := seen_add (c_ID c) (d_seen d), d_lastTS := c_TS c\<rparr>"
  by (auto simp: admit_def split: if_splits)

lemma deliver_relay:
  assumes "\<not> seen_has (d_seen d) (c_ID c)" and "\<not> c_Concealed c"
    and e: "abs_relay e = (abs_relay d)\<lparr>r_seen := seen_add (c_ID c) (d_seen d)\<rparr>"
  shows "relay_step (abs_relay d) (abs_relay (deliver w c o' p e))"
proof (cases "w_write_ok w")
  case True
  then show ?thesis
    unfolding deliver_def Let_def
    by (intro relay_taken [OF assms(1,2), where x = "Some c"]) (simp_all add: e)
next
  case False
  then show ?thesis
    unfolding deliver_def Let_def
    by (intro relay_taken [OF assms(1,2), where x = "r_exposed (abs_relay d)"]) (simp_all add: e)
qed

lemma onReceive_relay: "relay_step (abs_relay d) (abs_relay (onReceive w c o' d))"
proof (cases "onReceive w c o' d = d")
  case False
  show ?thesis
  proof (cases "admit c d")
    case (Pair acc d1)
    show ?thesis
    proof (cases acc)
      case True
      with Pair have a: "\<not> seen_has (d_seen d) (c_ID c)" "\<not> c_Concealed c"
        "d1 = d\<lparr>d_seen := seen_add (c_ID c) (d_seen d), d_lastTS := c_TS c\<rparr>"
        by (auto dest: admit_accepted)
      let ?d2 = "recordRecv (w_now w) o' d1"
      have d2: "abs_relay ?d2 = (abs_relay d)\<lparr>r_seen := seen_add (c_ID c) (d_seen d)\<rparr>"
        by (simp add: a(3))
      show ?thesis
      proof (cases "c_Kind c = KindImage")
        case True
        obtain r d3 where s: "store_do (\<lambda>d. SaveImage (d_stateDir d) (c_Bytes c)) ?d2 = (r, d3)" by fastforce
        have d3: "abs_relay d3 = (abs_relay d)\<lparr>r_seen := seen_add (c_ID c) (d_seen d)\<rparr>"
          using store_do_result [OF s] d2 by simp
        from False have e: "onReceive w c o' d = (case r of Inl _ \<Rightarrow> d3 | Inr p \<Rightarrow> deliver w c o' p d3)"
          using Pair \<open>acc\<close> True s by (auto simp: onReceive_def Let_def split: if_splits sum.splits)
        show ?thesis
        proof (cases r)
          case (Inl x)
          then show ?thesis unfolding e
            by simp (rule relay_noted [OF a(1), where x = "r_exposed (abs_relay d)"], simp_all add: d3)
        next
          case (Inr p)
          then show ?thesis unfolding e using deliver_relay [OF a(1,2) d3] by simp
        qed
      next
        case no: False
        from False have e: "onReceive w c o' d = deliver w c o' [] ?d2"
          using Pair \<open>acc\<close> no by (auto simp: onReceive_def Let_def split: if_splits)
        show ?thesis unfolding e by (rule deliver_relay [OF a(1,2) d2])
      qed
    next
      case no: False
      from False have "onReceive w c o' d = d1"
        using Pair no by (auto simp: onReceive_def Let_def split: if_splits)
      then show ?thesis using admit_refused Pair no by simp
    qed
  qed
qed (simp add: relay_idle)


lemma restore_finish_relay:
  assumes "fresh_random w d" and "\<not> c_Concealed c" and e: "abs_relay e = abs_relay d"
  shows "relay_step (abs_relay d) (abs_relay (restore_finish w en c e))"
proof -
  let ?c = "c\<lparr>c_ID := NewClipID (w_random w)\<rparr>"
  have new: "\<not> seen_has (d_seen d) (c_ID ?c)" using assms(1) by (simp add: fresh_random_def)
  have plain: "\<not> c_Concealed ?c" using assms(2) by simp
  have s: "d_seen e = d_seen d" using arg_cong [OF e, of r_seen] by simp
  show ?thesis
  proof (cases "NewClipID (w_random w) = []")
    case True
    then show ?thesis by (simp add: restore_finish_def e relay_idle)
  next
    case False
    define d2 where "d2 = (if w_write_ok w
      then (if h_Kind en = ''image'' then adopt ?c KindImage (h_ImagePath en) (d_origin (note_local ?c e)) True (note_local ?c e)
            else adopt ?c KindText [] (d_origin (note_local ?c e)) True (note_local ?c e))
      else note_local ?c e)"
    define d3 where "d3 = append_history w ?c (d_origin d2) (if h_Kind en = ''image'' then h_ImagePath en else []) d2"
    have r: "restore_finish w en c e = publishSSH ?c (d_origin d3) [] d3"
      using False by (simp add: restore_finish_def Let_def d2_def d3_def)
    show ?thesis unfolding r
      by (rule relay_taken [OF new plain, where x = "if w_write_ok w then Some ?c else r_exposed (abs_relay d)"])
        (simp_all add: d3_def d2_def e s)
  qed
qed

lemma Restore_relay:
  assumes fr: "fresh_random w d"
  shows "relay_step (abs_relay d) (abs_relay (snd (Restore w i d)))"
proof -
  have plain: "\<not> c_Concealed (new_content k b t)" for k b t by (simp add: new_content_def)
  obtain r d0 where l: "store_do (\<lambda>d. EntryByID (d_stateDir d) i) d = (r, d0)" by fastforce
  have d0: "abs_relay d0 = abs_relay d" using store_do_result [OF l] by simp
  have idle: "relay_step (abs_relay d) (abs_relay d0)" by (simp add: d0 relay_idle)
  show ?thesis
  proof (cases "\<exists>en. r = Inr (Some en)")
    case True
    then obtain en where r: "r = Inr (Some en)" by blast
    obtain q d1 where f: "store_do (\<lambda>d. os_read_file (h_ImagePath en)) d0 = (q, d1)" by fastforce
    have d1: "abs_relay d1 = abs_relay d" using store_do_result [OF f] d0 by simp
    have "relay_step (abs_relay d) (abs_relay d1)" by (simp add: d1 relay_idle)
    then show ?thesis
      using l r f by (auto simp: Restore_def d0 d1 restore_finish_relay [OF fr plain]
          split: sum.splits option.splits store_doc.splits)
  next
    case False
    with l idle show ?thesis by (auto simp: Restore_def split: sum.splits option.splits)
  qed
qed

lemma setMaxHistory_relay [simp]: "abs_relay (snd (setMaxHistory pf ld sv n d)) = abs_relay d"
  by (simp add: setMaxHistory_def Let_def split: sum.splits)

lemma startup_adopt_relay: "relay_step (abs_relay d) (abs_relay (startup_adopt w d))"
  using relay_hide [of "abs_relay d"] relay_idle [of "abs_relay d"]
  by (auto simp: startup_adopt_def abs_relay_def no_current_def split: sum.splits)

lemma daemon_step_relay: "daemon_step d e \<Longrightarrow> relay_step (abs_relay d) (abs_relay e)"
  by (erule daemon_stepE)
    (simp_all add: pollOnce_relay onReceive_relay Restore_relay startup_adopt_relay relay_idle)

section \<open>What holds of every relay\<close>

definition relay_ok :: "relay \<Rightarrow> bool" where
  "relay_ok r \<longleftrightarrow> seen_ok (r_seen r) \<and>
     list_all (\<lambda>(c, _, _). \<not> c_Concealed c) (r_log r) \<and>
     (case r_exposed r of None \<Rightarrow> True | Some c \<Rightarrow> \<not> c_Concealed c) \<and>
     (length (order (r_seen r)) < seenCap \<longrightarrow>
        distinct (map (c_ID \<circ> fst) (r_log r)) \<and>
        set (map (c_ID \<circ> fst) (r_log r)) \<subseteq> set (order (r_seen r)))"

lemma seen_add_below_cap:
  assumes "seen_ok s" and "\<not> seen_has s i" and "length (order (seen_add i s)) < seenCap"
  shows "order (seen_add i s) = order s @ [i]" and "length (order s) < seenCap" and "i \<notin> set (order s)"
proof -
  let ?n = "Suc (length (order s)) - seenCap"
  have o: "order (seen_add i s) = drop ?n (order s @ [i])" by (rule seen_add_order [OF assms(1,2)])
  have le: "length (order s) \<le> seenCap" using assms(1) by (simp add: seen_ok_def)
  have "?n = 0"
  proof (rule ccontr)
    assume "?n \<noteq> 0"
    with le have "length (order s) = seenCap" by linarith
    with o have "length (order (seen_add i s)) = seenCap" by simp
    with assms(3) show False by simp
  qed
  then show "order (seen_add i s) = order s @ [i]" "length (order s) < seenCap"
    using o by simp_all
  show "i \<notin> set (order s)" using assms(1,2) seen.has_mem by blast
qed

lemma relay_step_ok:
  assumes "relay_step r r'" and ok: "relay_ok r" shows "relay_ok r'"
  using assms(1)
proof (cases rule: relay_step.cases)
  case (relay_note i x)
  have "seen_ok (r_seen r)" using ok by (simp add: relay_ok_def)
  note b = seen_add_below_cap [OF this relay_note(2)]
  show ?thesis
    using ok relay_note(3) b unfolding relay_note(1)
    by (auto simp: relay_ok_def seen_add_ok split: option.splits)
next
  case (relay_take c ps o' sk x)
  have s: "seen_ok (r_seen r)" using ok by (simp add: relay_ok_def)
  note b = seen_add_below_cap [OF this relay_take(2)]
  have "length (order (r_seen r')) < seenCap \<longrightarrow> distinct (map (c_ID \<circ> fst) (r_log r')) \<and>
      set (map (c_ID \<circ> fst) (r_log r')) \<subseteq> set (order (r_seen r'))"
    using ok b relay_take(4) unfolding relay_take(1) by (auto simp: relay_ok_def)
  with ok s relay_take show ?thesis by (auto simp: relay_ok_def seen_add_ok split: option.splits)
qed (use ok in \<open>simp_all add: relay_ok_def\<close>)

lemma reach_relay_ok:
  assumes "daemon_reach d e" and "relay_ok (abs_relay d)" shows "relay_ok (abs_relay e)"
  using assms by induction (blast intro: daemon_step_relay relay_step_ok)+

lemma new_daemon_relay_ok: "relay_ok (abs_relay (new_daemon safe origin sd rt fs))"
  by (simp add: new_daemon_def abs_relay_def relay_ok_def no_current_def newSeenSet_def seen_ok_def)


section \<open>Echoes\<close>

lemma deliver_keeps [simp]:
  "d_seen (deliver w c o' p d) = d_seen d" "d_safeMode (deliver w c o' p d) = d_safeMode d"
  "d_lastTS (deliver w c o' p d) = d_lastTS d"
  by (simp_all add: deliver_def Let_def publishSSH_def adopt_def write_clipboard_def)

lemma seen_add_has: "seen_ok s \<Longrightarrow> seen_has (seen_add i s) i"
  using seen.remembered [of s i "[]"] seen.cap_pos by (cases "seen_has s i") (simp_all add: seen_add_old)

lemma onReceive_seen: "seen_has (d_seen d) (c_ID c) \<Longrightarrow> onReceive w c o' d = d"
  by (simp add: onReceive_def admit_def)

lemma onReceive_remembers:
  assumes "seen_ok (d_seen d)" and "onReceive w c o' d \<noteq> d"
  shows "seen_has (d_seen (onReceive w c o' d)) (c_ID c)"
  using assms seen_add_has [OF assms(1)]
  by (auto simp: onReceive_def Let_def admit_def recordRecv_def dest!: store_do_result
      split: if_splits prod.splits sum.splits)


lemma pollOnce_changed:
  assumes "pollOnce w d = (True, d')"
  obtains c0 where "w_read w = Inr c0" and "c_Bytes c0 \<noteq> []" and "\<not> d_safeMode d" and "\<not> isEcho d c0"
    and "cur_id (d_current d') \<noteq> []" and "cur_kind (d_current d') = c_Kind c0"
    and "cur_hash (d_current d') = c_Hash c0" and "d_safeMode d' = d_safeMode d"
proof -
  from assms obtain c0 where r: "w_read w = Inr c0" and b: "c_Bytes c0 \<noteq> []" "\<not> d_safeMode d" "\<not> isEcho d c0"
      "NewClipID (w_random w) \<noteq> []"
    by (auto simp: pollOnce_def Let_def split: sum.splits if_splits)
  define c where "c = c0\<lparr>c_ID := NewClipID (w_random w)\<rparr>"
  obtain p d2 where sv: "save_local_image c (note_local c d) = (p, d2)" by fastforce
  from save_local_image_result [OF sv] obtain fs where d2: "d2 = (note_local c d)\<lparr>d_fs := fs\<rparr>" by blast
  have "d' = (if c_Concealed c then adopt c (c_Kind c) [] (d_origin (note_local c d)) False (note_local c d)
      else publishSSH c (d_origin d) [] (adopt c (c_Kind c) p (d_origin d) True (append_history w c (d_origin d2) p d2)))"
    using assms r b sv
    by (auto simp: pollOnce_def Let_def c_def d2 adopt_def note_local_def split: if_splits prod.splits)
  then have "cur_id (d_current d') \<noteq> [] \<and> cur_kind (d_current d') = c_Kind c0 \<and> cur_hash (d_current d') = c_Hash c0 \<and>
      d_safeMode d' = d_safeMode d"
    using b(4) by (auto simp: adopt_def note_local_def c_def d2 publishSSH_def)
  with r b that show thesis by blast
qed

lemma pollOnce_echo:
  "w_read w = Inr c \<Longrightarrow> isEcho d c \<Longrightarrow> pollOnce w d = (False, d)"
  by (simp add: pollOnce_def)

lemma deliver_adopts:
  "w_write_ok w \<Longrightarrow> d_current (deliver w c o' p d) =
     \<lparr>cur_id = c_ID c, cur_kind = (if c_Kind c = KindImage then KindImage else KindText), cur_hash = c_Hash c,
      cur_imagePath = (if c_Kind c = KindImage then p else []), cur_content = c, cur_origin = o', cur_visible = True\<rparr>"
  by (simp add: deliver_def Let_def publishSSH_def adopt_def write_clipboard_def)

lemma deliver_writes: "\<not> w_write_ok w \<Longrightarrow> d_written (deliver w c o' p d) = d_written d"
  by (simp add: deliver_def Let_def publishSSH_def write_clipboard_def append_history_def store_do_def split: prod.splits)

lemma deliver_publishes:
  "\<not> d_safeMode d \<Longrightarrow> d_hasRuntime d \<Longrightarrow>
     d_published (deliver w c o' p d) = d_published d @ [(c, o', o')]"
  by (simp add: deliver_def Let_def publishSSH_def adopt_def write_clipboard_def)

lemma onReceive_writes:
  assumes "d_written (onReceive w c o' d) \<noteq> d_written d"
  obtains p d2 where "onReceive w c o' d = deliver w c o' p d2" and "w_write_ok w" and "c_ID c \<noteq> []"
proof -
  have w: "d_written (snd (admit c d)) = d_written d" "\<And>t o'' e. d_written (recordRecv t o'' e) = d_written e"
    by (simp_all add: admit_def recordRecv_def)
  obtain acc d1 where a: "admit c d = (acc, d1)" by fastforce
  let ?d2 = "recordRecv (w_now w) o' d1"
  obtain r d3 where s: "store_do (\<lambda>d. SaveImage (d_stateDir d) (c_Bytes c)) ?d2 = (r, d3)" by fastforce
  have d3: "d_written d3 = d_written d" "d_written ?d2 = d_written d"
    using store_do_result [OF s] w a by simp_all
  have "onReceive w c o' d \<in> {d, d1, d3} \<or>
      (\<exists>p d2. onReceive w c o' d = deliver w c o' p d2 \<and> c_ID c \<noteq> [] \<and> d2 \<in> {?d2, d3})"
    using a s by (auto simp: onReceive_def Let_def split: bool.splits sum.splits)
  then have "\<exists>p d2. onReceive w c o' d = deliver w c o' p d2 \<and> c_ID c \<noteq> [] \<and> d_written d2 = d_written d"
    using assms w(1) a d3 by auto
  then show thesis using that assms deliver_writes by (metis (no_types))
qed

section \<open>Properties\<close>

text \<open>C3. The daemon refines the relay: every poll, received clip, restore, history change, cap change,
  startup adoption and image collection is one step of the abstract relay on what the daemon
  remembers, publishes and exposes. In particular no step forgets what was published.\<close>

theorem daemon_refines_relay:
  assumes "daemon_step d e"
  shows "relay_step (abs_relay d) (abs_relay e)"
  by (rule daemon_step_relay [OF assms])

definition content_example :: "string \<Rightarrow> bytes \<Rightarrow> bool \<Rightarrow> content" where
  "content_example i b concealed = \<lparr>c_ID = i, c_Kind = KindText, c_Bytes = b, c_Hash = b, c_TS = 5, c_Concealed = concealed\<rparr>"

definition world_example :: world where
  "world_example = \<lparr>w_read = Inl ''empty'', w_random = None, w_now = 7, w_write_ok = True, w_cap = None\<rparr>"

definition daemon_example :: daemon where
  "daemon_example = new_daemon False ''me'' ''/s'' True \<lparr>nodes = [], faults = [], clock = 0\<rparr>"

lemma received_example:
  "d_published (onReceive world_example (content_example ''id1'' ''hello'' False) ''peer'' daemon_example) =
     [(content_example ''id1'' ''hello'' False, ''peer'', ''peer'')]"
  by (simp add: onReceive_def world_example_def content_example_def daemon_example_def new_daemon_def
      isEcho_def no_current_def admit_def KindText_def KindImage_def deliver_publishes recordRecv_def
      IsImageStorePath_def seen_has_def newSeenSet_def Let_def node_at_def)


theorem daemon_refines_relay_witness:
  "relay_step (abs_relay daemon_example)
     (abs_relay (onReceive world_example (content_example ''id1'' ''hello'' False) ''peer'' daemon_example))"
  by (rule daemon_refines_relay) (rule step_receive)

text \<open>C1. In every state the daemon reaches from its start, nothing concealed has been given to the SSH
  runtime, the clip it exposes as current is not concealed, and a concealed clip is not what
  \<open>currentHandler\<close> answers with.\<close>

theorem concealed_never_leaves:
  assumes "daemon_reach (new_daemon safe origin sd rt fs) d"
  shows "list_all (\<lambda>(c, _, _). \<not> c_Concealed c) (d_published d) \<and>
    (p_HasCurrent (currentHandler d) \<longrightarrow> \<not> c_Concealed (cur_content (d_current d)) \<and>
       currentHandler d = CurrentPayloadFromContent (cur_content (d_current d)) (cur_origin (d_current d)))"
  using reach_relay_ok [OF assms new_daemon_relay_ok]
  by (auto simp: relay_ok_def currentHandler_def NoCurrentPayload_def Let_def abs_relay_def)

lemma reach_example:
  "daemon_reach daemon_example (onReceive w c o' daemon_example)"
  by (rule reach_step [OF reach_start step_receive])

theorem concealed_never_leaves_witness:
  "list_all (\<lambda>(c, _, _). \<not> c_Concealed c)
     (d_published (onReceive world_example (content_example ''id1'' ''hello'' False) ''peer'' daemon_example))"
  using concealed_never_leaves [OF reach_example [unfolded daemon_example_def]]
  by (simp add: daemon_example_def)

text \<open>C2. Until the memory of seen identifiers is full, no clip identifier is published twice, however
  polls, receipts, restores and history changes are interleaved: the relay cannot loop.\<close>

theorem published_at_most_once:
  assumes "daemon_reach (new_daemon safe origin sd rt fs) d" and "length (order (d_seen d)) < seenCap"
  shows "distinct (map (c_ID \<circ> fst) (d_published d)) \<and>
    set (map (c_ID \<circ> fst) (d_published d)) \<subseteq> {i. seen_has (d_seen d) i}"
  using reach_relay_ok [OF assms(1) new_daemon_relay_ok] assms(2)
  by (auto simp: relay_ok_def seen.has_mem)

theorem published_at_most_once_witness:
  "distinct (map (c_ID \<circ> fst) (d_published
     (onReceive world_example (content_example ''id1'' ''hello'' False) ''peer'' daemon_example)))"
proof -
  let ?d = "onReceive world_example (content_example ''id1'' ''hello'' False) ''peer'' daemon_example"
  have "d_seen ?d = seen_add ''id1'' newSeenSet"
    by (simp add: onReceive_def world_example_def content_example_def daemon_example_def new_daemon_def
      isEcho_def no_current_def admit_def KindText_def KindImage_def recordRecv_def
      IsImageStorePath_def seen_has_def newSeenSet_def Let_def node_at_def)
  then have "length (order (d_seen ?d)) < seenCap"
    by (simp add: seen_add_def seen_has_def newSeenSet_def seenCap_def)
  then show ?thesis
    using published_at_most_once [OF reach_example [unfolded daemon_example_def]]
    by (simp add: daemon_example_def)
qed

text \<open>C29. Receiving is idempotent: a clip that comes in again, over whatever path and under whatever
  origin, changes nothing, whether it was taken, refused as concealed or stale, or failed half way.\<close>

theorem onReceive_idempotent:
  assumes "seen_ok (d_seen d)"
  shows "onReceive w' c origin' (onReceive w c origin d) = onReceive w c origin d"
proof (cases "onReceive w c origin d = d")
  case True
  show ?thesis
  proof (cases "onReceive w' c origin' d = d")
    case False
    then have "\<not> d_safeMode d" "\<not> isEcho d c" "c_ID c \<noteq> []" "fst (admit c d) \<or> snd (admit c d) \<noteq> d"
      "\<not> (c_Kind c = KindText \<and> IsImageStorePath (d_stateDir d) (d_fs d) (c_Bytes c))"
      by (auto simp: onReceive_def split: if_splits prod.splits bool.splits)
    then have "\<not> seen_has (d_seen d) (c_ID c)" "d_seen (onReceive w c origin d) = seen_add (c_ID c) (d_seen d)"
      by (auto simp: onReceive_def Let_def admit_def recordRecv_def dest!: store_do_result
          split: if_splits prod.splits sum.splits)
    then show ?thesis using True seen_add_has [OF assms, of "c_ID c"] by simp
  qed (simp add: True)
next
  case False
  then show ?thesis by (intro onReceive_seen onReceive_remembers [OF assms])
qed

theorem onReceive_idempotent_witness:
  "onReceive world_example (content_example ''id1'' ''hello'' False) ''other''
     (onReceive world_example (content_example ''id1'' ''hello'' False) ''peer'' daemon_example) =
   onReceive world_example (content_example ''id1'' ''hello'' False) ''peer'' daemon_example"
  by (rule onReceive_idempotent) (simp add: daemon_example_def new_daemon_def)

text \<open>The daemon does not take its own writes for new copies: after a received clip was written to
  the clipboard, a poll that reads it back, in the kind it was written as or, for an image, as
  the text of its store path, reports no change and publishes nothing.\<close>

lemma own_write_is_echo:
  assumes wr: "d_written (onReceive w c origin d) \<noteq> d_written d" and r: "w_read w' = Inr c'"
    and c': "c_Kind c' = (if c_Kind c = KindImage then KindImage else KindText) \<and> c_Hash c' = c_Hash c \<or>
        c_Kind c = KindImage \<and> c_Kind c' = KindText \<and>
        trim_space (c_Bytes c') = cur_imagePath (d_current (onReceive w c origin d))"
  shows "pollOnce w' (onReceive w c origin d) = (False, onReceive w c origin d)"
proof -
  from onReceive_writes [OF wr] obtain p d2 where o: "onReceive w c origin d = deliver w c origin p d2"
    "w_write_ok w" "c_ID c \<noteq> []" .
  have "isEcho (onReceive w c origin d) c'"
    using c' o(2,3) unfolding o(1) by (auto simp: isEcho_def Let_def deliver_adopts)
  then show ?thesis by (rule pollOnce_echo [OF r])
qed

lemma own_write_is_echo_witness:
  "pollOnce (world_example\<lparr>w_read := Inr (content_example [] ''hello'' False)\<rparr>)
     (onReceive world_example (content_example ''id1'' ''hello'' False) ''peer'' daemon_example) =
   (False, onReceive world_example (content_example ''id1'' ''hello'' False) ''peer'' daemon_example)"
proof (rule own_write_is_echo [where c' = "content_example [] ''hello'' False"])
  show "d_written (onReceive world_example (content_example ''id1'' ''hello'' False) ''peer'' daemon_example)
      \<noteq> d_written daemon_example"
    by (simp add: onReceive_def world_example_def content_example_def daemon_example_def new_daemon_def
      isEcho_def no_current_def admit_def KindText_def KindImage_def deliver_def recordRecv_def publishSSH_def
      IsImageStorePath_def seen_has_def newSeenSet_def Let_def node_at_def adopt_def write_clipboard_def)
qed (simp_all add: content_example_def KindText_def KindImage_def)

text \<open>A poll that took a clip makes the next poll of the unchanged clipboard a no-op.\<close>

lemma repeated_poll_is_idle:
  assumes "pollOnce w d = (True, d')" and "w_read w = Inr c" and r': "w_read w' = Inr c'"
    and "c_Kind c' = c_Kind c" and "c_Hash c' = c_Hash c"
  shows "pollOnce w' d' = (False, d')"
proof -
  from assms(1) have "isEcho d' c'"
    by (rule pollOnce_changed) (use assms in \<open>simp add: isEcho_def Let_def\<close>)
  then show ?thesis by (rule pollOnce_echo [OF r'])
qed

end
