(* ===== verification/Clipfan_Json.thy ===== *)
theory Clipfan_Json
  imports Clipfan_Prelude
begin

text \<open>
  JSON values as Go's \<open>encoding/json\<close> reads them, and the parts of \<open>time\<close> that the documents of
  the program use. A document is the list of values its text holds, or a syntax error; the
  text itself is printed by \<open>json_print\<close> (compact form with HTML escaping). An object is an association
  list in the order of its text, repeated keys included.
\<close>

section \<open>Values\<close>

datatype json =
    JNull
  | JBool bool
  | JNum string
  | JStr string
  | JArr "json list"
  | JObj "(string \<times> json) list"

type_synonym json_fields = "(string \<times> json) list"

datatype json_doc = BadSyntax | Values "json list"

definition jstr :: "string \<Rightarrow> json" where
  "jstr s = JStr (json_string s)"

section \<open>Printing\<close>

text \<open>A byte that is not UTF-8 becomes the replacement character in \<open>jstr\<close> and is printed as that character; Go prints it
  as an escape of six bytes. Both read back as the same text, but the printed lengths differ.\<close>

definition json_hex4 :: "nat \<Rightarrow> string" where
  "json_hex4 n = map (\<lambda>k. (''0123456789abcdef'') ! (n div 16 ^ k mod 16)) [3, 2, 1, 0]"

definition json_escape_char :: "char \<Rightarrow> string" where
  "json_escape_char c =
     (if c = CHR 0x22 then [CHR 0x5C, CHR 0x22]
      else if c = CHR 0x5C then [CHR 0x5C, CHR 0x5C]
      else if c = CHR 0x08 then [CHR 0x5C, CHR ''b'']
      else if c = CHR 0x0C then [CHR 0x5C, CHR ''f'']
      else if c = CHR 0x0A then [CHR 0x5C, CHR ''n'']
      else if c = CHR 0x0D then [CHR 0x5C, CHR ''r'']
      else if c = CHR 0x09 then [CHR 0x5C, CHR ''t'']
      else if (of_char c :: nat) < 32 \<or> c \<in> {CHR ''<'', CHR ''>'', CHR ''&''}
        then [CHR 0x5C, CHR ''u''] @ json_hex4 (of_char c)
      else [c])"

text \<open>The argument is valid UTF-8; U+2028 and U+2029 are escaped as well.\<close>

fun json_escape :: "string \<Rightarrow> string" where
  "json_escape (a # b # c # s) =
     (if a = CHR 0xE2 \<and> b = CHR 0x80 \<and> c = CHR 0xA8 then [CHR 0x5C] @ ''u2028'' @ json_escape s
      else if a = CHR 0xE2 \<and> b = CHR 0x80 \<and> c = CHR 0xA9 then [CHR 0x5C] @ ''u2029'' @ json_escape s
      else json_escape_char a @ json_escape (b # c # s))"
| "json_escape [a, b] = json_escape_char a @ json_escape_char b"
| "json_escape [a] = json_escape_char a"
| "json_escape [] = []"

definition json_quote :: "string \<Rightarrow> string" where
  "json_quote s = [CHR 0x22] @ json_escape s @ [CHR 0x22]"

fun json_print :: "json \<Rightarrow> string" where
  "json_print JNull = ''null''"
| "json_print (JBool b) = (if b then ''true'' else ''false'')"
| "json_print (JNum s) = s"
| "json_print (JStr s) = json_quote s"
| "json_print (JArr vs) = ''['' @ join_with '','' (map json_print vs) @ '']''"
| "json_print (JObj fs) =
     ''{'' @ join_with '','' (map (\<lambda>(k, v). json_quote k @ '':'' @ json_print v) fs) @ ''}''"

section \<open>Struct decoding\<close>

text \<open>
  The field of a struct a key selects: the field with that very name, or else the first whose
  name has the same case folding. \<open>null\<close> leaves a field as it is; a value of another type is an
  error.
\<close>

definition struct_field :: "string list \<Rightarrow> string \<Rightarrow> string option" where
  "struct_field names key =
     (if key \<in> set names then Some key else find (\<lambda>n. fold_case n = fold_case key) names)"

definition type_error :: "string \<Rightarrow> 'a res" where
  "type_error ty = Inl (''json: cannot unmarshal into Go value of type '' @ ty)"

definition dec_string :: "json \<Rightarrow> string \<Rightarrow> string res" where
  "dec_string v cur = (case v of JNull \<Rightarrow> Inr cur | JStr s \<Rightarrow> Inr s | _ \<Rightarrow> type_error ''string'')"

definition dec_bool :: "json \<Rightarrow> bool \<Rightarrow> bool res" where
  "dec_bool v cur = (case v of JNull \<Rightarrow> Inr cur | JBool b \<Rightarrow> Inr b | _ \<Rightarrow> type_error ''bool'')"

definition dec_int :: "json \<Rightarrow> int \<Rightarrow> int res" where
  "dec_int v cur = (case v of
     JNull \<Rightarrow> Inr cur
   | JNum s \<Rightarrow> (case parse_int64 s of Some i \<Rightarrow> Inr i | None \<Rightarrow> type_error ''int'')
   | _ \<Rightarrow> type_error ''int'')"

definition dec_uint64 :: "json \<Rightarrow> 64 word \<Rightarrow> 64 word res" where
  "dec_uint64 v cur = (case v of
     JNull \<Rightarrow> Inr cur
   | JNum s \<Rightarrow> (case parse_uint64 s of Some i \<Rightarrow> Inr i | None \<Rightarrow> type_error ''uint64'')
   | _ \<Rightarrow> type_error ''uint64'')"

fun dec_ints :: "json list \<Rightarrow> int list res" where
  "dec_ints [] = Inr []"
| "dec_ints (v # vs) = and_then (dec_int v 0) (\<lambda>i. and_then (dec_ints vs) (\<lambda>is. Inr (i # is)))"

definition dec_int_list :: "json \<Rightarrow> int list \<Rightarrow> int list res" where
  "dec_int_list v cur = (case v of
     JNull \<Rightarrow> Inr [] | JArr vs \<Rightarrow> dec_ints vs | _ \<Rightarrow> type_error ''[]int'')"

section \<open>Civil time\<close>

text \<open>Days since 1 January of year 1 from and to a date of the proleptic Gregorian calendar.\<close>

definition is_leap :: "int \<Rightarrow> bool" where
  "is_leap y \<longleftrightarrow> y mod 4 = 0 \<and> (y mod 100 \<noteq> 0 \<or> y mod 400 = 0)"

definition days_in :: "int \<Rightarrow> int \<Rightarrow> int" where
  "days_in y m = (if m = 2 then (if is_leap y then 29 else 28)
                  else if m \<in> {4, 6, 9, 11} then 30 else 31)"

definition days_before_year :: "int \<Rightarrow> int" where
  "days_before_year y = (let n = y - 1 in 365 * n + n div 4 - n div 100 + n div 400)"

definition days_before_month :: "int \<Rightarrow> int \<Rightarrow> int" where
  "days_before_month y m = sum_list (map (days_in y) (map int [1..<nat m]))"

definition days_of_date :: "int \<Rightarrow> int \<Rightarrow> int \<Rightarrow> int" where
  "days_of_date y m d = days_before_year y + days_before_month y m + (d - 1)"

text \<open>The year of a day number: an estimate that is at most one too small, corrected.\<close>

definition year_of_days :: "int \<Rightarrow> int" where
  "year_of_days n =
     (let y = (n * 400) div 146097 + 1
      in if days_before_year (y + 1) \<le> n then y + 1 else if n < days_before_year y then y - 1 else y)"

definition month_of_days :: "int \<Rightarrow> int \<Rightarrow> int" where
  "month_of_days y r =
     int (length (takeWhile (\<lambda>m. days_before_month y m \<le> r) (map int [1..<13])))"

definition date_of_days :: "int \<Rightarrow> int \<times> int \<times> int" where
  "date_of_days n =
     (let y = year_of_days n; r = n - days_before_year y; m = month_of_days y r
      in (y, m, r - days_before_month y m + 1))"

section \<open>RFC 3339 times\<close>

text \<open>\<open>Time.MarshalJSON\<close> of an instant in UTC: the fraction without trailing zeros, and no text
  for a year outside 0 to 9999.\<close>

definition pad_digits :: "nat \<Rightarrow> int \<Rightarrow> string" where
  "pad_digits w n = (let s = show_int n in replicate (w - length s) (CHR ''0'') @ s)"

definition frac_text :: "int \<Rightarrow> string" where
  "frac_text ns =
     (if ns = 0 then []
      else CHR ''.'' # rev (dropWhile (\<lambda>c. c = CHR ''0'') (rev (pad_digits 9 ns))))"

definition time_text :: "gotime \<Rightarrow> string option" where
  "time_text t =
     (let secs = t div second; ns = t mod second; days = secs div 86400; sod = secs mod 86400
      in case date_of_days days of (y, m, d) \<Rightarrow>
         if y < 0 \<or> 9999 < y then None
         else Some (pad_digits 4 y @ ''-'' @ pad_digits 2 m @ ''-'' @ pad_digits 2 d @ ''T'' @
                pad_digits 2 (sod div 3600) @ '':'' @ pad_digits 2 (sod div 60 mod 60) @ '':'' @
                pad_digits 2 (sod mod 60) @ frac_text ns @ ''Z''))"

text \<open>\<open>Time.UnmarshalJSON\<close>, which is \<open>time.Parse(RFC3339, s)\<close>: an hour may have one digit, a
  fraction may follow a comma, and digits beyond the ninth are dropped.\<close>

definition digits_int :: "string \<Rightarrow> int option" where
  "digits_int s = (if s \<noteq> [] \<and> list_all is_digit s
                   then Some (int (digits_value s)) else None)"

definition take_digits :: "nat \<Rightarrow> string \<Rightarrow> (int \<times> string) option" where
  "take_digits n s = (if length s < n then None
                      else map_option (\<lambda>v. (v, drop n s)) (digits_int (take n s)))"

definition take_lit :: "char \<Rightarrow> string \<Rightarrow> string option" where
  "take_lit c s = (case s of [] \<Rightarrow> None | x # xs \<Rightarrow> if x = c then Some xs else None)"

definition take_hour :: "string \<Rightarrow> (int \<times> string) option" where
  "take_hour s = (case s of
     a # b # _ \<Rightarrow> (if is_digit a \<and> \<not> is_digit b then take_digits 1 s else take_digits 2 s)
   | _ \<Rightarrow> take_digits 1 s)"

definition take_fraction :: "string \<Rightarrow> int \<times> string" where
  "take_fraction s = (case s of
     c # d # _ \<Rightarrow>
       (if (c = CHR ''.'' \<or> c = CHR '','') \<and> is_digit d
        then let ds = takeWhile is_digit (tl s); nine = take 9 ds
             in (int (digits_value nine) * 10 ^ (9 - length nine),
                 dropWhile is_digit (tl s))
        else (0, s))
   | _ \<Rightarrow> (0, s))"

text \<open>The zone offset in seconds, and nothing may follow it.\<close>

definition take_zone :: "string \<Rightarrow> int option" where
  "take_zone s =
     (if s = ''Z'' then Some 0
      else case s of
        sg # rest \<Rightarrow>
          (if sg \<noteq> CHR ''+'' \<and> sg \<noteq> CHR ''-'' then None
           else Option.bind (take_digits 2 rest) (\<lambda>(h, r1).
                Option.bind (take_lit (CHR '':'') r1) (\<lambda>r2.
                Option.bind (take_digits 2 r2) (\<lambda>(mi, r3).
                if r3 \<noteq> [] \<or> 24 < h \<or> 60 < mi then None
                else Some ((if sg = CHR ''-'' then -1 else 1) * (h * 60 + mi) * 60)))))
      | [] \<Rightarrow> None)"

definition text_time :: "string \<Rightarrow> gotime option" where
  "text_time s0 =
     Option.bind (take_digits 4 s0) (\<lambda>(y, s1).
     Option.bind (take_lit (CHR ''-'') s1) (\<lambda>s2.
     Option.bind (take_digits 2 s2) (\<lambda>(m, s3).
     Option.bind (take_lit (CHR ''-'') s3) (\<lambda>s4.
     Option.bind (take_digits 2 s4) (\<lambda>(d, s5).
     Option.bind (take_lit (CHR ''T'') s5) (\<lambda>s6.
     Option.bind (take_hour s6) (\<lambda>(h, s7).
     Option.bind (take_lit (CHR '':'') s7) (\<lambda>s8.
     Option.bind (take_digits 2 s8) (\<lambda>(mi, s9).
     Option.bind (take_lit (CHR '':'') s9) (\<lambda>s10.
     Option.bind (take_digits 2 s10) (\<lambda>(sec, s11).
     (case take_fraction s11 of (ns, s12) \<Rightarrow>
     Option.bind (take_zone s12) (\<lambda>off.
       if m < 1 \<or> 12 < m \<or> d < 1 \<or> days_in y m < d \<or> 23 < h \<or> 59 < mi \<or> 59 < sec then None
       else Some ((days_of_date y m d * 86400 + h * 3600 + mi * 60 + sec - off) * second + ns))))))))))))))"

definition dec_time :: "json \<Rightarrow> gotime \<Rightarrow> gotime res" where
  "dec_time v cur = (case v of
     JNull \<Rightarrow> Inr cur
   | JStr s \<Rightarrow> (case text_time s of Some t \<Rightarrow> Inr t | None \<Rightarrow> Inl ''parsing time'')
   | _ \<Rightarrow> Inl ''Time.UnmarshalJSON: input is not a JSON string'')"

section \<open>Dates and day numbers\<close>

lemma div_bounds: "0 < q \<Longrightarrow> q * (j div q) \<le> j \<and> j - (q - 1) \<le> q * (j div q)" for q j :: int
  using pos_mod_bound [of q j] pos_mod_sign [of q j] mult_div_mod_eq [of q j] by linarith

lemma div_pred: "0 < q \<Longrightarrow> (y - 1) div q = (if y mod q = 0 then y div q - 1 else y div q)" for q y :: int
proof -
  assume q: "0 < q"
  have y: "y = q * (y div q) + y mod q" by simp
  show ?thesis
  proof (cases "y mod q = 0")
    case True
    then show ?thesis using q y
      by (auto intro!: int_div_pos_eq [where r = "q - 1"] simp: right_diff_distrib)
  next
    case False
    then have "0 < y mod q" using q by (simp add: order_less_le)
    then show ?thesis using q y False pos_mod_bound [OF q, of y]
      by (auto intro!: int_div_pos_eq [where r = "y mod q - 1"])
  qed
qed

lemma year_of_days: "days_before_year (year_of_days n) \<le> n \<and> n < days_before_year (year_of_days n + 1)"
proof -
  define k where "k = (n * 400) div 146097"
  have k: "146097 * k \<le> n * 400" "n * 400 < 146097 * k + 146097" unfolding k_def by linarith+
  have f: "400 * (365 * j + j div 4 - j div 100 + j div 400) \<le> 146097 * j + 396 \<and>
    146097 * j - 699 \<le> 400 * (365 * j + j div 4 - j div 100 + j div 400)" for j :: int
    using div_bounds [of 4 j] div_bounds [of 100 j] div_bounds [of 400 j] by simp
  have "days_before_year (k + 1) \<le> n"
    using f [of k] k(1) by (simp add: days_before_year_def Let_def)
  moreover have "n < days_before_year (k + 3)"
    using f [of "k + 2"] k(2) by (simp add: days_before_year_def Let_def)
  moreover have "year_of_days n = (if days_before_year (k + 2) \<le> n then k + 2 else k + 1)"
    using calculation(1) by (simp add: year_of_days_def Let_def add.commute flip: k_def)
  ultimately show ?thesis by (simp add: add.commute)
qed

lemma days_in_year: "days_before_year (y + 1) - days_before_year y = (if is_leap y then 366 else 365)"
proof -
  have "y mod 400 = 0 \<Longrightarrow> y mod 100 = 0" "y mod 100 = 0 \<Longrightarrow> y mod 4 = 0" by presburger+
  then show ?thesis
    unfolding days_before_year_def Let_def is_leap_def
    by (cases "y mod 4 = 0"; cases "y mod 100 = 0"; cases "y mod 400 = 0") (simp_all add: div_pred)
qed

lemma days_before_month_Suc:
  "1 \<le> m \<Longrightarrow> days_before_month y (m + 1) = days_before_month y m + days_in y m"
proof -
  assume m: "1 \<le> m"
  then have "[1..<nat (m + 1)] = [1..<nat m] @ [nat m]" by (simp add: nat_add_distrib)
  with m show ?thesis by (simp add: days_before_month_def)
qed

lemma days_before_december: "days_before_month y 12 + days_in y 12 = (if is_leap y then 366 else 365)"
proof -
  have "days_before_month y 1 = 0" by (simp add: days_before_month_def)
  then have "days_before_month y 12 = sum_list (map (days_in y) [1, 2, 3, 4, 5, 6, 7, 8, 9, 10, 11])"
    using days_before_month_Suc [of 1 y] days_before_month_Suc [of 2 y] days_before_month_Suc [of 3 y]
      days_before_month_Suc [of 4 y] days_before_month_Suc [of 5 y] days_before_month_Suc [of 6 y]
      days_before_month_Suc [of 7 y] days_before_month_Suc [of 8 y] days_before_month_Suc [of 9 y]
      days_before_month_Suc [of 10 y] days_before_month_Suc [of 11 y] by simp
  then show ?thesis by (simp add: days_in_def)
qed

lemma month_of_days:
  assumes "0 \<le> r" "r < (if is_leap y then 366 else 365)"
  shows "1 \<le> month_of_days y r \<and> month_of_days y r \<le> 12 \<and>
    days_before_month y (month_of_days y r) \<le> r \<and>
    r < days_before_month y (month_of_days y r) + days_in y (month_of_days y r)"
proof -
  let ?P = "\<lambda>m. days_before_month y m \<le> r" and ?xs = "map int [1..<13]"
  define k where "k = length (takeWhile ?P ?xs)"
  have m: "month_of_days y r = int k" by (simp add: month_of_days_def k_def)
  have len: "length ?xs = 12" by simp
  have "?xs = 1 # map int [2..<13]" by (simp add: upt_conv_Cons)
  moreover have "?P 1" using assms(1) by (simp add: days_before_month_def)
  ultimately have k1: "1 \<le> k" unfolding k_def by simp
  have k12: "k \<le> 12" unfolding k_def using length_takeWhile_le [of ?P ?xs] by simp
  have "takeWhile ?P ?xs ! (k - 1) = ?xs ! (k - 1)"
    using k1 by (intro takeWhile_nth) (simp add: k_def)
  moreover have "takeWhile ?P ?xs ! (k - 1) \<in> set (takeWhile ?P ?xs)"
    using k1 by (intro nth_mem) (simp add: k_def)
  ultimately have "?P (?xs ! (k - 1))" by (metis set_takeWhileD)
  then have lo: "?P (int k)" using k1 k12 by simp
  have hi: "r < days_before_month y (int k) + days_in y (int k)"
  proof (cases "k < 12")
    case True
    then have "\<not> ?P (?xs ! k)" unfolding k_def by (intro nth_length_takeWhile) simp
    then have "\<not> ?P (int k + 1)" using True by (simp add: add.commute)
    then show ?thesis using days_before_month_Suc [of "int k" y] k1 by simp
  next
    case False
    with k12 have "int k = 12" by simp
    then show ?thesis using assms(2) days_before_december [of y] by simp
  qed
  show ?thesis using m k1 k12 lo hi by simp
qed

lemma date_of_days_valid:
  assumes "date_of_days n = (y, m, d)"
  shows "1 \<le> m \<and> m \<le> 12 \<and> 1 \<le> d \<and> d \<le> days_in y m \<and> days_of_date y m d = n"
proof -
  let ?r = "n - days_before_year y"
  have y: "y = year_of_days n" "m = month_of_days y ?r" "d = ?r - days_before_month y m + 1"
    using assms by (auto simp: date_of_days_def Let_def)
  have "0 \<le> ?r" "?r < (if is_leap y then 366 else 365)"
    using year_of_days [of n] days_in_year [of y] y(1) by auto
  from month_of_days [OF this] show ?thesis
    using y(2,3) by (simp add: Let_def days_of_date_def)
qed

section \<open>Reading back a printed time\<close>

lemma digits_value_zeros: "digits_value (replicate k (CHR ''0'') @ s) = digits_value s"
  by (induction k) (auto simp: digits_value_def)

lemma digits_value_append_zeros:
  "digits_value (s @ replicate k (CHR ''0'')) = digits_value s * 10 ^ k"
proof (induction k)
  case (Suc k)
  have "s @ replicate (Suc k) (CHR ''0'') = (s @ replicate k (CHR ''0'')) @ [CHR ''0'']"
    by (simp add: replicate_append_same)
  then show ?case using Suc by (simp only: digits_value_snoc) simp
qed simp

lemma length_show_nat: "0 < w \<Longrightarrow> n < 10 ^ w \<Longrightarrow> length (show_nat n) \<le> w"
proof (induction w arbitrary: n)
  case (Suc w)
  show ?case
  proof (cases "n < 10")
    case False
    then have w: "0 < w" using Suc.prems by (cases w) auto
    have "n div 10 < 10 ^ w" using Suc.prems(2) by (simp add: less_mult_imp_div_less mult.commute)
    from Suc.IH [OF w this] False show ?thesis by (subst show_nat.simps) simp
  qed (subst show_nat.simps, simp)
qed simp

lemma pad_digits_props:
  assumes "0 \<le> n" and "0 < w" and "n < 10 ^ w"
  shows "length (pad_digits w n) = w" "list_all is_digit (pad_digits w n)"
    "digits_value (pad_digits w n) = nat n"
proof -
  have s: "show_int n = show_nat (nat n)" using assms(1) by (simp add: show_int_def)
  have "nat n < 10 ^ w" using assms(1,3) by (simp add: nat_less_iff)
  from length_show_nat [OF assms(2) this] show "length (pad_digits w n) = w"
    by (simp add: pad_digits_def s Let_def)
  show "list_all is_digit (pad_digits w n)"
    using show_nat_digits [of "nat n"] by (auto simp: pad_digits_def s Let_def list_all_iff is_digit_def)
  show "digits_value (pad_digits w n) = nat n"
    by (simp add: pad_digits_def s Let_def digits_value_zeros)
qed

lemma take_digits_pad:
  "0 \<le> n \<Longrightarrow> 0 < w \<Longrightarrow> n < 10 ^ w \<Longrightarrow> take_digits w (pad_digits w n @ s) = Some (n, s)"
  using pad_digits_props [of n w] by (auto simp: take_digits_def digits_int_def)

lemma take_hour_pad:
  assumes "0 \<le> n" and "n < 100" shows "take_hour (pad_digits 2 n @ s) = Some (n, s)"
proof -
  note p = pad_digits_props [of n 2]
  obtain a b where ab: "pad_digits 2 n = [a, b]"
    using p(1) assms by (auto simp: numeral_2_eq_2 length_Suc_conv)
  then have "is_digit b" using p(2) assms by simp
  then show ?thesis using take_digits_pad [of n 2 s] assms ab by (simp add: take_hour_def)
qed

lemma take_fraction_frac:
  assumes "0 \<le> ns" and "ns < second" and "s = [] \<or> \<not> is_digit (hd s)"
    and "s = [] \<or> hd s \<noteq> CHR ''.'' \<and> hd s \<noteq> CHR '',''"
  shows "take_fraction (frac_text ns @ s) = (ns, s)"
proof (cases "ns = 0")
  case True
  with assms(4) show ?thesis by (auto simp: frac_text_def take_fraction_def split: list.splits)
next
  case False
  let ?p = "pad_digits 9 ns"
  note p = pad_digits_props [of ns 9]
  have len: "length ?p = 9" "list_all is_digit ?p" "digits_value ?p = nat ns"
    using assms(1,2) p by (simp_all add: second_def)
  define q where "q = rev (dropWhile (\<lambda>c. c = CHR ''0'') (rev ?p))"
  define j where "j = length (takeWhile (\<lambda>c. c = CHR ''0'') (rev ?p))"
  have "takeWhile (\<lambda>c. c = CHR ''0'') (rev ?p) = replicate j (CHR ''0'')"
    unfolding j_def by (rule replicate_eqI) (auto dest: set_takeWhileD)
  then have pq: "?p = q @ replicate j (CHR ''0'')"
    using takeWhile_dropWhile_id [of "\<lambda>c. c = CHR ''0''" "rev ?p"]
    by (metis q_def rev_append rev_replicate rev_rev_ident)
  then have v: "digits_value q * 10 ^ j = nat ns" using len(3) digits_value_append_zeros by metis
  then have "q \<noteq> []" using False assms(1) by (auto simp: digits_value_def)
  then obtain d ds where q: "q = d # ds" by (cases q) auto
  have dig: "list_all is_digit q" using len(2) pq by simp
  have j: "length q + j = 9" using len(1) pq by (metis length_append length_replicate)
  have "takeWhile is_digit (q @ s) = q" "dropWhile is_digit (q @ s) = s"
    using dig assms(3) by (cases s; auto simp: list_all_iff takeWhile_append2 dropWhile_append2)+
  moreover have "int (digits_value q) * 10 ^ (9 - length q) = ns"
    using v j assms(1) by (metis add_diff_cancel_left' int_nat_eq of_nat_mult of_nat_numeral of_nat_power)
  moreover have "frac_text ns = CHR ''.'' # q" using False by (simp add: frac_text_def q_def)
  moreover have "take 9 q = q" using j by simp
  moreover have "is_digit d" using dig q by simp
  ultimately show ?thesis using q by (simp add: take_fraction_def Let_def)
qed

lemma take_zone_Z: "take_zone ''Z'' = Some 0"
  by (simp add: take_zone_def)

lemma text_time_parts:
  assumes "0 \<le> y" "y \<le> 9999" "1 \<le> m" "m \<le> 12" "1 \<le> d" "d \<le> days_in y m" "d \<le> 31"
    "0 \<le> h" "h < 24" "0 \<le> mi" "mi < 60" "0 \<le> sec" "sec < 60" "0 \<le> ns" "ns < second"
  shows "text_time (pad_digits 4 y @ CHR ''-'' # pad_digits 2 m @ CHR ''-'' # pad_digits 2 d @
      CHR ''T'' # pad_digits 2 h @ CHR '':'' # pad_digits 2 mi @ CHR '':'' # pad_digits 2 sec @
      frac_text ns @ ''Z'') =
    Some ((days_of_date y m d * 86400 + h * 3600 + mi * 60 + sec) * second + ns)"
proof -
  have f: "take_fraction (frac_text ns @ ''Z'') = (ns, ''Z'')"
    using assms by (intro take_fraction_frac) (simp_all add: is_digit_def)
  have d: "take_digits 4 (pad_digits 4 y @ s) = Some (y, s)" "take_digits 2 (pad_digits 2 m @ s) = Some (m, s)"
    "take_digits 2 (pad_digits 2 d @ s) = Some (d, s)" "take_hour (pad_digits 2 h @ s) = Some (h, s)"
    "take_digits 2 (pad_digits 2 mi @ s) = Some (mi, s)" "take_digits 2 (pad_digits 2 sec @ s) = Some (sec, s)"
    for s using assms by (simp_all add: take_digits_pad take_hour_pad)
  show ?thesis unfolding text_time_def
    using assms by (simp add: d f take_lit_def take_zone_Z)
qed

lemma text_time_text:
  assumes "time_text t = Some s" shows "text_time s = Some t"
proof -
  define secs ns where "secs = t div second" and "ns = t mod second"
  define days sod where "days = secs div 86400" and "sod = secs mod 86400"
  obtain y m d where dt: "date_of_days days = (y, m, d)" by (metis prod_cases3)
  note v = date_of_days_valid [OF dt]
  have y: "0 \<le> y" "y \<le> 9999" and s: "s = pad_digits 4 y @ CHR ''-'' # pad_digits 2 m @ CHR ''-'' #
      pad_digits 2 d @ CHR ''T'' # pad_digits 2 (sod div 3600) @ CHR '':'' #
      pad_digits 2 (sod div 60 mod 60) @ CHR '':'' # pad_digits 2 (sod mod 60) @ frac_text ns @ ''Z''"
    using assms dt by (auto simp: time_text_def Let_def secs_def ns_def days_def sod_def split: if_splits)
  have ns: "0 \<le> ns" "ns < second" by (simp_all add: ns_def second_def)
  have sod: "0 \<le> sod" "sod < 86400" by (simp_all add: sod_def)
  then have h: "0 \<le> sod div 3600" "sod div 3600 < 24" by (simp_all add: div_less_iff_less_mult)
  have d: "d \<le> 31" using v by (simp add: days_in_def split: if_splits)
  have sum: "sod div 3600 * 3600 + sod div 60 mod 60 * 60 + sod mod 60 = sod"
  proof -
    have "sod div 3600 = sod div 60 div 60" by (simp add: zdiv_zmult2_eq [symmetric])
    then show ?thesis using mult_div_mod_eq [of 60 sod] mult_div_mod_eq [of 60 "sod div 60"] by linarith
  qed
  have "(days * 86400 + sod) * second + ns = t"
    by (simp add: days_def sod_def secs_def ns_def)
  moreover have "days_of_date y m d * 86400 + sod div 3600 * 3600 + sod div 60 mod 60 * 60 + sod mod 60 =
      days * 86400 + sod" using v sum by simp
  ultimately have t: "(days_of_date y m d * 86400 + sod div 3600 * 3600 + sod div 60 mod 60 * 60 +
      sod mod 60) * second + ns = t" by simp
  have mi: "0 \<le> sod div 60 mod 60" "sod div 60 mod 60 < 60" "0 \<le> sod mod 60" "sod mod 60 < 60"
    by simp_all
  have "text_time s = Some ((days_of_date y m d * 86400 + sod div 3600 * 3600 + sod div 60 mod 60 * 60 +
      sod mod 60) * second + ns)"
    unfolding s
    by (intro text_time_parts y h mi ns d conjunct1 [OF v] conjunct1 [OF conjunct2 [OF v]]
        conjunct1 [OF conjunct2 [OF conjunct2 [OF v]]]
        conjunct1 [OF conjunct2 [OF conjunct2 [OF conjunct2 [OF v]]]])
  then show ?thesis by (simp only: t)
qed

end
