(* ===== verification/Clipfan_Stream.thy ===== *)
theory Clipfan_Stream
  imports Clipfan_Json Clipfan_Auth
begin

text \<open>
  The framed stream between two hosts, \<open>internal/transport/ssh_stream.go\<close>: hello frames with
  their signature, clock window and replay cache, state frames with their sequence numbers,
  acknowledgements, the JSON form of a frame and the line reader. A call that writes returns the
  line it writes; a call that reads takes the decoded frame, or the document of its line.
\<close>

section \<open>Constants and errors\<close>

definition SSHStreamProtocolV1 :: int where "SSHStreamProtocolV1 = 1"
definition SSHStreamPurposeSyncStream :: string where "SSHStreamPurposeSyncStream = ''sync-stream''"
definition SSHStreamFrameHello :: string where "SSHStreamFrameHello = ''hello''"
definition SSHStreamFrameState :: string where "SSHStreamFrameState = ''state''"
definition SSHStreamFrameAck :: string where "SSHStreamFrameAck = ''ack''"
definition SSHStreamFrameError :: string where "SSHStreamFrameError = ''error''"
definition MaxSSHStreamFrameBytes :: int where "MaxSSHStreamFrameBytes = 90 * 2 ^ 20"
definition MaxSSHStreamPayloadBytes :: int where "MaxSSHStreamPayloadBytes = 64 * 2 ^ 20"
definition SSHStreamHelloNonceBucketCap :: int where "SSHStreamHelloNonceBucketCap = 256"
definition SSHStreamHelloNonceProcessCap :: int where "SSHStreamHelloNonceProcessCap = 8192"
definition nonceRetention :: gotime where "nonceRetention = 2 * signatureSkew"

datatype stream_error =
    ErrSSHStreamFrameTooLarge
  | ErrSSHStreamPayloadTooLarge
  | ErrSSHStreamUnexpectedEOF
  | ErrSSHStreamUnexpectedFrame string
  | ErrSSHStreamInvalidHello string
  | ErrSSHStreamSenderMismatch
  | ErrEnvelope envelope_error
  | ErrStream string

type_synonym 'a stream_res = "stream_error + 'a"

definition lift_res :: "'a res \<Rightarrow> 'a stream_res" where
  "lift_res r = (case r of Inl e \<Rightarrow> Inl (ErrStream e) | Inr x \<Rightarrow> Inr x)"

section \<open>Data\<close>

record SSHStreamHello =
  hl_Protocols :: "int list"
  hl_Purpose :: string
  hl_HostID :: string
  hl_PeerID :: string
  hl_TS :: int
  hl_Nonce :: string
  hl_Sig :: string

record SSHStreamFrame =
  f_Type :: string
  f_Protocols :: "int list"
  f_Purpose :: string
  f_HostID :: string
  f_PeerID :: string
  f_TS :: int
  f_Nonce :: string
  f_Sig :: string
  f_Seq :: "64 word"
  f_Sender :: string
  f_Clip :: "Envelope option"
  f_NullReason :: string
  f_ID :: string
  f_Status :: string
  f_Reason :: string
  f_Code :: string
  f_clipPresent :: bool

definition empty_frame :: SSHStreamFrame where
  "empty_frame = \<lparr>f_Type = [], f_Protocols = [], f_Purpose = [], f_HostID = [], f_PeerID = [],
     f_TS = 0, f_Nonce = [], f_Sig = [], f_Seq = 0, f_Sender = [], f_Clip = None, f_NullReason = [],
     f_ID = [], f_Status = [], f_Reason = [], f_Code = [], f_clipPresent = False\<rparr>"

record sshStreamHelloNonceEntry =
  ne_bucket :: string
  ne_seenAt :: gotime

record SSHStreamHelloNonceCache =
  hc_seen :: "(string \<times> sshStreamHelloNonceEntry) list"
  hc_bucketCap :: int
  hc_processCap :: int

record SSHSyncStream =
  ss_auth :: "auth option"
  ss_localID :: string
  ss_remoteID :: string
  ss_purpose :: string
  ss_nextSeq :: "64 word"
  ss_maxPayloadBytes :: int

record SSHStreamStateResult =
  sr_Seq :: "64 word"
  sr_Sender :: string
  sr_Content :: "content option"
  sr_Origin :: string
  sr_NullReason :: string

record SSHStreamAckResult =
  ar_Seq :: "64 word"
  ar_ID :: string
  ar_Status :: string
  ar_Reason :: string

datatype SSHStreamEvent =
    StateEvent SSHStreamStateResult
  | AckEvent SSHStreamAckResult
  | ErrorEvent string

definition newSSHStreamHelloNonceCacheWithCaps :: "int \<Rightarrow> int \<Rightarrow> SSHStreamHelloNonceCache" where
  "newSSHStreamHelloNonceCacheWithCaps bucketCap processCap =
     \<lparr>hc_seen = [],
      hc_bucketCap = (if bucketCap \<le> 0 then SSHStreamHelloNonceBucketCap else bucketCap),
      hc_processCap = (if processCap \<le> 0 then SSHStreamHelloNonceProcessCap else processCap)\<rparr>"

definition NewSSHStreamHelloNonceCache :: SSHStreamHelloNonceCache where
  "NewSSHStreamHelloNonceCache =
     newSSHStreamHelloNonceCacheWithCaps SSHStreamHelloNonceBucketCap SSHStreamHelloNonceProcessCap"

definition NewSSHSyncStream :: "auth option \<Rightarrow> string \<Rightarrow> string \<Rightarrow> SSHSyncStream" where
  "NewSSHSyncStream a localID remoteID =
     \<lparr>ss_auth = a, ss_localID = localID, ss_remoteID = remoteID,
      ss_purpose = SSHStreamPurposeSyncStream, ss_nextSeq = 1,
      ss_maxPayloadBytes = MaxSSHStreamPayloadBytes\<rparr>"

section \<open>The JSON form of a frame\<close>

definition envelope_json :: "Envelope \<Rightarrow> json res" where
  "envelope_json e = (case time_text (e_TS e) of
     None \<Rightarrow> Inl ''Time.MarshalJSON: year outside of range [0,9999]''
   | Some ts \<Rightarrow> Inr (JObj
       [(''id'', jstr (e_ID e)), (''origin'', jstr (e_Origin e)), (''recipient'', jstr (e_Recipient e)),
        (''ts'', JStr ts), (''kind'', jstr (e_Kind e)), (''body'', jstr (e_Body e)),
        (''nonce'', jstr (e_Nonce e)), (''concealed'', JBool (e_Concealed e))]))"

definition if_set :: "bool \<Rightarrow> string \<Rightarrow> json \<Rightarrow> json_fields" where
  "if_set b k v = (if b then [(k, v)] else [])"

text \<open>The map that \<open>MarshalJSON\<close> fills, without the clip and with it.\<close>

definition frame_fields :: "SSHStreamFrame \<Rightarrow> json_fields \<Rightarrow> json_fields" where
  "frame_fields f clip =
     [(''type'', jstr (f_Type f))] @
     if_set (f_Protocols f \<noteq> []) ''protocols'' (JArr (map (\<lambda>i. JNum (show_int i)) (f_Protocols f))) @
     if_set (f_Purpose f \<noteq> []) ''purpose'' (jstr (f_Purpose f)) @
     if_set (f_HostID f \<noteq> []) ''host_id'' (jstr (f_HostID f)) @
     if_set (f_PeerID f \<noteq> []) ''peer_id'' (jstr (f_PeerID f)) @
     if_set (f_TS f \<noteq> 0) ''ts'' (JNum (show_int (f_TS f))) @
     if_set (f_Nonce f \<noteq> []) ''nonce'' (jstr (f_Nonce f)) @
     if_set (f_Sig f \<noteq> []) ''sig'' (jstr (f_Sig f)) @
     if_set (f_Seq f \<noteq> 0) ''seq'' (JNum (show_nat (unat (f_Seq f)))) @
     if_set (f_Sender f \<noteq> []) ''sender'' (jstr (f_Sender f)) @
     clip @
     if_set (f_NullReason f \<noteq> []) ''null_reason'' (jstr (f_NullReason f)) @
     if_set (f_ID f \<noteq> []) ''id'' (jstr (f_ID f)) @
     if_set (f_Status f \<noteq> []) ''status'' (jstr (f_Status f)) @
     if_set (f_Reason f \<noteq> []) ''reason'' (jstr (f_Reason f)) @
     if_set (f_Code f \<noteq> []) ''code'' (jstr (f_Code f))"

definition MarshalJSON :: "SSHStreamFrame \<Rightarrow> json res" where
  "MarshalJSON f = (case f_Clip f of
     Some e \<Rightarrow> and_then (envelope_json e) (\<lambda>v. Inr (JObj (frame_fields f [(''clip'', v)])))
   | None \<Rightarrow> Inr (JObj (frame_fields f
       (if f_Type f = SSHStreamFrameState then [(''clip'', JNull)] else []))))"

definition sshStreamFrameFields :: "string list" where
  "sshStreamFrameFields =
     [''type'', ''protocols'', ''purpose'', ''host_id'', ''peer_id'', ''ts'', ''nonce'', ''sig'',
      ''seq'', ''sender'', ''clip'', ''null_reason'', ''id'', ''status'', ''reason'', ''code'']"

text \<open>The key loop of \<open>validateSSHStreamFrameObject\<close>.\<close>

fun validate_keys :: "string list \<Rightarrow> json_fields \<Rightarrow> unit stream_res" where
  "validate_keys seen [] = Inr ()"
| "validate_keys seen ((k, v) # fs) =
     (if k \<notin> set sshStreamFrameFields then Inl (ErrSSHStreamUnexpectedFrame (''unknown field '' @ k))
      else if k \<in> set seen then Inl (ErrSSHStreamUnexpectedFrame (''duplicate field '' @ k))
      else validate_keys (k # seen) fs)"

definition validateSSHStreamFrameObject :: "json_doc \<Rightarrow> unit stream_res" where
  "validateSSHStreamFrameObject doc = (case doc of
     BadSyntax \<Rightarrow> Inl (ErrStream ''json'')
   | Values [] \<Rightarrow> Inl (ErrStream ''EOF'')
   | Values (JObj fs # rest) \<Rightarrow>
       and_then (validate_keys [] fs) (\<lambda>_.
         if rest \<noteq> [] then Inl (ErrSSHStreamUnexpectedFrame ''trailing data'') else Inr ())
   | Values (_ # _) \<Rightarrow> Inl (ErrSSHStreamUnexpectedFrame ''root object''))"

definition envelope_names :: "string list" where
  "envelope_names = [''id'', ''origin'', ''recipient'', ''ts'', ''kind'', ''body'', ''nonce'', ''concealed'']"

definition set_envelope_field :: "string \<Rightarrow> json \<Rightarrow> Envelope \<Rightarrow> Envelope res" where
  "set_envelope_field name v e =
     (if name = ''id'' then and_then (dec_string v (e_ID e)) (\<lambda>x. Inr (e\<lparr>e_ID := x\<rparr>))
      else if name = ''origin'' then and_then (dec_string v (e_Origin e)) (\<lambda>x. Inr (e\<lparr>e_Origin := x\<rparr>))
      else if name = ''recipient'' then and_then (dec_string v (e_Recipient e)) (\<lambda>x. Inr (e\<lparr>e_Recipient := x\<rparr>))
      else if name = ''ts'' then and_then (dec_time v (e_TS e)) (\<lambda>x. Inr (e\<lparr>e_TS := x\<rparr>))
      else if name = ''kind'' then and_then (dec_string v (e_Kind e)) (\<lambda>x. Inr (e\<lparr>e_Kind := x\<rparr>))
      else if name = ''body'' then and_then (dec_string v (e_Body e)) (\<lambda>x. Inr (e\<lparr>e_Body := x\<rparr>))
      else if name = ''nonce'' then and_then (dec_string v (e_Nonce e)) (\<lambda>x. Inr (e\<lparr>e_Nonce := x\<rparr>))
      else if name = ''concealed'' then and_then (dec_bool v (e_Concealed e)) (\<lambda>x. Inr (e\<lparr>e_Concealed := x\<rparr>))
      else Inr e)"

fun dec_envelope_fields :: "json_fields \<Rightarrow> Envelope \<Rightarrow> Envelope res" where
  "dec_envelope_fields [] e = Inr e"
| "dec_envelope_fields ((k, v) # fs) e =
     (case struct_field envelope_names k of
        None \<Rightarrow> dec_envelope_fields fs e
      | Some name \<Rightarrow> and_then (set_envelope_field name v e) (dec_envelope_fields fs))"

definition empty_envelope :: Envelope where
  "empty_envelope = \<lparr>e_ID = [], e_Origin = [], e_Recipient = [], e_TS = 0, e_Kind = [], e_Body = [],
     e_Nonce = [], e_Concealed = False\<rparr>"

definition dec_clip :: "json \<Rightarrow> Envelope option res" where
  "dec_clip v = (case v of
     JNull \<Rightarrow> Inr None
   | JObj fs \<Rightarrow> and_then (dec_envelope_fields fs empty_envelope) (\<lambda>e. Inr (Some e))
   | _ \<Rightarrow> type_error ''Envelope'')"

text \<open>Unmarshalling of the validated object, whose keys are field names and occur once; an absent
  field keeps its zero value, as \<open>null\<close> does.\<close>

definition the_field :: "json_fields \<Rightarrow> string \<Rightarrow> json" where
  "the_field fs k = (case map_of fs k of None \<Rightarrow> JNull | Some v \<Rightarrow> v)"

definition unmarshal_frame :: "json_fields \<Rightarrow> SSHStreamFrame res" where
  "unmarshal_frame fs =
     and_then (dec_string (the_field fs ''type'') []) (\<lambda>ty.
     and_then (dec_int_list (the_field fs ''protocols'') []) (\<lambda>protocols.
     and_then (dec_string (the_field fs ''purpose'') []) (\<lambda>purpose.
     and_then (dec_string (the_field fs ''host_id'') []) (\<lambda>hostID.
     and_then (dec_string (the_field fs ''peer_id'') []) (\<lambda>peerID.
     and_then (dec_int (the_field fs ''ts'') 0) (\<lambda>ts.
     and_then (dec_string (the_field fs ''nonce'') []) (\<lambda>nonce.
     and_then (dec_string (the_field fs ''sig'') []) (\<lambda>sig.
     and_then (dec_uint64 (the_field fs ''seq'') 0) (\<lambda>seq.
     and_then (dec_string (the_field fs ''sender'') []) (\<lambda>sender.
     and_then (dec_clip (the_field fs ''clip'')) (\<lambda>clip.
     and_then (dec_string (the_field fs ''null_reason'') []) (\<lambda>nullReason.
     and_then (dec_string (the_field fs ''id'') []) (\<lambda>i.
     and_then (dec_string (the_field fs ''status'') []) (\<lambda>status.
     and_then (dec_string (the_field fs ''reason'') []) (\<lambda>reason.
     and_then (dec_string (the_field fs ''code'') []) (\<lambda>code.
       Inr \<lparr>f_Type = ty, f_Protocols = protocols, f_Purpose = purpose, f_HostID = hostID,
            f_PeerID = peerID, f_TS = ts, f_Nonce = nonce, f_Sig = sig, f_Seq = seq, f_Sender = sender,
            f_Clip = clip, f_NullReason = nullReason, f_ID = i, f_Status = status, f_Reason = reason,
            f_Code = code, f_clipPresent = (map_of fs ''clip'' \<noteq> None)\<rparr>))))))))))))))))"

definition decodeSSHStreamFrame :: "json_doc \<Rightarrow> SSHStreamFrame stream_res" where
  "decodeSSHStreamFrame doc =
     and_then (validateSSHStreamFrameObject doc) (\<lambda>_.
       case doc of Values (JObj fs # _) \<Rightarrow> lift_res (unmarshal_frame fs) | _ \<Rightarrow> Inl (ErrStream ''json''))"

section \<open>Writing and reading frames\<close>

definition writeFrame :: "bool \<Rightarrow> SSHStreamFrame \<Rightarrow> bytes stream_res" where
  "writeFrame cancelled f =
     (if cancelled then Inl (ErrStream ''context canceled'')
      else and_then (lift_res (MarshalJSON f)) (\<lambda>v.
        let data = json_print v
        in if int (length data) > MaxSSHStreamFrameBytes then Inl ErrSSHStreamFrameTooLarge
           else Inr (data @ nl)))"

definition sshStreamPayloadLen :: "bytes \<Rightarrow> nat" where
  "sshStreamPayloadLen line = (if line \<noteq> [] \<and> last line = CHR 0x0A then length line - 1 else length line)"

text \<open>\<open>ReadSlice\<close> on a reader with a buffer of \<open>n\<close> bytes: the bytes up to a newline; or a full
  buffer; or what is left before the end of the input.\<close>

datatype slice_end = SliceOK | BufferFull | SliceEOF

definition read_slice :: "nat \<Rightarrow> bytes \<Rightarrow> bytes \<times> slice_end \<times> bytes" where
  "read_slice n input =
     (let l = takeWhile (\<lambda>c. c \<noteq> CHR 0x0A) (take n input)
      in if length l < length (take n input) then (l @ nl, SliceOK, drop (Suc (length l)) input)
         else if n \<le> length input then (take n input, BufferFull, drop n input)
         else (input, SliceEOF, []))"

text \<open>The loop of \<open>readFrameLine\<close> for an uncancelled context; the reader's buffer is not empty.\<close>

function readFrameLine :: "nat \<Rightarrow> nat \<Rightarrow> bytes \<Rightarrow> bytes \<Rightarrow> (bytes \<times> bytes) stream_res" where
  "readFrameLine n maxPayloadBytes line input =
     (case read_slice (Suc n) input of (chunk, e, rest) \<Rightarrow>
        let line' = line @ chunk
        in if chunk \<noteq> [] \<and> sshStreamPayloadLen line' > maxPayloadBytes
           then Inl ErrSSHStreamFrameTooLarge
           else (case e of
                   SliceOK \<Rightarrow> Inr (line', rest)
                 | BufferFull \<Rightarrow> readFrameLine n maxPayloadBytes line' rest
                 | SliceEOF \<Rightarrow> Inl ErrSSHStreamUnexpectedEOF))"
  by pat_completeness auto
termination
  by (relation "measure (\<lambda>(n, m, line, input). length input)")
    (auto simp: read_slice_def Let_def split: if_splits)

definition readFrameAt :: "json_doc \<Rightarrow> SSHStreamFrame stream_res" where
  "readFrameAt doc =
     and_then (decodeSSHStreamFrame doc) (\<lambda>f.
       if f_Type f \<in> {SSHStreamFrameHello, SSHStreamFrameState, SSHStreamFrameAck, SSHStreamFrameError}
       then Inr f else Inl (ErrSSHStreamUnexpectedFrame (f_Type f)))"


section \<open>Hello frames\<close>

definition helloFrame :: "SSHStreamHello \<Rightarrow> SSHStreamFrame" where
  "helloFrame h = empty_frame\<lparr>f_Type := SSHStreamFrameHello, f_Protocols := hl_Protocols h,
     f_Purpose := hl_Purpose h, f_HostID := hl_HostID h, f_PeerID := hl_PeerID h, f_TS := hl_TS h,
     f_Nonce := hl_Nonce h, f_Sig := hl_Sig h\<rparr>"

definition frameHello :: "SSHStreamFrame \<Rightarrow> SSHStreamHello" where
  "frameHello f = \<lparr>hl_Protocols = f_Protocols f, hl_Purpose = f_Purpose f, hl_HostID = f_HostID f,
     hl_PeerID = f_PeerID f, hl_TS = f_TS f, hl_Nonce = f_Nonce f, hl_Sig = f_Sig f\<rparr>"

text \<open>The loop of \<open>validSSHStreamProtocols\<close>.\<close>

fun protocols_loop :: "int \<Rightarrow> bool \<Rightarrow> int list \<Rightarrow> bool" where
  "protocols_loop previous hasV1 [] = hasV1"
| "protocols_loop previous hasV1 (p # ps) =
     (if p \<le> 0 \<or> p \<le> previous then False
      else protocols_loop p (if p = SSHStreamProtocolV1 then True else hasV1) ps)"

definition validSSHStreamProtocols :: "int list \<Rightarrow> bool" where
  "validSSHStreamProtocols ps = (if ps = [] then False else protocols_loop 0 False ps)"

definition validateSSHStreamHelloShape :: "SSHStreamHello \<Rightarrow> unit stream_res" where
  "validateSSHStreamHelloShape h =
     (if hl_Purpose h = [] \<or> hl_HostID h = [] \<or> hl_PeerID h = [] \<or> hl_TS h = 0 \<or> hl_Nonce h = [] \<or>
         hl_Sig h = []
      then Inl (ErrSSHStreamInvalidHello ''missing field'')
      else if \<not> validSSHStreamProtocols (hl_Protocols h) then Inl (ErrSSHStreamInvalidHello ''protocols'')
      else Inr ())"

definition verifySSHStreamHelloIdentity ::
  "SSHStreamHello \<Rightarrow> string \<Rightarrow> string \<Rightarrow> string \<Rightarrow> unit stream_res" where
  "verifySSHStreamHelloIdentity h expectedPurpose expectedHostID expectedPeerID =
     (if expectedPurpose \<noteq> [] \<and> hl_Purpose h \<noteq> expectedPurpose
      then Inl (ErrSSHStreamInvalidHello ''purpose'')
      else if expectedHostID \<noteq> [] \<and> hl_HostID h \<noteq> expectedHostID
      then Inl (ErrSSHStreamInvalidHello ''host id'')
      else if expectedPeerID \<noteq> [] \<and> hl_PeerID h \<noteq> expectedPeerID
      then Inl (ErrSSHStreamInvalidHello ''peer id'')
      else Inr ())"

definition sshStreamProtocolList :: "int list \<Rightarrow> string" where
  "sshStreamProtocolList ps = join_with '','' (map show_int ps)"

definition sshStreamHelloCanonical :: "SSHStreamHello \<Rightarrow> bytes" where
  "sshStreamHelloCanonical h =
     ''clipfan-ssh-hello-v1'' @ nl @ ''host_id='' @ hl_HostID h @ nl @ ''peer_id='' @ hl_PeerID h @
     nl @ ''purpose='' @ hl_Purpose h @ nl @ ''protocols='' @ sshStreamProtocolList (hl_Protocols h) @
     nl @ ''ts='' @ show_int (hl_TS h) @ nl @ ''nonce='' @ hl_Nonce h @ nl @ nl"

definition sshHelloHMACKey :: "auth option \<Rightarrow> bytes res" where
  "sshHelloHMACKey a = (case a of None \<Rightarrow> Inl ''auth required'' | Some k \<Rightarrow> DeriveKey k sshHelloHMACLabel)"

definition signSSHStreamHello :: "auth option \<Rightarrow> SSHStreamHello \<Rightarrow> string res" where
  "signSSHStreamHello a h =
     and_then (sshHelloHMACKey a) (\<lambda>key. Inr (hex_encode (hmac_sha256 key (sshStreamHelloCanonical h))))"

definition verifySSHStreamHelloSignature :: "auth option \<Rightarrow> SSHStreamHello \<Rightarrow> unit stream_res" where
  "verifySSHStreamHelloSignature a h =
     and_then (validateSSHStreamHelloShape h) (\<lambda>_.
       case hex_decode (hl_Sig h) of
         None \<Rightarrow> Inl (ErrSSHStreamInvalidHello ''signature'')
       | Some got \<Rightarrow>
           and_then (lift_res (signSSHStreamHello a (h\<lparr>hl_Sig := []\<rparr>))) (\<lambda>expected.
             case hex_decode expected of
               None \<Rightarrow> Inl (ErrStream ''encoding/hex'')
             | Some expectedBytes \<Rightarrow>
                 (if got \<noteq> expectedBytes then Inl (ErrSSHStreamInvalidHello ''signature'') else Inr ())))"

definition NewSSHStreamHello ::
  "auth option \<Rightarrow> bytes option \<Rightarrow> string \<Rightarrow> string \<Rightarrow> string \<Rightarrow> gotime \<Rightarrow> string \<Rightarrow> SSHStreamHello res" where
  "NewSSHStreamHello a rnd purpose hostID peerID now nonce =
     and_then (if nonce = [] then (case rnd of None \<Rightarrow> Inl ''random'' | Some b \<Rightarrow> Inr (hex_encode b))
               else Inr nonce) (\<lambda>nonce.
       let h = \<lparr>hl_Protocols = [SSHStreamProtocolV1], hl_Purpose = purpose, hl_HostID = hostID,
                hl_PeerID = peerID, hl_TS = time_unix now, hl_Nonce = nonce, hl_Sig = []\<rparr>
       in and_then (signSSHStreamHello a h) (\<lambda>sig. Inr (h\<lparr>hl_Sig := sig\<rparr>)))"

definition WriteHello :: "bool \<Rightarrow> SSHSyncStream \<Rightarrow> SSHStreamHello \<Rightarrow> bytes stream_res" where
  "WriteHello cancelled s h =
     and_then (verifySSHStreamHelloIdentity h (ss_purpose s) (ss_localID s) (ss_remoteID s)) (\<lambda>_.
     and_then (verifySSHStreamHelloSignature (ss_auth s) h) (\<lambda>_.
     writeFrame cancelled (helloFrame h)))"

section \<open>The replay cache of hello nonces\<close>

definition sshStreamHelloNonceBucket :: "string \<Rightarrow> string \<Rightarrow> string" where
  "sshStreamHelloNonceBucket hostID purpose = hostID @ [CHR 0x00] @ purpose"

definition sshStreamHelloNonceKey :: "string \<Rightarrow> string \<Rightarrow> string" where
  "sshStreamHelloNonceKey bucket nonce = bucket @ [CHR 0x00] @ nonce"

definition bucketSize :: "string \<Rightarrow> (string \<times> sshStreamHelloNonceEntry) list \<Rightarrow> int" where
  "bucketSize bucket seen = int (length (filter (\<lambda>(k, e). ne_bucket e = bucket) seen))"

text \<open>The scan for the oldest key; of entries with the same time the first one met is taken.\<close>

fun oldest_key :: "(string \<times> gotime) option \<Rightarrow> (string \<times> sshStreamHelloNonceEntry) list \<Rightarrow> string option" where
  "oldest_key best [] = map_option fst best"
| "oldest_key best ((k, e) # es) =
     oldest_key (case best of
         None \<Rightarrow> Some (k, ne_seenAt e)
       | Some (_, t) \<Rightarrow> (if ne_seenAt e < t then Some (k, ne_seenAt e) else best)) es"

definition evictOldestInBucket ::
  "string \<Rightarrow> (string \<times> sshStreamHelloNonceEntry) list \<Rightarrow> (string \<times> sshStreamHelloNonceEntry) list" where
  "evictOldestInBucket bucket seen =
     (case oldest_key None (filter (\<lambda>(k, e). ne_bucket e = bucket) seen) of
        None \<Rightarrow> seen | Some k \<Rightarrow> AList.delete k seen)"

definition evictOldest ::
  "(string \<times> sshStreamHelloNonceEntry) list \<Rightarrow> (string \<times> sshStreamHelloNonceEntry) list" where
  "evictOldest seen = (case oldest_key None seen of None \<Rightarrow> seen | Some k \<Rightarrow> AList.delete k seen)"

lemma oldest_key_Some: "\<exists>k. oldest_key (Some (k0, t)) es = Some k \<and> k \<in> insert k0 (fst ` set es)"
proof (induction es arbitrary: k0 t)
  case (Cons x es)
  obtain k e where x: "x = (k, e)" by fastforce
  show ?case
    using Cons [of k "ne_seenAt e"] Cons [of k0 t] by (cases "ne_seenAt e < t") (auto simp: x)
qed simp

lemma oldest_key_in: "es \<noteq> [] \<Longrightarrow> \<exists>k. oldest_key None es = Some k \<and> k \<in> fst ` set es"
proof -
  assume "es \<noteq> []"
  then obtain k e es' where es: "es = (k, e) # es'" by (metis neq_Nil_conv surj_pair)
  then show ?thesis using oldest_key_Some [of k "ne_seenAt e" es'] by auto
qed

lemma length_delete_member: "k \<in> fst ` set xs \<Longrightarrow> length (AList.delete k xs) < length xs"
proof -
  assume "k \<in> fst ` set xs"
  then obtain v where "(k, v) \<in> set xs" by auto
  then have "length (filter (\<lambda>(k', _). k \<noteq> k') xs) < length xs"
    by (intro length_filter_less [of "(k, v)"]) auto
  then show ?thesis by (simp add: AList.delete_eq)
qed

lemma evictOldest_length: "seen \<noteq> [] \<Longrightarrow> length (evictOldest seen) < length seen"
proof -
  assume "seen \<noteq> []"
  then obtain k where "oldest_key None seen = Some k" "k \<in> fst ` set seen" using oldest_key_in by blast
  then show ?thesis using length_delete_member by (simp add: evictOldest_def)
qed

lemma evictOldestInBucket_length:
  assumes "0 < bucketSize b seen" shows "length (evictOldestInBucket b seen) < length seen"
proof -
  let ?in = "filter (\<lambda>(k, e). ne_bucket e = b) seen"
  have "?in \<noteq> []" using assms by (simp add: bucketSize_def)
  then obtain k where k: "oldest_key None ?in = Some k" "k \<in> fst ` set ?in"
    using oldest_key_in by blast
  then have "k \<in> fst ` set seen" by auto
  then show ?thesis using k(1) length_delete_member by (simp add: evictOldestInBucket_def)
qed

text \<open>The two eviction loops of \<open>remember\<close>, whose caps are positive.\<close>

function evict_bucket_loop ::
  "string \<Rightarrow> int \<Rightarrow> (string \<times> sshStreamHelloNonceEntry) list \<Rightarrow> (string \<times> sshStreamHelloNonceEntry) list" where
  "evict_bucket_loop bucket cap seen =
     (if 0 < cap \<and> cap \<le> bucketSize bucket seen
      then evict_bucket_loop bucket cap (evictOldestInBucket bucket seen) else seen)"
  by pat_completeness auto
termination
  by (relation "measure (\<lambda>(b, c, seen). length seen)") (auto intro: evictOldestInBucket_length)

function evict_process_loop ::
  "int \<Rightarrow> (string \<times> sshStreamHelloNonceEntry) list \<Rightarrow> (string \<times> sshStreamHelloNonceEntry) list" where
  "evict_process_loop cap seen =
     (if 0 < cap \<and> cap \<le> int (length seen) then evict_process_loop cap (evictOldest seen) else seen)"
  by pat_completeness auto
termination
  by (relation "measure (\<lambda>(c, seen). length seen)") (auto intro: evictOldest_length)

declare evict_bucket_loop.simps [simp del] evict_process_loop.simps [simp del]

definition remember ::
  "string \<Rightarrow> string \<Rightarrow> string \<Rightarrow> gotime \<Rightarrow> SSHStreamHelloNonceCache \<Rightarrow> bool \<times> SSHStreamHelloNonceCache" where
  "remember hostID purpose nonce now c =
     (let bucketCap = (if hc_bucketCap c \<le> 0 then SSHStreamHelloNonceBucketCap else hc_bucketCap c);
          processCap = (if hc_processCap c \<le> 0 then SSHStreamHelloNonceProcessCap else hc_processCap c);
          live = filter (\<lambda>(k, e). \<not> ne_seenAt e < now - nonceRetention) (hc_seen c);
          c1 = c\<lparr>hc_bucketCap := bucketCap, hc_processCap := processCap, hc_seen := live\<rparr>;
          bucket = sshStreamHelloNonceBucket hostID purpose;
          key = sshStreamHelloNonceKey bucket nonce
      in if map_of live key \<noteq> None then (False, c1)
         else let room = evict_process_loop processCap (evict_bucket_loop bucket bucketCap live)
              in (True, c1\<lparr>hc_seen := AList.update key \<lparr>ne_bucket = bucket, ne_seenAt = now\<rparr> room\<rparr>))"

definition verifySSHStreamHello ::
  "auth option \<Rightarrow> SSHStreamHello \<Rightarrow> gotime \<Rightarrow> string \<Rightarrow> string \<Rightarrow> string \<Rightarrow> SSHStreamHelloNonceCache option \<Rightarrow>
   unit stream_res \<times> SSHStreamHelloNonceCache option" where
  "verifySSHStreamHello a h receivedAt expectedPurpose expectedHostID expectedPeerID cache =
     (case validateSSHStreamHelloShape h of Inl e \<Rightarrow> (Inl e, cache) | Inr _ \<Rightarrow>
      case verifySSHStreamHelloIdentity h expectedPurpose expectedHostID expectedPeerID of
        Inl e \<Rightarrow> (Inl e, cache)
      | Inr _ \<Rightarrow>
        if is_zero_time receivedAt then (Inl (ErrSSHStreamInvalidHello ''missing received time''), cache)
        else let ts = unix_time (hl_TS h) in
        if ts < receivedAt - signatureSkew \<or> ts > receivedAt + signatureSkew
        then (Inl (ErrSSHStreamInvalidHello ''timestamp''), cache)
        else case verifySSHStreamHelloSignature a h of
          Inl e \<Rightarrow> (Inl e, cache)
        | Inr _ \<Rightarrow>
          (case cache of
             None \<Rightarrow> (Inr (), None)
           | Some c \<Rightarrow>
               (case remember (hl_HostID h) (hl_Purpose h) (hl_Nonce h) receivedAt c of
                  (ok, c') \<Rightarrow>
                    (if ok then (Inr (), Some c')
                     else (Inl (ErrSSHStreamInvalidHello ''replayed nonce''), Some c')))))"

definition VerifySSHStreamHello :: "auth option \<Rightarrow> SSHStreamHello \<Rightarrow> gotime \<Rightarrow> unit stream_res" where
  "VerifySSHStreamHello a h receivedAt =
     fst (verifySSHStreamHello a h receivedAt SSHStreamPurposeSyncStream [] [] None)"

definition verifyHello ::
  "SSHSyncStream \<Rightarrow> SSHStreamHello \<Rightarrow> gotime \<Rightarrow> SSHStreamHelloNonceCache \<Rightarrow>
   unit stream_res \<times> SSHStreamHelloNonceCache option" where
  "verifyHello s h receivedAt cache =
     verifySSHStreamHello (ss_auth s) h receivedAt (ss_purpose s) (ss_remoteID s) (ss_localID s) (Some cache)"

definition ReadHello ::
  "SSHSyncStream \<Rightarrow> json_doc \<Rightarrow> gotime \<Rightarrow> SSHStreamHelloNonceCache \<Rightarrow>
   SSHStreamHello stream_res \<times> SSHStreamHelloNonceCache option" where
  "ReadHello s doc receivedAt cache = (case readFrameAt doc of
     Inl e \<Rightarrow> (Inl e, Some cache)
   | Inr f \<Rightarrow>
       (if f_Type f \<noteq> SSHStreamFrameHello then (Inl (ErrSSHStreamUnexpectedFrame (f_Type f)), Some cache)
        else let h = frameHello f in
          (case verifyHello s h receivedAt cache of
             (Inl e, c') \<Rightarrow> (Inl e, c')
           | (Inr _, c') \<Rightarrow> (Inr h, c'))))"

section \<open>State frames and acknowledgements\<close>

definition validSSHStreamNullReason :: "string \<Rightarrow> bool" where
  "validSSHStreamNullReason r \<longleftrightarrow>
     r \<in> {''no_visible_current'', ''concealed_clear'', ''user_cleared_current''}"

definition validSSHStreamAckStatus :: "string \<Rightarrow> bool" where
  "validSSHStreamAckStatus st \<longleftrightarrow>
     st \<in> {''no_state'', ''applied'', ''ignored_seen'', ''ignored_echo'', ''ignored_older'',
           ''ignored_concealed'', ''rejected''}"

definition validateSSHStreamAck :: "64 word \<Rightarrow> string \<Rightarrow> string \<Rightarrow> unit stream_res" where
  "validateSSHStreamAck seq clipID status =
     (if seq = 0 \<or> \<not> validSSHStreamAckStatus status then Inl (ErrSSHStreamUnexpectedFrame ''ack'')
      else if status = ''no_state'' then
        (if clipID \<noteq> [] then Inl (ErrSSHStreamUnexpectedFrame ''no_state ack id'') else Inr ())
      else if clipID = [] then Inl (ErrSSHStreamUnexpectedFrame ''missing ack id'')
      else Inr ())"

text \<open>The frame \<open>WriteState\<close> writes.\<close>

definition state_frame ::
  "SSHSyncStream \<Rightarrow> bytes option \<Rightarrow> 64 word \<Rightarrow> content \<Rightarrow> string \<Rightarrow> SSHStreamFrame stream_res" where
  "state_frame s rnd seq c origin =
     (if seq = 0 then Inl (ErrSSHStreamUnexpectedFrame ''zero seq'')
      else if int (length (c_Bytes c)) > ss_maxPayloadBytes s then Inl ErrSSHStreamPayloadTooLarge
      else and_then (lift_res (BuildEnvelope (ss_auth s) rnd c origin (ss_remoteID s))) (\<lambda>env.
        Inr (empty_frame\<lparr>f_Type := SSHStreamFrameState, f_Seq := seq,
          f_Sender := ss_localID s, f_Clip := Some env\<rparr>)))"

definition WriteState ::
  "bool \<Rightarrow> SSHSyncStream \<Rightarrow> bytes option \<Rightarrow> 64 word \<Rightarrow> content \<Rightarrow> string \<Rightarrow> bytes stream_res" where
  "WriteState cancelled s rnd seq c origin =
     and_then (state_frame s rnd seq c origin) (writeFrame cancelled)"

definition WriteNullState :: "bool \<Rightarrow> SSHSyncStream \<Rightarrow> 64 word \<Rightarrow> string \<Rightarrow> bytes stream_res" where
  "WriteNullState cancelled s seq nullReason =
     (if seq = 0 \<or> \<not> validSSHStreamNullReason nullReason
      then Inl (ErrSSHStreamUnexpectedFrame ''null state'')
      else writeFrame cancelled (empty_frame\<lparr>f_Type := SSHStreamFrameState, f_Seq := seq,
             f_Sender := ss_localID s, f_NullReason := nullReason\<rparr>))"

definition WriteAck :: "bool \<Rightarrow> 64 word \<Rightarrow> string \<Rightarrow> string \<Rightarrow> string \<Rightarrow> bytes stream_res" where
  "WriteAck cancelled seq clipID status reason =
     and_then (validateSSHStreamAck seq clipID status) (\<lambda>_.
       writeFrame cancelled (empty_frame\<lparr>f_Type := SSHStreamFrameAck, f_Seq := seq, f_ID := clipID,
         f_Status := status, f_Reason := reason\<rparr>))"

definition WriteError :: "bool \<Rightarrow> string \<Rightarrow> bytes stream_res" where
  "WriteError cancelled code = writeFrame cancelled (empty_frame\<lparr>f_Type := SSHStreamFrameError, f_Code := code\<rparr>)"

definition stateResultFromFrame ::
  "SSHSyncStream \<Rightarrow> SSHStreamFrame \<Rightarrow> gotime \<Rightarrow> SSHStreamStateResult stream_res \<times> SSHSyncStream" where
  "stateResultFromFrame s f receivedAt =
     (if f_Type f \<noteq> SSHStreamFrameState \<or> f_Seq f = 0
      then (Inl (ErrSSHStreamUnexpectedFrame (f_Type f)), s)
      else if f_Seq f \<noteq> ss_nextSeq s
      then (Inl (ErrSSHStreamUnexpectedFrame (''seq '' @ show_nat (unat (f_Seq f)))), s)
      else if f_Sender f \<noteq> ss_remoteID s then (Inl ErrSSHStreamSenderMismatch, s)
      else if \<not> f_clipPresent f then (Inl (ErrSSHStreamUnexpectedFrame ''missing clip''), s)
      else case f_Clip f of
        None \<Rightarrow>
          (if \<not> validSSHStreamNullReason (f_NullReason f)
           then (Inl (ErrSSHStreamUnexpectedFrame ''null state''), s)
           else (Inr \<lparr>sr_Seq = f_Seq f, sr_Sender = f_Sender f, sr_Content = None, sr_Origin = [],
                      sr_NullReason = f_NullReason f\<rparr>, s\<lparr>ss_nextSeq := ss_nextSeq s + 1\<rparr>))
      | Some env \<Rightarrow>
          (case OpenEnvelope (ss_auth s) env (ss_localID s) receivedAt of
             Inl e \<Rightarrow> (Inl (ErrEnvelope e), s)
           | Inr (c, origin) \<Rightarrow>
               (if int (length (c_Bytes c)) > ss_maxPayloadBytes s
                then (Inl ErrSSHStreamPayloadTooLarge, s)
                else (Inr \<lparr>sr_Seq = f_Seq f, sr_Sender = f_Sender f, sr_Content = Some c,
                           sr_Origin = origin, sr_NullReason = []\<rparr>,
                      s\<lparr>ss_nextSeq := ss_nextSeq s + 1\<rparr>))))"

definition ackResultFromFrame :: "SSHStreamFrame \<Rightarrow> SSHStreamAckResult stream_res" where
  "ackResultFromFrame f =
     (if f_Type f \<noteq> SSHStreamFrameAck then Inl (ErrSSHStreamUnexpectedFrame (f_Type f))
      else and_then (validateSSHStreamAck (f_Seq f) (f_ID f) (f_Status f)) (\<lambda>_.
        Inr \<lparr>ar_Seq = f_Seq f, ar_ID = f_ID f, ar_Status = f_Status f, ar_Reason = f_Reason f\<rparr>))"

definition eventFromFrame ::
  "SSHSyncStream \<Rightarrow> SSHStreamFrame \<Rightarrow> gotime \<Rightarrow> SSHStreamEvent stream_res \<times> SSHSyncStream" where
  "eventFromFrame s f receivedAt =
     (if f_Type f = SSHStreamFrameState then
        (case stateResultFromFrame s f receivedAt of
           (Inl e, s') \<Rightarrow> (Inl e, s') | (Inr st, s') \<Rightarrow> (Inr (StateEvent st), s'))
      else if f_Type f = SSHStreamFrameAck then
        (case ackResultFromFrame f of Inl e \<Rightarrow> (Inl e, s) | Inr a \<Rightarrow> (Inr (AckEvent a), s))
      else if f_Type f = SSHStreamFrameError then
        (if f_Code f = [] then (Inl (ErrSSHStreamUnexpectedFrame ''missing error code''), s)
         else (Inr (ErrorEvent (f_Code f)), s))
      else (Inl (ErrSSHStreamUnexpectedFrame (f_Type f)), s))"

definition ReadNext ::
  "SSHSyncStream \<Rightarrow> json_doc \<Rightarrow> gotime \<Rightarrow> SSHStreamEvent stream_res \<times> SSHSyncStream" where
  "ReadNext s doc receivedAt = (case readFrameAt doc of
     Inl e \<Rightarrow> (Inl e, s) | Inr f \<Rightarrow> eventFromFrame s f receivedAt)"

definition ReadStateFrame ::
  "SSHSyncStream \<Rightarrow> json_doc \<Rightarrow> gotime \<Rightarrow> SSHStreamStateResult stream_res \<times> SSHSyncStream" where
  "ReadStateFrame s doc receivedAt = (case readFrameAt doc of
     Inl e \<Rightarrow> (Inl e, s) | Inr f \<Rightarrow> stateResultFromFrame s f receivedAt)"

definition ReadState ::
  "SSHSyncStream \<Rightarrow> json_doc \<Rightarrow> gotime \<Rightarrow> (content option \<times> string) stream_res \<times> SSHSyncStream" where
  "ReadState s doc receivedAt = (case ReadStateFrame s doc receivedAt of
     (Inl e, s') \<Rightarrow> (Inl e, s')
   | (Inr r, s') \<Rightarrow>
       (if sr_NullReason r \<noteq> [] then (Inr (None, sr_Sender r), s')
        else (Inr (sr_Content r, sr_Origin r), s')))"


section \<open>Lemmas: the line reader\<close>

declare readFrameLine.simps [simp del]

definition split_line :: "nat \<Rightarrow> bytes \<Rightarrow> bytes \<Rightarrow> (bytes \<times> bytes) stream_res" where
  "split_line maxPayloadBytes line input =
     (let l = takeWhile (\<lambda>c. c \<noteq> CHR 0x0A) input
      in if length line + length l > maxPayloadBytes then Inl ErrSSHStreamFrameTooLarge
         else if CHR 0x0A \<in> set input then Inr (line @ l @ nl, drop (Suc (length l)) input)
         else Inl ErrSSHStreamUnexpectedEOF)"

lemma payloadLen_line: "CHR 0x0A \<notin> set line \<Longrightarrow> sshStreamPayloadLen line = length line"
  by (auto simp: sshStreamPayloadLen_def dest: last_in_set)

lemma payloadLen_nl: "sshStreamPayloadLen (line @ nl) = length line"
  by (simp add: sshStreamPayloadLen_def)

lemma takeWhile_no_nl: "CHR 0x0A \<notin> set xs \<Longrightarrow> takeWhile (\<lambda>c. c \<noteq> CHR 0x0A) xs = xs"
  by (auto simp: takeWhile_eq_all_conv)

lemma takeWhile_shorter_iff:
  "length (takeWhile (\<lambda>c. c \<noteq> CHR 0x0A) xs) < length xs \<longleftrightarrow> CHR 0x0A \<in> set xs"
  by (induction xs) auto

lemma read_slice_cases:
  obtains (ok) "CHR 0x0A \<in> set (take n input)"
      "read_slice n input = (takeWhile (\<lambda>c. c \<noteq> CHR 0x0A) input @ nl, SliceOK,
         drop (Suc (length (takeWhile (\<lambda>c. c \<noteq> CHR 0x0A) input))) input)"
    | (full) "CHR 0x0A \<notin> set (take n input)" "n \<le> length input"
      "read_slice n input = (take n input, BufferFull, drop n input)"
    | (eof) "CHR 0x0A \<notin> set input" "length input < n" "read_slice n input = (input, SliceEOF, [])"
proof (cases "CHR 0x0A \<in> set (take n input)")
  case True
  have "takeWhile (\<lambda>c. c \<noteq> CHR 0x0A) (take n input @ drop n input) = takeWhile (\<lambda>c. c \<noteq> CHR 0x0A) (take n input)"
    using True by (intro takeWhile_append1 [of "CHR 0x0A"]) auto
  then have "takeWhile (\<lambda>c. c \<noteq> CHR 0x0A) (take n input) = takeWhile (\<lambda>c. c \<noteq> CHR 0x0A) input" by simp
  then show ?thesis
    using True takeWhile_shorter_iff [of "take n input"]
    by (intro ok) (simp_all add: read_slice_def Let_def del: length_take)
next
  case False
  then have "\<not> length (takeWhile (\<lambda>c. c \<noteq> CHR 0x0A) (take n input)) < length (take n input)"
    using takeWhile_shorter_iff by blast
  then show ?thesis
    using False by (cases "n \<le> length input") (auto intro: full eof simp: read_slice_def Let_def)
qed

lemma readFrameLine_split:
  assumes "CHR 0x0A \<notin> set line" and "length line \<le> maxPayloadBytes"
  shows "readFrameLine n maxPayloadBytes line input = split_line maxPayloadBytes line input"
  using assms
proof (induction "length input" arbitrary: line input rule: less_induct)
  case less
  let ?l = "takeWhile (\<lambda>c. c \<noteq> CHR 0x0A) input"
  show ?case
  proof (cases rule: read_slice_cases [of "Suc n" input])
    case ok
    then have "CHR 0x0A \<in> set input" by (blast dest: in_set_takeD)
    with ok show ?thesis
      using payloadLen_nl [of "line @ ?l"]
      by (subst readFrameLine.simps) (simp add: split_line_def Let_def)
  next
    case full
    let ?c = "take (Suc n) input" and ?r = "drop (Suc n) input"
    have tw: "?l = ?c @ takeWhile (\<lambda>c. c \<noteq> CHR 0x0A) ?r"
      using full(1) takeWhile_append2 [of ?c "\<lambda>c. c \<noteq> CHR 0x0A" ?r] by auto
    have c: "?c \<noteq> []" "length ?c = Suc n" using full(2) by auto
    have "CHR 0x0A \<notin> set (line @ ?c)" using full(1) less.prems by simp
    then have pl: "sshStreamPayloadLen (line @ ?c) = length (line @ ?c)" by (rule payloadLen_line)
    have nl: "CHR 0x0A \<in> set input \<longleftrightarrow> CHR 0x0A \<in> set ?r"
      using full(1) by (metis Un_iff append_take_drop_id set_append)
    have IH: "readFrameLine n maxPayloadBytes (line @ ?c) ?r = split_line maxPayloadBytes (line @ ?c) ?r"
      if "length (line @ ?c) \<le> maxPayloadBytes"
      using less.hyps [of ?r "line @ ?c"] full less.prems that c by auto
    have dr: "drop (Suc (length (?c @ xs))) input = drop (Suc (length xs)) ?r" for xs
      using c by (simp add: add.commute)
    show ?thesis
    proof (cases "length (line @ ?c) \<le> maxPayloadBytes")
      case True
      then show ?thesis
        using full(3) pl IH tw nl dr c
        by (subst readFrameLine.simps) (simp add: split_line_def Let_def del: take_Suc_Cons drop_Suc_Cons)
    next
      case False
      then show ?thesis
        using full(3) pl tw c
        by (subst readFrameLine.simps) (simp add: split_line_def Let_def del: take_Suc_Cons drop_Suc_Cons)
    qed
  next
    case eof
    then have "CHR 0x0A \<notin> set (line @ input)" using less.prems by simp
    then have "sshStreamPayloadLen (line @ input) = length (line @ input)" by (rule payloadLen_line)
    with eof less.prems show ?thesis
      by (subst readFrameLine.simps) (auto simp: split_line_def Let_def takeWhile_no_nl)
  qed
qed


section \<open>Lemmas: the JSON form\<close>

definition valid_text :: "string \<Rightarrow> bool" where
  "valid_text s \<longleftrightarrow> json_string s = s"

lemma dec_string_jstr: "dec_string (jstr s) cur = Inr (json_string s)"
  by (simp add: dec_string_def jstr_def)

lemma dec_string_null: "dec_string JNull cur = Inr cur"
  by (simp add: dec_string_def)

definition valid_envelope :: "Envelope \<Rightarrow> bool" where
  "valid_envelope e \<longleftrightarrow>
     list_all valid_text [e_ID e, e_Origin e, e_Recipient e, e_Kind e, e_Body e, e_Nonce e]"

lemma envelope_json_roundtrip:
  assumes "envelope_json e = Inr v" and "valid_envelope e"
  shows "dec_clip v = Inr (Some e)"
proof -
  obtain ts where ts: "time_text (e_TS e) = Some ts" using assms(1) by (auto simp: envelope_json_def split: option.splits)
  have "dec_time (JStr ts) cur = Inr (e_TS e)" for cur
    using text_time_text [OF ts] by (simp add: dec_time_def)
  then show ?thesis
    using assms ts
    by (auto simp: envelope_json_def dec_clip_def struct_field_def envelope_names_def set_envelope_field_def
        dec_string_jstr dec_bool_def valid_envelope_def valid_text_def empty_envelope_def)
qed

lemma dec_ints_show:
  "list_all (\<lambda>i. - (2 ^ 63) \<le> i \<and> i < 2 ^ 63) is \<Longrightarrow> dec_ints (map (\<lambda>i. JNum (show_int i)) is) = Inr is"
  by (induction "is") (auto simp: dec_int_def parse_int64_show)

definition valid_frame :: "SSHStreamFrame \<Rightarrow> bool" where
  "valid_frame f \<longleftrightarrow>
     list_all valid_text [f_Type f, f_Purpose f, f_HostID f, f_PeerID f, f_Nonce f, f_Sig f, f_Sender f,
       f_NullReason f, f_ID f, f_Status f, f_Reason f, f_Code f] \<and>
     list_all (\<lambda>i. - (2 ^ 63) \<le> i \<and> i < 2 ^ 63) (f_TS f # f_Protocols f) \<and>
     (case f_Clip f of None \<Rightarrow> True | Some e \<Rightarrow> valid_envelope e)"

text \<open>The value a key has in the fields of a frame.\<close>

lemma the_field_Cons: "the_field ((k, v) # fs) j = (if j = k then v else the_field fs j)"
  by (simp add: the_field_def)

lemma the_field_if_set:
  "the_field (if_set b k v @ fs) j = (if b \<and> j = k then v else the_field fs j)"
  by (simp add: if_set_def the_field_Cons)

lemma the_field_Nil: "the_field [] j = JNull"
  by (simp add: the_field_def)

lemma the_field_last: "the_field (if_set b k v) j = (if b \<and> j = k then v else JNull)"
  using the_field_if_set [of b k v "[]" j] by (simp add: the_field_Nil)

lemma validate_keys_ok:
  "set (map fst fs) \<subseteq> set sshStreamFrameFields \<Longrightarrow> distinct (map fst fs) \<Longrightarrow>
   set (map fst fs) \<inter> set seen = {} \<Longrightarrow> validate_keys seen fs = Inr ()"
  by (induction seen fs rule: validate_keys.induct) auto

lemma map_fst_if_set: "map fst (if_set b k v) = (if b then [k] else [])"
  by (simp add: if_set_def)

lemma frame_keys:
  assumes "clip = [] \<or> clip = [(''clip'', v)]"
  shows "subseq (map fst (frame_fields f clip)) sshStreamFrameFields"
proof -
  have sub: "subseq (map fst (if_set b k v) @ xs) (k # ys)" if "subseq xs ys" for b k v xs ys
    using that by (auto simp: map_fst_if_set intro: list_emb_Cons)
  have clip: "subseq (map fst clip @ xs) (''clip'' # ys)" if "subseq xs ys" for xs ys
    using assms that by (auto intro: list_emb_Cons)
  have last: "subseq (map fst (if_set b k v)) [k]" for b k v by (simp add: map_fst_if_set)
  have ty: "subseq (''type'' # xs) (''type'' # ys)" if "subseq xs ys" for xs ys :: "string list"
    using that by simp
  show ?thesis
    unfolding frame_fields_def sshStreamFrameFields_def map_append list.map fst_conv append.simps
    by (intro ty sub clip last)
qed

lemma frame_validates:
  assumes "clip = [] \<or> clip = [(''clip'', v)]"
  shows "validateSSHStreamFrameObject (Values [JObj (frame_fields f clip)]) = Inr ()"
proof -
  note sub = frame_keys [OF assms, of f]
  have d: "distinct sshStreamFrameFields" by (simp add: sshStreamFrameFields_def)
  have "distinct (map fst (frame_fields f clip))"
    using sub d by (metis distinct_nthsI subseq_conv_nths)
  moreover have "set (map fst (frame_fields f clip)) \<subseteq> set sshStreamFrameFields"
    by (rule subsetI) (rule list_emb_set [OF sub], assumption, simp)
  ultimately have "validate_keys [] (frame_fields f clip) = Inr ()"
    by (intro validate_keys_ok) auto
  then show ?thesis by (simp add: validateSSHStreamFrameObject_def)
qed


lemma map_of_if_set: "map_of (if_set b k v @ fs) j = (if b \<and> j = k then Some v else map_of fs j)"
  by (simp add: if_set_def)

lemma map_of_if_set_last: "map_of (if_set b k v) j = (if b \<and> j = k then Some v else None)"
  by (simp add: if_set_def)

lemma the_field_clip:
  "the_field (clip @ fs) j = (case map_of clip j of Some v \<Rightarrow> v | None \<Rightarrow> the_field fs j)"
  by (simp add: the_field_def map_add_def split: option.splits)

lemma unmarshal_fields:
  assumes "valid_frame f" and "clip = [] \<or> clip = [(''clip'', v)]"
    and c: "dec_clip (if clip = [] then JNull else v) = Inr (f_Clip f)"
  shows "unmarshal_frame (frame_fields f clip) = Inr (f\<lparr>f_clipPresent := (clip \<noteq> [])\<rparr>)"
proof -
  let ?fs = "frame_fields f clip"
  have clip: "map_of clip j = (if clip \<noteq> [] \<and> j = ''clip'' then Some v else None)" for j
    using assms(2) by auto
  have str1: "dec_string (if s \<noteq> [] then jstr s else JNull) [] = Inr s" if "valid_text s" for s
    using that by (simp add: dec_string_jstr dec_string_null valid_text_def)
  have cl: "the_field (clip @ fs) j = (if clip \<noteq> [] \<and> j = ''clip'' then v else the_field fs j)" for fs j
    by (simp add: the_field_clip clip)
  note [simp] = the_field_Cons the_field_if_set cl the_field_last the_field_Nil
  have strs: "dec_string (the_field ?fs ''type'') [] = Inr (f_Type f)"
    "dec_string (the_field ?fs ''purpose'') [] = Inr (f_Purpose f)"
    "dec_string (the_field ?fs ''host_id'') [] = Inr (f_HostID f)"
    "dec_string (the_field ?fs ''peer_id'') [] = Inr (f_PeerID f)"
    "dec_string (the_field ?fs ''nonce'') [] = Inr (f_Nonce f)"
    "dec_string (the_field ?fs ''sig'') [] = Inr (f_Sig f)"
    "dec_string (the_field ?fs ''sender'') [] = Inr (f_Sender f)"
    "dec_string (the_field ?fs ''null_reason'') [] = Inr (f_NullReason f)"
    "dec_string (the_field ?fs ''id'') [] = Inr (f_ID f)"
    "dec_string (the_field ?fs ''status'') [] = Inr (f_Status f)"
    "dec_string (the_field ?fs ''reason'') [] = Inr (f_Reason f)"
    "dec_string (the_field ?fs ''code'') [] = Inr (f_Code f)"
    using assms(1) str1 by (simp_all add: frame_fields_def valid_frame_def valid_text_def dec_string_jstr dec_string_null)
  have nums: "dec_int_list (the_field ?fs ''protocols'') [] = Inr (f_Protocols f)"
    "dec_int (the_field ?fs ''ts'') 0 = Inr (f_TS f)"
    "dec_uint64 (the_field ?fs ''seq'') 0 = Inr (f_Seq f)"
    using assms(1)
    by (auto simp: frame_fields_def valid_frame_def dec_int_list_def dec_ints_show dec_int_def
        dec_uint64_def parse_int64_show parse_uint64_show)
  have "the_field ?fs ''clip'' = (if clip = [] then JNull else v)" by (simp add: frame_fields_def)
  with c have clipv: "dec_clip (the_field ?fs ''clip'') = Inr (f_Clip f)" by simp
  have "(map_of ?fs ''clip'' \<noteq> None) = (clip \<noteq> [])"
  proof -
    have a: "map_of (clip @ fs) j = (if clip \<noteq> [] \<and> j = ''clip'' then Some v else map_of fs j)" for fs j
      by (simp add: map_add_def clip)
    show ?thesis by (simp add: frame_fields_def map_of_if_set map_of_if_set_last a del: map_of_append)
  qed
  with strs nums clipv show ?thesis by (simp add: unmarshal_frame_def)
qed

lemma decode_marshal:
  assumes "MarshalJSON f = Inr v" and "valid_frame f"
  shows "decodeSSHStreamFrame (Values [v]) =
    Inr (f\<lparr>f_clipPresent := (f_Clip f \<noteq> None \<or> f_Type f = SSHStreamFrameState)\<rparr>)"
proof (cases "f_Clip f")
  case (Some e)
  then obtain w where w: "envelope_json e = Inr w" "v = JObj (frame_fields f [(''clip'', w)])"
    using assms(1) by (auto simp: MarshalJSON_def and_then_Inr_iff)
  have "valid_envelope e" using assms(2) Some by (simp add: valid_frame_def)
  from envelope_json_roundtrip [OF w(1) this] show ?thesis
    using unmarshal_fields [OF assms(2), of "[(''clip'', w)]" w] frame_validates [of "[(''clip'', w)]" w f] Some w(2)
    by (simp add: decodeSSHStreamFrame_def lift_res_def)
next
  case None
  define clip where "clip = (if f_Type f = SSHStreamFrameState then [(''clip'', JNull)] else [])"
  have v: "v = JObj (frame_fields f clip)"
    using assms(1) None by (simp add: MarshalJSON_def clip_def)
  have "clip = [] \<or> clip = [(''clip'', JNull)]" by (simp add: clip_def)
  from unmarshal_fields [OF assms(2) this] frame_validates [OF this, of f] show ?thesis
    using None v by (simp add: decodeSSHStreamFrame_def lift_res_def dec_clip_def) (simp add: clip_def)
qed

section \<open>Lemmas: hello frames\<close>

lemma protocols_loop_iff:
  "0 \<le> previous \<Longrightarrow> protocols_loop previous hasV1 ps \<longleftrightarrow>
   sorted_wrt (<) (previous # ps) \<and> (hasV1 \<or> 1 \<in> set ps)"
proof (induction previous hasV1 ps rule: protocols_loop.induct)
  case (2 previous hasV1 p ps)
  show ?case
  proof (cases "p \<le> previous")
    case False
    with 2 show ?thesis by (auto simp: SSHStreamProtocolV1_def) (meson leI le_less_trans less_imp_le)+
  qed auto
qed simp

lemma validSSHStreamProtocols_iff:
  "validSSHStreamProtocols ps \<longleftrightarrow> sorted_wrt (<) ps \<and> (\<exists>qs. ps = 1 # qs)"
proof -
  have "sorted_wrt (<) (0 # ps) \<and> 1 \<in> set ps \<longleftrightarrow> sorted_wrt (<) ps \<and> (\<exists>qs. ps = 1 # qs)" for ps :: "int list"
    by (cases ps) force+
  then show ?thesis by (auto simp: validSSHStreamProtocols_def protocols_loop_iff)
qed

lemma sshHelloHMACKey_Some: "\<exists>key. sshHelloHMACKey (Some k) = Inr key \<and> length key = 32"
  using DeriveKey_known [of sshHelloHMACLabel k] by (simp add: sshHelloHMACKey_def)

lemma canonical_ignores_sig [simp]: "sshStreamHelloCanonical (h\<lparr>hl_Sig := s\<rparr>) = sshStreamHelloCanonical h"
  by (simp add: sshStreamHelloCanonical_def)

lemma signature_iff:
  "verifySSHStreamHelloSignature (Some k) h = Inr () \<longleftrightarrow>
   validateSSHStreamHelloShape h = Inr () \<and>
   (\<exists>key. sshHelloHMACKey (Some k) = Inr key \<and>
      hex_decode (hl_Sig h) = Some (hmac_sha256 key (sshStreamHelloCanonical h)))"
proof -
  obtain key where k: "sshHelloHMACKey (Some k) = Inr key" using sshHelloHMACKey_Some by blast
  show ?thesis
    by (cases "validateSSHStreamHelloShape h"; cases "hex_decode (hl_Sig h)")
      (auto simp: verifySSHStreamHelloSignature_def signSSHStreamHello_def lift_res_def k)
qed

lemma show_int_no_comma: "CHR '','' \<notin> set (show_int i)"
proof -
  have "CHR '','' \<notin> set (show_nat n)" for n
    using show_nat_digits [of n] by (auto simp: list_all_iff is_digit_def)
  then show ?thesis by (simp add: show_int_def)
qed

lemma split_on_join_any:
  "cs \<noteq> [] \<Longrightarrow> \<forall>t \<in> set cs. c \<notin> set t \<Longrightarrow> split_on c (join_with [c] cs) = cs"
proof (induction cs)
  case (Cons x xs)
  then show ?case by (cases xs) (auto simp: split_on_append split_on_plain)
qed simp

lemma sshStreamProtocolList_inj:
  "ps \<noteq> [] \<Longrightarrow> qs \<noteq> [] \<Longrightarrow> sshStreamProtocolList ps = sshStreamProtocolList qs \<Longrightarrow> ps = qs"
proof -
  assume ne: "ps \<noteq> []" "qs \<noteq> []" and eq: "sshStreamProtocolList ps = sshStreamProtocolList qs"
  have "split_on (CHR '','') (sshStreamProtocolList ps) = map show_int ps" if "ps \<noteq> []" for ps
    using that show_int_no_comma by (auto simp: sshStreamProtocolList_def intro!: split_on_join_any)
  with ne eq have "map show_int ps = map show_int qs" by metis
  moreover have "inj show_int" by (auto simp: inj_def show_int_inj)
  ultimately show ?thesis by simp
qed

lemma show_int_no_newline: "CHR 0x0A \<notin> set (show_int i)"
proof -
  have "CHR 0x0A \<notin> set (show_nat n)" for n
    using show_nat_digits [of n] by (auto simp: list_all_iff is_digit_def)
  then show ?thesis by (simp add: show_int_def)
qed

lemma protocolList_no_newline: "CHR 0x0A \<notin> set (sshStreamProtocolList ps)"
proof -
  have "CHR 0x0A \<notin> set (join_with '','' (map show_int ps))"
    using show_int_no_newline by (induction ps rule: remdups_adj.induct) auto
  then show ?thesis by (simp add: sshStreamProtocolList_def)
qed

lemma canonical_hello_inj:
  assumes "list_all no_newline [hl_HostID h, hl_PeerID h, hl_Purpose h, hl_Nonce h,
      hl_HostID g, hl_PeerID g, hl_Purpose g, hl_Nonce g]"
    and "hl_Protocols h \<noteq> []" and "hl_Protocols g \<noteq> []"
    and "sshStreamHelloCanonical h = sshStreamHelloCanonical g"
  shows "h\<lparr>hl_Sig := []\<rparr> = g\<lparr>hl_Sig := []\<rparr>"
proof -
  have "hl_HostID h = hl_HostID g \<and> hl_PeerID h = hl_PeerID g \<and> hl_Purpose h = hl_Purpose g \<and>
      sshStreamProtocolList (hl_Protocols h) = sshStreamProtocolList (hl_Protocols g) \<and>
      show_int (hl_TS h) = show_int (hl_TS g) \<and> hl_Nonce h = hl_Nonce g"
    using assms(1,4) protocolList_no_newline show_int_no_newline
    by (simp add: sshStreamHelloCanonical_def no_newline_def line_inj)
  then show ?thesis
    using sshStreamProtocolList_inj [OF assms(2,3)] by (simp add: show_int_inj)
qed

section \<open>Lemmas: the replay cache\<close>

definition cache_ok :: "SSHStreamHelloNonceCache \<Rightarrow> bool" where
  "cache_ok c \<longleftrightarrow> distinct (map fst (hc_seen c)) \<and> 0 < hc_bucketCap c \<and> 0 < hc_processCap c"

lemma evictOldest_subseq: "subseq (evictOldest seen) seen"
  by (simp add: evictOldest_def AList.delete_eq split: option.splits)

lemma evictOldestInBucket_subseq: "subseq (evictOldestInBucket b seen) seen"
  by (simp add: evictOldestInBucket_def AList.delete_eq split: option.splits)

lemma evict_bucket_loop_props:
  "0 < cap \<Longrightarrow> subseq (evict_bucket_loop b cap seen) seen \<and> bucketSize b (evict_bucket_loop b cap seen) < cap"
proof (induction b cap seen rule: evict_bucket_loop.induct)
  case (1 b cap seen)
  then show ?case
    using evictOldestInBucket_subseq [of b seen]
    by (subst (1 2) evict_bucket_loop.simps) (auto intro: subseq_order.trans)
qed

lemma evict_process_loop_props:
  "0 < cap \<Longrightarrow> subseq (evict_process_loop cap seen) seen \<and> int (length (evict_process_loop cap seen)) < cap"
proof (induction cap seen rule: evict_process_loop.induct)
  case (1 cap seen)
  then show ?case
    using evictOldest_subseq [of seen]
    by (subst (1 2) evict_process_loop.simps) (auto intro: subseq_order.trans)
qed

lemma bucketSize_le: "bucketSize b seen \<le> int (length seen)"
  by (simp add: bucketSize_def)

lemma bucketSize_subseq: "subseq xs ys \<Longrightarrow> bucketSize b xs \<le> bucketSize b ys"
  unfolding bucketSize_def using list_emb_length [OF subseq_filter] by (metis of_nat_mono)

lemma subseq_distinct_fst: "subseq xs ys \<Longrightarrow> distinct (map fst ys) \<Longrightarrow> distinct (map fst xs)"
  by (auto simp: subseq_conv_nths simp flip: nths_map)

lemma length_update_le: "length (AList.update k v xs) \<le> Suc (length xs)"
  by (induction xs) auto

lemma bucketSize_update_le: "bucketSize b (AList.update k v xs) \<le> bucketSize b xs + 1"
  by (induction xs) (auto simp: bucketSize_def)

lemma remember_ok:
  assumes "cache_ok c"
  shows "cache_ok (snd (remember h p n now c)) \<and>
    hc_bucketCap (snd (remember h p n now c)) = hc_bucketCap c \<and>
    hc_processCap (snd (remember h p n now c)) = hc_processCap c"
proof -
  let ?live = "filter (\<lambda>(k, e). \<not> ne_seenAt e < now - nonceRetention) (hc_seen c)"
  let ?b = "sshStreamHelloNonceBucket h p"
  let ?r1 = "evict_bucket_loop ?b (hc_bucketCap c) ?live"
  let ?r2 = "evict_process_loop (hc_processCap c) ?r1"
  have caps: "0 < hc_bucketCap c" "0 < hc_processCap c" and d: "distinct (map fst ?live)"
    using assms by (auto simp: cache_ok_def distinct_map_filter)
  have "subseq ?r2 ?live"
    using evict_process_loop_props [OF caps(2), of ?r1] evict_bucket_loop_props [OF caps(1), of ?b ?live]
    by (blast intro: subseq_order.trans)
  then have "distinct (map fst ?r2)" using d by (rule subseq_distinct_fst)
  then show ?thesis
    using caps d by (auto simp: remember_def Let_def cache_ok_def distinct_update)
qed

text \<open>After a nonce was taken in, its bucket and the cache are within their caps.\<close>

lemma remember_bounds:
  assumes "cache_ok c" and "fst (remember h p n now c)"
  shows "bucketSize (sshStreamHelloNonceBucket h p) (hc_seen (snd (remember h p n now c))) \<le> hc_bucketCap c \<and>
    int (length (hc_seen (snd (remember h p n now c)))) \<le> hc_processCap c \<and>
    map_of (hc_seen (snd (remember h p n now c))) (sshStreamHelloNonceKey (sshStreamHelloNonceBucket h p) n) =
      Some \<lparr>ne_bucket = sshStreamHelloNonceBucket h p, ne_seenAt = now\<rparr>"
proof -
  let ?live = "filter (\<lambda>(k, e). \<not> ne_seenAt e < now - nonceRetention) (hc_seen c)"
  let ?b = "sshStreamHelloNonceBucket h p"
  let ?k = "sshStreamHelloNonceKey ?b n"
  let ?r1 = "evict_bucket_loop ?b (hc_bucketCap c) ?live"
  let ?r2 = "evict_process_loop (hc_processCap c) ?r1"
  let ?e = "\<lparr>ne_bucket = ?b, ne_seenAt = now\<rparr>"
  have caps: "0 < hc_bucketCap c" "0 < hc_processCap c" using assms(1) by (simp_all add: cache_ok_def)
  have seen: "hc_seen (snd (remember h p n now c)) = AList.update ?k ?e ?r2"
    using assms(2) caps by (auto simp: remember_def Let_def split: if_splits)
  note p1 = evict_bucket_loop_props [OF caps(1), of ?b ?live]
    and p2 = evict_process_loop_props [OF caps(2), of ?r1]
  have "bucketSize ?b ?r2 < hc_bucketCap c" using p1 bucketSize_subseq [OF conjunct1 [OF p2], of ?b] by simp
  then show ?thesis
    unfolding seen using bucketSize_update_le [of ?b ?k ?e ?r2] length_update_le [of ?k ?e ?r2] p2
    by (simp add: update_conv)
qed

text \<open>While there is room, an entry that has not expired stays.\<close>

lemma remember_keeps:
  assumes "cache_ok c" and "map_of (hc_seen c) key = Some e" and "now \<le> ne_seenAt e + nonceRetention"
    and "int (length (hc_seen c)) < min (hc_bucketCap c) (hc_processCap c)"
  shows "map_of (hc_seen (snd (remember h p n now c))) key = Some e \<and>
    length (hc_seen (snd (remember h p n now c))) \<le> Suc (length (hc_seen c))"
proof -
  let ?live = "filter (\<lambda>(k, e). \<not> ne_seenAt e < now - nonceRetention) (hc_seen c)"
  let ?b = "sshStreamHelloNonceBucket h p"
  let ?k = "sshStreamHelloNonceKey ?b n"
  have caps: "0 < hc_bucketCap c" "0 < hc_processCap c" and d: "distinct (map fst (hc_seen c))"
    using assms(1) by (auto simp: cache_ok_def)
  have len: "length ?live \<le> length (hc_seen c)" by (rule length_filter_le)
  have "\<not> hc_bucketCap c \<le> bucketSize ?b ?live" using bucketSize_le [of ?b ?live] len assms(4) by linarith
  then have r1: "evict_bucket_loop ?b (hc_bucketCap c) ?live = ?live"
    by (subst evict_bucket_loop.simps) simp
  have "\<not> hc_processCap c \<le> int (length ?live)" using len assms(4) by linarith
  then have r2: "evict_process_loop (hc_processCap c) ?live = ?live"
    by (subst evict_process_loop.simps) simp
  have k: "map_of ?live key = Some e"
    using d assms(2,3) by (intro map_of_fst_filter) auto
  show ?thesis
  proof (cases "map_of ?live ?k = None")
    case True
    then have "hc_seen (snd (remember h p n now c)) = AList.update ?k \<lparr>ne_bucket = ?b, ne_seenAt = now\<rparr> ?live"
      using caps r1 r2 by (simp add: remember_def Let_def)
    moreover have "key \<noteq> ?k" using True k by auto
    moreover have "length (AList.update ?k \<lparr>ne_bucket = ?b, ne_seenAt = now\<rparr> ?live) \<le> Suc (length (hc_seen c))"
      using len length_update_le [of ?k "\<lparr>ne_bucket = ?b, ne_seenAt = now\<rparr>" ?live] by linarith
    ultimately show ?thesis using k by (simp add: update_conv)
  next
    case False
    then have "hc_seen (snd (remember h p n now c)) = ?live"
      using caps by (simp add: remember_def Let_def)
    then show ?thesis using k len by (metis le_SucI)
  qed
qed


type_synonym hello_request = "string \<times> string \<times> string \<times> gotime"

definition remember_all :: "hello_request list \<Rightarrow> SSHStreamHelloNonceCache \<Rightarrow> SSHStreamHelloNonceCache" where
  "remember_all reqs c = fold (\<lambda>(h, p, n, t) c. snd (remember h p n t c)) reqs c"

lemma remember_all_keeps:
  assumes "cache_ok c" and "map_of (hc_seen c) key = Some e"
    and "\<forall>(h, p, n, t) \<in> set reqs. t \<le> ne_seenAt e + nonceRetention"
    and "int (length (hc_seen c) + length reqs) \<le> min (hc_bucketCap c) (hc_processCap c)"
  shows "cache_ok (remember_all reqs c) \<and> map_of (hc_seen (remember_all reqs c)) key = Some e"
  using assms
proof (induction reqs arbitrary: c)
  case (Cons r reqs)
  obtain h p n t where r: "r = (h, p, n, t)" by (metis surj_pair)
  let ?c = "snd (remember h p n t c)"
  note ok = remember_ok [OF Cons.prems(1), of h p n t]
  have k: "map_of (hc_seen ?c) key = Some e \<and> length (hc_seen ?c) \<le> Suc (length (hc_seen c))"
    by (rule remember_keeps [OF Cons.prems(1,2)]) (use Cons.prems(3,4) r in auto)
  have "cache_ok (remember_all reqs ?c) \<and> map_of (hc_seen (remember_all reqs ?c)) key = Some e"
    by (rule Cons.IH) (use ok k Cons.prems(3,4) in auto)
  then show ?case by (simp add: remember_all_def r)
qed (simp add: remember_all_def)

lemma remember_known:
  assumes "cache_ok c" and "map_of (hc_seen c) (sshStreamHelloNonceKey (sshStreamHelloNonceBucket h p) n) = Some e"
    and "now \<le> ne_seenAt e + nonceRetention"
  shows "\<not> fst (remember h p n now c)"
proof -
  have "map_of (filter (\<lambda>(k, e). \<not> ne_seenAt e < now - nonceRetention) (hc_seen c))
      (sshStreamHelloNonceKey (sshStreamHelloNonceBucket h p) n) = Some e"
    using assms by (intro map_of_fst_filter) (auto simp: cache_ok_def)
  then show ?thesis by (simp add: remember_def Let_def)
qed

lemma verifySSHStreamHello_Inr:
  "verifySSHStreamHello a h t purpose host peer cache = (Inr (), cache') \<longleftrightarrow>
   validateSSHStreamHelloShape h = Inr () \<and> verifySSHStreamHelloIdentity h purpose host peer = Inr () \<and>
   t \<noteq> 0 \<and> \<bar>unix_time (hl_TS h) - t\<bar> \<le> signatureSkew \<and> verifySSHStreamHelloSignature a h = Inr () \<and>
   (case cache of None \<Rightarrow> cache' = None
    | Some c \<Rightarrow> fst (remember (hl_HostID h) (hl_Purpose h) (hl_Nonce h) t c) \<and>
        cache' = Some (snd (remember (hl_HostID h) (hl_Purpose h) (hl_Nonce h) t c)))"
proof -
  have win: "(ts < t - signatureSkew \<or> ts > t + signatureSkew) \<longleftrightarrow> \<not> \<bar>ts - t\<bar> \<le> signatureSkew" for ts
    by linarith
  show ?thesis
    unfolding verifySSHStreamHello_def Let_def win
    by (cases "validateSSHStreamHelloShape h"; cases "verifySSHStreamHelloIdentity h purpose host peer";
        cases "verifySSHStreamHelloSignature a h")
      (auto split: option.splits prod.splits)
qed

section \<open>Lemmas: sequence numbers\<close>

text \<open>The results of a run of frames until the first error, with the stream after it.\<close>

fun accept_frames ::
  "SSHSyncStream \<Rightarrow> (SSHStreamFrame \<times> gotime) list \<Rightarrow> SSHStreamStateResult list \<times> SSHSyncStream" where
  "accept_frames s [] = ([], s)"
| "accept_frames s ((f, t) # fs) =
     (case stateResultFromFrame s f t of
        (Inl _, s') \<Rightarrow> ([], s')
      | (Inr r, s') \<Rightarrow> (case accept_frames s' fs of (rs, s'') \<Rightarrow> (r # rs, s'')))"

lemma stateResultFromFrame_step:
  "case stateResultFromFrame s f t of
     (Inl _, s') \<Rightarrow> s' = s
   | (Inr r, s') \<Rightarrow> sr_Seq r = ss_nextSeq s \<and> ss_nextSeq s \<noteq> 0 \<and> f_Seq f = ss_nextSeq s \<and>
       f_Sender f = ss_remoteID s \<and> s' = s\<lparr>ss_nextSeq := ss_nextSeq s + 1\<rparr>"
  by (auto simp: stateResultFromFrame_def split: option.splits sum.splits prod.splits)

lemma accept_frames_seq:
  assumes "accept_frames s fs = (rs, s')"
  shows "map sr_Seq rs = map (\<lambda>i. ss_nextSeq s + of_nat i) [0..<length rs] \<and>
    s' = s\<lparr>ss_nextSeq := ss_nextSeq s + of_nat (length rs)\<rparr> \<and> 0 \<notin> set (map sr_Seq rs)"
  using assms
proof (induction s fs arbitrary: rs s' rule: accept_frames.induct)
  case (2 s f t fs)
  obtain r s1 where r: "stateResultFromFrame s f t = (r, s1)" by fastforce
  note step = stateResultFromFrame_step [of s f t]
  show ?case
  proof (cases r)
    case (Inl e)
    with 2 r step show ?thesis by simp
  next
    case (Inr x)
    obtain rs1 s2 where a: "accept_frames s1 fs = (rs1, s2)" by fastforce
    with 2(2) r Inr have rs: "rs = x # rs1" "s' = s2" by simp_all
    have s1: "s1 = s\<lparr>ss_nextSeq := ss_nextSeq s + 1\<rparr>" "sr_Seq x = ss_nextSeq s" "ss_nextSeq s \<noteq> 0"
      using step r Inr by simp_all
    note IH = "2.IH" [OF r [symmetric] Inr a]
    have sh: "map (\<lambda>i. ss_nextSeq s1 + of_nat i) [0..<length rs1] =
        map (\<lambda>i. ss_nextSeq s + of_nat i) [1..<Suc (length rs1)]"
      unfolding One_nat_def map_Suc_upt [symmetric] s1(1) by (simp add: comp_def add.assoc del: upt_Suc)
    have "0 \<notin> set (map sr_Seq rs1)" using IH by blast
    then have "0 \<notin> set (map sr_Seq rs)" using s1(2,3) by (simp add: rs(1) del: set_map)
    moreover have "map sr_Seq rs = map (\<lambda>i. ss_nextSeq s + of_nat i) [0..<length rs]"
      using IH s1 sh by (simp add: rs upt_conv_Cons del: upt_Suc)
    moreover have "s' = s\<lparr>ss_nextSeq := ss_nextSeq s + of_nat (length rs)\<rparr>"
      using IH s1(1) by (simp add: rs add.assoc)
    ultimately show ?thesis by blast
  qed
qed simp

section \<open>Lemmas: delivery\<close>

lemma b64_char_ascii: "of_char (b64_char n) < (128 :: nat)"
  by (auto simp: b64_char_def)

lemma b64_encode_ascii: "is_ascii (b64_encode bs)"
  unfolding is_ascii_def
  by (induction bs rule: b64_encode.induct) (simp_all add: Let_def b64_char_ascii)

lemma valid_text_ascii: "is_ascii s \<Longrightarrow> valid_text s"
  by (simp add: valid_text_def json_string_ascii)

lemma valid_text_Nil [simp]: "valid_text []"
  by (simp add: valid_text_def json_string.simps)

lemma BuildEnvelope_valid:
  assumes "BuildEnvelope a rnd c origin recipient = Inr env"
    and "list_all valid_text [c_ID c, c_Kind c, origin, recipient]"
  shows "valid_envelope env"
proof -
  obtain body bn where s: "SealBody a rnd (c_Bytes c) = Inr (body, bn)"
    using assms(1) by (auto simp: BuildEnvelope_def and_then_Inr_iff)
  then have "valid_text body" "valid_text bn"
    by (auto simp: SealBody_def and_then_Inr_iff valid_text_ascii b64_encode_ascii split: option.splits)
  with s assms show ?thesis by (auto simp: BuildEnvelope_def valid_envelope_def)
qed

lemma lift_res_Inr [simp]: "lift_res r = Inr x \<longleftrightarrow> r = Inr x"
  by (simp add: lift_res_def split: sum.splits)

lemma readFrameAt_marshal:
  assumes "MarshalJSON f = Inr v" and "valid_frame f"
    and "f_Type f \<in> {SSHStreamFrameHello, SSHStreamFrameState, SSHStreamFrameAck, SSHStreamFrameError}"
  shows "readFrameAt (Values [v]) =
    Inr (f\<lparr>f_clipPresent := (f_Clip f \<noteq> None \<or> f_Type f = SSHStreamFrameState)\<rparr>)"
  using assms(3) by (auto simp: readFrameAt_def decode_marshal [OF assms(1,2)])

lemma valid_frame_types [simp]:
  "valid_text SSHStreamFrameHello" "valid_text SSHStreamFrameState" "valid_text SSHStreamFrameAck"
  "valid_text SSHStreamPurposeSyncStream"
  by (simp_all add: valid_text_ascii is_ascii_def SSHStreamFrameHello_def SSHStreamFrameState_def
      SSHStreamFrameAck_def SSHStreamPurposeSyncStream_def)

lemma frameHello_helloFrame: "frameHello ((helloFrame h)\<lparr>f_clipPresent := b\<rparr>) = h"
  by (simp add: frameHello_def helloFrame_def empty_frame_def)

lemma NewSSHStreamHello_signed:
  assumes "NewSSHStreamHello (Some k) rnd purpose hostID peerID now nonce = Inr h"
    and "nonce \<noteq> []" "purpose \<noteq> []" "hostID \<noteq> []" "peerID \<noteq> []" "time_unix now \<noteq> 0"
  shows "hl_Protocols h = [1] \<and> hl_Purpose h = purpose \<and> hl_HostID h = hostID \<and> hl_PeerID h = peerID \<and>
    hl_TS h = time_unix now \<and> hl_Nonce h = nonce \<and> is_ascii (hl_Sig h) \<and>
    validateSSHStreamHelloShape h = Inr () \<and> verifySSHStreamHelloSignature (Some k) h = Inr ()"
proof -
  obtain key where key: "sshHelloHMACKey (Some k) = Inr key" using sshHelloHMACKey_Some by blast
  let ?h = "\<lparr>hl_Protocols = [SSHStreamProtocolV1], hl_Purpose = purpose, hl_HostID = hostID,
      hl_PeerID = peerID, hl_TS = time_unix now, hl_Nonce = nonce, hl_Sig = []\<rparr>"
  have h: "h = ?h\<lparr>hl_Sig := hex_encode (hmac_sha256 key (sshStreamHelloCanonical ?h))\<rparr>"
    using assms(1,2) key by (auto simp: NewSSHStreamHello_def signSSHStreamHello_def Let_def)
  have can: "sshStreamHelloCanonical h = sshStreamHelloCanonical ?h"
    unfolding h by (simp add: sshStreamHelloCanonical_def)
  have ne: "hex_encode (hmac_sha256 key m) \<noteq> []" for m
    using length_hex_encode [of "hmac_sha256 key m"] by (auto simp: length_hmac simp del: length_hex_encode)
  have shape: "validateSSHStreamHelloShape h = Inr ()"
    unfolding h using assms(2-6) ne
    by (simp add: validateSSHStreamHelloShape_def validSSHStreamProtocols_iff SSHStreamProtocolV1_def)
  have "hl_Sig h = hex_encode (hmac_sha256 key (sshStreamHelloCanonical h))"
    unfolding can by (simp add: h)
  then have "verifySSHStreamHelloSignature (Some k) h = Inr ()"
    unfolding signature_iff using shape key by simp
  with shape show ?thesis
    by (simp add: h SSHStreamProtocolV1_def hex_encode_ascii)
qed


section \<open>Properties\<close>

text \<open>C39. Reading a frame in buffer-sized slices gives, for every buffer size, exactly the line up to
  the next newline and the rest of the input; a line longer than the limit is refused whether
  or not its newline has arrived, and an input that ends inside a line is an unexpected end.\<close>

theorem readFrameLine_any_buffer:
  "readFrameLine n maxBytes [] input =
     (let l = takeWhile (\<lambda>c. c \<noteq> CHR 0x0A) input
      in if length l > maxBytes then Inl ErrSSHStreamFrameTooLarge
         else if CHR 0x0A \<in> set input then Inr (l @ nl, drop (Suc (length l)) input)
         else Inl ErrSSHStreamUnexpectedEOF)"
  using readFrameLine_split [of "[]" maxBytes n input] by (simp add: split_line_def Let_def)

text \<open>A frame whose texts are valid UTF-8 and whose numbers fit is decoded from its JSON form
  unchanged, with the clip marked present exactly when there is one or the frame is a state.\<close>

lemma frame_json_roundtrip:
  assumes "MarshalJSON f = Inr v" and "valid_frame f"
  shows "decodeSSHStreamFrame (Values [v]) =
    Inr (f\<lparr>f_clipPresent := (f_Clip f \<noteq> None \<or> f_Type f = SSHStreamFrameState)\<rparr>)"
  by (rule decode_marshal [OF assms])

lemma frame_json_roundtrip_witness:
  "\<exists>v. MarshalJSON (empty_frame\<lparr>f_Type := SSHStreamFrameAck, f_Seq := 3, f_ID := ''ab'', f_Status := ''applied''\<rparr>) = Inr v \<and>
     decodeSSHStreamFrame (Values [v]) =
       Inr (empty_frame\<lparr>f_Type := SSHStreamFrameAck, f_Seq := 3, f_ID := ''ab'', f_Status := ''applied''\<rparr>)"
proof -
  let ?f = "empty_frame\<lparr>f_Type := SSHStreamFrameAck, f_Seq := 3, f_ID := ''ab'', f_Status := ''applied''\<rparr>"
  obtain v where v: "MarshalJSON ?f = Inr v" by (simp add: MarshalJSON_def empty_frame_def)
  have "valid_text s" if "is_ascii s" for s using that by (simp add: valid_text_def json_string_ascii)
  then have "valid_frame ?f"
    by (simp add: valid_frame_def empty_frame_def SSHStreamFrameAck_def is_ascii_def)
  from frame_json_roundtrip [OF v this] v show ?thesis
    by (auto simp: empty_frame_def SSHStreamFrameAck_def SSHStreamFrameState_def)
qed

text \<open>C30. A hello is accepted exactly when no field is missing, its protocols are increasing from
  version 1, it names the expected purpose, host and peer, its time is within the skew of the
  receiver's clock, its signature is the keyed hash of its canonical form and its nonce is fresh.\<close>

theorem hello_accepted_exact:
  "fst (verifySSHStreamHello (Some k) h t purpose host peer (Some c)) = Inr () \<longleftrightarrow>
   [] \<notin> {hl_Purpose h, hl_HostID h, hl_PeerID h, hl_Nonce h, hl_Sig h} \<and> hl_TS h \<noteq> 0 \<and>
   sorted_wrt (<) (hl_Protocols h) \<and> (\<exists>ps. hl_Protocols h = 1 # ps) \<and>
   purpose \<in> {[], hl_Purpose h} \<and> host \<in> {[], hl_HostID h} \<and> peer \<in> {[], hl_PeerID h} \<and>
   t \<noteq> 0 \<and> \<bar>unix_time (hl_TS h) - t\<bar> \<le> signatureSkew \<and>
   (\<exists>key. DeriveKey k sshHelloHMACLabel = Inr key \<and>
      hex_decode (hl_Sig h) = Some (hmac_sha256 key (sshStreamHelloCanonical h))) \<and>
   fst (remember (hl_HostID h) (hl_Purpose h) (hl_Nonce h) t c)"
proof -
  have a: "fst (verifySSHStreamHello (Some k) h t purpose host peer (Some c)) = Inr () \<longleftrightarrow>
      (\<exists>c'. verifySSHStreamHello (Some k) h t purpose host peer (Some c) = (Inr (), c'))"
    by (metis fst_conv prod.collapse)
  have shape: "validateSSHStreamHelloShape h = Inr () \<longleftrightarrow>
      [] \<notin> {hl_Purpose h, hl_HostID h, hl_PeerID h, hl_Nonce h, hl_Sig h} \<and> hl_TS h \<noteq> 0 \<and>
      sorted_wrt (<) (hl_Protocols h) \<and> (\<exists>ps. hl_Protocols h = 1 # ps)"
    by (auto simp: validateSSHStreamHelloShape_def validSSHStreamProtocols_iff)
  have ident: "verifySSHStreamHelloIdentity h purpose host peer = Inr () \<longleftrightarrow>
      purpose \<in> {[], hl_Purpose h} \<and> host \<in> {[], hl_HostID h} \<and> peer \<in> {[], hl_PeerID h}"
    by (auto simp: verifySSHStreamHelloIdentity_def)
  have v: "(\<exists>c'. verifySSHStreamHello (Some k) h t purpose host peer (Some c) = (Inr (), c')) \<longleftrightarrow>
      validateSSHStreamHelloShape h = Inr () \<and> verifySSHStreamHelloIdentity h purpose host peer = Inr () \<and>
      t \<noteq> 0 \<and> \<bar>unix_time (hl_TS h) - t\<bar> \<le> signatureSkew \<and>
      (\<exists>key. DeriveKey k sshHelloHMACLabel = Inr key \<and>
        hex_decode (hl_Sig h) = Some (hmac_sha256 key (sshStreamHelloCanonical h))) \<and>
      fst (remember (hl_HostID h) (hl_Purpose h) (hl_Nonce h) t c)"
    unfolding verifySSHStreamHello_Inr signature_iff sshHelloHMACKey_def option.case by blast
  show ?thesis unfolding a v shape ident by (simp only: conj_assoc)
qed

text \<open>C31. A hello accepted once is refused at every later time, after any other hellos that arrive
  up to then, as long as the cache had room for them: either its nonce is still remembered or its
  time has left the window.\<close>

theorem hello_no_replay:
  assumes "cache_ok c"
    and "verifySSHStreamHello a h t purpose host peer (Some c) = (Inr (), Some c')"
    and "\<forall>(h, p, n, t') \<in> set reqs. t' \<le> t2"
    and "int (length (hc_seen c') + length reqs) \<le> min (hc_bucketCap c) (hc_processCap c)"
  shows "fst (verifySSHStreamHello a h t2 purpose host peer (Some (remember_all reqs c'))) \<noteq> Inr ()"
proof
  assume "fst (verifySSHStreamHello a h t2 purpose host peer (Some (remember_all reqs c'))) = Inr ()"
  then obtain c2 where again:
    "verifySSHStreamHello a h t2 purpose host peer (Some (remember_all reqs c')) = (Inr (), c2)"
    by (metis prod.collapse)
  let ?R = "remember (hl_HostID h) (hl_Purpose h) (hl_Nonce h)"
  let ?key = "sshStreamHelloNonceKey (sshStreamHelloNonceBucket (hl_HostID h) (hl_Purpose h)) (hl_Nonce h)"
  have first: "\<bar>unix_time (hl_TS h) - t\<bar> \<le> signatureSkew" "fst (?R t c)" "c' = snd (?R t c)"
    using assms(2) by (simp_all add: verifySSHStreamHello_Inr)
  have second: "\<bar>unix_time (hl_TS h) - t2\<bar> \<le> signatureSkew" "fst (?R t2 (remember_all reqs c'))"
    using again by (simp_all add: verifySSHStreamHello_Inr)
  have t2: "t2 \<le> t + nonceRetention" using first(1) second(1) by (simp add: nonceRetention_def)
  note ok = remember_ok [OF assms(1), of "hl_HostID h" "hl_Purpose h" "hl_Nonce h" t]
  have k: "map_of (hc_seen c') ?key =
      Some \<lparr>ne_bucket = sshStreamHelloNonceBucket (hl_HostID h) (hl_Purpose h), ne_seenAt = t\<rparr>"
    using remember_bounds [OF assms(1) first(2)] first(3) by simp
  have "cache_ok (remember_all reqs c') \<and> map_of (hc_seen (remember_all reqs c')) ?key =
      Some \<lparr>ne_bucket = sshStreamHelloNonceBucket (hl_HostID h) (hl_Purpose h), ne_seenAt = t\<rparr>"
    by (rule remember_all_keeps [OF _ k]) (use ok first(3) assms(3,4) t2 in auto)
  then have "\<not> fst (?R t2 (remember_all reqs c'))"
    using remember_known t2 by fastforce
  with second(2) show False by simp
qed

text \<open>A nonce taken into the replay cache leaves its bucket and the whole cache within their
  caps.\<close>

lemma remember_within_caps:
  assumes "cache_ok c" and "fst (remember host purpose nonce now c)"
  shows "bucketSize (sshStreamHelloNonceBucket host purpose) (hc_seen (snd (remember host purpose nonce now c)))
      \<le> hc_bucketCap c \<and>
    int (length (hc_seen (snd (remember host purpose nonce now c)))) \<le> hc_processCap c \<and>
    cache_ok (snd (remember host purpose nonce now c))"
  using remember_bounds [OF assms] remember_ok [OF assms(1)] by simp

text \<open>C32. A stream accepts state frames only with the consecutive sequence numbers from 1 on, never
  0, so at most 2 to the 64 minus 1 of them, and a refused frame leaves it as it was.\<close>

theorem state_sequence_consecutive:
  "case accept_frames (NewSSHSyncStream a localID remoteID) fs of (rs, s') \<Rightarrow>
     map sr_Seq rs = map of_nat [1..<Suc (length rs)] \<and> length rs < 2 ^ 64 \<and>
     s' = (NewSSHSyncStream a localID remoteID)\<lparr>ss_nextSeq := of_nat (Suc (length rs))\<rparr>"
proof -
  let ?s = "NewSSHSyncStream a localID remoteID"
  obtain rs s' where r: "accept_frames ?s fs = (rs, s')" by fastforce
  note q = accept_frames_seq [OF r]
  have n: "ss_nextSeq ?s = 1" by (simp add: NewSSHSyncStream_def)
  have m: "map sr_Seq rs = map of_nat [1..<Suc (length rs)]"
    using q n unfolding One_nat_def map_Suc_upt [symmetric] by (simp add: comp_def add.commute del: upt_Suc)
  have "length rs < 2 ^ 64"
  proof (rule ccontr)
    assume "\<not> length rs < 2 ^ 64"
    then have "2 ^ 64 < Suc (length rs)" unfolding not_less by (rule le_imp_less_Suc)
    moreover have "(1 :: nat) \<le> 2 ^ 64" by simp
    ultimately have "2 ^ 64 \<in> set [1..<Suc (length rs)]" unfolding set_upt atLeastLessThan_iff by blast
    then have "of_nat (2 ^ 64) \<in> set (map sr_Seq rs)" unfolding m set_map by (rule imageI)
    moreover have "(of_nat (2 ^ 64) :: 64 word) = 0" by simp
    ultimately show False using q by metis
  qed
  with m q n show ?thesis using r by (simp add: add.commute)
qed

lemma cache_ok_new: "cache_ok NewSSHStreamHelloNonceCache"
  by (simp add: cache_ok_def NewSSHStreamHelloNonceCache_def newSSHStreamHelloNonceCacheWithCaps_def
      SSHStreamHelloNonceBucketCap_def SSHStreamHelloNonceProcessCap_def)

lemma remember_new: "fst (remember host purpose nonce now NewSSHStreamHelloNonceCache)"
  by (simp add: remember_def Let_def NewSSHStreamHelloNonceCache_def newSSHStreamHelloNonceCacheWithCaps_def)

lemma remember_new_seen:
  "length (hc_seen (snd (remember host purpose nonce now NewSSHStreamHelloNonceCache))) \<le> 1"
  by (simp add: remember_def Let_def NewSSHStreamHelloNonceCache_def newSSHStreamHelloNonceCacheWithCaps_def
      SSHStreamHelloNonceBucketCap_def SSHStreamHelloNonceProcessCap_def evict_bucket_loop.simps
      evict_process_loop.simps bucketSize_def)

lemma remember_within_caps_witness:
  "int (length (hc_seen (snd (remember ''h'' ''p'' ''n'' 5 NewSSHStreamHelloNonceCache)))) \<le> 8192"
  using remember_within_caps [OF cache_ok_new remember_new, of "''h''" "''p''" "''n''" 5]
  by (simp add: NewSSHStreamHelloNonceCache_def newSSHStreamHelloNonceCacheWithCaps_def
      SSHStreamHelloNonceProcessCap_def)

lemma hello_example:
  "\<exists>h c'. NewSSHStreamHello (Some ''k'') None SSHStreamPurposeSyncStream ''a'' ''b'' (unix_time 1000) ''n'' = Inr h \<and>
     verifySSHStreamHello (Some ''k'') h (unix_time 1000) SSHStreamPurposeSyncStream ''a'' ''b''
       (Some NewSSHStreamHelloNonceCache) = (Inr (), Some c') \<and> length (hc_seen c') \<le> 1"
proof -
  have tu: "time_unix (unix_time n) = n" for n by (simp add: time_unix_def unix_time_def second_def)
  obtain key where "sshHelloHMACKey (Some ''k'') = Inr key" using sshHelloHMACKey_Some by blast
  then obtain h where h: "NewSSHStreamHello (Some ''k'') None SSHStreamPurposeSyncStream ''a'' ''b'' (unix_time 1000) ''n'' = Inr h"
    by (simp add: NewSSHStreamHello_def signSSHStreamHello_def Let_def)
  have "time_unix (unix_time 1000) \<noteq> 0" "SSHStreamPurposeSyncStream \<noteq> []"
    by (simp_all add: tu SSHStreamPurposeSyncStream_def)
  note sig = NewSSHStreamHello_signed [OF h _ this(2) _ _ this(1), simplified tu]
  have id: "verifySSHStreamHelloIdentity h SSHStreamPurposeSyncStream ''a'' ''b'' = Inr ()"
    using sig by (simp add: verifySSHStreamHelloIdentity_def)
  have "verifySSHStreamHello (Some ''k'') h (unix_time 1000) SSHStreamPurposeSyncStream ''a'' ''b''
      (Some NewSSHStreamHelloNonceCache) =
      (Inr (), Some (snd (remember ''a'' SSHStreamPurposeSyncStream ''n'' (unix_time 1000) NewSSHStreamHelloNonceCache)))"
    unfolding verifySSHStreamHello_Inr
    using sig id remember_new by (simp add: unix_time_def second_def signatureSkew_def)
  with h remember_new_seen show ?thesis by blast
qed

theorem hello_no_replay_witness:
  "\<exists>h c'. verifySSHStreamHello (Some ''k'') h (unix_time 1000) SSHStreamPurposeSyncStream ''a'' ''b''
       (Some NewSSHStreamHelloNonceCache) = (Inr (), Some c') \<and>
     fst (verifySSHStreamHello (Some ''k'') h (unix_time 1001) SSHStreamPurposeSyncStream ''a'' ''b'' (Some c')) \<noteq> Inr ()"
proof -
  obtain h c' where h: "verifySSHStreamHello (Some ''k'') h (unix_time 1000) SSHStreamPurposeSyncStream ''a'' ''b''
       (Some NewSSHStreamHelloNonceCache) = (Inr (), Some c')" "length (hc_seen c') \<le> 1"
    using hello_example by blast
  have "fst (verifySSHStreamHello (Some ''k'') h (unix_time 1001) SSHStreamPurposeSyncStream ''a'' ''b''
      (Some (remember_all [] c'))) \<noteq> Inr ()"
    by (rule hello_no_replay [OF cache_ok_new h(1)])
      (use h(2) in \<open>simp_all add: NewSSHStreamHelloNonceCache_def newSSHStreamHelloNonceCacheWithCaps_def
        SSHStreamHelloNonceBucketCap_def SSHStreamHelloNonceProcessCap_def\<close>)
  with h(1) show ?thesis by (auto simp: remember_all_def)
qed

text \<open>The hello one host makes for another is read there unchanged, when the clocks agree up to
  the skew and the nonce is new to the reader's cache.\<close>

lemma hello_delivered:
  assumes "NewSSHStreamHello (Some k) rnd SSHStreamPurposeSyncStream hostID peerID now nonce = Inr h"
    and "[] \<notin> {hostID, peerID, nonce}" and "list_all valid_text [hostID, peerID, nonce]"
    and "time_unix now \<noteq> 0" and "\<bar>time_unix now\<bar> < 2 ^ 63"
    and "receivedAt \<noteq> 0" and "\<bar>unix_time (time_unix now) - receivedAt\<bar> \<le> signatureSkew"
    and "fst (remember hostID SSHStreamPurposeSyncStream nonce receivedAt cache)"
    and "MarshalJSON (helloFrame h) = Inr v"
  shows "fst (ReadHello (NewSSHSyncStream (Some k) peerID hostID) (Values [v]) receivedAt cache) = Inr h"
proof -
  have p: "SSHStreamPurposeSyncStream \<noteq> []" by (simp add: SSHStreamPurposeSyncStream_def)
  note sig = NewSSHStreamHello_signed [OF assms(1)]
  have h: "hl_Protocols h = [1]" "hl_Purpose h = SSHStreamPurposeSyncStream" "hl_HostID h = hostID"
    "hl_PeerID h = peerID" "hl_TS h = time_unix now" "hl_Nonce h = nonce" "is_ascii (hl_Sig h)"
    "validateSSHStreamHelloShape h = Inr ()" "verifySSHStreamHelloSignature (Some k) h = Inr ()"
    using sig p assms(2,4) by auto
  have vf: "valid_frame (helloFrame h)"
    using assms(3,5) h by (auto simp: valid_frame_def helloFrame_def empty_frame_def valid_text_ascii)
  have rd: "readFrameAt (Values [v]) = Inr ((helloFrame h)\<lparr>f_clipPresent := False\<rparr>)"
    using readFrameAt_marshal [OF assms(9) vf]
    by (simp add: helloFrame_def empty_frame_def SSHStreamFrameState_def SSHStreamFrameHello_def)
  have id: "verifySSHStreamHelloIdentity h SSHStreamPurposeSyncStream hostID peerID = Inr ()"
    by (simp add: verifySSHStreamHelloIdentity_def h)
  obtain c' where "verifySSHStreamHello (Some k) h receivedAt SSHStreamPurposeSyncStream hostID peerID (Some cache) = (Inr (), Some c')"
    using h id assms(6-8) by (simp add: verifySSHStreamHello_Inr)
  then show ?thesis
    using rd by (simp add: ReadHello_def verifyHello_def NewSSHSyncStream_def frameHello_helloFrame)
      (simp add: helloFrame_def empty_frame_def)
qed

lemma hello_delivered_witness:
  "\<exists>h v. MarshalJSON (helloFrame h) = Inr v \<and>
     fst (ReadHello (NewSSHSyncStream (Some ''k'') ''b'' ''a'') (Values [v]) (unix_time 1000)
       NewSSHStreamHelloNonceCache) = Inr h"
proof -
  obtain h where h: "NewSSHStreamHello (Some ''k'') None SSHStreamPurposeSyncStream ''a'' ''b'' (unix_time 1000) ''n'' = Inr h"
    using hello_example by blast
  obtain v where v: "MarshalJSON (helloFrame h) = Inr v"
    by (simp add: MarshalJSON_def helloFrame_def empty_frame_def)
  have "fst (ReadHello (NewSSHSyncStream (Some ''k'') ''b'' ''a'') (Values [v]) (unix_time 1000)
      NewSSHStreamHelloNonceCache) = Inr h"
    by (rule hello_delivered [OF h _ _ _ _ _ _ _ v])
      (simp_all add: valid_text_ascii is_ascii_def time_unix_def unix_time_def second_def signatureSkew_def
        remember_new)
  with v show ?thesis by blast
qed

text \<open>C27. The state one host writes arrives at the other as the same clip with the same origin, at
  the next sequence number, when the clocks agree up to the skew.\<close>

theorem state_delivered:
  assumes "state_frame (NewSSHSyncStream (Some k) a b) (Some rnd) (ss_nextSeq s) c origin = Inr f"
    and "MarshalJSON f = Inr v" and "length rnd = gcm_nonce_size"
    and "list_all valid_text [a, b, c_ID c, c_Kind c, origin]" and "ShortName b \<noteq> []"
    and "s = (NewSSHSyncStream (Some k) b a)\<lparr>ss_nextSeq := n\<rparr>"
    and "c_TS c \<le> receivedAt + signatureSkew"
  shows "ReadNext s (Values [v]) receivedAt =
    (Inr (StateEvent \<lparr>sr_Seq = n, sr_Sender = a, sr_Content = Some (c\<lparr>c_Hash := sha256 (c_Bytes c)\<rparr>),
            sr_Origin = origin, sr_NullReason = []\<rparr>), s\<lparr>ss_nextSeq := n + 1\<rparr>)"
proof -
  let ?A = "NewSSHSyncStream (Some k) a b"
  obtain env where env: "BuildEnvelope (Some k) (Some rnd) c origin b = Inr env" "n \<noteq> 0"
      "\<not> MaxSSHStreamPayloadBytes < int (length (c_Bytes c))"
    and f: "f = empty_frame\<lparr>f_Type := SSHStreamFrameState, f_Seq := n, f_Sender := a, f_Clip := Some env\<rparr>"
    using assms(1,6) by (auto simp: state_frame_def NewSSHSyncStream_def and_then_Inr_iff split: if_splits)
  have "valid_envelope env" by (rule BuildEnvelope_valid [OF env(1)]) (use assms(4) in simp)
  then have vf: "valid_frame f" using assms(4) by (simp add: f valid_frame_def empty_frame_def)
  have rd: "readFrameAt (Values [v]) = Inr (f\<lparr>f_clipPresent := True\<rparr>)"
    using readFrameAt_marshal [OF assms(2) vf] by (simp add: f)
  have op: "OpenEnvelope (Some k) env b receivedAt = Inr (c\<lparr>c_Hash := sha256 (c_Bytes c)\<rparr>, origin)"
    by (rule envelope_opens [OF env(1) assms(3)]) (use assms(5,7) in \<open>simp_all add: RecipientMatches_def\<close>)
  show ?thesis
    using rd op env(2,3) assms(6)
    by (simp add: ReadNext_def eventFromFrame_def stateResultFromFrame_def f NewSSHSyncStream_def)
qed

lemma time_text_zero: "time_text 0 = Some ''0001-01-01T00:00:00Z''"
  by code_simp

theorem state_delivered_witness:
  "\<exists>f v s'. state_frame (NewSSHSyncStream (Some ''k'') ''a'' ''b'') (Some ''123456789012'') 1 (new_content KindText ''hi'' 0) ''a'' = Inr f \<and>
     MarshalJSON f = Inr v \<and>
     ReadNext (NewSSHSyncStream (Some ''k'') ''b'' ''a'') (Values [v]) 0 =
       (Inr (StateEvent \<lparr>sr_Seq = 1, sr_Sender = ''a'', sr_Content = Some (new_content KindText ''hi'' 0),
               sr_Origin = ''a'', sr_NullReason = []\<rparr>), s')"
proof -
  let ?s = "NewSSHSyncStream (Some ''k'') ''b'' ''a''" and ?c = "new_content KindText ''hi'' 0"
  obtain env where env: "BuildEnvelope (Some ''k'') (Some ''123456789012'') ?c ''a'' ''b'' = Inr env" "e_TS env = 0"
    by (simp add: BuildEnvelope_def SealBody_def bodyCipher_def new_content_def)
  have n: "ss_nextSeq ?s = 1" by (simp add: NewSSHSyncStream_def)
  define f where "f = empty_frame\<lparr>f_Type := SSHStreamFrameState, f_Seq := 1, f_Sender := ''a'', f_Clip := Some env\<rparr>"
  have f: "state_frame (NewSSHSyncStream (Some ''k'') ''a'' ''b'') (Some ''123456789012'') (ss_nextSeq ?s) ?c ''a'' = Inr f"
    using env(1) unfolding n
    by (simp add: state_frame_def NewSSHSyncStream_def lift_res_def f_def new_content_def MaxSSHStreamPayloadBytes_def)
  obtain v where v: "MarshalJSON f = Inr v"
    using env(2) by (simp add: MarshalJSON_def f_def envelope_json_def time_text_zero)
  have "ReadNext ?s (Values [v]) 0 = (Inr (StateEvent \<lparr>sr_Seq = 1, sr_Sender = ''a'',
      sr_Content = Some (?c\<lparr>c_Hash := sha256 (c_Bytes ?c)\<rparr>), sr_Origin = ''a'', sr_NullReason = []\<rparr>),
      ?s\<lparr>ss_nextSeq := 1 + 1\<rparr>)"
    by (rule state_delivered [OF f v])
      (simp_all add: valid_text_ascii is_ascii_def gcm_nonce_size_def ShortName_def trim_suffix_def
        has_suffix_def has_prefix_def new_content_def KindText_def signatureSkew_def second_def NewSSHSyncStream_def)
  then show ?thesis using f v unfolding n by (auto simp: new_content_def)
qed

end
