(* ===== verification/Clipfan_Net.thy ===== *)
theory Clipfan_Net
  imports Clipfan_Crypto
begin

text \<open>
  The functions of Go's \<open>net\<close> package the configuration relies on: \<open>ParseIP\<close>, \<open>IP.String\<close>,
  \<open>IP.IsLoopback\<close> and \<open>SplitHostPort\<close>. An address is the list of its sixteen bytes, an IPv4
  address in its mapped form. The lemmas bound an IPv4 address and evaluate the
  loopback addresses.
\<close>

section \<open>Parsing\<close>

definition v4_octet :: "string \<Rightarrow> nat option" where
  "v4_octet s =
     (if s \<noteq> [] \<and> length s \<le> 3 \<and> list_all is_digit s \<and> (length s = 1 \<or> hd s \<noteq> CHR ''0'') \<and> digits_value s \<le> 255
      then Some (digits_value s) else None)"

definition v4_fields :: "string \<Rightarrow> nat list option" where
  "v4_fields s = (case map v4_octet (split_on (CHR ''.'') s) of
     [Some a, Some b, Some c, Some d] \<Rightarrow> Some [a, b, c, d] | _ \<Rightarrow> None)"

definition is_hex :: "char \<Rightarrow> bool" where
  "is_hex c \<longleftrightarrow> hex_value c \<noteq> None"

definition hex_group :: "string \<Rightarrow> nat" where
  "hex_group s = foldl (\<lambda>acc c. 16 * acc + the (hex_value c)) 0 s"

text \<open>
  The loop over the colon-separated groups: \<open>k\<close> groups may still come, \<open>acc\<close> holds the bytes
  read, \<open>ell\<close> where the ellipsis stood. The result is the bytes, the ellipsis and what is left.
\<close>

fun v6_loop :: "nat \<Rightarrow> string \<Rightarrow> nat list \<Rightarrow> nat option \<Rightarrow> (nat list \<times> nat option \<times> string) option" where
  "v6_loop 0 s acc ell = Some (acc, ell, s)"
| "v6_loop (Suc k) s acc ell =
     (let ds = takeWhile is_hex s; rest = dropWhile is_hex s
      in if ds = [] \<or> 4 < length ds then None
         else if rest \<noteq> [] \<and> hd rest = CHR ''.'' then
           (if (ell = None \<and> length acc \<noteq> 12) \<or> 12 < length acc then None
            else case v4_fields s of None \<Rightarrow> None | Some q \<Rightarrow> Some (acc @ q, ell, []))
         else let n = hex_group ds; acc' = acc @ [n div 256, n mod 256]
              in (case rest of
                    [] \<Rightarrow> Some (acc', ell, [])
                  | c # r1 \<Rightarrow>
                      if c \<noteq> CHR '':'' \<or> r1 = [] then None
                      else if hd r1 = CHR '':'' then
                        (if ell \<noteq> None then None
                         else if tl r1 = [] then Some (acc', Some (length acc'), [])
                         else v6_loop k (tl r1) acc' (Some (length acc')))
                      else v6_loop k r1 acc' ell))"

definition v6_fill :: "nat list \<times> nat option \<times> string \<Rightarrow> nat list option" where
  "v6_fill r = (case r of (acc, ell, rest) \<Rightarrow>
     if rest \<noteq> [] then None
     else if length acc < 16 then
       (case ell of None \<Rightarrow> None
        | Some e \<Rightarrow> Some (take e acc @ replicate (16 - length acc) 0 @ drop e acc))
     else if ell \<noteq> None then None else Some acc)"

definition parse_v6 :: "string \<Rightarrow> nat list option" where
  "parse_v6 s =
     (if has_prefix s ''::'' then
        (if drop 2 s = [] then Some (replicate 16 0)
         else Option.bind (v6_loop 8 (drop 2 s) [] (Some 0)) v6_fill)
      else Option.bind (v6_loop 8 s [] None) v6_fill)"

text \<open>A zone makes \<open>ParseIP\<close> refuse the address.\<close>

definition ParseIP :: "string \<Rightarrow> nat list option" where
  "ParseIP s =
     (if CHR 0x25 \<in> set s then None
      else case find (\<lambda>c. c = CHR ''.'' \<or> c = CHR '':'') s of
        None \<Rightarrow> None
      | Some c \<Rightarrow> (if c = CHR ''.'' then map_option (\<lambda>q. replicate 10 0 @ [255, 255] @ q) (v4_fields s)
                   else parse_v6 s))"

definition To4 :: "nat list \<Rightarrow> nat list option" where
  "To4 ip = (if take 12 ip = replicate 10 0 @ [255, 255] then Some (drop 12 ip) else None)"

definition IsLoopback :: "nat list \<Rightarrow> bool" where
  "IsLoopback ip = (case To4 ip of Some q \<Rightarrow> hd q = 127 | None \<Rightarrow> ip = replicate 15 0 @ [1])"

section \<open>Printing\<close>

fun ip_words :: "nat list \<Rightarrow> nat list" where
  "ip_words (a # b # r) = (256 * a + b) # ip_words r"
| "ip_words _ = []"

fun show_hex :: "nat \<Rightarrow> string" where
  "show_hex n = (if n < 16 then [hex_digit n] else show_hex (n div 16) @ [hex_digit (n mod 16)])"

declare show_hex.simps [simp del]

text \<open>The first longest run of at least two zero groups, as start and end.\<close>

definition zero_run :: "nat list \<Rightarrow> nat \<times> nat" where
  "zero_run ws =
     foldl (\<lambda>(st, en) i. let j = i + length (takeWhile (\<lambda>w. w = 0) (drop i ws))
                           in if 2 \<le> j - i \<and> en - st < j - i then (i, j) else (st, en))
       (255, 255) [0..<length ws]"

definition v6_text :: "nat list \<Rightarrow> string" where
  "v6_text ws = (case zero_run ws of (st, en) \<Rightarrow>
     if st = 255 then join_with '':'' (map show_hex ws)
     else join_with '':'' (map show_hex (take st ws)) @ ''::'' @ join_with '':'' (map show_hex (drop en ws)))"

definition IP_String :: "nat list \<Rightarrow> string" where
  "IP_String ip = (case To4 ip of
     Some q \<Rightarrow> join_with ''.'' (map show_nat q)
   | None \<Rightarrow> v6_text (ip_words ip))"

section \<open>Host and port\<close>

definition index_of :: "char \<Rightarrow> string \<Rightarrow> nat option" where
  "index_of c s = (if c \<in> set s then Some (length (takeWhile (\<lambda>x. x \<noteq> c) s)) else None)"

definition last_index_of :: "char \<Rightarrow> string \<Rightarrow> nat option" where
  "last_index_of c s = map_option (\<lambda>k. length s - 1 - k) (index_of c (rev s))"

definition SplitHostPort :: "string \<Rightarrow> (string \<times> string) option" where
  "SplitHostPort hp = (case last_index_of (CHR '':'') hp of
     None \<Rightarrow> None
   | Some i \<Rightarrow>
       (if hd hp = CHR ''['' then
          (case index_of (CHR '']'') hp of
             None \<Rightarrow> None
           | Some e \<Rightarrow>
               (if e + 1 \<noteq> i then None
                else if CHR ''['' \<in> set (drop 1 hp) \<or> CHR '']'' \<in> set (drop (e + 1) hp) then None
                else Some (take (e - 1) (drop 1 hp), drop (i + 1) hp)))
        else
          (if CHR '':'' \<in> set (take i hp) then None
           else if CHR ''['' \<in> set hp \<or> CHR '']'' \<in> set hp then None
           else Some (take i hp, drop (i + 1) hp))))"

section \<open>Lemmas\<close>

lemma v4_octet_range: "v4_octet s = Some n \<Longrightarrow> n \<le> 255"
  by (auto simp: v4_octet_def split: if_splits)

lemma v4_fields_range: "v4_fields s = Some q \<Longrightarrow> length q = 4 \<and> (\<forall>n \<in> set q. n \<le> 255)"
  by (auto simp: v4_fields_def dest!: v4_octet_range split: list.splits option.splits)

lemma ParseIP_zone: "CHR 0x25 \<in> set s \<Longrightarrow> ParseIP s = None"
  by (simp add: ParseIP_def)

lemma loopback_v4: "ParseIP ''127.0.0.1'' = Some (replicate 10 0 @ [255, 255, 127, 0, 0, 1])"
  by code_simp

lemma loopback_v6: "ParseIP ''::1'' = Some (replicate 15 0 @ [1])"
  by code_simp

end
