(* ===== verification/Clipfan_Config.thy ===== *)
theory Clipfan_Config
  imports Clipfan_Json Clipfan_Net
begin

text \<open>
  The configuration as a value: the structs of \<open>internal/config/config.go\<close> and
  \<open>internal/config/ssh.go\<close>, the validators of the SSH transport, the host identifier
  (\<open>hostid.go\<close>), and the plan of the local listener (\<open>listener.go\<close>). The home directory is an
  argument where the code asks the system for it. Error texts are those of the code, except that
  the offending character of a host identifier is not quoted in them.
\<close>

section \<open>Structs\<close>

definition TransportSSH :: string where "TransportSSH = ''ssh''"
definition MigrationStateLoopbackUnprovisioned :: string where
  "MigrationStateLoopbackUnprovisioned = ''loopback_unprovisioned''"
definition MigrationStateSSHMaterialStaged :: string where
  "MigrationStateSSHMaterialStaged = ''ssh_material_staged''"
definition MigrationStateSharedKeyWrittenUnverified :: string where
  "MigrationStateSharedKeyWrittenUnverified = ''shared_key_written_unverified''"
definition MigrationStateSSHKeysReady :: string where "MigrationStateSSHKeysReady = ''ssh_keys_ready''"
definition MigrationStateProvisionFailed :: string where
  "MigrationStateProvisionFailed = ''provision_failed''"
definition DirectionAccept :: string where "DirectionAccept = ''accept''"
definition DirectionConnect :: string where "DirectionConnect = ''connect''"
definition ProofVerifiedByLocalFile :: string where "ProofVerifiedByLocalFile = ''local_file''"
definition ProofVerifiedByRegularSSH :: string where "ProofVerifiedByRegularSSH = ''regular_ssh''"
definition ProofVerifiedByTailscaleSSH :: string where "ProofVerifiedByTailscaleSSH = ''tailscale_ssh''"

record SSHProof =
  pr_AcceptKeyID :: string
  pr_AcceptGatewayPath :: string
  pr_AcceptVerifiedAt :: string
  pr_AcceptVerifiedBy :: string
  pr_ConnectKeyID :: string
  pr_ConnectGatewayPath :: string
  pr_ConnectVerifiedAt :: string
  pr_ConnectVerifiedBy :: string

definition empty_proof :: SSHProof where
  "empty_proof = \<lparr>pr_AcceptKeyID = [], pr_AcceptGatewayPath = [], pr_AcceptVerifiedAt = [],
     pr_AcceptVerifiedBy = [], pr_ConnectKeyID = [], pr_ConnectGatewayPath = [],
     pr_ConnectVerifiedAt = [], pr_ConnectVerifiedBy = []\<rparr>"

record SSHPeer =
  sp_ID :: string
  sp_SSHHost :: string
  sp_SSHUser :: string
  sp_SSHPort :: int
  sp_InstallPath :: string
  sp_GatewayPath :: string
  sp_Enabled :: bool
  sp_Accept :: bool
  sp_Connect :: bool
  sp_Persistent :: bool
  sp_OnDemand :: bool
  sp_MigrationState :: string
  sp_Proof :: SSHProof

definition empty_peer :: SSHPeer where
  "empty_peer = \<lparr>sp_ID = [], sp_SSHHost = [], sp_SSHUser = [], sp_SSHPort = 0, sp_InstallPath = [],
     sp_GatewayPath = [], sp_Enabled = False, sp_Accept = False, sp_Connect = False,
     sp_Persistent = False, sp_OnDemand = False, sp_MigrationState = [], sp_Proof = empty_proof\<rparr>"

text \<open>\<open>s_PeersNil\<close> tells a nil slice of peers from an empty one; it says nothing about a
  non-empty slice.\<close>

record SSHConfig =
  s_SyncKey :: string
  s_KnownHosts :: string
  s_MaxSessions :: int
  s_MaxSessionsPerPeer :: int
  s_LogLimitBytes :: int
  s_Peers :: "SSHPeer list"
  s_PeersNil :: bool

definition empty_ssh :: SSHConfig where
  "empty_ssh = \<lparr>s_SyncKey = [], s_KnownHosts = [], s_MaxSessions = 0, s_MaxSessionsPerPeer = 0,
     s_LogLimitBytes = 0, s_Peers = [], s_PeersNil = True\<rparr>"

record Config =
  cf_ConfigVersion :: "int option"
  cf_ConfigRevision :: "64 word option"
  cf_Listen :: string
  cf_SharedKey :: string
  cf_Discovery :: string
  cf_StaticPeers :: "string list"
  cf_StaticPeersNil :: bool
  cf_Hostname :: string
  cf_Transport :: string
  cf_SSH :: "SSHConfig option"
  cf_Port :: int
  cf_MaxHistory :: int

definition empty_config :: Config where
  "empty_config = \<lparr>cf_ConfigVersion = None, cf_ConfigRevision = None, cf_Listen = [], cf_SharedKey = [],
     cf_Discovery = [], cf_StaticPeers = [], cf_StaticPeersNil = True, cf_Hostname = [], cf_Transport = [], cf_SSH = None,
     cf_Port = 0, cf_MaxHistory = 0\<rparr>"

section \<open>Host identifiers\<close>

definition ErrInvalidHostID :: string where "ErrInvalidHostID = ''invalid_host_id''"
definition ErrHostIDNotPersisted :: string where "ErrHostIDNotPersisted = ''host_id_not_persisted''"
definition ErrHostIDMismatch :: string where "ErrHostIDMismatch = ''host_id_mismatch''"

definition upper_letter :: "char \<Rightarrow> bool" where
  "upper_letter c = char_in (CHR ''A'') (CHR ''Z'') c"
definition lower_letter :: "char \<Rightarrow> bool" where
  "lower_letter c = char_in (CHR ''a'') (CHR ''z'') c"
definition name_char :: "char \<Rightarrow> bool" where
  "name_char c \<longleftrightarrow> upper_letter c \<or> lower_letter c \<or> is_digit c \<or> c \<in> {CHR ''.'', CHR ''_'', CHR ''-''}"

definition ValidateHostID :: "string \<Rightarrow> unit res" where
  "ValidateHostID hostID =
     (if length hostID < 1 then Inl (ErrInvalidHostID @ '': empty'')
      else if length hostID > 63 then Inl (ErrInvalidHostID @ '': too long'')
      else if hd hostID = CHR ''-'' then Inl (ErrInvalidHostID @ '': must not start with hyphen'')
      else if \<not> list_all name_char hostID then Inl (ErrInvalidHostID @ '': contains invalid character'')
      else Inr ())"

definition deriveHostIDFromHostname :: "string \<Rightarrow> string" where
  "deriveHostIDFromHostname hostname = hd (split_on (CHR ''.'') (trim_suffix hostname ''.local''))"

definition DeriveHostID :: "string res \<Rightarrow> string res" where
  "DeriveHostID os_hostname =
     and_then os_hostname (\<lambda>hostname.
     let hostID = deriveHostIDFromHostname hostname
     in and_then (ValidateHostID hostID) (\<lambda>_. Inr hostID))"

definition RequirePersistedHostID :: "Config option \<Rightarrow> string res" where
  "RequirePersistedHostID cfg = (case cfg of
     None \<Rightarrow> Inl ErrHostIDNotPersisted
   | Some c \<Rightarrow> (if cf_Hostname c = [] then Inl ErrHostIDNotPersisted
                else and_then (ValidateHostID (cf_Hostname c)) (\<lambda>_. Inr (cf_Hostname c))))"

section \<open>Paths, users and hosts\<close>

definition proofKeyIDPattern :: "string \<Rightarrow> bool" where
  "proofKeyIDPattern s \<longleftrightarrow> 8 \<le> length s \<and> length s \<le> 64 \<and> list_all name_char s"

definition sshPathPattern :: "string \<Rightarrow> bool" where
  "sshPathPattern s \<longleftrightarrow> s \<noteq> [] \<and> list_all (\<lambda>c. name_char c \<or> c \<in> {slash, CHR 0x40, CHR 0x2B}) s"

definition sshUserPattern :: "string \<Rightarrow> bool" where
  "sshUserPattern s \<longleftrightarrow> 1 \<le> length s \<and> length s \<le> 64 \<and> list_all name_char s"

definition ValidateSafeAbsolutePath :: "string \<Rightarrow> unit res" where
  "ValidateSafeAbsolutePath value =
     (if value = [] then Inl ''empty''
      else if \<not> has_prefix value [slash] then Inl ''relative''
      else if contains_any value [CHR 0x00, CHR 0x0A, CHR 0x0D, CHR 0x09] then Inl ''invalid characters''
      else if path_clean value \<noteq> value then Inl ''not canonical''
      else if list_ex (\<lambda>part. part = ''..'') (split_on slash value) then Inl ''parent traversal''
      else Inr ())"

definition ValidateSSHExecutablePath :: "string \<Rightarrow> unit res" where
  "ValidateSSHExecutablePath value =
     and_then (wrap_err ''invalid_ssh_path'' (ValidateSafeAbsolutePath value)) (\<lambda>_.
     if \<not> sshPathPattern value then Inl ''invalid_ssh_path: invalid characters'' else Inr ())"

definition ValidateSSHUser :: "string \<Rightarrow> unit res" where
  "ValidateSSHUser value =
     (if \<not> sshUserPattern value then Inl ''invalid_ssh_user''
      else if has_prefix value ''-'' then Inl ''invalid_ssh_user''
      else Inr ())"

definition isASCII :: "string \<Rightarrow> bool" where
  "isASCII value = list_all (\<lambda>c. (of_char c :: nat) < 128) value"

definition host_forbidden :: string where
  "host_forbidden = [CHR 0x40, CHR 0x2F, CHR 0x5C, CHR 0x22, CHR 0x27, CHR 0x60, CHR 0x24, CHR 0x3B,
     CHR 0x26, CHR 0x7C, CHR 0x3C, CHR 0x3E, CHR 0x28, CHR 0x29, CHR 0x7B, CHR 0x7D, CHR 0x5B, CHR 0x5D,
     CHR 0x2A, CHR 0x3F, CHR 0x21]"

definition dns_label_char :: "char \<Rightarrow> bool" where
  "dns_label_char c \<longleftrightarrow> lower_letter c \<or> is_digit c \<or> c = CHR ''-''"

fun check_labels :: "string list \<Rightarrow> unit res" where
  "check_labels [] = Inr ()"
| "check_labels (label # labels) =
     (if label = [] then Inl ''empty label''
      else if length label > 63 then Inl ''label too long''
      else if has_prefix label ''-'' \<or> has_suffix label ''-'' then Inl ''invalid label hyphen''
      else if \<not> list_all dns_label_char label then Inl ''invalid dns label''
      else check_labels labels)"

definition CanonicalSSHHost :: "string \<Rightarrow> string res" where
  "CanonicalSSHHost value =
     (if value = [] then Inl ''empty''
      else if length value > 253 then Inl ''too long''
      else if trim_space value \<noteq> value then Inl ''contains whitespace''
      else if has_prefix value ''-'' then Inl ''starts with hyphen''
      else if contains_any value host_forbidden then Inl ''contains invalid character''
      else (case ParseIP value of
         Some ip \<Rightarrow> (if CHR 0x25 \<in> set value then Inl ''scoped ipv6 is unsupported''
                     else Inr (to_lower (IP_String ip)))
       | None \<Rightarrow>
           (if CHR '':'' \<in> set value then Inl ''contains port suffix''
            else if \<not> isASCII value then Inl ''non-ascii host''
            else let host = to_lower (trim_suffix value ''.'')
                 in if host = [] then Inl ''empty''
                    else if length host > 253 then Inl ''too long''
                    else and_then (check_labels (split_on (CHR ''.'') host)) (\<lambda>_. Inr host))))"

definition needsHomeExpansion :: "string \<Rightarrow> bool" where
  "needsHomeExpansion value \<longleftrightarrow> value = ''~'' \<or> has_prefix value (''~'' @ [slash])"

definition ExpandLocalSSHPath :: "string \<Rightarrow> string \<Rightarrow> string" where
  "ExpandLocalSSHPath value homeDir =
     (if value = ''~'' then homeDir
      else if has_prefix value (''~'' @ [slash]) then path_join homeDir (trim_prefix value (''~'' @ [slash]))
      else value)"

definition NormalizeLocalSSHPaths :: "string res \<Rightarrow> Config \<Rightarrow> Config res" where
  "NormalizeLocalSSHPaths userHomeDir cfg = (case cf_SSH cfg of
     None \<Rightarrow> Inr cfg
   | Some ssh \<Rightarrow>
       (if \<not> needsHomeExpansion (s_SyncKey ssh) \<and> \<not> needsHomeExpansion (s_KnownHosts ssh) then Inr cfg
        else and_then (wrap_err ''home_dir_unavailable'' userHomeDir) (\<lambda>homeDir.
          Inr (cfg\<lparr>cf_SSH := Some (ssh\<lparr>s_SyncKey := ExpandLocalSSHPath (s_SyncKey ssh) homeDir,
                                       s_KnownHosts := ExpandLocalSSHPath (s_KnownHosts ssh) homeDir\<rparr>)\<rparr>))))"

section \<open>Validation of the SSH transport\<close>

definition validMigrationState :: "string \<Rightarrow> bool" where
  "validMigrationState state \<longleftrightarrow>
     state \<in> {[], MigrationStateLoopbackUnprovisioned, MigrationStateSSHMaterialStaged,
       MigrationStateSharedKeyWrittenUnverified, MigrationStateSSHKeysReady, MigrationStateProvisionFailed}"

definition validateProofFields :: "string \<Rightarrow> string \<Rightarrow> string \<Rightarrow> string \<Rightarrow> unit res" where
  "validateProofFields keyID gatewayPath verifiedAt verifiedBy =
     (if \<not> proofKeyIDPattern keyID then Inl ''invalid_proof_key_id''
      else and_then (wrap_err ''invalid_proof_gateway_path'' (ValidateSSHExecutablePath gatewayPath)) (\<lambda>_.
        if text_time verifiedAt = None then Inl ''invalid_proof_verified_at: parsing time''
        else if verifiedBy \<in> {ProofVerifiedByLocalFile, ProofVerifiedByRegularSSH, ProofVerifiedByTailscaleSSH}
        then Inr ()
        else Inl (''invalid_proof_verified_by: '' @ verifiedBy)))"

definition accept_proof_fields :: "SSHProof \<Rightarrow> unit res" where
  "accept_proof_fields p = validateProofFields (pr_AcceptKeyID p) (pr_AcceptGatewayPath p)
     (pr_AcceptVerifiedAt p) (pr_AcceptVerifiedBy p)"

definition connect_proof_fields :: "SSHProof \<Rightarrow> unit res" where
  "connect_proof_fields p = validateProofFields (pr_ConnectKeyID p) (pr_ConnectGatewayPath p)
     (pr_ConnectVerifiedAt p) (pr_ConnectVerifiedBy p)"

definition hasDirectionalProof :: "SSHProof \<Rightarrow> string \<Rightarrow> bool" where
  "hasDirectionalProof p direction =
     (if direction = DirectionAccept then
        pr_AcceptKeyID p \<noteq> [] \<or> pr_AcceptGatewayPath p \<noteq> [] \<or> pr_AcceptVerifiedAt p \<noteq> [] \<or> pr_AcceptVerifiedBy p \<noteq> []
      else if direction = DirectionConnect then
        pr_ConnectKeyID p \<noteq> [] \<or> pr_ConnectGatewayPath p \<noteq> [] \<or> pr_ConnectVerifiedAt p \<noteq> [] \<or> pr_ConnectVerifiedBy p \<noteq> []
      else False)"

definition ValidateDirectionalProof :: "SSHPeer \<Rightarrow> string \<Rightarrow> unit res" where
  "ValidateDirectionalProof peer direction =
     (if direction = DirectionAccept then
        (if \<not> sp_Enabled peer \<or> \<not> sp_Accept peer then Inr () else accept_proof_fields (sp_Proof peer))
      else if direction = DirectionConnect then
        (if \<not> sp_Enabled peer \<or> \<not> sp_Connect peer then Inr () else connect_proof_fields (sp_Proof peer))
      else Inl (''invalid_proof_direction: '' @ direction))"

definition validateSSHPeer :: "string \<Rightarrow> SSHPeer \<Rightarrow> bool \<Rightarrow> unit res" where
  "validateSSHPeer localHostID peer activeSSH =
     and_then (wrap_err ''invalid_ssh_peer_id'' (ValidateHostID (sp_ID peer))) (\<lambda>_.
     and_then (require (\<not> (localHostID \<noteq> [] \<and> sp_ID peer = localHostID))
       (''ssh_peer_id_is_local_host: '' @ sp_ID peer)) (\<lambda>_.
     and_then (require (\<not> (sp_SSHPort peer < 0 \<or> sp_SSHPort peer > 65535))
       (''invalid_ssh_port: '' @ show_int (sp_SSHPort peer))) (\<lambda>_.
     and_then (if sp_InstallPath peer \<noteq> []
       then wrap_err ''invalid_install_path'' (ValidateSSHExecutablePath (sp_InstallPath peer)) else Inr ()) (\<lambda>_.
     and_then (if sp_GatewayPath peer \<noteq> []
       then wrap_err ''invalid_gateway_path'' (ValidateSSHExecutablePath (sp_GatewayPath peer)) else Inr ()) (\<lambda>_.
     if \<not> activeSSH then Inr ()
     else and_then (require (validMigrationState (sp_MigrationState peer))
       (''invalid_migration_state: '' @ sp_MigrationState peer)) (\<lambda>_.
     and_then
       (if sp_Connect peer then
          and_then (require (\<not> (sp_SSHHost peer = [] \<or> sp_SSHUser peer = [] \<or> sp_SSHPort peer = 0))
            (''missing_connect_locator: '' @ sp_ID peer)) (\<lambda>_.
          and_then (wrap_err ''invalid_ssh_user'' (ValidateSSHUser (sp_SSHUser peer))) (\<lambda>_.
          and_then (wrap_err ''invalid_ssh_host'' (CanonicalSSHHost (sp_SSHHost peer))) (\<lambda>_. Inr ())))
        else require (\<not> (sp_Persistent peer \<or> sp_OnDemand peer))
          (''invalid_accept_only_peer_outbound_mode: '' @ sp_ID peer)) (\<lambda>_.
     and_then (if hasDirectionalProof (sp_Proof peer) DirectionAccept
       then wrap_err ''invalid_accept_proof'' (accept_proof_fields (sp_Proof peer)) else Inr ()) (\<lambda>_.
     and_then (if hasDirectionalProof (sp_Proof peer) DirectionConnect
       then wrap_err ''invalid_connect_proof'' (connect_proof_fields (sp_Proof peer)) else Inr ()) (\<lambda>_.
     if sp_MigrationState peer = MigrationStateSSHKeysReady
     then and_then (ValidateDirectionalProof peer DirectionAccept) (\<lambda>_.
            ValidateDirectionalProof peer DirectionConnect)
     else Inr ())))))))))"

definition target_key :: "SSHPeer \<Rightarrow> string \<Rightarrow> string" where
  "target_key peer host = sp_SSHUser peer @ [CHR 0x00] @ host @ [CHR 0x00] @ show_int (sp_SSHPort peer)"

text \<open>The loop over the peers: the identifiers seen and the targets taken so far.\<close>

fun check_peers :: "string \<Rightarrow> bool \<Rightarrow> string list \<Rightarrow> (string \<times> string) list \<Rightarrow> SSHPeer list \<Rightarrow> unit res" where
  "check_peers local active seen targets [] = Inr ()"
| "check_peers local active seen targets (peer # peers) =
     and_then (validateSSHPeer local peer active) (\<lambda>_.
     if sp_ID peer \<in> set seen then Inl (''duplicate_ssh_peer_id: '' @ sp_ID peer)
     else if active \<and> sp_Enabled peer \<and> sp_Connect peer then
       and_then (wrap_err ''invalid_ssh_host'' (CanonicalSSHHost (sp_SSHHost peer))) (\<lambda>host.
       case map_of targets (target_key peer host) of
         Some other \<Rightarrow>
           (if other \<noteq> [] then Inl (''duplicate_ssh_target: '' @ other @ '' and '' @ sp_ID peer)
            else check_peers local active (sp_ID peer # seen)
                   (AList.update (target_key peer host) (sp_ID peer) targets) peers)
       | None \<Rightarrow> check_peers local active (sp_ID peer # seen)
                   (AList.update (target_key peer host) (sp_ID peer) targets) peers)
     else check_peers local active (sp_ID peer # seen) targets peers)"

definition ValidateSSHTransportConfig :: "Config \<Rightarrow> unit res" where
  "ValidateSSHTransportConfig cfg =
     (if cf_Transport cfg \<notin> {[], TransportSSH} then Inl (''invalid_transport: '' @ cf_Transport cfg)
      else let activeSSH = (cf_Transport cfg = TransportSSH)
      in case cf_SSH cfg of
        None \<Rightarrow> Inr ()
      | Some ssh \<Rightarrow>
         (if s_MaxSessions ssh < 0 then Inl ''invalid_ssh_max_sessions''
          else if s_MaxSessionsPerPeer ssh < 0 then Inl ''invalid_ssh_max_sessions_per_peer''
          else if s_MaxSessions ssh > 0 \<and> s_MaxSessionsPerPeer ssh > s_MaxSessions ssh
          then Inl ''invalid_ssh_max_sessions_per_peer''
          else if s_LogLimitBytes ssh < 0 then Inl ''invalid_ssh_log_limit_bytes''
          else and_then (if s_SyncKey ssh \<noteq> []
                 then wrap_err ''invalid_sync_key'' (ValidateSSHExecutablePath (s_SyncKey ssh)) else Inr ()) (\<lambda>_.
               and_then (if s_KnownHosts ssh \<noteq> []
                 then wrap_err ''invalid_known_hosts'' (ValidateSSHExecutablePath (s_KnownHosts ssh)) else Inr ()) (\<lambda>_.
               check_peers (cf_Hostname cfg) activeSSH [] [] (s_Peers ssh)))))"

section \<open>Defaults and the listener\<close>

definition defaultPort :: int where "defaultPort = 7853"
definition defaultMaxHistory :: int where "defaultMaxHistory = 200"
definition legacyDefaultListen :: string where "legacyDefaultListen = '':7853''"
definition loopbackHost :: string where "loopbackHost = ''127.0.0.1''"

record ListenerPlan =
  lp_ConfiguredListen :: string
  lp_BindListen :: string
  lp_EffectiveRepairListen :: string
  lp_ParseError :: string
  lp_SafeMode :: bool
  lp_PeerSyncStarted :: bool

definition DefaultListen :: "bool \<Rightarrow> int \<Rightarrow> string" where
  "DefaultListen loopbackDefault port =
     (if \<not> loopbackDefault then legacyDefaultListen
      else loopbackHost @ '':'' @ show_int (if port = 0 then defaultPort else port))"

definition withDefaultsForGeneratedListen :: "Config \<Rightarrow> bool \<Rightarrow> Config" where
  "withDefaultsForGeneratedListen c0 loopbackDefault =
     (let c1 = (if cf_Port c0 = 0 then c0\<lparr>cf_Port := 7853\<rparr> else c0);
          c2 = (if cf_Listen c1 = [] then c1\<lparr>cf_Listen := DefaultListen loopbackDefault (cf_Port c1)\<rparr> else c1);
          c3 = (if cf_Discovery c2 = [] then c2\<lparr>cf_Discovery := ''tailscale''\<rparr> else c2)
      in if cf_MaxHistory c3 = 0 then c3\<lparr>cf_MaxHistory := defaultMaxHistory\<rparr> else c3)"

definition isLegacyGeneratedListen :: "string \<Rightarrow> bool" where
  "isLegacyGeneratedListen listen \<longleftrightarrow> listen \<in> {legacyDefaultListen, ''0.0.0.0:7853'', ''[::]:7853''}"

definition ApplyGeneratedListenMigration :: "Config \<Rightarrow> bool \<Rightarrow> bool \<times> Config" where
  "ApplyGeneratedListenMigration c enabled =
     (if \<not> enabled \<or> \<not> isLegacyGeneratedListen (cf_Listen c) then (False, c)
      else let c1 = c\<lparr>cf_Listen := DefaultListen True defaultPort\<rparr>
           in (True, if cf_Port c1 = 0 then c1\<lparr>cf_Port := defaultPort\<rparr> else c1))"

definition validPort :: "int \<Rightarrow> bool" where
  "validPort port \<longleftrightarrow> port \<ge> 1 \<and> port \<le> 65535"

definition splitListenHostPort :: "string \<Rightarrow> (string \<times> int) option" where
  "splitListenHostPort listen = (case SplitHostPort (trim_space listen) of
     None \<Rightarrow> None
   | Some (host, portText) \<Rightarrow>
       (case parse_int64 portText of
          None \<Rightarrow> None
        | Some port \<Rightarrow> (if validPort port then Some (host, port) else None)))"

definition isLoopbackHost :: "string \<Rightarrow> bool" where
  "isLoopbackHost host =
     (if fold_case host = ''localhost'' then True
      else case ParseIP host of None \<Rightarrow> False | Some ip \<Rightarrow> IsLoopback ip)"

definition PlanListener :: "Config \<Rightarrow> bool \<Rightarrow> ListenerPlan" where
  "PlanListener c listenerBoundaryEnabled =
     (let listen = (if cf_Listen c = [] then DefaultListen listenerBoundaryEnabled (cf_Port c) else cf_Listen c);
          plan = \<lparr>lp_ConfiguredListen = listen, lp_BindListen = listen, lp_EffectiveRepairListen = [],
                   lp_ParseError = [], lp_SafeMode = False, lp_PeerSyncStarted = True\<rparr>
      in if \<not> listenerBoundaryEnabled then plan
         else if isLegacyGeneratedListen listen then plan\<lparr>lp_BindListen := DefaultListen True defaultPort\<rparr>
         else let sp = splitListenHostPort listen
         in case sp of
           Some (host, port) \<Rightarrow>
             (if isLoopbackHost host then plan\<lparr>lp_BindListen := DefaultListen True port\<rparr>
              else plan\<lparr>lp_SafeMode := True, lp_PeerSyncStarted := False, lp_ParseError := [],
                         lp_EffectiveRepairListen := DefaultListen True port,
                         lp_BindListen := DefaultListen True port\<rparr>)
         | None \<Rightarrow>
             (let repairPort = (if validPort (cf_Port c) then cf_Port c else defaultPort);
                  parseError = (if validPort (cf_Port c) then [] else ''invalid_listen_port'')
              in plan\<lparr>lp_SafeMode := True, lp_PeerSyncStarted := False, lp_ParseError := parseError,
                       lp_EffectiveRepairListen := DefaultListen True repairPort,
                       lp_BindListen := DefaultListen True repairPort\<rparr>))"

definition SharedKeyIsStandard32Bytes :: "string \<Rightarrow> bool" where
  "SharedKeyIsStandard32Bytes value =
     (if value = [] then False
      else case b64_decode value of
        None \<Rightarrow> False
      | Some decoded \<Rightarrow> length decoded = 32 \<and> b64_encode decoded = value)"

section \<open>Lemmas: the listener\<close>

lemma list_all_digit_chars: "list_all is_digit s \<Longrightarrow> c \<in> set s \<Longrightarrow> is_digit c"
  by (simp add: list_all_iff)

lemma show_port_chars:
  assumes "0 \<le> p" and "c \<in> set (show_int p)" shows "is_digit c"
  using assms show_nat_digits [of "nat p"] by (simp add: show_int_def list_all_iff)

lemma split_default_listen:
  assumes "validPort p"
  shows "splitListenHostPort (loopbackHost @ CHR '':'' # show_int p) = Some (loopbackHost, p)"
proof -
  let ?t = "show_int p"
  have p: "0 \<le> p" "p \<le> 65535" using assms by (simp_all add: validPort_def)
  have dig: "\<And>c. c \<in> set ?t \<Longrightarrow> is_digit c" using show_port_chars [OF p(1)] .
  have no: "CHR '':'' \<notin> set ?t" "CHR ''['' \<notin> set ?t" "CHR '']'' \<notin> set ?t"
    using dig by (force simp: is_digit_def)+
  have ne: "?t \<noteq> []" using p by (simp add: show_int_def)
  have trim: "trim_space (loopbackHost @ CHR '':'' # ?t) = loopbackHost @ CHR '':'' # ?t"
  proof (rule trim_space_id)
    have "is_digit (last (loopbackHost @ CHR '':'' # ?t))" using dig ne by simp
    then show "last (loopbackHost @ CHR '':'' # ?t) \<notin> last ` set go_spaces"
      by (auto simp: go_spaces_def is_digit_def)
  qed (auto simp: go_spaces_def loopbackHost_def)
  have idx: "last_index_of (CHR '':'') (loopbackHost @ CHR '':'' # ?t) = Some (length loopbackHost)"
  proof -
    have "takeWhile (\<lambda>x. x \<noteq> CHR '':'') (rev ?t @ CHR '':'' # r) = rev ?t" for r
      using no(1) by (subst takeWhile_append2) auto
    then show ?thesis by (simp add: last_index_of_def index_of_def)
  qed
  have "SplitHostPort (loopbackHost @ CHR '':'' # ?t) = Some (loopbackHost, ?t)"
    using no idx by (simp add: SplitHostPort_def loopbackHost_def)
  then show ?thesis
    using assms p parse_int64_show [of p] by (simp add: splitListenHostPort_def trim)
qed

lemma isLoopbackHost_loopbackHost: "isLoopbackHost loopbackHost"
  by code_simp

lemma not_legacy: "\<not> isLegacyGeneratedListen (loopbackHost @ CHR '':'' # s)"
  by (simp add: isLegacyGeneratedListen_def loopbackHost_def legacyDefaultListen_def)


lemma DefaultListen_valid: "validPort p \<Longrightarrow> DefaultListen True p = loopbackHost @ CHR '':'' # show_int p"
  by (auto simp: DefaultListen_def validPort_def)

lemma PlanListener_binds_loopback:
  "\<exists>p. validPort p \<and> lp_BindListen (PlanListener c True) = loopbackHost @ CHR '':'' # show_int p"
proof -
  have v: "validPort defaultPort" by (simp add: validPort_def defaultPort_def)
  have s: "validPort p" if "splitListenHostPort l = Some (h, p)" for l h p
    using that by (auto simp: splitListenHostPort_def split: option.splits if_splits)
  define l where "l = (if cf_Listen c = [] then DefaultListen True (cf_Port c) else cf_Listen c)"
  have "\<exists>p. validPort p \<and> lp_BindListen (PlanListener c True) = DefaultListen True p"
  proof (cases "isLegacyGeneratedListen l")
    case False
    show ?thesis
    proof (cases "splitListenHostPort l")
      case None
      with False v show ?thesis
        by (intro exI [of _ "if validPort (cf_Port c) then cf_Port c else defaultPort"])
          (simp add: PlanListener_def Let_def flip: l_def)
    next
      case (Some hp)
      obtain h p where hp: "hp = (h, p)" by fastforce
      from Some hp False show ?thesis
        by (intro exI [of _ p]) (simp add: PlanListener_def Let_def s flip: l_def)
    qed
  qed (use v in \<open>auto simp: PlanListener_def Let_def simp flip: l_def\<close>)
  then show ?thesis using DefaultListen_valid by metis
qed

lemma PlanListener_loopback:
  "validPort p \<Longrightarrow> cf_Listen c = loopbackHost @ CHR '':'' # show_int p \<Longrightarrow>
   PlanListener c True = \<lparr>lp_ConfiguredListen = cf_Listen c, lp_BindListen = cf_Listen c,
     lp_EffectiveRepairListen = [], lp_ParseError = [], lp_SafeMode = False, lp_PeerSyncStarted = True\<rparr>"
  by (simp add: PlanListener_def Let_def not_legacy split_default_listen isLoopbackHost_loopbackHost DefaultListen_valid)

text \<open>C34. With the listener boundary on, the daemon binds a loopback address with a valid port whatever
  the configuration says; it starts peer synchronisation exactly when it is not in safe mode; and
  configuring the address it binds leads out of safe mode and to that same address.\<close>

theorem listener_stays_on_loopback:
  "\<exists>p. validPort p \<and> lp_BindListen (PlanListener c True) = ''127.0.0.1:'' @ show_int p \<and>
     (lp_PeerSyncStarted (PlanListener c True) \<longleftrightarrow> \<not> lp_SafeMode (PlanListener c True)) \<and>
     (let c' = c\<lparr>cf_Listen := lp_BindListen (PlanListener c True)\<rparr>
      in lp_BindListen (PlanListener c' True) = lp_BindListen (PlanListener c True) \<and>
         \<not> lp_SafeMode (PlanListener c' True))"
proof -
  from PlanListener_binds_loopback [of c] obtain p where p: "validPort p"
    "lp_BindListen (PlanListener c True) = loopbackHost @ CHR '':'' # show_int p" by blast
  have "lp_PeerSyncStarted (PlanListener c True) \<longleftrightarrow> \<not> lp_SafeMode (PlanListener c True)"
    by (simp add: PlanListener_def Let_def split: option.splits)
  moreover have "PlanListener (c\<lparr>cf_Listen := lp_BindListen (PlanListener c True)\<rparr>) True =
      \<lparr>lp_ConfiguredListen = lp_BindListen (PlanListener c True), lp_BindListen = lp_BindListen (PlanListener c True),
       lp_EffectiveRepairListen = [], lp_ParseError = [], lp_SafeMode = False, lp_PeerSyncStarted = True\<rparr>"
    using PlanListener_loopback [OF p(1), of "c\<lparr>cf_Listen := lp_BindListen (PlanListener c True)\<rparr>"] p(2) by simp
  ultimately show ?thesis using p by (intro exI [of _ p]) (simp add: Let_def loopbackHost_def)
qed

section \<open>Lemmas: validated peers\<close>

definition peer_target :: "SSHPeer \<Rightarrow> (string \<times> string res \<times> int)" where
  "peer_target peer = (sp_SSHUser peer, CanonicalSSHHost (sp_SSHHost peer), sp_SSHPort peer)"

definition dialled :: "SSHPeer list \<Rightarrow> SSHPeer list" where
  "dialled ps = filter (\<lambda>p. sp_Enabled p \<and> sp_Connect p) ps"

lemma validateSSHPeer_active:
  assumes "validateSSHPeer local peer True = Inr u"
  shows "ValidateHostID (sp_ID peer) = Inr ()" and "local \<noteq> [] \<Longrightarrow> sp_ID peer \<noteq> local"
    and "sp_Connect peer \<Longrightarrow> ValidateSSHUser (sp_SSHUser peer) = Inr () \<and>
      (\<exists>h. CanonicalSSHHost (sp_SSHHost peer) = Inr h) \<and> 1 \<le> sp_SSHPort peer \<and> sp_SSHPort peer \<le> 65535"
    and "sp_MigrationState peer = MigrationStateSSHKeysReady \<Longrightarrow> sp_Enabled peer \<Longrightarrow> sp_Connect peer \<Longrightarrow>
      connect_proof_fields (sp_Proof peer) = Inr ()"
  using assms by (auto simp: validateSSHPeer_def ValidateDirectionalProof_def DirectionAccept_def
      DirectionConnect_def split: if_splits)


text \<open>The key under which a dialled peer is entered among the targets.\<close>

definition key_of :: "SSHPeer \<Rightarrow> string" where
  "key_of peer = target_key peer (case CanonicalSSHHost (sp_SSHHost peer) of Inr h \<Rightarrow> h | Inl _ \<Rightarrow> [])"

lemma key_of_target: "peer_target p = peer_target q \<Longrightarrow> key_of p = key_of q"
  by (simp add: peer_target_def key_of_def target_key_def)

lemma valid_id_not_Nil: "ValidateHostID i = Inr u \<Longrightarrow> i \<noteq> []"
  by (auto simp: ValidateHostID_def)

lemma check_peers_step:
  assumes "check_peers local True seen targets (p # ps) = Inr u"
    and t: "\<forall>k v. map_of targets k = Some v \<longrightarrow> v \<noteq> []"
  shows "validateSSHPeer local p True = Inr ()" and "sp_ID p \<notin> set seen"
    and "\<exists>targets'. check_peers local True (sp_ID p # seen) targets' ps = Inr u \<and>
      (\<forall>k v. map_of targets' k = Some v \<longrightarrow> v \<noteq> []) \<and>
      (if sp_Enabled p \<and> sp_Connect p
       then map_of targets (key_of p) = None \<and> dom (map_of targets') = insert (key_of p) (dom (map_of targets))
       else targets' = targets)"
proof -
  from assms(1) show v: "validateSSHPeer local p True = Inr ()" and n: "sp_ID p \<notin> set seen"
    by (auto split: if_splits)
  have id: "sp_ID p \<noteq> []" using validateSSHPeer_active(1) [OF v] valid_id_not_Nil by blast
  show "\<exists>targets'. check_peers local True (sp_ID p # seen) targets' ps = Inr u \<and>
      (\<forall>k v. map_of targets' k = Some v \<longrightarrow> v \<noteq> []) \<and>
      (if sp_Enabled p \<and> sp_Connect p
       then map_of targets (key_of p) = None \<and> dom (map_of targets') = insert (key_of p) (dom (map_of targets))
       else targets' = targets)"
  proof (cases "sp_Enabled p \<and> sp_Connect p")
    case True
    then obtain h where h: "CanonicalSSHHost (sp_SSHHost p) = Inr h"
      using validateSSHPeer_active(3) [OF v] by blast
    then have k: "key_of p = target_key p h" by (simp add: key_of_def)
    let ?t = "AList.update (key_of p) (sp_ID p) targets"
    from assms(1) True h n t have "map_of targets (key_of p) = None" "check_peers local True (sp_ID p # seen) ?t ps = Inr u"
      by (auto simp: k split: option.splits if_splits)
    moreover have "\<forall>k v. map_of ?t k = Some v \<longrightarrow> v \<noteq> []" using t id by (simp add: update_conv')
    moreover have "dom (map_of ?t) = insert (key_of p) (dom (map_of targets))" by (simp add: update_conv')
    ultimately show ?thesis using True by (intro exI [of _ ?t]) simp
  next
    case False
    with assms(1) t n show ?thesis by (intro exI [of _ targets]) (auto split: if_splits)
  qed
qed

lemma check_peers_sound:
  assumes "check_peers local True seen targets ps = Inr u"
    and "\<forall>k v. map_of targets k = Some v \<longrightarrow> v \<noteq> []"
  shows "distinct (map sp_ID ps) \<and> set (map sp_ID ps) \<inter> set seen = {} \<and>
    (\<forall>p \<in> set ps. validateSSHPeer local p True = Inr ()) \<and>
    distinct (map key_of (dialled ps)) \<and> set (map key_of (dialled ps)) \<inter> dom (map_of targets) = {}"
  using assms
proof (induction ps arbitrary: seen targets)
  case (Cons p ps)
  note st = check_peers_step [OF Cons.prems]
  from st(3) obtain targets' where t: "check_peers local True (sp_ID p # seen) targets' ps = Inr u"
    "\<forall>k v. map_of targets' k = Some v \<longrightarrow> v \<noteq> []"
    "if sp_Enabled p \<and> sp_Connect p
       then map_of targets (key_of p) = None \<and> dom (map_of targets') = insert (key_of p) (dom (map_of targets))
       else targets' = targets" by blast
  note ih = Cons.IH [OF t(1,2)]
  show ?case
  proof (cases "sp_Enabled p \<and> sp_Connect p")
    case True
    with t(3) have d: "key_of p \<notin> dom (map_of targets)" "dom (map_of targets') = insert (key_of p) (dom (map_of targets))"
      by (simp_all add: domIff)
    then show ?thesis using ih st(1,2) True by (auto simp: dialled_def)
  next
    case False
    then show ?thesis using ih st(1,2) t(3) by (auto simp: dialled_def)
  qed
qed (simp add: dialled_def)

text \<open>C33. A configuration the SSH validator accepts is well formed: every peer identifier is valid,
  unique and not the local host's; every peer that is dialled has a valid user, a host with a
  canonical form and a port from 1 to 65535, no two of them the same target; and a ready peer
  that is dialled carries a valid proof.\<close>

theorem validated_transport_wellformed:
  assumes "ValidateSSHTransportConfig cfg = Inr ()" and "cf_Transport cfg = TransportSSH" and "cf_SSH cfg = Some ssh"
  shows "distinct (map sp_ID (s_Peers ssh)) \<and> distinct (map peer_target (dialled (s_Peers ssh))) \<and>
    (\<forall>p \<in> set (s_Peers ssh). ValidateHostID (sp_ID p) = Inr () \<and>
      (cf_Hostname cfg \<noteq> [] \<longrightarrow> sp_ID p \<noteq> cf_Hostname cfg) \<and>
      (sp_Connect p \<longrightarrow> ValidateSSHUser (sp_SSHUser p) = Inr () \<and>
         (\<exists>h. CanonicalSSHHost (sp_SSHHost p) = Inr h) \<and> 1 \<le> sp_SSHPort p \<and> sp_SSHPort p \<le> 65535) \<and>
      (sp_MigrationState p = MigrationStateSSHKeysReady \<and> sp_Enabled p \<and> sp_Connect p \<longrightarrow>
         connect_proof_fields (sp_Proof p) = Inr ()))"
proof -
  from assms have "check_peers (cf_Hostname cfg) True [] [] (s_Peers ssh) = Inr ()"
    by (auto simp: ValidateSSHTransportConfig_def split: if_splits)
  from check_peers_sound [OF this] have c: "distinct (map sp_ID (s_Peers ssh))"
    "\<forall>p \<in> set (s_Peers ssh). validateSSHPeer (cf_Hostname cfg) p True = Inr ()"
    "distinct (map key_of (dialled (s_Peers ssh)))" by auto
  from c(3) have "distinct (map peer_target (dialled (s_Peers ssh)))"
    unfolding distinct_map by (auto simp: inj_on_def dest: key_of_target)
  with c(1,2) validateSSHPeer_active show ?thesis by blast
qed

definition peer_example :: SSHPeer where
  "peer_example = empty_peer\<lparr>sp_ID := ''desk'', sp_SSHHost := ''Desk.example.'', sp_SSHUser := ''me'',
     sp_SSHPort := 22, sp_Enabled := True, sp_Connect := True\<rparr>"

definition config_example :: Config where
  "config_example = empty_config\<lparr>cf_Hostname := ''laptop'', cf_Transport := TransportSSH,
     cf_SSH := Some (empty_ssh\<lparr>s_Peers := [peer_example], s_PeersNil := False\<rparr>)\<rparr>"

lemma config_example_valid: "ValidateSSHTransportConfig config_example = Inr ()"
  by code_simp

theorem validated_transport_wellformed_witness:
  "ValidateHostID (sp_ID peer_example) = Inr () \<and> (\<exists>h. CanonicalSSHHost (sp_SSHHost peer_example) = Inr h)"
  using validated_transport_wellformed [OF config_example_valid]
  by (simp add: config_example_def) (simp add: peer_example_def)

end
