(* ===== verification/Clipfan_Session.thy ===== *)
theory Clipfan_Session
  imports Clipfan_Stream Clipfan_Config
begin

text \<open>
  The runtime of the outgoing SSH streams, \<open>internal/daemon/ssh_session.go\<close>: which peers are
  dialled, the session kept for each, the clip each peer still has to get, and the goroutine that
  serves a session. Sessions are compared by identity in the code, so they live in a heap
  (\<open>m_heap\<close>) and the map \<open>m_sessions\<close> holds references into it. The control state of the
  goroutine of a session is its field \<open>ss_worker\<close>; each rule of \<open>sync_step\<close> is one critical
  section or one turn of its loop. Whether a frame is written, and what the peer sends, is decided
  by the environment.
\<close>

section \<open>State\<close>

record sshSyncPeer =
  y_id :: string
  y_user :: string
  y_host :: string
  y_port :: int
  y_privateKeyPath :: string
  y_knownHostsPath :: string
  y_gatewayPath :: string
  y_connectKeyID :: string
  y_directGateway :: bool

record sshOutboundState =
  o_content :: content
  o_origin :: string

abbreviation clip_id :: "sshOutboundState \<Rightarrow> string" where
  "clip_id st \<equiv> c_ID (o_content st)"

text \<open>
  The variables of \<open>runPeerOnce\<close>: the last sequence number, the clips in flight, whether the
  acknowledgement timer runs. \<open>at_refused\<close> is a history variable: the clips that were
  acknowledged without being accepted or finally rejected.
\<close>

record attempt =
  at_seq :: "64 word"
  at_inflight :: "(64 word \<times> sshOutboundState) list"
  at_armed :: bool
  at_refused :: "sshOutboundState list"

datatype worker =
    WIdle                                \<comment> \<open>head of the loop of \<open>runPeer\<close>\<close>
  | WDial                                \<comment> \<open>command and handshake\<close>
  | WReady                               \<comment> \<open>connected, before \<open>pendingState\<close>\<close>
  | WFlush sshOutboundState attempt      \<comment> \<open>a pending clip is about to be sent\<close>
  | WDrain sshOutboundState attempt      \<comment> \<open>it was sent, its duplicate is about to be drained\<close>
  | WLoop attempt
  | WStopped

record sshPeerSession =
  ss_peer :: sshSyncPeer
  ss_send :: "sshOutboundState list"
  ss_cancelled :: bool
  ss_worker :: worker

record SSHPeerRuntimeState =
  rt_PeerID :: string
  rt_Active :: bool
  rt_Pending :: bool
  rt_Status :: string
  rt_LastConnectTS :: gotime
  rt_LastAckTS :: gotime
  rt_LastRecvTS :: gotime
  rt_LastError :: string
  rt_LastErrorTS :: gotime

definition no_runtime :: SSHPeerRuntimeState where
  "no_runtime = \<lparr>rt_PeerID = [], rt_Active = False, rt_Pending = False, rt_Status = [],
     rt_LastConnectTS = 0, rt_LastAckTS = 0, rt_LastRecvTS = 0, rt_LastError = [], rt_LastErrorTS = 0\<rparr>"

record sshSyncManager =
  m_peers :: "sshSyncPeer list"
  m_sessions :: "(string \<times> nat) list"
  m_heap :: "sshPeerSession list"
  m_pending :: "(string \<times> sshOutboundState) list"
  m_runtime :: "(string \<times> SSHPeerRuntimeState) list"
  m_started :: bool
  m_received :: "(content \<times> string) list"

section \<open>Peers from the configuration\<close>

definition sync_peer :: "SSHConfig \<Rightarrow> SSHPeer \<Rightarrow> sshSyncPeer" where
  "sync_peer ssh peer =
     \<lparr>y_id = sp_ID peer, y_user = sp_SSHUser peer, y_host = sp_SSHHost peer, y_port = sp_SSHPort peer,
      y_privateKeyPath = s_SyncKey ssh, y_knownHostsPath = s_KnownHosts ssh,
      y_gatewayPath = (if sp_GatewayPath peer = [] then pr_ConnectGatewayPath (sp_Proof peer) else sp_GatewayPath peer),
      y_connectKeyID = pr_ConnectKeyID (sp_Proof peer),
      y_directGateway = (pr_ConnectVerifiedBy (sp_Proof peer) = ProofVerifiedByTailscaleSSH)\<rparr>"

definition dials :: "SSHPeer \<Rightarrow> bool" where
  "dials peer \<longleftrightarrow> \<not> (\<not> sp_Enabled peer \<or> \<not> sp_Connect peer \<or> \<not> sp_Persistent peer \<or>
     sp_MigrationState peer \<noteq> MigrationStateSSHKeysReady)"

fun sync_peers_loop :: "SSHConfig \<Rightarrow> sshSyncPeer list \<Rightarrow> SSHPeer list \<Rightarrow> sshSyncPeer list" where
  "sync_peers_loop ssh out [] = out"
| "sync_peers_loop ssh out (peer # peers) =
     (if \<not> dials peer then sync_peers_loop ssh out peers
      else if s_MaxSessions ssh > 0 \<and> int (length out) \<ge> s_MaxSessions ssh then out
      else sync_peers_loop ssh (out @ [sync_peer ssh peer]) peers)"

definition sshSyncPeersFromConfig :: "Config option \<Rightarrow> sshSyncPeer list" where
  "sshSyncPeersFromConfig cfg = (case cfg of
     None \<Rightarrow> []
   | Some c \<Rightarrow>
       (if cf_Transport c \<noteq> TransportSSH then []
        else case cf_SSH c of
          None \<Rightarrow> []
        | Some ssh \<Rightarrow> (if s_SyncKey ssh = [] \<or> s_KnownHosts ssh = [] then []
                       else sync_peers_loop ssh [] (s_Peers ssh))))"

definition newSSHSyncManager :: "Config option \<Rightarrow> sshSyncManager" where
  "newSSHSyncManager cfg =
     \<lparr>m_peers = sshSyncPeersFromConfig cfg, m_sessions = [], m_heap = [], m_pending = [], m_runtime = [],
      m_started = False, m_received = []\<rparr>"

section \<open>Runtime state\<close>

definition pendingContainsLocked :: "string \<Rightarrow> sshSyncManager \<Rightarrow> bool" where
  "pendingContainsLocked peerID m \<longleftrightarrow> map_of (m_pending m) peerID \<noteq> None"

definition sshPeerRuntimeStatus :: "SSHPeerRuntimeState \<Rightarrow> string" where
  "sshPeerRuntimeStatus st =
     (if rt_Active st then (if rt_Pending st then ''syncing'' else ''live'')
      else if rt_Status st = ''connecting'' then ''connecting''
      else if rt_LastError st \<noteq> [] then ''attention''
      else ''waiting'')"

definition ensurePeerRuntimeLocked :: "string \<Rightarrow> sshSyncManager \<Rightarrow> SSHPeerRuntimeState" where
  "ensurePeerRuntimeLocked peerID m =
     (let st = (case map_of (m_runtime m) peerID of Some s \<Rightarrow> s | None \<Rightarrow> no_runtime)
      in if rt_PeerID st = [] then st\<lparr>rt_PeerID := peerID\<rparr> else st)"

definition set_runtime :: "string \<Rightarrow> SSHPeerRuntimeState \<Rightarrow> sshSyncManager \<Rightarrow> sshSyncManager" where
  "set_runtime peerID st m = m\<lparr>m_runtime := AList.update peerID st (m_runtime m)\<rparr>"

definition markPeerConnectingLocked :: "string \<Rightarrow> sshSyncManager \<Rightarrow> sshSyncManager" where
  "markPeerConnectingLocked peerID m = set_runtime peerID
     ((ensurePeerRuntimeLocked peerID m)\<lparr>rt_Active := False, rt_Pending := pendingContainsLocked peerID m,
        rt_Status := ''connecting''\<rparr>) m"

definition markPeerConnectedLocked :: "gotime \<Rightarrow> string \<Rightarrow> sshSyncManager \<Rightarrow> sshSyncManager" where
  "markPeerConnectedLocked now peerID m =
     (let st = (ensurePeerRuntimeLocked peerID m)\<lparr>rt_Active := True, rt_Pending := pendingContainsLocked peerID m,
                 rt_LastConnectTS := now, rt_LastError := [], rt_LastErrorTS := 0\<rparr>
      in set_runtime peerID (st\<lparr>rt_Status := sshPeerRuntimeStatus st\<rparr>) m)"

definition markPeerPendingLocked :: "bool \<Rightarrow> string \<Rightarrow> sshSyncManager \<Rightarrow> sshSyncManager" where
  "markPeerPendingLocked pending peerID m =
     (let st = (ensurePeerRuntimeLocked peerID m)\<lparr>rt_Pending := pending \<or> pendingContainsLocked peerID m\<rparr>
      in set_runtime peerID (st\<lparr>rt_Status := sshPeerRuntimeStatus st\<rparr>) m)"

definition markPeerAckedLocked :: "gotime \<Rightarrow> string \<Rightarrow> sshSyncManager \<Rightarrow> sshSyncManager" where
  "markPeerAckedLocked now peerID m =
     (let st = (ensurePeerRuntimeLocked peerID m)\<lparr>rt_Active := True, rt_Pending := pendingContainsLocked peerID m,
                 rt_LastAckTS := now, rt_LastError := [], rt_LastErrorTS := 0\<rparr>
      in set_runtime peerID (st\<lparr>rt_Status := sshPeerRuntimeStatus st\<rparr>) m)"

definition markPeerReceivedLocked :: "gotime \<Rightarrow> string \<Rightarrow> sshSyncManager \<Rightarrow> sshSyncManager" where
  "markPeerReceivedLocked now peerID m =
     (let st = (ensurePeerRuntimeLocked peerID m)\<lparr>rt_Active := True, rt_Pending := pendingContainsLocked peerID m,
                 rt_LastRecvTS := now, rt_LastError := [], rt_LastErrorTS := 0\<rparr>
      in set_runtime peerID (st\<lparr>rt_Status := sshPeerRuntimeStatus st\<rparr>) m)"

definition markPeerErrorLocked :: "gotime \<Rightarrow> string option \<Rightarrow> string \<Rightarrow> sshSyncManager \<Rightarrow> sshSyncManager" where
  "markPeerErrorLocked now err peerID m =
     (let st = (ensurePeerRuntimeLocked peerID m)\<lparr>rt_Active := False, rt_Pending := pendingContainsLocked peerID m\<rparr>;
          st1 = (case err of None \<Rightarrow> st | Some e \<Rightarrow> st\<lparr>rt_LastError := e, rt_LastErrorTS := now\<rparr>)
      in set_runtime peerID (st1\<lparr>rt_Status := ''attention''\<rparr>) m)"

definition peer_of :: "nat \<Rightarrow> sshSyncManager \<Rightarrow> string" where
  "peer_of ref m = y_id (ss_peer (m_heap m ! ref))"

text \<open>\<open>m.sessions[session.peer.id] == session\<close>, the guard of every \<open>\<dots>IfSessionCurrent\<close>.\<close>

definition session_current :: "nat \<Rightarrow> sshSyncManager \<Rightarrow> bool" where
  "session_current ref m \<longleftrightarrow> map_of (m_sessions m) (peer_of ref m) = Some ref"

definition if_current :: "nat \<Rightarrow> (string \<Rightarrow> sshSyncManager \<Rightarrow> sshSyncManager) \<Rightarrow> sshSyncManager \<Rightarrow> bool \<times> sshSyncManager" where
  "if_current ref act m = (if session_current ref m then (True, act (peer_of ref m) m) else (False, m))"

definition markPeerConnectingIfSessionCurrent :: "nat \<Rightarrow> sshSyncManager \<Rightarrow> bool \<times> sshSyncManager" where
  "markPeerConnectingIfSessionCurrent ref = if_current ref markPeerConnectingLocked"

definition markPeerConnectedIfSessionCurrent :: "nat \<Rightarrow> gotime \<Rightarrow> sshSyncManager \<Rightarrow> bool \<times> sshSyncManager" where
  "markPeerConnectedIfSessionCurrent ref now = if_current ref (markPeerConnectedLocked now)"

definition markPeerPendingIfSessionCurrent :: "nat \<Rightarrow> bool \<Rightarrow> sshSyncManager \<Rightarrow> bool \<times> sshSyncManager" where
  "markPeerPendingIfSessionCurrent ref pending = if_current ref (markPeerPendingLocked pending)"

definition markPeerReceivedIfSessionCurrent :: "nat \<Rightarrow> gotime \<Rightarrow> sshSyncManager \<Rightarrow> bool \<times> sshSyncManager" where
  "markPeerReceivedIfSessionCurrent ref now = if_current ref (markPeerReceivedLocked now)"

definition markPeerErrorIfSessionCurrent :: "nat \<Rightarrow> gotime \<Rightarrow> string option \<Rightarrow> sshSyncManager \<Rightarrow> bool \<times> sshSyncManager" where
  "markPeerErrorIfSessionCurrent ref now err = if_current ref (markPeerErrorLocked now err)"

definition clear_pending :: "sshOutboundState \<Rightarrow> string \<Rightarrow> sshSyncManager \<Rightarrow> sshSyncManager" where
  "clear_pending st peerID m = (case map_of (m_pending m) peerID of
     Some p \<Rightarrow> (if clip_id p = clip_id st
                 then markPeerPendingLocked False peerID (m\<lparr>m_pending := AList.delete peerID (m_pending m)\<rparr>)
                 else m)
   | None \<Rightarrow> m)"

definition clearPendingIfSessionCurrent :: "nat \<Rightarrow> sshOutboundState \<Rightarrow> sshSyncManager \<Rightarrow> bool \<times> sshSyncManager" where
  "clearPendingIfSessionCurrent ref st = if_current ref (clear_pending st)"

definition clearPendingAndMarkAckedIfSessionCurrent ::
  "nat \<Rightarrow> sshOutboundState \<Rightarrow> gotime \<Rightarrow> sshSyncManager \<Rightarrow> bool \<times> sshSyncManager" where
  "clearPendingAndMarkAckedIfSessionCurrent ref st now =
     if_current ref (\<lambda>peerID m. markPeerAckedLocked now peerID (clear_pending st peerID m))"

definition rememberPendingIfSessionCurrent :: "nat \<Rightarrow> sshOutboundState \<Rightarrow> sshSyncManager \<Rightarrow> sshSyncManager" where
  "rememberPendingIfSessionCurrent ref st m =
     snd (if_current ref (\<lambda>peerID m. case map_of (m_pending m) peerID of
        None \<Rightarrow> m\<lparr>m_pending := AList.update peerID st (m_pending m)\<rparr>
      | Some p \<Rightarrow> (if clip_id p = clip_id st then m\<lparr>m_pending := AList.update peerID st (m_pending m)\<rparr> else m)) m)"

definition receiveContentIfSessionCurrent ::
  "nat \<Rightarrow> content \<Rightarrow> string \<Rightarrow> gotime \<Rightarrow> sshSyncManager \<Rightarrow> bool \<times> sshSyncManager" where
  "receiveContentIfSessionCurrent ref c origin now =
     if_current ref (\<lambda>peerID m. markPeerReceivedLocked now peerID (m\<lparr>m_received := m_received m @ [(c, origin)]\<rparr>))"

definition pendingState :: "string \<Rightarrow> sshSyncManager \<Rightarrow> sshOutboundState option" where
  "pendingState peerID m = map_of (m_pending m) peerID"

definition Snapshot :: "sshSyncManager \<Rightarrow> (string \<times> SSHPeerRuntimeState) list" where
  "Snapshot m = foldl (\<lambda>out peer.
     let st = (case map_of (m_runtime m) (y_id peer) of Some s \<Rightarrow> s | None \<Rightarrow> no_runtime);
         st1 = st\<lparr>rt_PeerID := y_id peer, rt_Pending := rt_Pending st \<or> pendingContainsLocked (y_id peer) m\<rparr>
     in AList.update (y_id peer) (st1\<lparr>rt_Status := sshPeerRuntimeStatus st1\<rparr>) out) [] (m_peers m)"

section \<open>The channel of a session\<close>

text \<open>\<open>send\<close> has capacity one.\<close>

definition enqueueLatestSSHState :: "sshOutboundState \<Rightarrow> sshOutboundState list \<Rightarrow> sshOutboundState list" where
  "enqueueLatestSSHState st q =
     (if length q < 1 then q @ [st]
      else let q1 = tl q in if length q1 < 1 then q1 @ [st] else q1)"

definition drainQueuedDuplicateSSHState :: "sshOutboundState \<Rightarrow> sshOutboundState list \<Rightarrow> sshOutboundState list" where
  "drainQueuedDuplicateSSHState st q = (case q of
     [] \<Rightarrow> []
   | queued # rest \<Rightarrow>
       (if clip_id queued \<noteq> clip_id st \<and> length rest < 1 then rest @ [queued] else rest))"

definition upd_session :: "nat \<Rightarrow> (sshPeerSession \<Rightarrow> sshPeerSession) \<Rightarrow> sshSyncManager \<Rightarrow> sshSyncManager" where
  "upd_session ref f m =
     (if ref < length (m_heap m) then m\<lparr>m_heap := (m_heap m)[ref := f (m_heap m ! ref)]\<rparr> else m)"

definition set_worker :: "nat \<Rightarrow> worker \<Rightarrow> sshSyncManager \<Rightarrow> sshSyncManager" where
  "set_worker ref w = upd_session ref (\<lambda>s. s\<lparr>ss_worker := w\<rparr>)"

section \<open>Start, refresh, publish\<close>

definition startPeerLocked :: "sshSyncPeer \<Rightarrow> sshSyncManager \<Rightarrow> sshSyncManager" where
  "startPeerLocked peer m =
     markPeerConnectingLocked (y_id peer)
       (m\<lparr>m_heap := m_heap m @ [\<lparr>ss_peer = peer, ss_send = [], ss_cancelled = False, ss_worker = WIdle\<rparr>],
          m_sessions := AList.update (y_id peer) (length (m_heap m)) (m_sessions m)\<rparr>)"

definition Start :: "sshSyncManager \<Rightarrow> sshSyncManager" where
  "Start m = (if m_started m then m
     else foldl (\<lambda>m peer. startPeerLocked peer m) (m\<lparr>m_started := True\<rparr>) (m_peers m))"

definition refresh_session :: "(string \<times> sshSyncPeer) list \<Rightarrow> sshSyncManager \<Rightarrow> string \<times> nat \<Rightarrow> sshSyncManager" where
  "refresh_session nextByID m e = (case e of (peerID, ref) \<Rightarrow>
     if map_of nextByID peerID = Some (ss_peer (m_heap m ! ref)) then m
     else let m1 = upd_session ref (\<lambda>s. s\<lparr>ss_cancelled := True\<rparr>) m;
              m2 = m1\<lparr>m_sessions := AList.delete peerID (m_sessions m1)\<rparr>
          in if map_of nextByID peerID = None
             then m2\<lparr>m_pending := AList.delete peerID (m_pending m2), m_runtime := AList.delete peerID (m_runtime m2)\<rparr>
             else m2)"

definition start_missing :: "sshSyncManager \<Rightarrow> sshSyncPeer \<Rightarrow> sshSyncManager" where
  "start_missing m peer = (if map_of (m_sessions m) (y_id peer) \<noteq> None then m else startPeerLocked peer m)"

definition Refresh :: "Config option \<Rightarrow> sshSyncManager \<Rightarrow> sshSyncManager" where
  "Refresh cfg m =
     (let nextPeers = sshSyncPeersFromConfig cfg;
          nextByID = foldl (\<lambda>acc p. AList.update (y_id p) p acc) [] nextPeers;
          m1 = foldl (refresh_session nextByID) (m\<lparr>m_peers := nextPeers\<rparr>) (m_sessions m)
      in if m_started m1 then foldl start_missing m1 nextPeers else m1)"

definition publish_to :: "sshOutboundState \<Rightarrow> string \<Rightarrow> sshSyncManager \<Rightarrow> sshSyncManager" where
  "publish_to st peerID m =
     (let m1 = markPeerPendingLocked True peerID (m\<lparr>m_pending := AList.update peerID st (m_pending m)\<rparr>)
      in case map_of (m_sessions m1) peerID of
           None \<Rightarrow> m1
         | Some ref \<Rightarrow> upd_session ref (\<lambda>s. s\<lparr>ss_send := enqueueLatestSSHState st (ss_send s)\<rparr>) m1)"

definition publish_loop :: "sshOutboundState \<Rightarrow> string \<Rightarrow> string list \<Rightarrow> sshSyncManager \<Rightarrow> sshSyncManager" where
  "publish_loop st skipOrigin ids m =
     foldl (\<lambda>m i. if skipOrigin \<noteq> [] \<and> HostsMatch i skipOrigin then m else publish_to st i m) m ids"

text \<open>\<open>Publish\<close>: the configured peers, then the sessions none of them stands for.\<close>

definition Publish :: "content \<Rightarrow> string \<Rightarrow> string \<Rightarrow> sshSyncManager \<Rightarrow> sshSyncManager" where
  "Publish c origin skipOrigin m =
     (if int (length (c_Bytes c)) > MaxSSHStreamPayloadBytes then m
      else let st = \<lparr>o_content = c, o_origin = origin\<rparr>;
               visited = filter (\<lambda>i. \<not> (skipOrigin \<noteq> [] \<and> HostsMatch i skipOrigin)) (map y_id (m_peers m));
               m1 = publish_loop st skipOrigin (map y_id (m_peers m)) m
           in publish_loop st skipOrigin (filter (\<lambda>i. i \<notin> set visited) (map fst (m_sessions m))) m1)"

section \<open>Acknowledgements\<close>

definition qualifyingSSHStreamAck :: "SSHStreamAckResult \<Rightarrow> sshOutboundState \<Rightarrow> bool" where
  "qualifyingSSHStreamAck ack st =
     (if clip_id st = [] then ar_ID ack = [] \<and> ar_Status ack = ''no_state''
      else if ar_ID ack \<noteq> clip_id st then False
      else ar_Status ack \<in> {''applied'', ''ignored_seen'', ''ignored_echo''})"

definition handleSSHStreamAck ::
  "nat \<Rightarrow> gotime \<Rightarrow> SSHStreamAckResult \<Rightarrow> attempt \<Rightarrow> sshSyncManager \<Rightarrow> bool \<times> attempt \<times> sshSyncManager" where
  "handleSSHStreamAck ref now ack at m = (case map_of (at_inflight at) (ar_Seq ack) of
     None \<Rightarrow> (False, at, m)
   | Some st \<Rightarrow>
       (let at1 = at\<lparr>at_inflight := AList.delete (ar_Seq ack) (at_inflight at)\<rparr>
        in if qualifyingSSHStreamAck ack st
           then (True, at1, snd (clearPendingAndMarkAckedIfSessionCurrent ref st now m))
           else if ar_Status ack = ''rejected'' \<and> ar_ID ack = clip_id st
           then (True, at1, snd (clearPendingIfSessionCurrent ref st m))
           else (True, at1\<lparr>at_refused := st # at_refused at1\<rparr>, m)))"

definition resetAckTimerAfterAck :: "bool \<Rightarrow> attempt \<Rightarrow> attempt" where
  "resetAckTimerAfterAck removed at =
     (if \<not> removed then at else at\<lparr>at_armed := (at_inflight at \<noteq> [])\<rparr>)"

section \<open>One attempt\<close>

definition new_attempt :: attempt where
  "new_attempt = \<lparr>at_seq = 0, at_inflight = [], at_armed = False, at_refused = []\<rparr>"

definition armAckTimerIfIdle :: "bool \<Rightarrow> attempt \<Rightarrow> attempt" where
  "armAckTimerIfIdle wasIdle at =
     (if \<not> wasIdle \<or> at_inflight at = [] \<or> at_armed at then at else at\<lparr>at_armed := True\<rparr>)"

text \<open>\<open>sendState\<close>: \<open>ok\<close> tells whether the frame was written. \<open>None\<close> is a returned error.\<close>

definition sendState ::
  "nat \<Rightarrow> bool \<Rightarrow> sshOutboundState \<Rightarrow> attempt \<Rightarrow> sshSyncManager \<Rightarrow> attempt option \<times> sshSyncManager" where
  "sendState ref ok st at m =
     (let seq = at_seq at + 1; wasIdle = (at_inflight at = [])
      in case markPeerPendingIfSessionCurrent ref True m of
           (False, m1) \<Rightarrow> (None, m1)
         | (True, m1) \<Rightarrow>
             (if \<not> ok then (None, rememberPendingIfSessionCurrent ref st m1)
              else (Some (armAckTimerIfIdle wasIdle
                      (at\<lparr>at_seq := seq, at_inflight := AList.update seq st (at_inflight at)\<rparr>)), m1)))"

text \<open>One turn of \<open>readPeerEvents\<close>: the acknowledgement to write, or the one to hand to the loop.\<close>

datatype read_outcome = WriteAckFrame "64 word" string string | DeliverAck SSHStreamAckResult | ReadFails string

definition readPeerEvent :: "nat \<Rightarrow> gotime \<Rightarrow> SSHStreamEvent \<Rightarrow> sshSyncManager \<Rightarrow> read_outcome \<times> sshSyncManager" where
  "readPeerEvent ref now ev m = (case ev of
     StateEvent r \<Rightarrow>
       (if sr_NullReason r = [] then
          (case sr_Content r of
             None \<Rightarrow> (WriteAckFrame (sr_Seq r) [] ''no_state'', m)
           | Some c \<Rightarrow>
               (case receiveContentIfSessionCurrent ref c (sr_Origin r) now m of
                  (False, m1) \<Rightarrow> (ReadFails ''context canceled'', m1)
                | (True, m1) \<Rightarrow> (WriteAckFrame (sr_Seq r) (c_ID c) ''applied'', m1)))
        else (WriteAckFrame (sr_Seq r) [] ''no_state'', m))
   | AckEvent a \<Rightarrow> (DeliverAck a, m)
   | ErrorEvent code \<Rightarrow> (ReadFails (''ssh stream error frame: '' @ code), m))"

text \<open>The end of an attempt in \<open>runPeer\<close>: a cancelled session stops, another one records the error
  and dials again.\<close>

definition end_attempt :: "nat \<Rightarrow> gotime \<Rightarrow> string \<Rightarrow> sshSyncManager \<Rightarrow> sshSyncManager" where
  "end_attempt ref now err m =
     (if ss_cancelled (m_heap m ! ref) then set_worker ref WStopped m
      else set_worker ref WIdle (snd (markPeerErrorIfSessionCurrent ref now (Some err) m)))"

definition after_send :: "nat \<Rightarrow> gotime \<Rightarrow> (attempt \<Rightarrow> worker) \<Rightarrow> attempt option \<times> sshSyncManager \<Rightarrow> sshSyncManager" where
  "after_send ref now w r = (case r of
     (None, m) \<Rightarrow> end_attempt ref now ''write'' m | (Some at, m) \<Rightarrow> set_worker ref (w at) m)"

abbreviation worker_at :: "sshSyncManager \<Rightarrow> nat \<Rightarrow> worker" where
  "worker_at m ref \<equiv> ss_worker (m_heap m ! ref)"

text \<open>A session sends fewer than \<open>2 ^ 64\<close> frames, so that \<open>seq\<close> does not come round.\<close>

inductive sync_step :: "sshSyncManager \<Rightarrow> sshSyncManager \<Rightarrow> bool" where
  sync_publish: "sync_step m (Publish c origin skipOrigin m)"
| sync_refresh: "sync_step m (Refresh cfg m)"
| sync_start: "sync_step m (Start m)"
| sync_begin: "ref < length (m_heap m) \<Longrightarrow> worker_at m ref = WIdle \<Longrightarrow>
    markPeerConnectingIfSessionCurrent ref m = (b, m1) \<Longrightarrow>
    sync_step m (set_worker ref (if b then WDial else WStopped) m1)"
| sync_connected: "ref < length (m_heap m) \<Longrightarrow> worker_at m ref = WDial \<Longrightarrow>
    markPeerConnectedIfSessionCurrent ref now m = (b, m1) \<Longrightarrow>
    sync_step m (if b then set_worker ref WReady m1 else end_attempt ref now ''context canceled'' m1)"
| sync_pending: "ref < length (m_heap m) \<Longrightarrow> worker_at m ref = WReady \<Longrightarrow>
    sync_step m (set_worker ref (case pendingState (peer_of ref m) m of
      Some st \<Rightarrow> WFlush st new_attempt | None \<Rightarrow> WLoop new_attempt) m)"
| sync_flush: "ref < length (m_heap m) \<Longrightarrow> worker_at m ref = WFlush st at \<Longrightarrow>
    sync_step m (after_send ref now (WDrain st) (sendState ref ok st at m))"
| sync_drain: "ref < length (m_heap m) \<Longrightarrow> worker_at m ref = WDrain st at \<Longrightarrow>
    sync_step m (set_worker ref (WLoop at)
      (upd_session ref (\<lambda>s. s\<lparr>ss_send := drainQueuedDuplicateSSHState st (ss_send s)\<rparr>) m))"
| sync_send: "ref < length (m_heap m) \<Longrightarrow> worker_at m ref = WLoop at \<Longrightarrow> ss_send (m_heap m ! ref) = st # rest \<Longrightarrow>
    unat (at_seq at) < 2 ^ 64 - 1 \<Longrightarrow>
    sync_step m (after_send ref now WLoop
      (sendState ref ok st at (upd_session ref (\<lambda>s. s\<lparr>ss_send := rest\<rparr>) m)))"
| sync_ack: "ref < length (m_heap m) \<Longrightarrow> worker_at m ref = WLoop at \<Longrightarrow>
    handleSSHStreamAck ref now ack at m = (removed, at1, m1) \<Longrightarrow>
    sync_step m (set_worker ref (WLoop (resetAckTimerAfterAck removed at1)) m1)"
| sync_receive: "ref < length (m_heap m) \<Longrightarrow> worker_at m ref \<notin> {WIdle, WDial, WStopped} \<Longrightarrow>
    sync_step m (snd (readPeerEvent ref now ev m))"
| sync_fail: "ref < length (m_heap m) \<Longrightarrow> worker_at m ref \<notin> {WIdle, WStopped} \<Longrightarrow>
    sync_step m (end_attempt ref now err m)"

inductive_cases sync_stepE: "sync_step m m'"

inductive sync_reach :: "sshSyncManager \<Rightarrow> sshSyncManager \<Rightarrow> bool" where
  sync_start_state: "sync_reach m m"
| sync_next: "sync_reach m m1 \<Longrightarrow> sync_step m1 m2 \<Longrightarrow> sync_reach m m2"

section \<open>The invariant\<close>

definition has_id :: "string \<Rightarrow> sshOutboundState list \<Rightarrow> bool" where
  "has_id i l \<longleftrightarrow> i \<in> clip_id ` set l"

definition in_flight :: "string \<Rightarrow> attempt \<Rightarrow> bool" where
  "in_flight i at \<longleftrightarrow> has_id i (map snd (at_inflight at))"

text \<open>Where a clip that is pending can be, for each control state of the goroutine.\<close>

definition covered :: "sshPeerSession \<Rightarrow> string \<Rightarrow> bool" where
  "covered s i = (case ss_worker s of
     WFlush x at \<Rightarrow> clip_id x = i \<or> has_id i (ss_send s)
   | WDrain x at \<Rightarrow> has_id i (ss_send s) \<or> in_flight i at
   | WLoop at \<Rightarrow> has_id i (ss_send s) \<or> in_flight i at \<or> has_id i (at_refused at)
   | WStopped \<Rightarrow> False
   | _ \<Rightarrow> True)"

definition attempt_ok :: "attempt \<Rightarrow> bool" where
  "attempt_ok at \<longleftrightarrow> distinct (map fst (at_inflight at)) \<and>
     (\<forall>k \<in> fst ` set (at_inflight at). k \<le> at_seq at) \<and> (at_armed at \<longleftrightarrow> at_inflight at \<noteq> [])"

definition worker_ok :: "worker \<Rightarrow> bool" where
  "worker_ok w = (case w of
     WFlush x at \<Rightarrow> at = new_attempt
   | WDrain x at \<Rightarrow> attempt_ok at \<and> in_flight (clip_id x) at
   | WLoop at \<Rightarrow> attempt_ok at
   | _ \<Rightarrow> True)"

definition session_ok :: "sshPeerSession \<Rightarrow> bool" where
  "session_ok s \<longleftrightarrow> length (ss_send s) \<le> 1 \<and> worker_ok (ss_worker s)"

definition slot_ok :: "sshPeerSession list \<Rightarrow> (string \<times> sshOutboundState) list \<Rightarrow> string \<Rightarrow> nat \<Rightarrow> bool" where
  "slot_ok heap pending p ref \<longleftrightarrow> ref < length heap \<and> y_id (ss_peer (heap ! ref)) = p \<and>
     \<not> ss_cancelled (heap ! ref) \<and> ss_worker (heap ! ref) \<noteq> WStopped \<and>
     (case map_of pending p of None \<Rightarrow> True | Some st \<Rightarrow> covered (heap ! ref) (clip_id st))"

definition sync_ok :: "sshSyncManager \<Rightarrow> bool" where
  "sync_ok m \<longleftrightarrow> (\<forall>s \<in> set (m_heap m). session_ok s) \<and> distinct (map fst (m_sessions m)) \<and>
     (\<forall>p ref. map_of (m_sessions m) p = Some ref \<longrightarrow> slot_ok (m_heap m) (m_pending m) p ref)"

lemma sync_okI:
  "(\<And>s. s \<in> set (m_heap m) \<Longrightarrow> session_ok s) \<Longrightarrow> distinct (map fst (m_sessions m)) \<Longrightarrow>
   (\<And>p ref. map_of (m_sessions m) p = Some ref \<Longrightarrow> slot_ok (m_heap m) (m_pending m) p ref) \<Longrightarrow> sync_ok m"
  unfolding sync_ok_def by blast

lemma sync_okD:
  assumes "sync_ok m"
  shows "s \<in> set (m_heap m) \<Longrightarrow> session_ok s" and "distinct (map fst (m_sessions m))"
    and "map_of (m_sessions m) p = Some ref \<Longrightarrow> slot_ok (m_heap m) (m_pending m) p ref"
  using assms unfolding sync_ok_def by blast+

section \<open>Frames\<close>

lemma sync_ok_cong:
  "m_heap m' = m_heap m \<Longrightarrow> m_sessions m' = m_sessions m \<Longrightarrow> m_pending m' = m_pending m \<Longrightarrow> sync_ok m' = sync_ok m"
  by (simp only: sync_ok_def)

definition same_core :: "sshSyncManager \<Rightarrow> sshSyncManager \<Rightarrow> bool" where
  "same_core m' m \<longleftrightarrow> m_heap m' = m_heap m \<and> m_sessions m' = m_sessions m \<and> m_pending m' = m_pending m \<and>
     m_started m' = m_started m \<and> m_peers m' = m_peers m"

lemma same_core_ok: "same_core m' m \<Longrightarrow> sync_ok m' = sync_ok m"
  unfolding same_core_def by (intro sync_ok_cong) simp_all

lemma mark_core [simp]:
  "same_core (set_runtime p st m) m" "same_core (markPeerConnectingLocked p m) m"
  "same_core (markPeerConnectedLocked t p m) m" "same_core (markPeerPendingLocked b p m) m"
  "same_core (markPeerAckedLocked t p m) m" "same_core (markPeerReceivedLocked t p m) m"
  "same_core (markPeerErrorLocked t e p m) m"
  by (simp_all add: same_core_def set_runtime_def markPeerConnectingLocked_def markPeerConnectedLocked_def
      markPeerPendingLocked_def markPeerAckedLocked_def markPeerReceivedLocked_def markPeerErrorLocked_def Let_def)

lemma if_current_core:
  "(\<And>p m. same_core (act p m) m) \<Longrightarrow> same_core (snd (if_current ref act m)) m"
  by (simp add: if_current_def) (simp add: same_core_def)

lemma mark_current_core [simp]:
  "same_core (snd (markPeerConnectingIfSessionCurrent ref m)) m"
  "same_core (snd (markPeerConnectedIfSessionCurrent ref t m)) m"
  "same_core (snd (markPeerPendingIfSessionCurrent ref b m)) m"
  "same_core (snd (markPeerErrorIfSessionCurrent ref t e m)) m"
  by (simp_all add: markPeerConnectingIfSessionCurrent_def markPeerConnectedIfSessionCurrent_def
      markPeerPendingIfSessionCurrent_def markPeerErrorIfSessionCurrent_def if_current_core)

lemma same_core_trans: "same_core a b \<Longrightarrow> same_core b c \<Longrightarrow> same_core a c"
  by (simp add: same_core_def)

lemma same_core_session_current: "same_core m' m \<Longrightarrow> session_current ref m' = session_current ref m"
  by (simp add: same_core_def session_current_def peer_of_def)

lemma same_core_peer_of: "same_core m' m \<Longrightarrow> peer_of ref m' = peer_of ref m"
  by (simp add: same_core_def peer_of_def)

section \<open>Changing one session\<close>

lemma upd_session_ok:
  assumes ok: "sync_ok m" and ref: "ref < length (m_heap m)"
    and s': "s' = f (m_heap m ! ref)" "ss_peer s' = ss_peer (m_heap m ! ref)" "session_ok s'"
    and cur: "session_current ref m \<Longrightarrow> \<not> ss_cancelled s' \<and> ss_worker s' \<noteq> WStopped \<and>
      (\<forall>st. map_of (m_pending m) (peer_of ref m) = Some st \<longrightarrow> covered s' (clip_id st))"
  shows "sync_ok (upd_session ref f m)"
proof -
  let ?h = "(m_heap m)[ref := s']"
  have m: "upd_session ref f m = m\<lparr>m_heap := ?h\<rparr>" using ref s'(1) by (simp add: upd_session_def)
  show ?thesis unfolding m
  proof (rule sync_okI)
    fix s assume "s \<in> set (m_heap (m\<lparr>m_heap := ?h\<rparr>))"
    then have "s \<in> insert s' (set (m_heap m))" using set_update_subset_insert by fastforce
    then show "session_ok s" using s'(3) sync_okD(1) [OF ok] by blast
  next
    show "distinct (map fst (m_sessions (m\<lparr>m_heap := ?h\<rparr>)))" using sync_okD(2) [OF ok] by simp
  next
    fix q r assume "map_of (m_sessions (m\<lparr>m_heap := ?h\<rparr>)) q = Some r"
    then have q: "map_of (m_sessions m) q = Some r" by simp
    have sl: "slot_ok (m_heap m) (m_pending m) q r" by (rule sync_okD(3) [OF ok q])
    show "slot_ok (m_heap (m\<lparr>m_heap := ?h\<rparr>)) (m_pending (m\<lparr>m_heap := ?h\<rparr>)) q r"
    proof (cases "r = ref")
      case True
      with sl have p: "peer_of ref m = q" by (simp add: slot_ok_def peer_of_def)
      with True q have "session_current ref m" by (simp add: session_current_def)
      from cur [OF this] True ref p s'(2) show ?thesis
        by (simp add: slot_ok_def peer_of_def split: option.splits)
    next
      case False
      with sl show ?thesis by (simp add: slot_ok_def split: option.splits)
    qed
  qed
qed

lemma session_okD: "sync_ok m \<Longrightarrow> ref < length (m_heap m) \<Longrightarrow> session_ok (m_heap m ! ref)"
  using sync_okD(1) nth_mem by blast

lemma currentD:
  assumes "sync_ok m" and "session_current ref m"
  shows "\<not> ss_cancelled (m_heap m ! ref)" and "worker_at m ref \<noteq> WStopped" and "ref < length (m_heap m)"
    and "map_of (m_pending m) (peer_of ref m) = Some st \<Longrightarrow> covered (m_heap m ! ref) (clip_id st)"
  using sync_okD(3) [OF assms(1) assms(2) [unfolded session_current_def]] by (simp_all add: slot_ok_def)

lemma set_worker_ok:
  assumes "sync_ok m" and "ref < length (m_heap m)" and "worker_ok w"
    and "session_current ref m \<Longrightarrow> w \<noteq> WStopped \<and>
      (\<forall>st. map_of (m_pending m) (peer_of ref m) = Some st \<longrightarrow>
         covered ((m_heap m ! ref)\<lparr>ss_worker := w\<rparr>) (clip_id st))"
  shows "sync_ok (set_worker ref w m)"
proof -
  have so: "session_ok (m_heap m ! ref)" by (rule session_okD [OF assms(1,2)])
  show ?thesis unfolding set_worker_def
  proof (rule upd_session_ok [OF assms(1,2) refl])
    show "session_ok ((m_heap m ! ref)\<lparr>ss_worker := w\<rparr>)" using so assms(3) by (simp add: session_ok_def)
    assume c: "session_current ref m"
    show "\<not> ss_cancelled ((m_heap m ! ref)\<lparr>ss_worker := w\<rparr>) \<and>
        ss_worker ((m_heap m ! ref)\<lparr>ss_worker := w\<rparr>) \<noteq> WStopped \<and>
        (\<forall>st. map_of (m_pending m) (peer_of ref m) = Some st \<longrightarrow>
           covered ((m_heap m ! ref)\<lparr>ss_worker := w\<rparr>) (clip_id st))"
      using assms(4) [OF c] currentD(1) [OF assms(1) c] by simp
  qed simp
qed

section \<open>Changing the pending clips\<close>

lemma pending_delete_ok:
  assumes "sync_ok m" shows "sync_ok (m\<lparr>m_pending := AList.delete p (m_pending m)\<rparr>)"
proof (rule sync_okI)
  fix q r assume "map_of (m_sessions (m\<lparr>m_pending := AList.delete p (m_pending m)\<rparr>)) q = Some r"
  then have "slot_ok (m_heap m) (m_pending m) q r" using sync_okD(3) [OF assms] by simp
  then show "slot_ok (m_heap (m\<lparr>m_pending := AList.delete p (m_pending m)\<rparr>))
      (m_pending (m\<lparr>m_pending := AList.delete p (m_pending m)\<rparr>)) q r"
    by (simp add: slot_ok_def delete_conv' split: option.splits)
qed (use sync_okD [OF assms] in simp_all)

lemma pending_update_ok:
  assumes "sync_ok m"
    and "\<And>ref. map_of (m_sessions m) p = Some ref \<Longrightarrow> covered (m_heap m ! ref) (clip_id st)"
  shows "sync_ok (m\<lparr>m_pending := AList.update p st (m_pending m)\<rparr>)"
proof (rule sync_okI)
  fix q r assume "map_of (m_sessions (m\<lparr>m_pending := AList.update p st (m_pending m)\<rparr>)) q = Some r"
  then have "slot_ok (m_heap m) (m_pending m) q r" "q = p \<Longrightarrow> covered (m_heap m ! r) (clip_id st)"
    using sync_okD(3) [OF assms(1)] assms(2) by simp_all
  then show "slot_ok (m_heap (m\<lparr>m_pending := AList.update p st (m_pending m)\<rparr>))
      (m_pending (m\<lparr>m_pending := AList.update p st (m_pending m)\<rparr>)) q r"
    by (simp add: slot_ok_def update_conv' split: option.splits)
qed (use sync_okD [OF assms(1)] in simp_all)

lemma clear_pending_ok: "sync_ok m \<Longrightarrow> sync_ok (clear_pending st p m)"
  by (simp add: clear_pending_def same_core_ok [OF mark_core(4)] pending_delete_ok split: option.splits)

lemma clear_pending_frame:
  "m_heap (clear_pending st p m) = m_heap m" "m_sessions (clear_pending st p m) = m_sessions m"
  "map_of (m_pending (clear_pending st p m)) p = Some x \<Longrightarrow> map_of (m_pending m) p = Some x \<and> clip_id x \<noteq> clip_id st"
  by (auto simp: clear_pending_def delete_conv' markPeerPendingLocked_def set_runtime_def Let_def
      split: option.splits if_splits)

section \<open>Start, refresh, publish keep the invariant\<close>

lemma startPeerLocked_ok:
  assumes "sync_ok m" shows "sync_ok (startPeerLocked peer m)"
proof -
  let ?s = "\<lparr>ss_peer = peer, ss_send = [], ss_cancelled = False, ss_worker = WIdle\<rparr>"
  let ?m = "m\<lparr>m_heap := m_heap m @ [?s], m_sessions := AList.update (y_id peer) (length (m_heap m)) (m_sessions m)\<rparr>"
  have "sync_ok ?m"
  proof (rule sync_okI)
    show "session_ok s" if "s \<in> set (m_heap ?m)" for s
      using that sync_okD(1) [OF assms] by (auto simp: session_ok_def worker_ok_def)
    show "distinct (map fst (m_sessions ?m))" using sync_okD(2) [OF assms] by (simp add: distinct_update)
    fix p ref assume h: "map_of (m_sessions ?m) p = Some ref"
    show "slot_ok (m_heap ?m) (m_pending ?m) p ref"
    proof (cases "p = y_id peer")
      case True
      with h have "ref = length (m_heap m)" by (simp add: update_conv')
      with True show ?thesis by (simp add: slot_ok_def covered_def split: option.splits)
    next
      case False
      with h have "slot_ok (m_heap m) (m_pending m) p ref" using sync_okD(3) [OF assms] by (simp add: update_conv')
      then show ?thesis by (simp add: slot_ok_def nth_append split: option.splits)
    qed
  qed
  then show ?thesis unfolding startPeerLocked_def by (simp add: same_core_ok [OF mark_core(2)])
qed

lemma foldl_keeps: "P m \<Longrightarrow> (\<And>m x. x \<in> set xs \<Longrightarrow> P m \<Longrightarrow> P (f m x)) \<Longrightarrow> P (foldl f m xs)"
  by (induction xs arbitrary: m) auto

lemma sync_ok_fields [simp]:
  "sync_ok (m\<lparr>m_started := b\<rparr>) = sync_ok m" "sync_ok (m\<lparr>m_peers := ps\<rparr>) = sync_ok m"
  "sync_ok (m\<lparr>m_runtime := rs\<rparr>) = sync_ok m" "sync_ok (m\<lparr>m_received := r\<rparr>) = sync_ok m"
  by (rule sync_ok_cong; simp)+

lemma Start_ok: "sync_ok m \<Longrightarrow> sync_ok (Start m)"
  by (simp add: Start_def foldl_keeps startPeerLocked_ok)


lemma session_delete_ok:
  assumes "sync_ok m" shows "sync_ok (m\<lparr>m_sessions := AList.delete p (m_sessions m)\<rparr>)"
proof (rule sync_okI)
  show "distinct (map fst (m_sessions (m\<lparr>m_sessions := AList.delete p (m_sessions m)\<rparr>)))"
    using sync_okD(2) [OF assms] by (simp add: distinct_delete)
  fix q r assume "map_of (m_sessions (m\<lparr>m_sessions := AList.delete p (m_sessions m)\<rparr>)) q = Some r"
  then have "map_of (m_sessions m) q = Some r" by (simp add: delete_conv' split: if_splits)
  from sync_okD(3) [OF assms this]
  show "slot_ok (m_heap (m\<lparr>m_sessions := AList.delete p (m_sessions m)\<rparr>))
      (m_pending (m\<lparr>m_sessions := AList.delete p (m_sessions m)\<rparr>)) q r" by simp
qed (use sync_okD(1) [OF assms] in simp)

lemma refresh_session_ok:
  assumes "sync_ok m" and ref: "ref < length (m_heap m)" and p: "peer_of ref m = p"
  shows "sync_ok (refresh_session nb m (p, ref))"
proof (cases "map_of nb p = Some (ss_peer (m_heap m ! ref))")
  case False
  let ?f = "\<lambda>s. s\<lparr>ss_cancelled := True\<rparr>"
  let ?m1 = "m\<lparr>m_sessions := AList.delete p (m_sessions m)\<rparr>"
  let ?m2 = "upd_session ref ?f ?m1"
  have so: "session_ok (?f (m_heap ?m1 ! ref))"
    using session_okD [OF assms(1) ref] by (simp add: session_ok_def)
  have nc: "\<not> session_current ref ?m1" using p by (simp add: session_current_def peer_of_def delete_conv')
  have "sync_ok ?m2"
    by (rule upd_session_ok [where f = ?f and s' = "?f (m_heap ?m1 ! ref)"])
      (use ref nc so session_delete_ok [OF assms(1)] in simp_all)
  moreover have "(upd_session ref ?f m)\<lparr>m_sessions := AList.delete p (m_sessions (upd_session ref ?f m))\<rparr> = ?m2"
    using ref by (simp add: upd_session_def)
  ultimately show ?thesis
    using False pending_delete_ok [of ?m2 p] by (simp add: refresh_session_def Let_def)
qed (simp add: refresh_session_def assms)

lemma refresh_session_heap:
  "length (m_heap (refresh_session nb m e)) = length (m_heap m)"
  "peer_of r (refresh_session nb m e) = peer_of r m"
  by (auto simp: refresh_session_def upd_session_def peer_of_def Let_def nth_list_update split: prod.splits)

lemma Refresh_ok:
  assumes "sync_ok m" shows "sync_ok (Refresh cfg m)"
proof -
  let ?nps = "sshSyncPeersFromConfig cfg"
  let ?nb = "foldl (\<lambda>acc p. AList.update (y_id p) p acc) [] ?nps"
  let ?P = "\<lambda>m'. sync_ok m' \<and> (\<forall>e \<in> set (m_sessions m). snd e < length (m_heap m') \<and> peer_of (snd e) m' = fst e)"
  have start: "?P (m\<lparr>m_peers := ?nps\<rparr>)"
  proof -
    have "snd e < length (m_heap m) \<and> peer_of (snd e) m = fst e" if "e \<in> set (m_sessions m)" for e
      using sync_okD(3) [OF assms, of "fst e" "snd e"] that sync_okD(2) [OF assms]
      by (simp add: slot_ok_def peer_of_def)
    then show ?thesis using assms by (simp add: peer_of_def)
  qed
  have "?P (foldl (refresh_session ?nb) (m\<lparr>m_peers := ?nps\<rparr>) (m_sessions m))"
  proof (rule foldl_keeps [where P = ?P, OF start])
    fix m' e assume e: "e \<in> set (m_sessions m)" and h: "?P m'"
    then have "sync_ok (refresh_session ?nb m' (fst e, snd e))" by (intro refresh_session_ok) auto
    then show "?P (refresh_session ?nb m' e)" using h by (simp add: refresh_session_heap)
  qed
  then have "sync_ok (foldl (refresh_session ?nb) (m\<lparr>m_peers := ?nps\<rparr>) (m_sessions m))" by blast
  then show ?thesis
    unfolding Refresh_def Let_def
    by (simp add: foldl_keeps [where P = sync_ok] start_missing_def startPeerLocked_ok)
qed

lemma enqueue_latest: "length q \<le> 1 \<Longrightarrow> enqueueLatestSSHState st q = [st]"
  by (cases q) (simp_all add: enqueueLatestSSHState_def)

lemma covered_queued: "has_id i (ss_send s) \<Longrightarrow> ss_worker s \<noteq> WStopped \<Longrightarrow> covered s i"
  by (simp add: covered_def split: worker.splits)

lemma publish_to_ok:
  assumes ok: "sync_ok m" shows "sync_ok (publish_to st p m)"
proof (cases "map_of (m_sessions m) p")
  case None
  then have "sync_ok (m\<lparr>m_pending := AList.update p st (m_pending m)\<rparr>)" by (intro pending_update_ok ok) simp
  then show ?thesis using None
    by (simp add: publish_to_def Let_def same_core_ok [OF mark_core(4)])
      (simp add: markPeerPendingLocked_def set_runtime_def Let_def)
next
  case (Some ref)
  have sl: "slot_ok (m_heap m) (m_pending m) p ref" by (rule sync_okD(3) [OF ok Some])
  then have ref: "ref < length (m_heap m)" by (simp add: slot_ok_def)
  let ?s = "(m_heap m ! ref)\<lparr>ss_send := [st]\<rparr>"
  let ?m = "m\<lparr>m_pending := AList.update p st (m_pending m), m_heap := (m_heap m)[ref := ?s]\<rparr>"
  have q: "enqueueLatestSSHState st (ss_send (m_heap m ! ref)) = [st]"
    using session_okD [OF ok ref] by (simp add: session_ok_def enqueue_latest)
  have "same_core (publish_to st p m) ?m"
    using Some ref q
    by (simp add: publish_to_def Let_def markPeerPendingLocked_def set_runtime_def upd_session_def same_core_def)
  moreover have "sync_ok ?m"
  proof (rule sync_okI)
    fix s assume "s \<in> set (m_heap ?m)"
    then have "s \<in> insert ?s (set (m_heap m))" using set_update_subset_insert by fastforce
    then show "session_ok s"
      using sync_okD(1) [OF ok] session_okD [OF ok ref] by (auto simp: session_ok_def)
  next
    fix q r assume "map_of (m_sessions ?m) q = Some r"
    then have h: "map_of (m_sessions m) q = Some r" by simp
    note slq = sync_okD(3) [OF ok h]
    show "slot_ok (m_heap ?m) (m_pending ?m) q r"
    proof (cases "q = p")
      case True
      with h Some have "r = ref" by simp
      with True sl ref show ?thesis
        by (simp add: slot_ok_def update_conv' covered_queued has_id_def)
    next
      case False
      with sl slq have "r \<noteq> ref" by (auto simp: slot_ok_def)
      with slq False show ?thesis by (simp add: slot_ok_def update_conv' split: option.splits)
    qed
  qed (use sync_okD(2) [OF ok] in simp)
  ultimately show ?thesis by (simp add: same_core_ok)
qed

lemma publish_loop_ok: "sync_ok m \<Longrightarrow> sync_ok (publish_loop st sk ids m)"
  unfolding publish_loop_def
  by (rule foldl_keeps [where P = sync_ok]) (simp_all add: publish_to_ok)

lemma Publish_ok: "sync_ok m \<Longrightarrow> sync_ok (Publish c o' sk m)"
  by (simp add: Publish_def Let_def publish_loop_ok)


section \<open>The steps of a goroutine keep the invariant\<close>

lemma end_attempt_ok:
  assumes "sync_ok m" and "ref < length (m_heap m)" shows "sync_ok (end_attempt ref t e m)"
proof (cases "ss_cancelled (m_heap m ! ref)")
  case True
  then have "\<not> session_current ref m" using currentD(1) [OF assms(1)] by blast
  then have "sync_ok (set_worker ref WStopped m)" by (intro set_worker_ok assms) (simp_all add: worker_ok_def)
  then show ?thesis using True by (simp add: end_attempt_def)
next
  case False
  let ?m = "snd (markPeerErrorIfSessionCurrent ref t (Some e) m)"
  have c: "same_core ?m m" by simp
  then have "sync_ok ?m" "ref < length (m_heap ?m)" using assms same_core_ok [OF c] by (simp_all add: same_core_def)
  then have "sync_ok (set_worker ref WIdle ?m)" by (intro set_worker_ok) (simp_all add: worker_ok_def covered_def)
  then show ?thesis using False by (simp add: end_attempt_def)
qed

text \<open>A clip may become pending while the attempt ends: nothing is lost, the next attempt starts with it.\<close>

lemma end_attempt_pending_ok:
  assumes ok: "sync_ok m" and ref: "ref < length (m_heap m)" and cur: "session_current ref m"
    and p: "P \<in> {m_pending m, AList.update (peer_of ref m) st (m_pending m)}"
  shows "sync_ok (end_attempt ref t e (m\<lparr>m_pending := P\<rparr>))"
proof -
  let ?m = "m\<lparr>m_pending := P\<rparr>" and ?i = "set_worker ref WIdle m"
  have nc: "\<not> ss_cancelled (m_heap ?m ! ref)" using currentD(1) [OF ok cur] by simp
  let ?e = "snd (markPeerErrorIfSessionCurrent ref t (Some e) ?m)"
  have e: "end_attempt ref t e ?m = set_worker ref WIdle ?e" using nc by (simp add: end_attempt_def)
  have i: "sync_ok ?i" by (intro set_worker_ok ok ref) (simp_all add: worker_ok_def covered_def)
  have pd: "m_pending ?i = m_pending m" "m_sessions ?i = m_sessions m" "m_heap ?i ! ref = (m_heap m ! ref)\<lparr>ss_worker := WIdle\<rparr>"
    using ref by (simp_all add: set_worker_def upd_session_def)
  have "sync_ok (?i\<lparr>m_pending := P\<rparr>)"
  proof (cases "P = m_pending m")
    case True
    then have "?i\<lparr>m_pending := P\<rparr> = ?i" using pd by simp
    then show ?thesis using i by simp
  next
    case False
    then have P: "P = AList.update (peer_of ref m) st (m_pending ?i)" using p pd by simp
    show ?thesis unfolding P
    proof (rule pending_update_ok [OF i])
      fix r assume "map_of (m_sessions ?i) (peer_of ref m) = Some r"
      with cur pd have "r = ref" by (simp add: session_current_def)
      then show "covered (m_heap ?i ! r) (clip_id st)" using pd by (simp add: covered_def)
    qed
  qed
  moreover have "same_core (end_attempt ref t e ?m) (?i\<lparr>m_pending := P\<rparr>)"
    using mark_current_core(4) [of ref t "Some e" ?m] unfolding e
    by (auto simp: same_core_def set_worker_def upd_session_def)
  ultimately show ?thesis by (simp add: same_core_ok)
qed

lemma set_worker_upd_session:
  "set_worker ref w (upd_session ref f m) = upd_session ref (\<lambda>s. (f s)\<lparr>ss_worker := w\<rparr>) m"
  by (simp add: set_worker_def upd_session_def)

lemma set_worker_core:
  "same_core m' m \<Longrightarrow> same_core (set_worker ref w m') (set_worker ref w m)"
  by (simp add: same_core_def set_worker_def upd_session_def)

lemma end_attempt_core:
  "same_core m' m \<Longrightarrow> same_core (end_attempt ref t e m') (end_attempt ref t e m)"
proof -
  assume c: "same_core m' m"
  have "same_core (snd (markPeerErrorIfSessionCurrent ref t (Some e) m')) (snd (markPeerErrorIfSessionCurrent ref t (Some e) m))"
    using c mark_current_core(4) [of ref t "Some e" m'] mark_current_core(4) [of ref t "Some e" m]
    unfolding same_core_def by simp
  moreover have "ss_cancelled (m_heap m' ! ref) = ss_cancelled (m_heap m ! ref)" using c by (simp add: same_core_def)
  ultimately show ?thesis using c by (simp add: end_attempt_def set_worker_core)
qed

text \<open>What is left of a failed \<open>sendState\<close>.\<close>

lemma sendState_cases:
  obtains (lost) "\<not> session_current ref m" "sendState ref ok st at m = (None, m)"
  | (failed) P m1 where "session_current ref m" "\<not> ok"
      "P \<in> {m_pending m, AList.update (peer_of ref m) st (m_pending m)}"
      "sendState ref ok st at m = (None, m1)" "same_core m1 (m\<lparr>m_pending := P\<rparr>)"
  | (sent) m1 where "session_current ref m" "ok" "same_core m1 m"
      "sendState ref ok st at m = (Some (armAckTimerIfIdle (at_inflight at = [])
         (at\<lparr>at_seq := at_seq at + 1, at_inflight := AList.update (at_seq at + 1) st (at_inflight at)\<rparr>)), m1)"
proof (cases "session_current ref m")
  case False
  then show ?thesis
    by (intro lost) (simp_all add: sendState_def markPeerPendingIfSessionCurrent_def if_current_def Let_def)
next
  case True
  let ?m1 = "markPeerPendingLocked True (peer_of ref m) m"
  have c: "same_core ?m1 m" by simp
  then have cur: "session_current ref ?m1" "peer_of ref ?m1 = peer_of ref m"
    using True same_core_session_current [OF c] same_core_peer_of [OF c] by simp_all
  show ?thesis
  proof (cases ok)
    case ok: True
    show ?thesis
      by (rule sent [OF True ok c])
        (simp add: sendState_def markPeerPendingIfSessionCurrent_def if_current_def Let_def True ok)
  next
    case no: False
    let ?m2 = "rememberPendingIfSessionCurrent ref st ?m1"
    have "m_pending ?m1 = m_pending m" using c by (simp add: same_core_def)
    then have "\<exists>P. P \<in> {m_pending m, AList.update (peer_of ref m) st (m_pending m)} \<and> same_core ?m2 (m\<lparr>m_pending := P\<rparr>)"
      using cur c
      by (auto simp: rememberPendingIfSessionCurrent_def if_current_def same_core_def split: option.splits)
    then obtain P where P: "P \<in> {m_pending m, AList.update (peer_of ref m) st (m_pending m)}"
      "same_core ?m2 (m\<lparr>m_pending := P\<rparr>)" by blast
    show ?thesis
      by (rule failed [OF True no P(1) _ P(2)])
        (simp add: sendState_def markPeerPendingIfSessionCurrent_def if_current_def Let_def True no)
  qed
qed

lemma after_send_ok:
  assumes ok: "sync_ok m" and ref: "ref < length (m_heap m)"
    and g: "ss_peer (g (m_heap m ! ref)) = ss_peer (m_heap m ! ref)"
      "ss_cancelled (g (m_heap m ! ref)) = ss_cancelled (m_heap m ! ref)" "length (ss_send (g (m_heap m ! ref))) \<le> 1"
    and at': "at' = armAckTimerIfIdle (at_inflight at = [])
         (at\<lparr>at_seq := at_seq at + 1, at_inflight := AList.update (at_seq at + 1) st (at_inflight at)\<rparr>)"
    and w: "worker_ok (w at')" "w at' \<noteq> WStopped"
    and cov: "\<And>x. session_current ref m \<Longrightarrow> map_of (m_pending m) (peer_of ref m) = Some x \<Longrightarrow>
       covered ((g (m_heap m ! ref))\<lparr>ss_worker := w at'\<rparr>) (clip_id x)"
  shows "sync_ok (after_send ref t w (sendState ref b st at (upd_session ref g m)))"
proof -
  let ?m = "upd_session ref g m"
  let ?g0 = "\<lambda>s. (g s)\<lparr>ss_worker := WIdle\<rparr>"
  let ?i = "upd_session ref ?g0 m"
  have nc: "\<not> ss_cancelled (m_heap m ! ref)" if "session_current ref m" using currentD(1) [OF ok that] .
  have h: "m_heap ?m ! ref = g (m_heap m ! ref)" "length (m_heap ?m) = length (m_heap m)" "m_pending ?m = m_pending m"
    "m_sessions ?m = m_sessions m" using ref by (simp_all add: upd_session_def)
  have po: "peer_of ref ?m = peer_of ref m" using h g(1) by (simp add: peer_of_def)
  have cu: "session_current ref ?m = session_current ref m" using po h by (simp add: session_current_def)
  have idle: "sync_ok ?i"
    by (rule upd_session_ok [where s' = "?g0 (m_heap m ! ref)"])
      (use ok ref g nc in \<open>simp_all add: session_ok_def worker_ok_def covered_def\<close>)
  have ii: "set_worker ref WIdle ?m = ?i" "set_worker ref WStopped ?m = set_worker ref WStopped ?i"
    "length (m_heap ?i) = length (m_heap m)"
    using ref by (simp_all add: set_worker_def upd_session_def)
  have ih: "m_heap ?i ! ref = ?g0 (m_heap m ! ref)" "m_pending ?i = m_pending m" "peer_of ref ?i = peer_of ref m"
    "session_current ref ?i = session_current ref m"
    using ref g(1) by (simp_all add: upd_session_def peer_of_def session_current_def)
  have endi: "same_core (end_attempt ref t e (?m\<lparr>m_pending := P\<rparr>)) (end_attempt ref t e (?i\<lparr>m_pending := P\<rparr>))" for e P
  proof -
    have m: "same_core (snd (markPeerErrorIfSessionCurrent ref t (Some e) m')) m'" for m' by simp
    show ?thesis
      using m [of "?m\<lparr>m_pending := P\<rparr>"] m [of "?i\<lparr>m_pending := P\<rparr>"] ref
      unfolding end_attempt_def same_core_def by (auto simp: set_worker_def upd_session_def)
  qed
  show ?thesis
  proof (cases rule: sendState_cases [of ref ?m b st at])
    case lost
    have "sync_ok (end_attempt ref t ''write'' ?i)" by (rule end_attempt_ok) (use idle ii ref in simp_all)
    moreover have "?m\<lparr>m_pending := m_pending m\<rparr> = ?m" "?i\<lparr>m_pending := m_pending m\<rparr> = ?i"
      using h(3) ih(2) by (metis sshSyncManager.surjective sshSyncManager.update_convs(4))+
    ultimately have "sync_ok (end_attempt ref t ''write'' ?m)"
      using same_core_ok [OF endi [of "''write''" "m_pending m"]] by simp
    with lost show ?thesis by (simp add: after_send_def)
  next
    case (failed P m1)
    have "sync_ok (end_attempt ref t ''write'' (?i\<lparr>m_pending := P\<rparr>))"
      by (rule end_attempt_pending_ok) (use idle ii ref ih failed(1,3) cu po h in simp_all)
    then have "sync_ok (end_attempt ref t ''write'' (?m\<lparr>m_pending := P\<rparr>))" using endi same_core_ok by blast
    then have "sync_ok (end_attempt ref t ''write'' m1)" using end_attempt_core [OF failed(5)] same_core_ok by blast
    then show ?thesis using failed by (simp add: after_send_def)
  next
    case (sent m1)
    let ?f = "\<lambda>s. (g s)\<lparr>ss_worker := w at'\<rparr>"
    have "sync_ok (upd_session ref ?f m)"
      by (rule upd_session_ok [where s' = "?f (m_heap m ! ref)"])
        (use ok ref g w nc cov in \<open>simp_all add: session_ok_def\<close>)
    then have "sync_ok (set_worker ref (w at') ?m)" by (simp add: set_worker_upd_session)
    then have "sync_ok (set_worker ref (w at') m1)" using set_worker_core [OF sent(3)] same_core_ok by blast
    then show ?thesis using sent by (simp add: after_send_def at')
  qed
qed


lemma update_fresh: "k \<notin> fst ` set al \<Longrightarrow> AList.update k v al = al @ [(k, v)]"
  by (induction al) auto

lemma new_attempt_ok: "attempt_ok new_attempt"
  by (simp add: attempt_ok_def new_attempt_def)

lemma attempt_send:
  assumes ok: "attempt_ok at" and n: "unat (at_seq at) < 2 ^ 64 - 1"
    and at': "at' = armAckTimerIfIdle (at_inflight at = [])
         (at\<lparr>at_seq := at_seq at + 1, at_inflight := AList.update (at_seq at + 1) st (at_inflight at)\<rparr>)"
  shows "attempt_ok at'" and "in_flight i at' \<longleftrightarrow> in_flight i at \<or> i = clip_id st"
    and "at_refused at' = at_refused at"
proof -
  have lt: "at_seq at < at_seq at + 1"
  proof -
    have "unat (at_seq at + 1) = unat (at_seq at) + 1" using n by (simp add: unat_word_ariths)
    then show ?thesis by (simp add: word_less_nat_alt)
  qed
  have fresh: "at_seq at + 1 \<notin> fst ` set (at_inflight at)" using ok lt by (fastforce simp: attempt_ok_def)
  have le: "k \<le> at_seq at + 1" if "k \<in> fst ` set (at_inflight at)" for k
    using ok that lt by (fastforce simp: attempt_ok_def)
  show "attempt_ok at'" using ok fresh le at'
    by (auto simp: attempt_ok_def armAckTimerIfIdle_def update_fresh)
  show "in_flight i at' \<longleftrightarrow> in_flight i at \<or> i = clip_id st" "at_refused at' = at_refused at"
    using fresh at' by (auto simp: in_flight_def has_id_def armAckTimerIfIdle_def update_fresh)
qed

lemma attempt_ack:
  assumes "attempt_ok at"
  shows "attempt_ok (resetAckTimerAfterAck True (at\<lparr>at_inflight := AList.delete k (at_inflight at), at_refused := r\<rparr>))"
  using assms by (auto simp: attempt_ok_def resetAckTimerAfterAck_def AList.delete_eq distinct_map_filter)

lemma in_flight_delete:
  "attempt_ok at \<Longrightarrow> map_of (at_inflight at) k = Some st \<Longrightarrow> in_flight i at \<Longrightarrow> i \<noteq> clip_id st \<Longrightarrow>
   in_flight i (at\<lparr>at_inflight := AList.delete k (at_inflight at), at_refused := r\<rparr>)"
proof -
  assume ok: "attempt_ok at" and k: "map_of (at_inflight at) k = Some st" and f: "in_flight i at" and i: "i \<noteq> clip_id st"
  from f obtain j x where x: "(j, x) \<in> set (at_inflight at)" "clip_id x = i"
    by (auto simp: in_flight_def has_id_def)
  have "j \<noteq> k"
  proof
    assume "j = k"
    with x(1) ok have "map_of (at_inflight at) k = Some x" by (simp add: attempt_ok_def)
    with k x(2) i show False by simp
  qed
  then have "(j, x) \<in> set (AList.delete k (at_inflight at))" using x(1) by (simp add: AList.delete_eq)
  then show ?thesis using x(2) by (force simp: in_flight_def has_id_def)
qed

lemma in_flight_reset [simp]: "in_flight i (resetAckTimerAfterAck b at) = in_flight i at"
  "at_refused (resetAckTimerAfterAck b at) = at_refused at"
  by (simp_all add: resetAckTimerAfterAck_def in_flight_def)

text \<open>The control state after an acknowledgement that removed a frame, over any manager with the same
  sessions in which a pending clip is one that was pending before.\<close>

lemma ack_worker_ok:
  assumes ok: "sync_ok m1" and ref: "ref < length (m_heap m1)" and w: "worker_at m1 ref = WLoop at"
    and k: "map_of (at_inflight at) k = Some st"
    and r: "\<And>x. session_current ref m1 \<Longrightarrow> map_of (m_pending m1) (peer_of ref m1) = Some x \<Longrightarrow>
       clip_id x = clip_id st \<Longrightarrow> has_id (clip_id st) r"
    and sub: "set (at_refused at) \<subseteq> set r"
  shows "sync_ok (set_worker ref (WLoop (resetAckTimerAfterAck True
     (at\<lparr>at_inflight := AList.delete k (at_inflight at), at_refused := r\<rparr>))) m1)"
proof (rule set_worker_ok [OF ok ref])
  have aok: "attempt_ok at" using session_okD [OF ok ref] w by (simp add: session_ok_def worker_ok_def)
  let ?at = "resetAckTimerAfterAck True (at\<lparr>at_inflight := AList.delete k (at_inflight at), at_refused := r\<rparr>)"
  show "worker_ok (WLoop ?at)" using attempt_ack [OF aok] by (simp add: worker_ok_def)
  assume cur: "session_current ref m1"
  show "WLoop ?at \<noteq> WStopped \<and> (\<forall>x. map_of (m_pending m1) (peer_of ref m1) = Some x \<longrightarrow>
      covered ((m_heap m1 ! ref)\<lparr>ss_worker := WLoop ?at\<rparr>) (clip_id x))"
  proof (intro conjI allI impI)
    fix x assume x: "map_of (m_pending m1) (peer_of ref m1) = Some x"
    have old: "has_id (clip_id x) (ss_send (m_heap m1 ! ref)) \<or> in_flight (clip_id x) at \<or> has_id (clip_id x) (at_refused at)"
      using currentD(4) [OF ok cur x] w by (simp add: covered_def)
    have "has_id (clip_id x) (ss_send (m_heap m1 ! ref)) \<or> in_flight (clip_id x) ?at \<or> has_id (clip_id x) r"
    proof (cases "clip_id x = clip_id st")
      case True
      then show ?thesis using r [OF cur x] by simp
    next
      case False
      then show ?thesis using old in_flight_delete [OF aok k _ False, of r] sub by (auto simp: has_id_def)
    qed
    then show "covered ((m_heap m1 ! ref)\<lparr>ss_worker := WLoop ?at\<rparr>) (clip_id x)" by (simp add: covered_def)
  qed simp
qed

lemma clear_current_ok:
  assumes ok: "sync_ok m" and act: "\<And>m'. same_core (act m') m'"
    and m1: "m1 = snd (if_current ref (\<lambda>p m. act (clear_pending st p m)) m)"
  shows "sync_ok m1" and "m_heap m1 = m_heap m"
    and "session_current ref m1 \<Longrightarrow> map_of (m_pending m1) (peer_of ref m1) = Some x \<Longrightarrow> clip_id x \<noteq> clip_id st"
proof -
  let ?c = "clear_pending st (peer_of ref m) m"
  have m1': "m1 = (if session_current ref m then act ?c else m)" using m1 by (simp add: if_current_def)
  have core: "m_heap (act ?c) = m_heap m" "m_sessions (act ?c) = m_sessions m" "m_pending (act ?c) = m_pending ?c"
    using act [of ?c] clear_pending_frame(1,2) [of st "peer_of ref m" m] by (simp_all add: same_core_def)
  show "sync_ok m1" using ok clear_pending_ok [OF ok, of st "peer_of ref m"] same_core_ok [OF act [of ?c]]
    unfolding m1' by simp
  show heap: "m_heap m1 = m_heap m" using core unfolding m1' by simp
  assume cur: "session_current ref m1" and x: "map_of (m_pending m1) (peer_of ref m1) = Some x"
  have p: "peer_of ref m1 = peer_of ref m" using heap by (simp add: peer_of_def)
  show "clip_id x \<noteq> clip_id st"
  proof (cases "session_current ref m")
    case True
    then show ?thesis using x clear_pending_frame(3) [of st "peer_of ref m" m x] p core(3) unfolding m1' by simp
  next
    case False
    then show ?thesis using cur unfolding m1' by simp
  qed
qed

lemma handleSSHStreamAck_ok:
  assumes ok: "sync_ok m" and ref: "ref < length (m_heap m)" and w: "worker_at m ref = WLoop at"
    and h: "handleSSHStreamAck ref t ack at m = (removed, at1, m1)"
  shows "sync_ok (set_worker ref (WLoop (resetAckTimerAfterAck removed at1)) m1)"
proof (cases "map_of (at_inflight at) (ar_Seq ack)")
  case None
  with h have r: "removed = False" "at1 = at" "m1 = m" by (simp_all add: handleSSHStreamAck_def)
  have "(m_heap m ! ref)\<lparr>ss_worker := WLoop at\<rparr> = m_heap m ! ref" using w by (cases "m_heap m ! ref") simp
  then have "set_worker ref (WLoop at) m = m" by (simp add: set_worker_def upd_session_def)
  then show ?thesis using ok r by (simp add: resetAckTimerAfterAck_def)
next
  case (Some st)
  let ?at = "\<lambda>r. at\<lparr>at_inflight := AList.delete (ar_Seq ack) (at_inflight at), at_refused := r\<rparr>"
  have same: "?at (at_refused at) = at\<lparr>at_inflight := AList.delete (ar_Seq ack) (at_inflight at)\<rparr>" by simp
  consider (acked) act where "removed" "at1 = ?at (at_refused at)" "\<And>m'. same_core (act m') m'"
      "m1 = snd (if_current ref (\<lambda>p m. act (clear_pending st p m)) m)"
    | (refused) "removed" "at1 = ?at (st # at_refused at)" "m1 = m"
  proof (cases "qualifyingSSHStreamAck ack st")
    case True
    with h Some same show thesis
      by (intro acked [of "markPeerAckedLocked t (peer_of ref m)"])
        (auto simp: handleSSHStreamAck_def Let_def clearPendingAndMarkAckedIfSessionCurrent_def if_current_def)
  next
    case False
    with h Some same show thesis
    proof (cases "ar_Status ack = ''rejected'' \<and> ar_ID ack = clip_id st")
      case True
      with False h Some same show thesis
        by (intro acked [of "\<lambda>m. m"])
          (auto simp: handleSSHStreamAck_def Let_def clearPendingIfSessionCurrent_def same_core_def)
    next
      case no: False
      with False h Some show thesis by (intro refused) (auto simp: handleSSHStreamAck_def Let_def)
    qed
  qed
  then show ?thesis
  proof cases
    case (acked act)
    note c = clear_current_ok [OF ok acked(3,4)]
    show ?thesis unfolding acked(2) using acked(1)
      ack_worker_ok [OF c(1) _ _ Some, where r = "at_refused at"] c(2,3) ref w by auto
  next
    case refused
    then show ?thesis
      using ack_worker_ok [OF ok ref w Some, of "st # at_refused at"] by (auto simp: has_id_def)
  qed
qed


lemma upd_session_same: "upd_session ref (\<lambda>s. s) m = m"
  by (simp add: upd_session_def)

lemma sync_flush_ok:
  assumes ok: "sync_ok m" and ref: "ref < length (m_heap m)" and w: "worker_at m ref = WFlush st at"
  shows "sync_ok (after_send ref t (WDrain st) (sendState ref b st at m))"
proof -
  have at: "at = new_attempt" and len: "length (ss_send (m_heap m ! ref)) \<le> 1"
    using session_okD [OF ok ref] w by (simp_all add: session_ok_def worker_ok_def)
  note s = attempt_send [OF new_attempt_ok _ refl, where st = st]
  have n: "unat (at_seq new_attempt) < 2 ^ 64 - 1" by (simp add: new_attempt_def)
  have c: "clip_id st = clip_id x \<or> has_id (clip_id x) (ss_send (m_heap m ! ref))"
    if "session_current ref m" "map_of (m_pending m) (peer_of ref m) = Some x" for x
    using currentD(4) [OF ok that] w by (simp add: covered_def)
  define at' where "at' = armAckTimerIfIdle (at_inflight at = [])
    (at\<lparr>at_seq := at_seq at + 1, at_inflight := AList.update (at_seq at + 1) st (at_inflight at)\<rparr>)"
  have at'': "attempt_ok at'" "\<And>i. in_flight i at' \<longleftrightarrow> in_flight i at \<or> i = clip_id st"
    using s(1,2) [OF n] by (simp_all add: at'_def at)
  have "sync_ok (after_send ref t (WDrain st) (sendState ref b st at (upd_session ref (\<lambda>s. s) m)))"
  proof (rule after_send_ok [OF ok ref _ _ _ at'_def])
    fix x assume "session_current ref m" "map_of (m_pending m) (peer_of ref m) = Some x"
    from c [OF this] show "covered ((m_heap m ! ref)\<lparr>ss_worker := WDrain st at'\<rparr>) (clip_id x)"
      by (auto simp: covered_def at''(2))
  qed (use len at'' in \<open>simp_all add: worker_ok_def\<close>)
  then show ?thesis by (simp add: upd_session_same)
qed

lemma sync_send_ok:
  assumes ok: "sync_ok m" and ref: "ref < length (m_heap m)" and w: "worker_at m ref = WLoop at"
    and q: "ss_send (m_heap m ! ref) = st # rest" and n: "unat (at_seq at) < 2 ^ 64 - 1"
  shows "sync_ok (after_send ref t WLoop (sendState ref b st at (upd_session ref (\<lambda>s. s\<lparr>ss_send := rest\<rparr>) m)))"
proof -
  have aok: "attempt_ok at" and rest: "rest = []"
    using session_okD [OF ok ref] w q by (simp_all add: session_ok_def worker_ok_def)
  note s = attempt_send [OF aok n refl, where st = st]
  have c: "clip_id x = clip_id st \<or> in_flight (clip_id x) at \<or> has_id (clip_id x) (at_refused at)"
    if "session_current ref m" "map_of (m_pending m) (peer_of ref m) = Some x" for x
    using currentD(4) [OF ok that] w q rest by (auto simp: covered_def has_id_def)
  show ?thesis
    by (rule after_send_ok [OF ok ref _ _ _ refl])
      (use s c rest in \<open>auto simp: worker_ok_def covered_def\<close>)
qed

lemma sync_drain_ok:
  assumes ok: "sync_ok m" and ref: "ref < length (m_heap m)" and w: "worker_at m ref = WDrain st at"
  shows "sync_ok (set_worker ref (WLoop at)
      (upd_session ref (\<lambda>s. s\<lparr>ss_send := drainQueuedDuplicateSSHState st (ss_send s)\<rparr>) m))"
proof -
  let ?q = "ss_send (m_heap m ! ref)"
  have aok: "attempt_ok at" "in_flight (clip_id st) at" and len: "length ?q \<le> 1"
    using session_okD [OF ok ref] w by (simp_all add: session_ok_def worker_ok_def)
  let ?f = "\<lambda>s. s\<lparr>ss_send := drainQueuedDuplicateSSHState st (ss_send s), ss_worker := WLoop at\<rparr>"
  have d: "length (drainQueuedDuplicateSSHState st ?q) \<le> 1"
    "has_id i ?q \<Longrightarrow> has_id i (drainQueuedDuplicateSSHState st ?q) \<or> i = clip_id st" for i
    using len by (cases ?q; auto simp: drainQueuedDuplicateSSHState_def has_id_def)+
  have "sync_ok (upd_session ref ?f m)"
  proof (rule upd_session_ok [OF ok ref refl])
    assume cur: "session_current ref m"
    show "\<not> ss_cancelled (?f (m_heap m ! ref)) \<and> ss_worker (?f (m_heap m ! ref)) \<noteq> WStopped \<and>
        (\<forall>x. map_of (m_pending m) (peer_of ref m) = Some x \<longrightarrow> covered (?f (m_heap m ! ref)) (clip_id x))"
    proof (intro conjI allI impI)
      fix x assume x: "map_of (m_pending m) (peer_of ref m) = Some x"
      have "has_id (clip_id x) ?q \<or> in_flight (clip_id x) at"
        using currentD(4) [OF ok cur x] w by (simp add: covered_def)
      then have "has_id (clip_id x) (drainQueuedDuplicateSSHState st ?q) \<or> in_flight (clip_id x) at"
        using d(2) [of "clip_id x"] aok(2) by metis
      then show "covered (?f (m_heap m ! ref)) (clip_id x)" by (auto simp: covered_def)
    qed (use currentD(1) [OF ok cur] in simp_all)
  qed (use d(1) aok in \<open>simp_all add: session_ok_def worker_ok_def\<close>)
  then show ?thesis by (simp add: set_worker_upd_session)
qed

lemma worker_mark_ok:
  assumes ok: "sync_ok m" and ref: "ref < length (m_heap m)" and c: "same_core m1 m"
    and w: "w \<in> {WIdle, WDial, WReady} \<or> w = WStopped \<and> \<not> session_current ref m"
  shows "sync_ok (set_worker ref w m1)"
proof (rule set_worker_ok)
  show "sync_ok m1" using ok same_core_ok [OF c] by simp
  show "ref < length (m_heap m1)" using ref c by (simp add: same_core_def)
  show "worker_ok w" using w by (auto simp: worker_ok_def)
  assume "session_current ref m1"
  then have "session_current ref m" using same_core_session_current [OF c] by simp
  then show "w \<noteq> WStopped \<and> (\<forall>st. map_of (m_pending m1) (peer_of ref m1) = Some st \<longrightarrow>
      covered ((m_heap m1 ! ref)\<lparr>ss_worker := w\<rparr>) (clip_id st))"
    using w by (auto simp: covered_def)
qed

lemma sync_step_ok:
  assumes "sync_step m m'" and ok: "sync_ok m" shows "sync_ok m'"
  using assms(1)
proof (cases rule: sync_step.cases)
  case (sync_begin ref b m1)
  then have "b = session_current ref m" "same_core m1 m"
    using mark_current_core(1) [of ref m]
    by (auto simp: markPeerConnectingIfSessionCurrent_def if_current_def split: if_splits)
  then show ?thesis unfolding sync_begin(1) by (intro worker_mark_ok [OF ok sync_begin(2)]) auto
next
  case (sync_connected ref now b m1)
  then have c: "same_core m1 m" using mark_current_core(2) [of ref now m] by simp
  then have "sync_ok m1" "ref < length (m_heap m1)" using ok sync_connected(2) same_core_ok [OF c]
    by (simp_all add: same_core_def)
  then show ?thesis unfolding sync_connected(1)
    using worker_mark_ok [OF ok sync_connected(2) c, of WReady] by (simp add: end_attempt_ok)
next
  case (sync_pending ref)
  show ?thesis unfolding sync_pending(1)
    by (rule set_worker_ok [OF ok sync_pending(2)])
      (simp_all add: pendingState_def worker_ok_def new_attempt_ok covered_def split: option.splits)
next
  case (sync_receive ref now ev)
  have "sync_ok (snd (receiveContentIfSessionCurrent ref c origin now m))" for c origin
    using ok by (simp add: receiveContentIfSessionCurrent_def if_current_def same_core_ok [OF mark_core(6)])
  then have "sync_ok (snd (readPeerEvent ref now ev m))"
    using ok by (auto simp: readPeerEvent_def split: SSHStreamEvent.splits option.splits prod.splits bool.splits)
      (metis snd_conv)+
  then show ?thesis using sync_receive by simp
next
  case (sync_ack ref at now ack removed at1 m1)
  show ?thesis unfolding sync_ack(1) by (rule handleSSHStreamAck_ok [OF ok sync_ack(2-4)])
qed (simp_all add: ok Publish_ok Refresh_ok Start_ok sync_flush_ok sync_drain_ok sync_send_ok
    end_attempt_ok)

lemma sync_reach_ok: "sync_reach m m' \<Longrightarrow> sync_ok m \<Longrightarrow> sync_ok m'"
  by (induction rule: sync_reach.induct) (blast intro: sync_step_ok)+

lemma new_manager_ok: "sync_ok (newSSHSyncManager cfg)"
  by (rule sync_okI) (simp_all add: newSSHSyncManager_def)


section \<open>What a publication does\<close>

definition targeted :: "string \<Rightarrow> string \<Rightarrow> bool" where
  "targeted skipOrigin p \<longleftrightarrow> \<not> (skipOrigin \<noteq> [] \<and> HostsMatch p skipOrigin)"

lemma publish_to_frame:
  "m_sessions (publish_to st p m) = m_sessions m"
  "map_of (m_pending (publish_to st p m)) = (map_of (m_pending m))(p \<mapsto> st)"
  by (simp_all add: publish_to_def Let_def markPeerPendingLocked_def set_runtime_def upd_session_def update_conv'
      split: option.splits)

lemma publish_to_queue:
  assumes "sync_ok m" and "map_of (m_sessions m) q = Some ref"
  shows "ss_send (m_heap (publish_to st p m) ! ref) = (if q = p then [st] else ss_send (m_heap m ! ref))"
proof -
  note sl = sync_okD(3) [OF assms]
  then have len: "length (ss_send (m_heap m ! ref)) \<le> 1" and ref: "ref < length (m_heap m)"
    using session_okD [OF assms(1)] by (simp_all add: slot_ok_def session_ok_def)
  have other: "r \<noteq> ref" if "q \<noteq> p" "map_of (m_sessions m) p = Some r" for r
    using sync_okD(3) [OF assms(1) that(2)] sl that(1) by (auto simp: slot_ok_def)
  show ?thesis
    using assms(2) ref len other
    by (auto simp: publish_to_def Let_def markPeerPendingLocked_def set_runtime_def upd_session_def
        enqueue_latest split: option.splits)
qed

lemma publish_loop_frame: "m_sessions (publish_loop st sk ids m) = m_sessions m"
  unfolding publish_loop_def by (induction ids arbitrary: m) (simp_all add: publish_to_frame(1))

lemma publish_loop_pending:
  "map_of (m_pending (publish_loop st sk ids m)) p =
     (if p \<in> set ids \<and> targeted sk p then Some st else map_of (m_pending m) p)"
  unfolding publish_loop_def targeted_def
  by (induction ids arbitrary: m) (auto simp: publish_to_frame(2))

lemma publish_loop_queue:
  assumes "sync_ok m" and "map_of (m_sessions m) q = Some ref"
  shows "ss_send (m_heap (publish_loop st sk ids m) ! ref) =
     (if q \<in> set ids \<and> targeted sk q then [st] else ss_send (m_heap m ! ref))"
  using assms
proof (induction ids arbitrary: m)
  case (Cons i ids)
  let ?m = "if targeted sk i then publish_to st i m else m"
  have e: "publish_loop st sk (i # ids) m = publish_loop st sk ids ?m"
    by (simp add: publish_loop_def targeted_def)
  have "sync_ok ?m" "map_of (m_sessions ?m) q = Some ref"
    using Cons.prems by (simp_all add: publish_to_ok publish_to_frame(1))
  from Cons.IH [OF this] show ?case unfolding e using publish_to_queue [OF Cons.prems] by auto
qed (simp add: publish_loop_def)

section \<open>What becomes of a pending clip\<close>

definition keeps_pending :: "sshSyncManager \<Rightarrow> string \<Rightarrow> string \<Rightarrow> bool" where
  "keeps_pending m p i \<longleftrightarrow> (\<exists>st. map_of (m_pending m) p = Some st \<and> clip_id st = i)"

text \<open>The step from \<open>m\<close> to \<open>m'\<close> handles an acknowledgement, by the current session of \<open>p\<close>, of a frame in flight that
  carried the clip \<open>i\<close>; it names this clip, and says that the peer has it, or refuses it for good.\<close>

definition acknowledges :: "sshSyncManager \<Rightarrow> sshSyncManager \<Rightarrow> string \<Rightarrow> string \<Rightarrow> bool" where
  "acknowledges m m' p i \<longleftrightarrow> (\<exists>ref at now ack x at1 m1. session_current ref m \<and> peer_of ref m = p \<and> worker_at m ref = WLoop at \<and>
     map_of (at_inflight at) (ar_Seq ack) = Some x \<and> clip_id x = i \<and> ar_ID ack = i \<and>
     (ar_Status ack \<in> {''applied'', ''ignored_seen'', ''ignored_echo'', ''rejected''} \<or> i = [] \<and> ar_Status ack = ''no_state'') \<and>
     handleSSHStreamAck ref now ack at m = (True, at1, m1) \<and> m' = set_worker ref (WLoop (resetAckTimerAfterAck True at1)) m1)"

lemma same_core_pending: "same_core m' m \<Longrightarrow> m_pending m' = m_pending m"
  by (simp add: same_core_def)

lemma pending_upd [simp]: "m_pending (upd_session ref f m) = m_pending m" "m_pending (set_worker ref w m) = m_pending m"
  by (simp_all add: upd_session_def set_worker_def)

lemma pending_marks [simp]:
  "m_pending (snd (markPeerConnectingIfSessionCurrent ref m)) = m_pending m"
  "m_pending (snd (markPeerConnectedIfSessionCurrent ref t m)) = m_pending m"
  "m_pending (snd (markPeerPendingIfSessionCurrent ref b m)) = m_pending m"
  "m_pending (snd (markPeerErrorIfSessionCurrent ref t e m)) = m_pending m"
  by (rule same_core_pending, simp)+

lemma pending_start [simp]: "m_pending (startPeerLocked peer m) = m_pending m"
  by (simp add: startPeerLocked_def same_core_pending [OF mark_core(2)])

lemma pending_Start [simp]: "m_pending (Start m) = m_pending m"
  unfolding Start_def by (simp add: foldl_keeps [where P = "\<lambda>m'. m_pending m' = m_pending m"])

lemma pending_end_attempt [simp]: "m_pending (end_attempt ref t e m) = m_pending m"
  by (simp add: end_attempt_def)

lemma pending_read [simp]: "m_pending (snd (readPeerEvent ref t ev m)) = m_pending m"
proof -
  have "m_pending (snd (receiveContentIfSessionCurrent ref c origin t m)) = m_pending m" for c origin
    by (simp add: receiveContentIfSessionCurrent_def if_current_def same_core_pending [OF mark_core(6)])
  then show ?thesis
    by (auto simp: readPeerEvent_def split: SSHStreamEvent.splits option.splits prod.splits bool.splits) (metis snd_conv)+
qed

lemma next_ids: "map_of (foldl (\<lambda>acc p. AList.update (y_id p) p acc) acc ps) q = None \<longleftrightarrow> map_of acc q = None \<and> q \<notin> y_id ` set ps"
  by (induction ps arbitrary: acc) (auto simp: update_conv')

lemma Refresh_pending:
  assumes "p \<in> y_id ` set (sshSyncPeersFromConfig cfg)"
  shows "map_of (m_pending (Refresh cfg m)) p = map_of (m_pending m) p"
proof -
  let ?nps = "sshSyncPeersFromConfig cfg"
  let ?nb = "foldl (\<lambda>acc p. AList.update (y_id p) p acc) [] ?nps"
  let ?P = "\<lambda>m' :: sshSyncManager. map_of (m_pending m') p = map_of (m_pending m) p"
  have nb: "map_of ?nb p \<noteq> None" using assms by (simp add: next_ids)
  have "?P (foldl (refresh_session ?nb) (m\<lparr>m_peers := ?nps\<rparr>) (m_sessions m))"
  proof (rule foldl_keeps)
    fix m' e assume "?P m'"
    with nb show "?P (refresh_session ?nb m' e)"
      by (auto simp: refresh_session_def Let_def delete_conv' split: prod.splits)
  qed simp
  moreover have "?P (foldl start_missing m' ?nps)" if "?P m'" for m'
    using that by (rule foldl_keeps) (simp add: start_missing_def)
  ultimately show ?thesis by (simp add: Refresh_def Let_def)
qed

lemma sendState_pending:
  assumes "keeps_pending m p i"
  shows "keeps_pending (snd (sendState ref ok st at m)) p i"
proof -
  obtain b m1 where m1: "markPeerPendingIfSessionCurrent ref True m = (b, m1)" by fastforce
  have "m_pending m1 = m_pending m" using pending_marks(3) [of ref True m] by (simp add: m1)
  then have "keeps_pending m1 p i" using assms by (simp add: keeps_pending_def)
  moreover from this have "keeps_pending (rememberPendingIfSessionCurrent ref st m1) p i"
    by (auto simp: keeps_pending_def rememberPendingIfSessionCurrent_def if_current_def update_conv' split: option.splits if_splits)
  ultimately show ?thesis by (auto simp: sendState_def Let_def m1 split: bool.splits)
qed

lemma after_send_pending: "keeps_pending (snd r) p i \<Longrightarrow> keeps_pending (after_send ref t w r) p i"
  by (auto simp: after_send_def keeps_pending_def split: prod.splits option.splits)

lemma clear_current_pending:
  assumes "keeps_pending m p i" and "\<And>q m'. same_core (act q m') m'"
  shows "keeps_pending (snd (if_current ref (\<lambda>q m. act q (clear_pending x q m)) m)) p i \<or>
    session_current ref m \<and> peer_of ref m = p \<and> clip_id x = i"
proof -
  have "keeps_pending (clear_pending x q m) p i" if "\<not> (q = p \<and> clip_id x = i)" for q
    using assms(1) that
    by (auto simp: clear_pending_def keeps_pending_def same_core_pending [OF mark_core(4)] delete_conv' split: option.splits)
  then have "keeps_pending (act q (clear_pending x q m)) p i" if "\<not> (q = p \<and> clip_id x = i)" for q
    using that same_core_pending [OF assms(2)] by (simp add: keeps_pending_def)
  with assms(1) show ?thesis by (auto simp: if_current_def)
qed

lemma ack_pending:
  assumes w: "worker_at m ref = WLoop at" and k: "keeps_pending m p i" and h: "handleSSHStreamAck ref now ack at m = (removed, at1, m1)"
  shows "keeps_pending (set_worker ref (WLoop (resetAckTimerAfterAck removed at1)) m1) p i \<or>
    acknowledges m (set_worker ref (WLoop (resetAckTimerAfterAck removed at1)) m1) p i"
proof (cases "keeps_pending m1 p i")
  case True
  then show ?thesis by (simp add: keeps_pending_def)
next
  case False
  with h k obtain x where x: "map_of (at_inflight at) (ar_Seq ack) = Some x" and r: "removed"
    and q: "qualifyingSSHStreamAck ack x \<and> m1 = snd (clearPendingAndMarkAckedIfSessionCurrent ref x now m) \<or>
       ar_Status ack = ''rejected'' \<and> ar_ID ack = clip_id x \<and> m1 = snd (clearPendingIfSessionCurrent ref x m)"
    by (auto simp: handleSSHStreamAck_def Let_def split: option.splits if_splits)
  have "session_current ref m \<and> peer_of ref m = p \<and> clip_id x = i"
    using q False clear_current_pending [OF k, of "\<lambda>q m. m" ref x] clear_current_pending [OF k, of "\<lambda>q. markPeerAckedLocked now q" ref x]
    by (auto simp: clearPendingAndMarkAckedIfSessionCurrent_def clearPendingIfSessionCurrent_def same_core_def [of m m for m])
  moreover have "ar_ID ack = clip_id x \<and>
      (ar_Status ack \<in> {''applied'', ''ignored_seen'', ''ignored_echo'', ''rejected''} \<or> clip_id x = [] \<and> ar_Status ack = ''no_state'')"
    using q by (auto simp: qualifyingSSHStreamAck_def split: if_splits)
  moreover have True: "removed = True" using r by simp
  ultimately have "acknowledges m (set_worker ref (WLoop (resetAckTimerAfterAck removed at1)) m1) p i"
    unfolding acknowledges_def True using w x h [unfolded True] by metis
  then show ?thesis ..
qed

lemma pending_step:
  assumes "sync_step m m'" and k: "keeps_pending m p i"
  shows "keeps_pending m' p i \<or>
    (\<exists>c origin skip. m' = Publish c origin skip m \<and> map_of (m_pending m') p = Some \<lparr>o_content = c, o_origin = origin\<rparr>) \<or>
    (\<exists>cfg. m' = Refresh cfg m \<and> p \<notin> y_id ` set (sshSyncPeersFromConfig cfg)) \<or> acknowledges m m' p i"
  using assms(1)
proof (cases rule: sync_step.cases)
  case (sync_publish c origin skip)
  have "map_of (m_pending m') p = Some \<lparr>o_content = c, o_origin = origin\<rparr> \<or> map_of (m_pending m') p = map_of (m_pending m) p"
    by (simp add: sync_publish Publish_def Let_def publish_loop_pending)
  with sync_publish k show ?thesis by (auto simp: keeps_pending_def)
next
  case (sync_refresh cfg)
  with k show ?thesis by (cases "p \<in> y_id ` set (sshSyncPeersFromConfig cfg)") (auto simp: keeps_pending_def Refresh_pending)
next
  case sync_start
  with k show ?thesis by (simp add: keeps_pending_def)
next
  case (sync_begin ref b m1)
  then have "m_pending m1 = m_pending m" using pending_marks(1) [of ref m] by simp
  with sync_begin k show ?thesis by (simp add: keeps_pending_def)
next
  case (sync_connected ref now b m1)
  then have "m_pending m1 = m_pending m" using pending_marks(2) [of ref now m] by simp
  with sync_connected k show ?thesis by (simp add: keeps_pending_def)
next
  case (sync_ack ref at now ack removed at1 m1)
  show ?thesis unfolding sync_ack(1) using ack_pending [OF sync_ack(3) k sync_ack(4)] by blast
next
  case (sync_send ref at st rest now ok)
  have "keeps_pending (upd_session ref (\<lambda>s. s\<lparr>ss_send := rest\<rparr>) m) p i" using k by (simp add: keeps_pending_def)
  from after_send_pending [OF sendState_pending [OF this]] show ?thesis unfolding sync_send(1) by blast
next
  case (sync_flush ref st at now ok)
  from after_send_pending [OF sendState_pending [OF k]] show ?thesis unfolding sync_flush(1) by blast
qed (use k in \<open>auto simp: keeps_pending_def\<close>)

section \<open>Properties\<close>

text \<open>C4. No clip that is pending for a peer is ever lost, however publications, configuration refreshes,
  acknowledgements, failed writes, lost connections and reconnections interleave. While the peer's session runs it
  waits for the next attempt, or it is about to be sent, or it is in the queue, or it is in flight, or the peer
  acknowledged it without taking it; the queue never holds more than one clip, and the acknowledgement timer
  runs exactly while frames are in flight. And it stays pending in every step but three: the publication of a clip
  that takes its place, a configuration without the peer, and the acknowledgement, by the peer's current session,
  of a frame in flight that carried this very clip, by its identifier.\<close>

theorem pending_clip_never_lost:
  assumes "sync_reach (newSSHSyncManager cfg) m" and "map_of (m_pending m) p = Some st"
  shows "(\<forall>ref. map_of (m_sessions m) p = Some ref \<longrightarrow>
      ref < length (m_heap m) \<and> covered (m_heap m ! ref) (clip_id st) \<and> length (ss_send (m_heap m ! ref)) \<le> 1 \<and>
      (case worker_at m ref of WLoop at \<Rightarrow> at_armed at \<longleftrightarrow> at_inflight at \<noteq> [] | _ \<Rightarrow> True)) \<and>
    (\<forall>m'. sync_step m m' \<longrightarrow>
      (\<exists>st'. map_of (m_pending m') p = Some st' \<and> clip_id st' = clip_id st) \<or>
      (\<exists>c origin skip. m' = Publish c origin skip m \<and> map_of (m_pending m') p = Some \<lparr>o_content = c, o_origin = origin\<rparr>) \<or>
      (\<exists>cfg'. m' = Refresh cfg' m \<and> p \<notin> y_id ` set (sshSyncPeersFromConfig cfg')) \<or>
      acknowledges m m' p (clip_id st))"
proof (intro conjI allI impI)
  fix ref assume ref: "map_of (m_sessions m) p = Some ref"
  have ok: "sync_ok m" by (rule sync_reach_ok [OF assms(1) new_manager_ok])
  note sl = sync_okD(3) [OF ok ref]
  then have "session_ok (m_heap m ! ref)" using session_okD [OF ok] by (simp add: slot_ok_def)
  with sl assms(2) show "ref < length (m_heap m)" "covered (m_heap m ! ref) (clip_id st)" "length (ss_send (m_heap m ! ref)) \<le> 1"
    "case worker_at m ref of WLoop at \<Rightarrow> at_armed at \<longleftrightarrow> at_inflight at \<noteq> [] | _ \<Rightarrow> True"
    by (auto simp: slot_ok_def session_ok_def worker_ok_def attempt_ok_def split: worker.splits)
next
  fix m' assume "sync_step m m'"
  from pending_step [OF this, of p "clip_id st"] assms(2)
  show "(\<exists>st'. map_of (m_pending m') p = Some st' \<and> clip_id st' = clip_id st) \<or>
      (\<exists>c origin skip. m' = Publish c origin skip m \<and> map_of (m_pending m') p = Some \<lparr>o_content = c, o_origin = origin\<rparr>) \<or>
      (\<exists>cfg'. m' = Refresh cfg' m \<and> p \<notin> y_id ` set (sshSyncPeersFromConfig cfg')) \<or> acknowledges m m' p (clip_id st)"
    by (simp add: keeps_pending_def)
qed

definition ready_peer :: SSHPeer where
  "ready_peer = peer_example\<lparr>sp_Persistent := True, sp_MigrationState := MigrationStateSSHKeysReady\<rparr>"

definition sync_config :: Config where
  "sync_config = empty_config\<lparr>cf_Transport := TransportSSH,
     cf_SSH := Some (empty_ssh\<lparr>s_SyncKey := ''k'', s_KnownHosts := ''h'', s_Peers := [ready_peer], s_PeersNil := False\<rparr>)\<rparr>"

definition sync_content :: content where
  "sync_content = \<lparr>c_ID = ''id1'', c_Kind = KindText, c_Bytes = ''hello'', c_Hash = ''h'', c_TS = 5, c_Concealed = False\<rparr>"

definition sync_example :: sshSyncManager where
  "sync_example = Publish sync_content ''laptop'' [] (Start (newSSHSyncManager (Some sync_config)))"

lemma sync_example_reach: "sync_reach (newSSHSyncManager (Some sync_config)) sync_example"
  unfolding sync_example_def by (rule sync_next [OF sync_next [OF sync_start_state sync_start] sync_publish])

lemma sync_example_slots:
  "map_of (m_sessions sync_example) ''desk'' = Some 0"
  "map_of (m_pending sync_example) ''desk'' = Some \<lparr>o_content = sync_content, o_origin = ''laptop''\<rparr>"
  by code_simp+

theorem pending_clip_never_lost_witness: "covered (m_heap sync_example ! 0) ''id1''"
  using pending_clip_never_lost [OF sync_example_reach sync_example_slots(2)] sync_example_slots(1) by (simp add: sync_content_def)

text \<open>C5. \<open>Publish\<close> hands the clip to every configured peer and every session except those matching the
  origin to skip: it becomes the pending clip of each, replaces whatever its session had queued, and
  touches nobody else; a clip beyond the payload limit changes nothing.\<close>

theorem Publish_effect:
  assumes "sync_reach (newSSHSyncManager cfg) m"
  shows "(int (length (c_Bytes c)) > MaxSSHStreamPayloadBytes \<longrightarrow> Publish c origin skip m = m) \<and>
    (int (length (c_Bytes c)) \<le> MaxSSHStreamPayloadBytes \<longrightarrow>
      m_sessions (Publish c origin skip m) = m_sessions m \<and>
      (\<forall>p. let chosen = (p \<in> y_id ` set (m_peers m) \<union> fst ` set (m_sessions m)) \<and> \<not> (skip \<noteq> [] \<and> HostsMatch p skip);
               st = \<lparr>o_content = c, o_origin = origin\<rparr>
           in map_of (m_pending (Publish c origin skip m)) p = (if chosen then Some st else map_of (m_pending m) p) \<and>
              (\<forall>ref. map_of (m_sessions m) p = Some ref \<longrightarrow>
                 ss_send (m_heap (Publish c origin skip m) ! ref) = (if chosen then [st] else ss_send (m_heap m ! ref)))))"
proof (intro conjI impI)
  have ok: "sync_ok m" by (rule sync_reach_ok [OF assms new_manager_ok])
  show "Publish c origin skip m = m" if "int (length (c_Bytes c)) > MaxSSHStreamPayloadBytes"
    using that by (simp add: Publish_def)
  assume le: "int (length (c_Bytes c)) \<le> MaxSSHStreamPayloadBytes"
  let ?st = "\<lparr>o_content = c, o_origin = origin\<rparr>" and ?ids = "map y_id (m_peers m)"
  let ?m1 = "publish_loop ?st skip ?ids m"
  let ?js = "filter (\<lambda>i. i \<notin> set (filter (targeted skip) ?ids)) (map fst (m_sessions m))"
  have P: "Publish c origin skip m = publish_loop ?st skip ?js ?m1"
    using le by (simp add: Publish_def Let_def targeted_def)
  have m1: "sync_ok ?m1" "m_sessions ?m1 = m_sessions m" by (simp_all add: publish_loop_ok ok publish_loop_frame)
  show "m_sessions (Publish c origin skip m) = m_sessions m" unfolding P by (simp add: publish_loop_frame)
  show "\<forall>p. let chosen = (p \<in> y_id ` set (m_peers m) \<union> fst ` set (m_sessions m)) \<and> \<not> (skip \<noteq> [] \<and> HostsMatch p skip);
               st = \<lparr>o_content = c, o_origin = origin\<rparr>
           in map_of (m_pending (Publish c origin skip m)) p = (if chosen then Some st else map_of (m_pending m) p) \<and>
              (\<forall>ref. map_of (m_sessions m) p = Some ref \<longrightarrow>
                 ss_send (m_heap (Publish c origin skip m) ! ref) = (if chosen then [st] else ss_send (m_heap m ! ref)))"
  proof (intro allI, unfold Let_def, intro conjI allI impI)
    fix p
    show "map_of (m_pending (Publish c origin skip m)) p =
        (if p \<in> y_id ` set (m_peers m) \<union> fst ` set (m_sessions m) \<and> \<not> (skip \<noteq> [] \<and> HostsMatch p skip)
         then Some ?st else map_of (m_pending m) p)"
      unfolding P publish_loop_pending by (auto simp: targeted_def)
    fix ref assume r: "map_of (m_sessions m) p = Some ref"
    show "ss_send (m_heap (Publish c origin skip m) ! ref) =
        (if p \<in> y_id ` set (m_peers m) \<union> fst ` set (m_sessions m) \<and> \<not> (skip \<noteq> [] \<and> HostsMatch p skip)
         then [?st] else ss_send (m_heap m ! ref))"
      unfolding P publish_loop_queue [OF m1(1) r [folded m1(2)]] publish_loop_queue [OF ok r]
      by (auto simp: targeted_def)
  qed
qed

theorem Publish_effect_witness:
  "map_of (m_pending (Publish sync_content ''me'' [] sync_example)) ''desk'' =
     Some \<lparr>o_content = sync_content, o_origin = ''me''\<rparr>"
proof -
  have le: "int (length (c_Bytes sync_content)) \<le> MaxSSHStreamPayloadBytes"
    by (simp add: sync_content_def MaxSSHStreamPayloadBytes_def)
  have "''desk'' \<in> fst ` set (m_sessions sync_example)"
    using sync_example_slots(1) by (force dest: map_of_SomeD)
  with le show ?thesis
    using Publish_effect [OF sync_example_reach, of sync_content "''me''" "[]"] by (auto simp: Let_def)
qed

end
