(* ===== verification/Clipfan_ConfigDoc.thy ===== *)
theory Clipfan_ConfigDoc
  imports Clipfan_Config Clipfan_Stream
begin

text \<open>
  The configuration file: \<open>internal/config/v2.go\<close> and the loading half of \<open>config.go\<close> and
  \<open>hostid.go\<close>. A file holds a JSON document at the level of value trees; \<open>raw\<close> is the map of its
  top-level members with the last of two equal keys. The temporary name of the atomic writer and
  the home directory are arguments. Owner, inode and link count of a file are not modelled; the
  lock file is created and locked as a system call that may fail.
\<close>

section \<open>Struct decoding by a table of fields\<close>

fun dec_fields :: "string list \<Rightarrow> (string \<Rightarrow> json \<Rightarrow> 'a \<Rightarrow> 'a res) \<Rightarrow> json_fields \<Rightarrow> 'a \<Rightarrow> 'a res" where
  "dec_fields names setf [] x = Inr x"
| "dec_fields names setf ((k, v) # fs) x =
     (case struct_field names k of
        None \<Rightarrow> dec_fields names setf fs x
      | Some n \<Rightarrow> and_then (setf n v x) (dec_fields names setf fs))"

definition dec_struct :: "string \<Rightarrow> string list \<Rightarrow> (string \<Rightarrow> json \<Rightarrow> 'a \<Rightarrow> 'a res) \<Rightarrow> json \<Rightarrow> 'a \<Rightarrow> 'a res" where
  "dec_struct ty names setf v x = (case v of
     JNull \<Rightarrow> Inr x | JObj fs \<Rightarrow> dec_fields names setf fs x | _ \<Rightarrow> type_error ty)"

text \<open>The elements of an array: those the slice already has are decoded into.\<close>

fun dec_elems :: "(json \<Rightarrow> 'a \<Rightarrow> 'a res) \<Rightarrow> 'a \<Rightarrow> json list \<Rightarrow> 'a list \<Rightarrow> 'a list res" where
  "dec_elems dec zero [] cur = Inr []"
| "dec_elems dec zero (v # vs) cur =
     and_then (dec v (case cur of [] \<Rightarrow> zero | x # _ \<Rightarrow> x)) (\<lambda>x.
     and_then (dec_elems dec zero vs (tl cur)) (\<lambda>xs. Inr (x # xs)))"

definition dec_slice :: "string \<Rightarrow> (json \<Rightarrow> 'a \<Rightarrow> 'a res) \<Rightarrow> 'a \<Rightarrow> json \<Rightarrow> 'a list \<Rightarrow> 'a list res" where
  "dec_slice ty dec zero v cur = (case v of
     JNull \<Rightarrow> Inr [] | JArr vs \<Rightarrow> dec_elems dec zero vs cur | _ \<Rightarrow> type_error ty)"

definition proof_names :: "string list" where
  "proof_names = [''accept_key_id'', ''accept_gateway_path'', ''accept_verified_at'', ''accept_verified_by'',
     ''connect_key_id'', ''connect_gateway_path'', ''connect_verified_at'', ''connect_verified_by'']"

definition set_proof_field :: "string \<Rightarrow> json \<Rightarrow> SSHProof \<Rightarrow> SSHProof res" where
  "set_proof_field n v p =
     (if n = ''accept_key_id'' then and_then (dec_string v (pr_AcceptKeyID p)) (\<lambda>x. Inr (p\<lparr>pr_AcceptKeyID := x\<rparr>))
      else if n = ''accept_gateway_path'' then and_then (dec_string v (pr_AcceptGatewayPath p)) (\<lambda>x. Inr (p\<lparr>pr_AcceptGatewayPath := x\<rparr>))
      else if n = ''accept_verified_at'' then and_then (dec_string v (pr_AcceptVerifiedAt p)) (\<lambda>x. Inr (p\<lparr>pr_AcceptVerifiedAt := x\<rparr>))
      else if n = ''accept_verified_by'' then and_then (dec_string v (pr_AcceptVerifiedBy p)) (\<lambda>x. Inr (p\<lparr>pr_AcceptVerifiedBy := x\<rparr>))
      else if n = ''connect_key_id'' then and_then (dec_string v (pr_ConnectKeyID p)) (\<lambda>x. Inr (p\<lparr>pr_ConnectKeyID := x\<rparr>))
      else if n = ''connect_gateway_path'' then and_then (dec_string v (pr_ConnectGatewayPath p)) (\<lambda>x. Inr (p\<lparr>pr_ConnectGatewayPath := x\<rparr>))
      else if n = ''connect_verified_at'' then and_then (dec_string v (pr_ConnectVerifiedAt p)) (\<lambda>x. Inr (p\<lparr>pr_ConnectVerifiedAt := x\<rparr>))
      else if n = ''connect_verified_by'' then and_then (dec_string v (pr_ConnectVerifiedBy p)) (\<lambda>x. Inr (p\<lparr>pr_ConnectVerifiedBy := x\<rparr>))
      else Inr p)"

definition peer_names :: "string list" where
  "peer_names = [''id'', ''ssh_host'', ''ssh_user'', ''ssh_port'', ''install_path'', ''gateway_path'', ''enabled'',
     ''accept'', ''connect'', ''persistent'', ''on_demand'', ''migration_state'', ''proof'']"

definition set_peer_field :: "string \<Rightarrow> json \<Rightarrow> SSHPeer \<Rightarrow> SSHPeer res" where
  "set_peer_field n v p =
     (if n = ''id'' then and_then (dec_string v (sp_ID p)) (\<lambda>x. Inr (p\<lparr>sp_ID := x\<rparr>))
      else if n = ''ssh_host'' then and_then (dec_string v (sp_SSHHost p)) (\<lambda>x. Inr (p\<lparr>sp_SSHHost := x\<rparr>))
      else if n = ''ssh_user'' then and_then (dec_string v (sp_SSHUser p)) (\<lambda>x. Inr (p\<lparr>sp_SSHUser := x\<rparr>))
      else if n = ''ssh_port'' then and_then (dec_int v (sp_SSHPort p)) (\<lambda>x. Inr (p\<lparr>sp_SSHPort := x\<rparr>))
      else if n = ''install_path'' then and_then (dec_string v (sp_InstallPath p)) (\<lambda>x. Inr (p\<lparr>sp_InstallPath := x\<rparr>))
      else if n = ''gateway_path'' then and_then (dec_string v (sp_GatewayPath p)) (\<lambda>x. Inr (p\<lparr>sp_GatewayPath := x\<rparr>))
      else if n = ''enabled'' then and_then (dec_bool v (sp_Enabled p)) (\<lambda>x. Inr (p\<lparr>sp_Enabled := x\<rparr>))
      else if n = ''accept'' then and_then (dec_bool v (sp_Accept p)) (\<lambda>x. Inr (p\<lparr>sp_Accept := x\<rparr>))
      else if n = ''connect'' then and_then (dec_bool v (sp_Connect p)) (\<lambda>x. Inr (p\<lparr>sp_Connect := x\<rparr>))
      else if n = ''persistent'' then and_then (dec_bool v (sp_Persistent p)) (\<lambda>x. Inr (p\<lparr>sp_Persistent := x\<rparr>))
      else if n = ''on_demand'' then and_then (dec_bool v (sp_OnDemand p)) (\<lambda>x. Inr (p\<lparr>sp_OnDemand := x\<rparr>))
      else if n = ''migration_state'' then and_then (dec_string v (sp_MigrationState p)) (\<lambda>x. Inr (p\<lparr>sp_MigrationState := x\<rparr>))
      else if n = ''proof'' then
        and_then (dec_struct ''SSHProof'' proof_names set_proof_field v (sp_Proof p)) (\<lambda>x. Inr (p\<lparr>sp_Proof := x\<rparr>))
      else Inr p)"

definition ssh_names :: "string list" where
  "ssh_names = [''sync_key'', ''known_hosts'', ''max_sessions'', ''max_sessions_per_peer'', ''log_limit_bytes'', ''peers'']"

definition dec_peer :: "json \<Rightarrow> SSHPeer \<Rightarrow> SSHPeer res" where
  "dec_peer v p = dec_struct ''SSHPeer'' peer_names set_peer_field v p"

definition set_ssh_field :: "string \<Rightarrow> json \<Rightarrow> SSHConfig \<Rightarrow> SSHConfig res" where
  "set_ssh_field n v s =
     (if n = ''sync_key'' then and_then (dec_string v (s_SyncKey s)) (\<lambda>x. Inr (s\<lparr>s_SyncKey := x\<rparr>))
      else if n = ''known_hosts'' then and_then (dec_string v (s_KnownHosts s)) (\<lambda>x. Inr (s\<lparr>s_KnownHosts := x\<rparr>))
      else if n = ''max_sessions'' then and_then (dec_int v (s_MaxSessions s)) (\<lambda>x. Inr (s\<lparr>s_MaxSessions := x\<rparr>))
      else if n = ''max_sessions_per_peer'' then and_then (dec_int v (s_MaxSessionsPerPeer s)) (\<lambda>x. Inr (s\<lparr>s_MaxSessionsPerPeer := x\<rparr>))
      else if n = ''log_limit_bytes'' then and_then (dec_int v (s_LogLimitBytes s)) (\<lambda>x. Inr (s\<lparr>s_LogLimitBytes := x\<rparr>))
      else if n = ''peers'' then
        and_then (dec_slice ''[]SSHPeer'' dec_peer empty_peer v (s_Peers s)) (\<lambda>x.
          Inr (s\<lparr>s_Peers := x, s_PeersNil := (v = JNull)\<rparr>))
      else Inr s)"

definition dec_ssh :: "json \<Rightarrow> SSHConfig option \<Rightarrow> SSHConfig option res" where
  "dec_ssh v cur = (case v of
     JNull \<Rightarrow> Inr None
   | _ \<Rightarrow> and_then (dec_struct ''SSHConfig'' ssh_names set_ssh_field v (case cur of None \<Rightarrow> empty_ssh | Some s \<Rightarrow> s))
            (\<lambda>s. Inr (Some s)))"

definition config_names :: "string list" where
  "config_names = [''config_version'', ''config_revision'', ''listen'', ''shared_key'', ''discovery'', ''static_peers'',
     ''hostname'', ''transport'', ''ssh'', ''port'', ''max_history'']"

definition set_config_field :: "string \<Rightarrow> json \<Rightarrow> Config \<Rightarrow> Config res" where
  "set_config_field n v c =
     (if n = ''config_version'' then
        (if v = JNull then Inr (c\<lparr>cf_ConfigVersion := None\<rparr>)
         else and_then (dec_int v 0) (\<lambda>x. Inr (c\<lparr>cf_ConfigVersion := Some x\<rparr>)))
      else if n = ''config_revision'' then
        (if v = JNull then Inr (c\<lparr>cf_ConfigRevision := None\<rparr>)
         else and_then (dec_uint64 v 0) (\<lambda>x. Inr (c\<lparr>cf_ConfigRevision := Some x\<rparr>)))
      else if n = ''listen'' then and_then (dec_string v (cf_Listen c)) (\<lambda>x. Inr (c\<lparr>cf_Listen := x\<rparr>))
      else if n = ''shared_key'' then and_then (dec_string v (cf_SharedKey c)) (\<lambda>x. Inr (c\<lparr>cf_SharedKey := x\<rparr>))
      else if n = ''discovery'' then and_then (dec_string v (cf_Discovery c)) (\<lambda>x. Inr (c\<lparr>cf_Discovery := x\<rparr>))
      else if n = ''static_peers'' then
        and_then (dec_slice ''[]string'' dec_string [] v (cf_StaticPeers c)) (\<lambda>x.
          Inr (c\<lparr>cf_StaticPeers := x, cf_StaticPeersNil := (v = JNull)\<rparr>))
      else if n = ''hostname'' then and_then (dec_string v (cf_Hostname c)) (\<lambda>x. Inr (c\<lparr>cf_Hostname := x\<rparr>))
      else if n = ''transport'' then and_then (dec_string v (cf_Transport c)) (\<lambda>x. Inr (c\<lparr>cf_Transport := x\<rparr>))
      else if n = ''ssh'' then and_then (dec_ssh v (cf_SSH c)) (\<lambda>x. Inr (c\<lparr>cf_SSH := x\<rparr>))
      else if n = ''port'' then and_then (dec_int v (cf_Port c)) (\<lambda>x. Inr (c\<lparr>cf_Port := x\<rparr>))
      else if n = ''max_history'' then and_then (dec_int v (cf_MaxHistory c)) (\<lambda>x. Inr (c\<lparr>cf_MaxHistory := x\<rparr>))
      else Inr c)"

section \<open>Encoding\<close>

definition opt_str :: "string \<Rightarrow> string \<Rightarrow> json_fields" where
  "opt_str k s = if_set (s \<noteq> []) k (jstr s)"

definition opt_int :: "string \<Rightarrow> int \<Rightarrow> json_fields" where
  "opt_int k i = if_set (i \<noteq> 0) k (JNum (show_int i))"

definition opt_bool :: "string \<Rightarrow> bool \<Rightarrow> json_fields" where
  "opt_bool k b = if_set b k (JBool b)"

definition proof_json :: "SSHProof \<Rightarrow> json" where
  "proof_json p = JObj (opt_str ''accept_key_id'' (pr_AcceptKeyID p) @ opt_str ''accept_gateway_path'' (pr_AcceptGatewayPath p) @
     opt_str ''accept_verified_at'' (pr_AcceptVerifiedAt p) @ opt_str ''accept_verified_by'' (pr_AcceptVerifiedBy p) @
     opt_str ''connect_key_id'' (pr_ConnectKeyID p) @ opt_str ''connect_gateway_path'' (pr_ConnectGatewayPath p) @
     opt_str ''connect_verified_at'' (pr_ConnectVerifiedAt p) @ opt_str ''connect_verified_by'' (pr_ConnectVerifiedBy p))"

definition peer_json :: "SSHPeer \<Rightarrow> json" where
  "peer_json p = JObj ([(''id'', jstr (sp_ID p))] @ opt_str ''ssh_host'' (sp_SSHHost p) @ opt_str ''ssh_user'' (sp_SSHUser p) @
     opt_int ''ssh_port'' (sp_SSHPort p) @ opt_str ''install_path'' (sp_InstallPath p) @
     opt_str ''gateway_path'' (sp_GatewayPath p) @ opt_bool ''enabled'' (sp_Enabled p) @ opt_bool ''accept'' (sp_Accept p) @
     opt_bool ''connect'' (sp_Connect p) @ opt_bool ''persistent'' (sp_Persistent p) @ opt_bool ''on_demand'' (sp_OnDemand p) @
     opt_str ''migration_state'' (sp_MigrationState p) @ [(''proof'', proof_json (sp_Proof p))])"

definition ssh_json :: "SSHConfig \<Rightarrow> json" where
  "ssh_json s = JObj (opt_str ''sync_key'' (s_SyncKey s) @ opt_str ''known_hosts'' (s_KnownHosts s) @
     opt_int ''max_sessions'' (s_MaxSessions s) @ opt_int ''max_sessions_per_peer'' (s_MaxSessionsPerPeer s) @
     opt_int ''log_limit_bytes'' (s_LogLimitBytes s) @
     if_set (s_Peers s \<noteq> []) ''peers'' (JArr (map peer_json (s_Peers s))))"

text \<open>A nil slice of strings is \<open>null\<close>.\<close>

definition strings_json :: "bool \<Rightarrow> string list \<Rightarrow> json" where
  "strings_json isnil xs = (if xs = [] \<and> isnil then JNull else JArr (map jstr xs))"

definition config_json :: "Config \<Rightarrow> json" where
  "config_json c = JObj (
     (case cf_ConfigVersion c of None \<Rightarrow> [] | Some v \<Rightarrow> [(''config_version'', JNum (show_int v))]) @
     (case cf_ConfigRevision c of None \<Rightarrow> [] | Some r \<Rightarrow> [(''config_revision'', JNum (show_nat (unat r)))]) @
     [(''listen'', jstr (cf_Listen c)), (''shared_key'', jstr (cf_SharedKey c)), (''discovery'', jstr (cf_Discovery c))] @
     if_set (cf_StaticPeers c \<noteq> []) ''static_peers'' (strings_json (cf_StaticPeersNil c) (cf_StaticPeers c)) @
     opt_str ''hostname'' (cf_Hostname c) @ opt_str ''transport'' (cf_Transport c) @
     (case cf_SSH c of None \<Rightarrow> [] | Some s \<Rightarrow> [(''ssh'', ssh_json s)]) @
     opt_int ''port'' (cf_Port c) @ opt_int ''max_history'' (cf_MaxHistory c))"

section \<open>Documents\<close>

definition ErrConfigV2WritesDisabled :: string where "ErrConfigV2WritesDisabled = ''config_v2_writes_disabled''"
definition ErrConfigRevisionConflict :: string where "ErrConfigRevisionConflict = ''config_revision_conflict''"
definition ErrConfigFileUnsafe :: string where "ErrConfigFileUnsafe = ''config_file_unsafe''"

definition RevisionStatePreV2 :: string where "RevisionStatePreV2 = ''pre_v2''"
definition RevisionStateMissingRevision :: string where "RevisionStateMissingRevision = ''missing_revision''"
definition RevisionStateVersioned :: string where "RevisionStateVersioned = ''versioned''"

record RevisionExpectation =
  re_State :: string
  re_Revision :: "64 word option"

record configDocument =
  cd_Config :: Config
  cd_RevisionState :: string
  cd_ConfigRevision :: "64 word option"
  cd_raw :: json_fields

text \<open>\<open>json.Unmarshal\<close> into a map of raw messages.\<close>

definition raw_map :: "json_doc \<Rightarrow> json_fields option res" where
  "raw_map d = (case d of
     BadSyntax \<Rightarrow> Inl ''json''
   | Values [JNull] \<Rightarrow> Inr None
   | Values [JObj fs] \<Rightarrow> Inr (Some (foldl (\<lambda>acc (k, v). AList.update k v acc) [] fs))
   | Values [_] \<Rightarrow> type_error ''map[string]json.RawMessage''
   | Values _ \<Rightarrow> Inl ''json'')"

definition unmarshalTypedConfig :: "json_fields \<Rightarrow> Config res" where
  "unmarshalTypedConfig raw =
     dec_fields config_names set_config_field
       (sort_key fst (filter (\<lambda>(k, _). k \<noteq> ''config_version'' \<and> k \<noteq> ''config_revision'') raw)) empty_config"

text \<open>The number must start with a digit; a fraction or an exponent is not an unsigned integer.\<close>

definition parseJSONUint :: "json \<Rightarrow> string \<Rightarrow> (64 word) res" where
  "parseJSONUint v code = (case v of
     JNum s \<Rightarrow>
       (if s = [] \<or> \<not> is_digit (hd s) then Inl (code @ '': expected unsigned integer'')
        else case parse_uint64 s of None \<Rightarrow> Inl (code @ '': strconv.ParseUint'') | Some n \<Rightarrow> Inr n)
   | _ \<Rightarrow> Inl (code @ '': expected unsigned integer''))"

definition parseConfigDocument :: "string res \<Rightarrow> json_doc \<Rightarrow> configDocument res" where
  "parseConfigDocument home d =
     and_then (raw_map d) (\<lambda>r. case r of
       None \<Rightarrow> Inl ''malformed_config: expected object''
     | Some raw \<Rightarrow>
         (case map_of raw ''config_version'' of
            None \<Rightarrow>
              and_then (unmarshalTypedConfig raw) (\<lambda>cfg.
                Inr \<lparr>cd_Config = cfg\<lparr>cf_ConfigVersion := None, cf_ConfigRevision := None\<rparr>,
                     cd_RevisionState = RevisionStatePreV2, cd_ConfigRevision = None, cd_raw = raw\<rparr>)
          | Some versionRaw \<Rightarrow>
              and_then (parseJSONUint versionRaw ''invalid_config_version'') (\<lambda>version.
              if version \<noteq> 2 then Inl (''unsupported_config_version: '' @ show_nat (unat version))
              else
              and_then (unmarshalTypedConfig raw) (\<lambda>cfg0.
              and_then (NormalizeLocalSSHPaths home cfg0) (\<lambda>cfg.
              and_then (ValidateSSHTransportConfig cfg) (\<lambda>_.
              let cfg1 = cfg\<lparr>cf_ConfigVersion := Some 2\<rparr>;
                  missing = \<lparr>cd_Config = cfg1\<lparr>cf_ConfigRevision := None\<rparr>,
                     cd_RevisionState = RevisionStateMissingRevision, cd_ConfigRevision = None, cd_raw = raw\<rparr>
              in case map_of raw ''config_revision'' of
                   None \<Rightarrow> Inr missing
                 | Some revisionRaw \<Rightarrow>
                     (if revisionRaw = JNull then Inr missing
                      else and_then (parseJSONUint revisionRaw ''invalid_config_revision'') (\<lambda>revision.
                      if revision = 0 then Inl ''invalid_config_revision: must be >= 1''
                      else Inr \<lparr>cd_Config = cfg1\<lparr>cf_ConfigRevision := Some revision\<rparr>,
                            cd_RevisionState = RevisionStateVersioned, cd_ConfigRevision = Some revision,
                            cd_raw = raw\<rparr>))))))))"

definition nextConfigRevision :: "configDocument \<Rightarrow> (64 word) res" where
  "nextConfigRevision doc =
     (if cd_RevisionState doc \<noteq> RevisionStateVersioned then Inr 1
      else case cd_ConfigRevision doc of
        None \<Rightarrow> Inl ''nil revision''
      | Some r \<Rightarrow> (if r = - 1 then Inl ''invalid_config_revision: cannot increment max uint64'' else Inr (r + 1)))"

definition validateRevisionExpectation :: "configDocument \<Rightarrow> RevisionExpectation \<Rightarrow> unit res" where
  "validateRevisionExpectation doc expected =
     (if cd_RevisionState doc \<noteq> re_State expected then Inl ErrConfigRevisionConflict
      else if re_State expected \<in> {RevisionStatePreV2, RevisionStateMissingRevision} then
        (if re_Revision expected \<noteq> None then Inl ErrConfigRevisionConflict else Inr ())
      else if re_State expected = RevisionStateVersioned then
        (if re_Revision expected = None \<or> re_Revision expected = Some 0 \<or> cd_ConfigRevision doc = None \<or>
            cd_ConfigRevision doc \<noteq> re_Revision expected
         then Inl ErrConfigRevisionConflict else Inr ())
      else Inl ErrConfigRevisionConflict)"

section \<open>Writing a document back\<close>

definition setRaw :: "string \<Rightarrow> json \<Rightarrow> json_fields \<Rightarrow> json_fields" where
  "setRaw key v out = AList.update key v out"

definition setRawIf :: "string \<Rightarrow> json \<Rightarrow> bool \<Rightarrow> json_fields \<Rightarrow> json_fields" where
  "setRawIf key v include out = (if include then setRaw key v out else AList.delete key out)"

definition hasRaw :: "configDocument \<Rightarrow> string \<Rightarrow> bool" where
  "hasRaw doc key \<longleftrightarrow> map_of (cd_raw doc) key \<noteq> None"

definition applyConfigScalars :: "configDocument \<Rightarrow> Config \<Rightarrow> 64 word \<Rightarrow> json_fields \<Rightarrow> json_fields" where
  "applyConfigScalars doc cfg nextRevision out =
     setRaw ''config_revision'' (JNum (show_nat (unat nextRevision)))
     (setRaw ''config_version'' (JNum ''2'')
     (setRawIf ''max_history'' (JNum (show_int (cf_MaxHistory cfg))) (hasRaw doc ''max_history'' \<or> cf_MaxHistory cfg \<noteq> 0)
     (setRawIf ''port'' (JNum (show_int (cf_Port cfg))) (hasRaw doc ''port'' \<or> cf_Port cfg \<noteq> 0)
     (setRawIf ''transport'' (jstr (cf_Transport cfg)) (hasRaw doc ''transport'' \<or> cf_Transport cfg \<noteq> [])
     (setRawIf ''hostname'' (jstr (cf_Hostname cfg)) (hasRaw doc ''hostname'' \<or> cf_Hostname cfg \<noteq> [])
     (setRawIf ''static_peers'' (strings_json (cf_StaticPeersNil cfg) (cf_StaticPeers cfg)) (hasRaw doc ''static_peers'' \<or> cf_StaticPeers cfg \<noteq> [])
     (setRawIf ''discovery'' (jstr (cf_Discovery cfg)) (hasRaw doc ''discovery'' \<or> cf_Discovery cfg \<noteq> [])
     (setRawIf ''shared_key'' (jstr (cf_SharedKey cfg)) (hasRaw doc ''shared_key'' \<or> cf_SharedKey cfg \<noteq> [])
     (setRawIf ''listen'' (jstr (cf_Listen cfg)) (hasRaw doc ''listen'' \<or> cf_Listen cfg \<noteq> []) out)))))))))"

text \<open>\<open>reflect.DeepEqual\<close> of two SSH sections: an empty slice differs from a nil one.\<close>

definition ssh_equal :: "SSHConfig option \<Rightarrow> SSHConfig option \<Rightarrow> bool" where
  "ssh_equal a b = (case (a, b) of
     (None, None) \<Rightarrow> True
   | (Some x, Some y) \<Rightarrow> x\<lparr>s_PeersNil := True\<rparr> = y\<lparr>s_PeersNil := True\<rparr> \<and>
       (s_Peers x = [] \<longrightarrow> s_PeersNil x = s_PeersNil y)
   | _ \<Rightarrow> False)"

definition cloneSSHConfig :: "SSHConfig option \<Rightarrow> SSHConfig option" where
  "cloneSSHConfig s = map_option (\<lambda>x. x\<lparr>s_PeersNil := (s_Peers x = [])\<rparr>) s"

definition marshalConfigDocument :: "configDocument \<Rightarrow> Config \<Rightarrow> 64 word \<Rightarrow> json_doc" where
  "marshalConfigDocument doc cfg nextRevision =
     (let out = applyConfigScalars doc cfg nextRevision (cd_raw doc);
          out1 = (if \<not> ssh_equal (cf_SSH cfg) (cf_SSH (cd_Config doc))
                  then setRawIf ''ssh'' (case cf_SSH cfg of None \<Rightarrow> JNull | Some s \<Rightarrow> ssh_json s) (cf_SSH cfg \<noteq> None) out
                  else out)
      in Values [JObj (sort_key fst out1)])"

section \<open>The file\<close>

definition path_dir :: "string \<Rightarrow> string" where
  "path_dir p = path_clean (rev (dropWhile (\<lambda>c. c \<noteq> slash) (rev p)))"

definition io_res :: "'a res \<Rightarrow> ('d, 'a) io" where
  "io_res r = (case r of Inl e \<Rightarrow> io_fail (ErrMsg e) | Inr x \<Rightarrow> io_return x)"

definition validateConfigFileInfo :: "'d node \<Rightarrow> unit res" where
  "validateConfigFileInfo n = (case n of
     Symlink \<Rightarrow> Inl (ErrConfigFileUnsafe @ '': config file is symlink'')
   | Regular mode _ _ \<Rightarrow>
       (if mode mod 64 \<noteq> 0 then Inl (ErrConfigFileUnsafe @ '': config file permissions are too open'') else Inr ())
   | _ \<Rightarrow> Inl (ErrConfigFileUnsafe @ '': config file is not a regular file''))"

text \<open>Opening without following a symbolic link, checking, and reading everything. An empty file has
  no document: it does not parse.\<close>

definition readConfigFileSafe :: "string \<Rightarrow> (json_doc, json_doc) io" where
  "readConfigFileSafe path =
     io_bind (os_lstat path) (\<lambda>info.
     io_bind (io_res (validateConfigFileInfo info)) (\<lambda>_.
     io_bind (os_read_file path) (\<lambda>d.
     io_return (case d of None \<Rightarrow> BadSyntax | Some x \<Rightarrow> x))))"

definition lock_of :: "string \<Rightarrow> string" where
  "lock_of path = path @ ''.lock''"

text \<open>\<open>os.OpenFile(lock, O_CREATE|O_RDWR|O_NOFOLLOW, 0600)\<close>, its checks, and the lock itself.\<close>

definition open_lock :: "string \<Rightarrow> ('d, unit) io" where
  "open_lock lock = syscall (\<lambda>s. case node_at s lock of
     None \<Rightarrow> (Inr (), set_node lock (Regular 384 None (clock s)) s)
   | Some Symlink \<Rightarrow> (Inl (ErrMsg (ErrConfigFileUnsafe @ '': config lock is symlink'')), s)
   | Some (Regular mode _ _) \<Rightarrow>
       (if mode mod 64 \<noteq> 0 then (Inl (ErrMsg (ErrConfigFileUnsafe @ '': config lock permissions are too open'')), s)
        else (Inr (), s))
   | Some _ \<Rightarrow> (Inl (ErrMsg (ErrConfigFileUnsafe @ '': config lock is not a regular file'')), s))"

text \<open>
  \<open>flock\<close>: a \<open>Short\<close> entry of the schedule stands for a lock that another process holds, which a
  blocking call waits for.
\<close>

definition ErrConfigLockHeld :: string where "ErrConfigLockHeld = ''config_lock_held''"

definition flock :: "bool \<Rightarrow> ('d, unit) io" where
  "flock nonBlocking s = (case take_fault s of (f, s') \<Rightarrow>
     (case f of
        Works \<Rightarrow> (Inr (), s')
      | Fails \<Rightarrow> (Inl ErrIO, s')
      | Short \<Rightarrow> (if nonBlocking then Inl (ErrMsg ErrConfigLockHeld) else Inr (), s')))"

definition withConfigFileLockMode :: "string \<Rightarrow> bool \<Rightarrow> ('d, 'a) io \<Rightarrow> ('d, 'a) io" where
  "withConfigFileLockMode path nonBlocking fn =
     io_bind (ensureConfigDir (path_dir path)) (\<lambda>_.
     io_bind (os_lstat path) (\<lambda>info.
     io_bind (io_res (validateConfigFileInfo info)) (\<lambda>_.
     io_bind (open_lock (lock_of path)) (\<lambda>_.
     io_bind (os_chmod (lock_of path) 384) (\<lambda>_.
     io_bind (flock nonBlocking) (\<lambda>_. fn))))))"

definition withConfigFileLock :: "string \<Rightarrow> ('d, 'a) io \<Rightarrow> ('d, 'a) io" where
  "withConfigFileLock path fn = withConfigFileLockMode path False fn"

definition tryConfigFileLock :: "string \<Rightarrow> ('d, 'a) io \<Rightarrow> ('d, 'a) io" where
  "tryConfigFileLock path fn = withConfigFileLockMode path True fn"

definition configV2TempPrefix :: "string \<Rightarrow> string" where
  "configV2TempPrefix path = ''.config-v2-'' @ path_base path @ ''.tmp.''"

fun remove_entries :: "string \<Rightarrow> string \<Rightarrow> (string \<times> 'd node) list \<Rightarrow> ('d, unit) io" where
  "remove_entries dir pre [] s = (Inr (), s)"
| "remove_entries dir pre ((name, n) # es) s =
     (if is_dir_node n \<or> \<not> has_prefix name pre then remove_entries dir pre es s
      else case os_remove (path_join dir name) s of
        (Inr _, s') \<Rightarrow> remove_entries dir pre es s'
      | (Inl e, s') \<Rightarrow> (if e = ErrNotExist then remove_entries dir pre es s' else (Inl e, s')))"

definition removeStaleConfigV2Temps :: "string \<Rightarrow> ('d, unit) io" where
  "removeStaleConfigV2Temps path =
     io_bind (os_read_dir (path_dir path)) (\<lambda>es. remove_entries (path_dir path) (configV2TempPrefix path) es)"

definition writeConfigV2Backup :: "string \<Rightarrow> 'd \<Rightarrow> nat \<Rightarrow> ('d, unit) io" where
  "writeConfigV2Backup path data mode =
     io_bind (ensureConfigDir (path_dir path)) (\<lambda>_.
     io_bind (os_create_excl path mode) (\<lambda>_.
     io_bind (with_cleanup path
       (io_bind (file_write path data) (\<lambda>_.
        io_bind (file_chmod path mode) (\<lambda>_.
        io_bind file_sync (\<lambda>_. file_close))))) (\<lambda>_.
     file_sync)))"

text \<open>
  The scoped update. \<open>mutate\<close> gets the cloned configuration and the document's own map of raw
  members, both of which it may change.
\<close>

definition clone_config :: "Config \<Rightarrow> Config" where
  "clone_config c = c\<lparr>cf_StaticPeersNil := (cf_StaticPeers c = []), cf_SSH := cloneSSHConfig (cf_SSH c)\<rparr>"

definition update_body ::
  "string res \<Rightarrow> string \<Rightarrow> string \<Rightarrow> RevisionExpectation \<Rightarrow> string \<Rightarrow> (Config \<Rightarrow> json_fields \<Rightarrow> (Config \<times> json_fields) res) \<Rightarrow> (json_doc, unit) io" where
  "update_body home tmp path expected backupPath mutate =
     io_bind (readConfigFileSafe path) (\<lambda>data.
     io_bind (io_res (parseConfigDocument home data)) (\<lambda>doc.
     io_bind (io_res (validateRevisionExpectation doc expected)) (\<lambda>_.
     io_bind (removeStaleConfigV2Temps path) (\<lambda>_.
     io_bind (io_res (mutate (clone_config (cd_Config doc)) (cd_raw doc))) (\<lambda>(cfg0, raw).
     io_bind (io_res (NormalizeLocalSSHPaths home cfg0)) (\<lambda>cfg.
     io_bind (io_res (ValidateSSHTransportConfig cfg)) (\<lambda>_.
     io_bind (if backupPath \<noteq> [] then writeConfigV2Backup backupPath data 384 else io_return ()) (\<lambda>_.
     io_bind (io_res (nextConfigRevision doc)) (\<lambda>nextRevision.
     writeConfigV2Atomic tmp path (marshalConfigDocument (doc\<lparr>cd_raw := raw\<rparr>) cfg nextRevision) 384)))))))))"

definition updateConfigV2ScopedRawWithBackupAndLock ::
  "string res \<Rightarrow> string \<Rightarrow> string \<Rightarrow> bool \<Rightarrow> RevisionExpectation \<Rightarrow> string \<Rightarrow> bool \<Rightarrow>
   (Config \<Rightarrow> json_fields \<Rightarrow> (Config \<times> json_fields) res) \<Rightarrow> (json_doc, unit) io" where
  "updateConfigV2ScopedRawWithBackupAndLock home tmp path gateEnabled expected backupPath nonBlocking mutate =
     (if \<not> gateEnabled then io_fail (ErrMsg ErrConfigV2WritesDisabled)
      else withConfigFileLockMode path nonBlocking (update_body home tmp path expected backupPath mutate))"

definition updateConfigV2ScopedRawWithBackup ::
  "string res \<Rightarrow> string \<Rightarrow> string \<Rightarrow> bool \<Rightarrow> RevisionExpectation \<Rightarrow> string \<Rightarrow>
   (Config \<Rightarrow> json_fields \<Rightarrow> (Config \<times> json_fields) res) \<Rightarrow> (json_doc, unit) io" where
  "updateConfigV2ScopedRawWithBackup home tmp path gateEnabled expected backupPath mutate =
     updateConfigV2ScopedRawWithBackupAndLock home tmp path gateEnabled expected backupPath False mutate"

definition updateConfigV2ScopedWithGate ::
  "string res \<Rightarrow> string \<Rightarrow> string \<Rightarrow> bool \<Rightarrow> RevisionExpectation \<Rightarrow> (Config \<Rightarrow> Config res) \<Rightarrow> (json_doc, unit) io" where
  "updateConfigV2ScopedWithGate home tmp path gateEnabled expected mutate =
     updateConfigV2ScopedRawWithBackup home tmp path gateEnabled expected [] (\<lambda>cfg raw. and_then (mutate cfg) (\<lambda>c. Inr (c, raw)))"

definition readConfigDocumentLocked :: "string res \<Rightarrow> string \<Rightarrow> (json_doc, configDocument) io" where
  "readConfigDocumentLocked home path =
     withConfigFileLock path (io_bind (readConfigFileSafe path) (\<lambda>data. io_res (parseConfigDocument home data)))"

record RevisionStatus =
  rs_ConfigVersion :: "int option"
  rs_ConfigRevision :: "64 word option"
  rs_RevisionState :: string

definition ReadRevisionStatus :: "string res \<Rightarrow> string \<Rightarrow> (json_doc, RevisionStatus) io" where
  "ReadRevisionStatus home path =
     io_bind (readConfigDocumentLocked home path) (\<lambda>doc.
     io_return \<lparr>rs_ConfigVersion = cf_ConfigVersion (cd_Config doc), rs_ConfigRevision = cd_ConfigRevision doc,
                rs_RevisionState = cd_RevisionState doc\<rparr>)"

section \<open>Loading\<close>

definition saveAtPath :: "string \<Rightarrow> Config \<Rightarrow> (json_doc, unit) io" where
  "saveAtPath path c = writeConfigAtomic path (Values [config_json c]) 384"

definition Save :: "bool \<Rightarrow> string \<Rightarrow> Config option \<Rightarrow> (json_doc, unit) io" where
  "Save v2Write path c =
     (case c of
        None \<Rightarrow> io_bind (ensureConfigDir (path_dir path)) (\<lambda>_. writeConfigAtomic path (Values [JNull]) 384)
      | Some cfg \<Rightarrow>
          (case cf_ConfigVersion cfg of
             Some v \<Rightarrow>
               (if v \<noteq> 2 then io_fail (ErrMsg (''unsupported_config_version: '' @ show_int v))
                else if \<not> v2Write then io_fail (ErrMsg ErrConfigV2WritesDisabled)
                else io_bind (ensureConfigDir (path_dir path)) (\<lambda>_. saveAtPath path cfg))
           | None \<Rightarrow>
               (if \<not> v2Write \<and> cf_ConfigRevision cfg \<noteq> None then io_fail (ErrMsg ErrConfigV2WritesDisabled)
                else io_bind (ensureConfigDir (path_dir path)) (\<lambda>_. saveAtPath path cfg))))"

definition parseConfigDocumentFromPath :: "string res \<Rightarrow> string \<Rightarrow> (json_doc, configDocument) io" where
  "parseConfigDocumentFromPath home path =
     io_bind (os_read_file path) (\<lambda>d.
     io_res (parseConfigDocument home (case d of None \<Rightarrow> BadSyntax | Some x \<Rightarrow> x)))"

text \<open>\<open>loadDocument\<close>: \<open>newKey\<close> is the key \<open>NewSharedKey\<close> generates.\<close>

definition loadDocument :: "string res \<Rightarrow> string \<Rightarrow> string \<Rightarrow> bool \<Rightarrow> (json_doc, Config \<times> configDocument) io" where
  "loadDocument home newKey path loopbackDefault =
     io_bind (ensureConfigDir (path_dir path)) (\<lambda>_ s.
       case repairConfigFile path s of
         (Inl e, s1) \<Rightarrow>
           (if e = ErrNotExist then
              (let c = withDefaultsForGeneratedListen (empty_config\<lparr>cf_SharedKey := newKey\<rparr>) loopbackDefault
               in io_bind (saveAtPath path c) (\<lambda>_.
                  io_bind (parseConfigDocumentFromPath home path) (\<lambda>doc. io_return (c, doc))) s1)
            else (Inl e, s1))
       | (Inr _, s1) \<Rightarrow>
           io_bind (parseConfigDocumentFromPath home path) (\<lambda>doc.
             io_return (withDefaultsForGeneratedListen (cd_Config doc) loopbackDefault,
                        doc\<lparr>cd_Config := withDefaultsForGeneratedListen (cd_Config doc) loopbackDefault\<rparr>)) s1)"

definition loadForDaemonStart :: "string res \<Rightarrow> string \<Rightarrow> string \<Rightarrow> string \<Rightarrow> bool \<Rightarrow> bool \<Rightarrow> (json_doc, Config) io" where
  "loadForDaemonStart home newKey tmp path loopbackListen v2Write =
     io_bind (loadDocument home newKey path loopbackListen) (\<lambda>(cfg, doc).
       case ApplyGeneratedListenMigration cfg loopbackListen of
         (False, cfg1) \<Rightarrow> io_return cfg1
       | (True, cfg1) \<Rightarrow>
           (if cd_RevisionState doc \<noteq> RevisionStateVersioned \<or> \<not> v2Write then io_return cfg1
            else io_bind (updateConfigV2ScopedWithGate home tmp path True
                   \<lparr>re_State = RevisionStateVersioned, re_Revision = cd_ConfigRevision doc\<rparr>
                   (\<lambda>c. Inr (snd (ApplyGeneratedListenMigration c True)))) (\<lambda>_.
                 io_bind (loadDocument home newKey path loopbackListen) (\<lambda>(cfg2, _). io_return cfg2))))"

section \<open>Persisting the host identifier\<close>

record HostIDMigrationResult =
  hm_HostID :: string
  hm_RevisionState :: string
  hm_ConfigRevision :: "64 word option"
  hm_Migrated :: bool

definition doc_result :: "configDocument \<Rightarrow> HostIDMigrationResult" where
  "doc_result doc = \<lparr>hm_HostID = cf_Hostname (cd_Config doc), hm_RevisionState = cd_RevisionState doc,
     hm_ConfigRevision = cd_ConfigRevision doc, hm_Migrated = False\<rparr>"

definition RequirePersistedHostIDAtRevision ::
  "string res \<Rightarrow> string \<Rightarrow> string \<Rightarrow> RevisionExpectation \<Rightarrow> (json_doc, HostIDMigrationResult) io" where
  "RequirePersistedHostIDAtRevision home path expectedHostID expected =
     io_bind (io_res (ValidateHostID expectedHostID)) (\<lambda>_.
     withConfigFileLock path
       (io_bind (parseConfigDocumentFromPath home path) (\<lambda>doc.
        io_bind (io_res (validateRevisionExpectation doc expected)) (\<lambda>_.
        if cf_Hostname (cd_Config doc) = [] then io_fail (ErrMsg ErrHostIDNotPersisted)
        else io_bind (io_res (ValidateHostID (cf_Hostname (cd_Config doc)))) (\<lambda>_.
          if cf_Hostname (cd_Config doc) \<noteq> expectedHostID then io_fail (ErrMsg ErrHostIDMismatch)
          else io_return (doc_result doc))))))"

definition marshalLegacyHostIDDocument :: "configDocument \<Rightarrow> string \<Rightarrow> json_doc" where
  "marshalLegacyHostIDDocument doc hostID =
     Values [JObj (sort_key fst (setRaw ''hostname'' (jstr hostID)
       (AList.delete ''config_revision'' (AList.delete ''config_version'' (cd_raw doc)))))]"

definition ensurePersistedHostIDWithGate ::
  "string res \<Rightarrow> string \<Rightarrow> string \<Rightarrow> bool \<Rightarrow> string res \<Rightarrow> (json_doc, HostIDMigrationResult) io" where
  "ensurePersistedHostIDWithGate home tmp path gateEnabled derive =
     withConfigFileLock path
       (io_bind (removeStaleConfigV2Temps path) (\<lambda>_.
        io_bind (parseConfigDocumentFromPath home path) (\<lambda>doc.
        if cf_Hostname (cd_Config doc) \<noteq> []
        then io_bind (io_res (ValidateHostID (cf_Hostname (cd_Config doc)))) (\<lambda>_. io_return (doc_result doc))
        else if cd_RevisionState doc \<noteq> RevisionStatePreV2 \<and> \<not> gateEnabled
        then io_fail (ErrMsg ErrConfigV2WritesDisabled)
        else io_bind (io_res (wrap_err ''derive_host_id'' derive)) (\<lambda>hostID.
             io_bind (io_res (ValidateHostID hostID)) (\<lambda>_.
             if cd_RevisionState doc = RevisionStatePreV2
             then io_bind (writeConfigV2Atomic tmp path (marshalLegacyHostIDDocument doc hostID) 384) (\<lambda>_.
                  io_return ((doc_result doc)\<lparr>hm_HostID := hostID, hm_Migrated := True\<rparr>))
             else io_bind (io_res (nextConfigRevision doc)) (\<lambda>revision.
                  io_bind (writeConfigV2Atomic tmp path
                    (marshalConfigDocument doc ((cd_Config doc)\<lparr>cf_Hostname := hostID\<rparr>) revision) 384) (\<lambda>_.
                  io_return ((doc_result doc)\<lparr>hm_HostID := hostID, hm_Migrated := True,
                    hm_RevisionState := RevisionStateVersioned, hm_ConfigRevision := Some revision\<rparr>))))))))"

definition EnsurePersistedHostIDValue ::
  "string res \<Rightarrow> string \<Rightarrow> string \<Rightarrow> bool \<Rightarrow> string \<Rightarrow> (json_doc, HostIDMigrationResult) io" where
  "EnsurePersistedHostIDValue home tmp path v2Write hostID =
     io_bind (io_res (ValidateHostID hostID)) (\<lambda>_. ensurePersistedHostIDWithGate home tmp path v2Write (Inr hostID))"

section \<open>Steps of a sequence of calls\<close>

lemma io_res_run: "io_res r s = (case r of Inl e \<Rightarrow> (Inl (ErrMsg e), s) | Inr x \<Rightarrow> (Inr x, s))"
  by (cases r) (simp_all add: io_res_def io_fail_def io_return_def)

lemma io_res_Inr: "io_res r s = (Inr x, s') \<longleftrightarrow> r = Inr x \<and> s' = s"
  by (cases r) (auto simp: io_res_run)

lemma io_res_Inl: "io_res r s = (Inl e, s') \<Longrightarrow> s' = s"
  by (cases r) (auto simp: io_res_run)

lemma quiet_at: "touches {} m \<Longrightarrow> m s = (r, s') \<Longrightarrow> node_at s' p = node_at s p"
  by (blast dest: touchesD)

text \<open>What stands at the path of a regular file survives the creation of any directory.\<close>

lemma ensureConfigDir_keeps:
  assumes "ensureConfigDir d s = (r, s')" and "node_at s p = Some (Regular a b c)"
  shows "node_at s' p = node_at s p"
proof -
  have mk: "node_at s1 p = node_at s p" if "os_mkdir_all d 448 s = (r1, s1)" for r1 s1
    using that assms(2) unfolding os_mkdir_all_def
    by (rule_tac syscallE) (auto split: option.splits node.splits)
  have ls: "node_at s1 q = node_at s0 q" if "os_lstat d s0 = (r1, s1)" for r1 s0 s1 q
    using that by (rule quiet_at [OF touches_calls(5)])
  have node: "node_at s1 d = Some n" if "os_lstat d s0 = (Inr n, s1)" for s0 s1 n
    using that unfolding os_lstat_def by (rule syscallE) (auto split: option.splits)
  have ch: "node_at s3 p = node_at s p"
    if "os_mkdir_all d 448 s = (Inr u, s1)" "os_lstat d s1 = (Inr n, s2)" "is_dir_node n" "os_chmod d 448 s2 = (r1, s3)"
    for u n r1 s1 s2 s3
    using touchesD [OF touches_calls(1) that(4), of p] that(3) assms(2) mk [OF that(1)] ls [OF that(2)] node [OF that(2)]
    by (cases "p = d") (auto simp: is_dir_node_def)
  show ?thesis
    using assms(1) unfolding ensureConfigDir_def
    by (elim io_bindE) (auto simp: mk ls ch io_fail_def split: if_splits)
qed

lemma flock_quiet: "touches {} (flock nb)"
  by (rule touchesI) (auto simp: flock_def take_fault_node_at split: prod.splits fault.splits)

lemma open_lock_touches: "touches {lock} (open_lock lock)"
  unfolding open_lock_def by (rule touches_syscall) (auto split: option.splits node.splits if_splits)

lemma lock_of_neq [simp]: "lock_of path \<noteq> path" "path \<noteq> lock_of path"
  by (auto simp: lock_of_def)

text \<open>The lock and its checks leave the configuration file as it is.\<close>

lemma withConfigFileLockModeE:
  assumes "withConfigFileLockMode path nb fn s = (r, s')" and "node_at s path = Some (Regular a b c)"
  obtains e where "r = Inl e" and "node_at s' path = node_at s path"
        | s1 where "node_at s1 path = node_at s path" and "fn s1 = (r, s')"
proof -
  have dir: "node_at s1 path = node_at s path" if "ensureConfigDir (path_dir path) s = (r1, s1)" for r1 s1
    using ensureConfigDir_keeps [OF that assms(2)] .
  have ls: "node_at s1 path = node_at s0 path" if "os_lstat path s0 = (r1, s1)" for r1 s0 s1
    using that by (rule quiet_at [OF touches_calls(5)])
  have ol: "node_at s1 path = node_at s0 path" if "open_lock (lock_of path) s0 = (r1, s1)" for r1 s0 s1
    using touchesD [OF open_lock_touches that] by simp
  have ch: "node_at s1 path = node_at s0 path" if "os_chmod (lock_of path) 384 s0 = (r1, s1)" for r1 s0 s1
    using touchesD [OF touches_calls(1) that] by simp
  have fl: "node_at s1 path = node_at s0 path" if "flock nb s0 = (r1, s1)" for r1 s0 s1
    using that by (rule quiet_at [OF flock_quiet])
  have "r \<in> range Inl \<and> node_at s' path = node_at s path \<or> (\<exists>s1. node_at s1 path = node_at s path \<and> fn s1 = (r, s'))"
    using assms(1) unfolding withConfigFileLockMode_def
    by (elim io_bindE) (auto simp: dir ls ol ch fl io_res_Inr dest: io_res_Inl)
  with that show thesis by blast
qed

lemma readConfigFileSafe_quiet: "touches {} (readConfigFileSafe path)"
  unfolding readConfigFileSafe_def io_res_def io_fail_def io_return_def
  by (intro touches_bind touches_calls) (auto simp: touches_def split: sum.splits)

lemma readConfigFileSafe_data:
  assumes "readConfigFileSafe path s = (Inr d, s')" and "node_at s path = Some (Regular m (Some data) t)"
  shows "d = data"
proof -
  have rd: "x = Some data" if "os_read_file path s0 = (Inr x, s1)" "node_at s0 path = node_at s path" for s0 s1 x
    using that assms(2) unfolding os_read_file_def by (rule_tac syscallE) (auto split: option.splits)
  have ls: "node_at s1 path = node_at s path" if "os_lstat path s = (r1, s1)" for r1 s1
    using that by (rule quiet_at [OF touches_calls(5)])
  show ?thesis
    using assms(1) unfolding readConfigFileSafe_def
    by (elim io_bindE) (auto simp: ls io_res_Inr io_return_def dest!: rd)
qed

text \<open>A stale temporary file is never the configuration file itself.\<close>

lemma stale_temp_neq:
  assumes "has_prefix name (configV2TempPrefix path)" and "slash \<notin> set name"
  shows "path_join (path_dir path) name \<noteq> path"
proof
  assume eq: "path_join (path_dir path) name = path"
  from assms have "plain_name name"
    by (auto simp: plain_name_def has_prefix_def configV2TempPrefix_def)
  then have "path_base path = name" using path_base_join eq by metis
  with assms(1) have "length name \<ge> length (configV2TempPrefix (path_base path))"
    by (auto simp: has_prefix_def configV2TempPrefix_def)
  then show False using assms(1) \<open>path_base path = name\<close>
    by (auto simp: has_prefix_def configV2TempPrefix_def)
qed

lemma remove_entries_keeps:
  assumes "remove_entries dir pre es s = (r, s')"
    and "\<forall>(name, n) \<in> set es. has_prefix name pre \<longrightarrow> path_join dir name \<noteq> p"
  shows "node_at s' p = node_at s p"
  using assms
proof (induction dir pre es s arbitrary: r s' rule: remove_entries.induct)
  case (2 dir pre name n es s)
  show ?case
  proof (cases "is_dir_node n \<or> \<not> has_prefix name pre")
    case True then show ?thesis using "2.prems" "2.IH"(1) [OF True] by auto
  next
    case False
    obtain r1 s1 where rm: "os_remove (path_join dir name) s = (r1, s1)" by fastforce
    have "path_join dir name \<noteq> p" using "2.prems"(2) False by auto
    then have n1: "node_at s1 p = node_at s p" using touchesD [OF touches_calls(4) rm, of p] by auto
    show ?thesis
    proof (cases r1)
      case (Inl e)
      then show ?thesis using "2.prems" False rm n1 "2.IH"(2) [OF False rm [symmetric] Inl]
        by (auto split: if_splits)
    next
      case (Inr u)
      then show ?thesis using "2.prems" False rm n1 "2.IH"(3) [OF False rm [symmetric] Inr] by auto
    qed
  qed
qed simp

lemma removeStale_keeps:
  assumes "removeStaleConfigV2Temps path s = (r, s')"
  shows "node_at s' path = node_at s path"
  using assms unfolding removeStaleConfigV2Temps_def
proof (rule io_bindE)
  fix e assume "os_read_dir (path_dir path) s = (Inl e, s')"
  then show ?thesis using os_read_dir_cases by metis
next
  fix es s1 assume d: "os_read_dir (path_dir path) s = (Inr es, s1)"
    and r: "remove_entries (path_dir path) (configV2TempPrefix path) es s1 = (r, s')"
  from os_read_dir_cases [OF d] have n: "node_at s1 = node_at s" and "\<forall>m \<in> set (map fst es). slash \<notin> set m" by auto
  then have "\<forall>(name, n) \<in> set es. has_prefix name (configV2TempPrefix path) \<longrightarrow> path_join (path_dir path) name \<noteq> path"
    by (fastforce dest: stale_temp_neq)
  from remove_entries_keeps [OF r this] n show ?thesis by simp
qed


lemma backup_keeps:
  assumes "writeConfigV2Backup b data mode s = (r, s')" and "node_at s p = Some (Regular k d t)" and "b \<noteq> p"
  shows "node_at s' p = node_at s p"
proof -
  have "touches {b} (io_bind (os_create_excl b mode) (\<lambda>_. io_bind (with_cleanup b
       (io_bind (file_write b data) (\<lambda>_. io_bind (file_chmod b mode) (\<lambda>_. io_bind file_sync (\<lambda>_. file_close))))) (\<lambda>_. file_sync)))"
    unfolding file_chmod_def by (intro touches_bind touches_with_cleanup)
      (auto intro: touches_mono touches_intros)
  note rest = touchesD [OF this]
  show ?thesis
    using assms unfolding writeConfigV2Backup_def
    by (elim io_bindE [where m = "ensureConfigDir (path_dir b)"])
      (auto dest!: rest [where q = p] ensureConfigDir_keeps [where p = p])
qed

text \<open>
  \<open>update_of home data expected mutate new\<close>: the update of the document \<open>data\<close> goes through and
  gives \<open>new\<close>.
\<close>

definition update_of ::
  "string res \<Rightarrow> json_doc \<Rightarrow> RevisionExpectation \<Rightarrow> (Config \<Rightarrow> json_fields \<Rightarrow> (Config \<times> json_fields) res) \<Rightarrow> json_doc res" where
  "update_of home data expected mutate =
     and_then (parseConfigDocument home data) (\<lambda>doc.
     and_then (validateRevisionExpectation doc expected) (\<lambda>_.
     and_then (mutate (clone_config (cd_Config doc)) (cd_raw doc)) (\<lambda>(cfg0, raw).
     and_then (NormalizeLocalSSHPaths home cfg0) (\<lambda>cfg.
     and_then (ValidateSSHTransportConfig cfg) (\<lambda>_.
     and_then (nextConfigRevision doc) (\<lambda>next.
     Inr (marshalConfigDocument (doc\<lparr>cd_raw := raw\<rparr>) cfg next)))))))"

text \<open>The same pure step at the level of triples.\<close>

lemma triple_io_res: "triple P (io_res x) (\<lambda>v s. P s \<and> x = Inr v) P"
  by (rule tripleI) (auto simp: io_res_Inr dest: io_res_Inl)

lemma triple_pure: "(F \<Longrightarrow> triple P m Q E) \<Longrightarrow> triple (\<lambda>s. P s \<and> F) m Q E"
  by (auto simp: triple_def)

lemma triple_res_bind:
  assumes "\<And>v. x = Inr v \<Longrightarrow> triple P (f v) Q E" and "\<And>s. P s \<Longrightarrow> E s"
  shows "triple P (io_bind (io_res x) f) Q E"
  by (rule triple_bind [OF triple_weaken [OF triple_io_res]], fact assms(2), rule triple_pure, fact assms(1))

lemma update_body_triple:
  fixes data :: json_doc
  fixes home expected mutate m t
  assumes neq: "tmp \<noteq> path" "backup \<noteq> path"
  defines "old \<equiv> holds_old path (Some (Regular m (Some data) t))"
    and "new \<equiv> \<lambda>s. \<exists>doc t'. update_of home data expected mutate = Inr doc \<and> node_at s path = Some (Regular 384 (Some doc) t')"
  shows "triple old (update_body home tmp path expected backup mutate) (\<lambda>_. new) (\<lambda>s. old s \<or> new s)"
proof -
  let ?E = "\<lambda>s. old s \<or> new s"
  have rd: "triple old (readConfigFileSafe path) (\<lambda>d s. old s \<and> d = data) ?E"
    by (rule tripleI) (auto simp: old_def holds_old_def
        dest: quiet_at [OF readConfigFileSafe_quiet, where p = path] readConfigFileSafe_data)
  have st: "triple old (removeStaleConfigV2Temps path) (\<lambda>_. old) ?E"
    by (rule tripleI) (auto simp: old_def holds_old_def dest: removeStale_keeps)
  have bk: "triple old (if backup \<noteq> [] then writeConfigV2Backup backup data 384 else io_return ()) (\<lambda>_. old) ?E"
    by (rule tripleI) (auto simp: old_def holds_old_def io_return_def split: if_splits dest: backup_keeps [OF _ _ neq(2)])
  have wr: "triple old (writeConfigV2Atomic tmp path doc 384) (\<lambda>_. new) ?E"
    if "update_of home data expected mutate = Inr doc" for doc
    using writeConfigV2Atomic_triple [OF neq(1), of _ doc 384] that unfolding old_def new_def installed_def
    by (fastforce simp: triple_def split: sum.splits)
  show ?thesis unfolding update_body_def
    apply (rule triple_bind [OF rd], rule triple_pure, hypsubst, rule triple_res_bind [rotated], simp)
    apply (rule triple_res_bind [rotated], simp, rule triple_bind [OF st])
    apply (rule triple_res_bind [rotated], simp, split prod.split, intro allI impI)
    apply (rule triple_res_bind [rotated], simp, rule triple_res_bind [rotated], simp)
    apply (rule triple_bind [OF bk], rule triple_res_bind [rotated], simp, rule wr)
    apply (simp add: update_of_def)
    done
qed

section \<open>Revisions\<close>

lemma raw_map_distinct: "raw_map d = Inr (Some raw) \<Longrightarrow> distinct (map fst raw)"
proof -
  have "distinct (map fst (foldl (\<lambda>acc (k, v). AList.update k v acc) acc fs))" if "distinct (map fst acc)"
    for acc fs :: json_fields
    using that by (induction fs arbitrary: acc) (auto split: prod.splits)
  then show "raw_map d = Inr (Some raw) \<Longrightarrow> distinct (map fst raw)"
    by (fastforce simp: raw_map_def type_error_def split: json_doc.splits list.splits json.splits)
qed

lemma foldl_update_distinct:
  "distinct (map fst fs) \<Longrightarrow> map_of (foldl (\<lambda>acc (k, v). AList.update k v acc) acc fs) =
     map_of acc ++ map_of fs"
proof (induction fs arbitrary: acc)
  case (Cons p fs)
  obtain k v where p: "p = (k, v)" by fastforce
  have "k \<notin> dom (map_of fs)" using Cons.prems by (simp add: p dom_map_of_conv_image_fst)
  then show ?case using Cons by (auto simp: p map_add_def fun_eq_iff split: option.splits)
qed simp

lemma raw_map_object:
  assumes "distinct (map fst fs)"
  shows "\<exists>raw. raw_map (Values [JObj fs]) = Inr (Some raw) \<and> map_of raw = map_of fs"
  using foldl_update_distinct [OF assms, of "[]"] by (simp add: raw_map_def)

lemma map_of_sort_key:
  "distinct (map fst xs) \<Longrightarrow> map_of (sort_key fst xs) = map_of (xs :: (string \<times> 'a) list)"
proof -
  assume d: "distinct (map fst xs)"
  have "mset (map fst (sort_key fst xs)) = mset (map fst xs)" by (simp add: mset_map)
  then have "distinct (map fst (sort_key fst xs))" using d by (metis mset_eq_imp_distinct_iff)
  with d show ?thesis by (intro map_of_eqI) (auto simp: image_iff split: option.splits)
qed


lemma sort_key_distinct:
  "distinct (map fst xs) \<Longrightarrow> distinct (map fst (sort_key fst (xs :: (string \<times> 'a) list)))"
proof -
  have "mset (map fst (sort_key fst xs)) = mset (map fst xs)" by (simp add: mset_map)
  then show "distinct (map fst xs) \<Longrightarrow> ?thesis" by (metis mset_eq_imp_distinct_iff)
qed

lemma setRaw_simps [simp]:
  "map_of (setRaw k v out) = (map_of out)(k \<mapsto> v)"
  "map_of (setRawIf k v b out) = (map_of out)(k := (if b then Some v else None))"
  "distinct (map fst out) \<Longrightarrow> distinct (map fst (setRaw k v out))"
  "distinct (map fst out) \<Longrightarrow> distinct (map fst (setRawIf k v b out))"
  by (simp_all add: setRaw_def setRawIf_def)

lemma marshal_members:
  assumes "distinct (map fst (cd_raw doc))"
  obtains fs where "marshalConfigDocument doc cfg rv = Values [JObj fs]" and "distinct (map fst fs)"
    and "map_of fs = (map_of (applyConfigScalars doc cfg rv (cd_raw doc)))
           (''ssh'' := (if ssh_equal (cf_SSH cfg) (cf_SSH (cd_Config doc)) then map_of (cd_raw doc) ''ssh''
                        else map_option ssh_json (cf_SSH cfg)))"
proof -
  let ?out = "applyConfigScalars doc cfg rv (cd_raw doc)"
  let ?ssh = "case cf_SSH cfg of None \<Rightarrow> JNull | Some s \<Rightarrow> ssh_json s"
  let ?out1 = "if ssh_equal (cf_SSH cfg) (cf_SSH (cd_Config doc)) then ?out
               else setRawIf ''ssh'' ?ssh (cf_SSH cfg \<noteq> None) ?out"
  have d: "distinct (map fst ?out)" using assms by (simp add: applyConfigScalars_def)
  then have d1: "distinct (map fst ?out1)" by simp
  have s: "map_of ?out ''ssh'' = map_of (cd_raw doc) ''ssh''" by (simp add: applyConfigScalars_def)
  have "marshalConfigDocument doc cfg rv = Values [JObj (sort_key fst ?out1)]"
    by (simp add: marshalConfigDocument_def Let_def)
  moreover have "map_of (sort_key fst ?out1) = (map_of ?out)
           (''ssh'' := (if ssh_equal (cf_SSH cfg) (cf_SSH (cd_Config doc)) then map_of (cd_raw doc) ''ssh''
                        else map_option ssh_json (cf_SSH cfg)))"
    unfolding map_of_sort_key [OF d1] using s by (auto simp: fun_eq_iff split: option.splits)
  ultimately show thesis using that sort_key_distinct [OF d1] by blast
qed

text \<open>Whatever else a written document holds, it parses, if at all, to the revision it was written with.\<close>

lemma parse_marshal_revision:
  assumes "parseConfigDocument home (marshalConfigDocument doc cfg rv) = Inr d"
    and "distinct (map fst (cd_raw doc))"
  shows "cd_RevisionState d = RevisionStateVersioned \<and> cd_ConfigRevision d = Some rv"
proof -
  obtain fs where fs: "marshalConfigDocument doc cfg rv = Values [JObj fs]" "distinct (map fst fs)"
    and m: "map_of fs = (map_of (applyConfigScalars doc cfg rv (cd_raw doc)))
           (''ssh'' := (if ssh_equal (cf_SSH cfg) (cf_SSH (cd_Config doc)) then map_of (cd_raw doc) ''ssh''
                        else map_option ssh_json (cf_SSH cfg)))"
    using marshal_members [OF assms(2)] by metis
  obtain raw where raw: "raw_map (Values [JObj fs]) = Inr (Some raw)" "map_of raw = map_of fs"
    using raw_map_object [OF fs(2)] by blast
  have v: "map_of raw ''config_version'' = Some (JNum ''2'')"
    "map_of raw ''config_revision'' = Some (JNum (show_nat (unat rv)))"
    by (simp_all add: raw(2) m applyConfigScalars_def)
  have "show_nat 2 = ''2''" by code_simp
  then have "show_nat (unat (2 :: 64 word)) = ''2''" by simp
  then have "parse_uint64 ''2'' = Some (2 :: 64 word)" by (metis parse_uint64_show)
  then have u: "parseJSONUint (JNum ''2'') e = Inr 2" for e by (simp add: parseJSONUint_def is_digit_def)
  have w: "parseJSONUint (JNum (show_nat (unat rv))) e = Inr rv" for e
  proof -
    have "is_digit (hd (show_nat (unat rv)))"
      using show_nat_digits [of "unat rv"] show_nat_not_Nil [of "unat rv"] by (cases "show_nat (unat rv)") auto
    then show ?thesis by (simp add: parseJSONUint_def parse_uint64_show)
  qed
  show ?thesis
    using assms(1) unfolding fs(1) parseConfigDocument_def raw(1)
    by (auto simp: v u w Let_def split: if_splits)
qed


definition keeps_keys :: "(Config \<Rightarrow> json_fields \<Rightarrow> (Config \<times> json_fields) res) \<Rightarrow> bool" where
  "keeps_keys mutate \<longleftrightarrow> (\<forall>c raw c' raw'. mutate c raw = Inr (c', raw') \<longrightarrow>
     distinct (map fst raw) \<longrightarrow> distinct (map fst raw'))"

lemma parse_raw:
  assumes "parseConfigDocument home d = Inr doc"
  shows "raw_map d = Inr (Some (cd_raw doc))"
proof -
  from assms obtain raw where r: "raw_map d = Inr (Some raw)"
    by (auto simp: parseConfigDocument_def split: option.splits)
  have "cd_raw doc = raw"
    using assms unfolding parseConfigDocument_def r
    by (cases "map_of raw ''config_version''"; cases "map_of raw ''config_revision''")
      (auto simp: Let_def split: if_splits)
  with r show ?thesis by simp
qed

lemmas parse_raw_distinct = parse_raw [THEN raw_map_distinct]

text \<open>A document that an update produced does not satisfy the expectation of that update.\<close>

lemma update_of_stale:
  assumes "update_of home data expected mutate = Inr new" and "keeps_keys mutate"
  shows "update_of home new expected mutate' \<noteq> Inr new'"
proof
  assume st: "update_of home new expected mutate' = Inr new'"
  from assms(1) obtain doc cfg0 raw cfg n where
    doc: "parseConfigDocument home data = Inr doc" "validateRevisionExpectation doc expected = Inr ()"
    and mu: "mutate (clone_config (cd_Config doc)) (cd_raw doc) = Inr (cfg0, raw)"
    and nx: "nextConfigRevision doc = Inr n"
    and new: "new = marshalConfigDocument (doc\<lparr>cd_raw := raw\<rparr>) cfg n"
    by (auto simp: update_of_def split: prod.splits)
  from st obtain d where d: "parseConfigDocument home new = Inr d" "validateRevisionExpectation d expected = Inr ()"
    by (auto simp: update_of_def)
  have "distinct (map fst raw)"
    using assms(2) mu parse_raw_distinct [OF doc(1)] by (auto simp: keeps_keys_def)
  with d(1) have "cd_RevisionState d = RevisionStateVersioned" "cd_ConfigRevision d = Some n"
    using parse_marshal_revision unfolding new by force+
  with d(2) have "re_State expected = RevisionStateVersioned" "re_Revision expected = Some n"
    by (auto simp: validateRevisionExpectation_def RevisionStateVersioned_def RevisionStatePreV2_def
        RevisionStateMissingRevision_def split: if_splits)
  with doc(2) nx show False
    by (auto simp: validateRevisionExpectation_def nextConfigRevision_def RevisionStateVersioned_def RevisionStatePreV2_def
        RevisionStateMissingRevision_def split: if_splits option.splits)
qed

lemma update_cases:
  assumes "updateConfigV2ScopedRawWithBackupAndLock home tmp path gate expected backup nb mutate s = (r, s')"
    and "node_at s path = Some (Regular m (Some data) t)" and "tmp \<noteq> path" and "backup \<noteq> path"
  shows "r \<noteq> Inr () \<and> node_at s' path = node_at s path \<or>
    (\<exists>new t'. update_of home data expected mutate = Inr new \<and> node_at s' path = Some (Regular 384 (Some new) t'))"
proof (cases gate)
  case True
  with assms(1) have "withConfigFileLockMode path nb (update_body home tmp path expected backup mutate) s = (r, s')"
    by (simp add: updateConfigV2ScopedRawWithBackupAndLock_def)
  from this assms(2) show ?thesis
  proof (rule withConfigFileLockModeE)
    fix s1 assume s1: "node_at s1 path = node_at s path" "update_body home tmp path expected backup mutate s1 = (r, s')"
    then have "holds_old path (Some (Regular m (Some data) t)) s1" using assms(2) by (simp add: holds_old_def)
    with s1(2) assms(2) show ?thesis
      using update_body_triple [OF assms(3,4), of m data t home expected mutate]
      by (cases r) (fastforce dest: tripleD simp: holds_old_def)+
  qed auto
qed (use assms(1) in \<open>auto simp: updateConfigV2ScopedRawWithBackupAndLock_def io_fail_def\<close>)


text \<open>C7. An update of the configuration under a revision expectation is atomic for every schedule
  of failing system calls: afterwards the file either is what it was, and then an error is
  reported, or it holds the complete document that parsing, checking the expected revision,
  mutating, normalising and validating yield, with private permissions.\<close>

theorem config_update_atomic:
  assumes "updateConfigV2ScopedRawWithBackupAndLock home tmp path gate expected backup nb mutate s = (r, s')"
    and "node_at s path = Some (Regular m (Some data) t)" and "tmp \<noteq> path" and "backup \<noteq> path"
  shows "r \<noteq> Inr () \<and> node_at s' path = node_at s path \<or>
    (\<exists>doc cfg0 raw cfg rv t'. parseConfigDocument home data = Inr doc \<and>
       validateRevisionExpectation doc expected = Inr () \<and>
       mutate (clone_config (cd_Config doc)) (cd_raw doc) = Inr (cfg0, raw) \<and>
       NormalizeLocalSSHPaths home cfg0 = Inr cfg \<and> ValidateSSHTransportConfig cfg = Inr () \<and>
       nextConfigRevision doc = Inr rv \<and>
       node_at s' path = Some (Regular 384 (Some (marshalConfigDocument (doc\<lparr>cd_raw := raw\<rparr>) cfg rv)) t'))"
proof -
  have "\<exists>doc cfg0 raw cfg rv. parseConfigDocument home data = Inr doc \<and>
       validateRevisionExpectation doc expected = Inr () \<and>
       mutate (clone_config (cd_Config doc)) (cd_raw doc) = Inr (cfg0, raw) \<and>
       NormalizeLocalSSHPaths home cfg0 = Inr cfg \<and> ValidateSSHTransportConfig cfg = Inr () \<and>
       nextConfigRevision doc = Inr rv \<and> new = marshalConfigDocument (doc\<lparr>cd_raw := raw\<rparr>) cfg rv"
    if "update_of home data expected mutate = Inr new" for new
    using that by (auto simp: update_of_def split: prod.splits)
  with update_cases [OF assms] show ?thesis by blast
qed

text \<open>C6. Of two updates made under the same revision expectation only one takes effect: once an
  update has succeeded, any later update that still expects the revision the first one saw is
  refused and leaves the file alone, whatever the two change and whatever fails.\<close>

theorem stale_update_refused:
  assumes "updateConfigV2ScopedRawWithBackupAndLock home tmp path gate expected backup nb mutate s = (Inr (), s1)"
    and "node_at s path = Some (Regular m (Some data) t)" and "tmp \<noteq> path" and "backup \<noteq> path" and "keeps_keys mutate"
    and "node_at s2 path = node_at s1 path"
    and "updateConfigV2ScopedRawWithBackupAndLock home tmp2 path gate2 expected backup2 nb2 mutate2 s2 = (r, s3)"
    and "tmp2 \<noteq> path" and "backup2 \<noteq> path"
  shows "r \<noteq> Inr () \<and> node_at s3 path = node_at s1 path"
proof -
  from update_cases [OF assms(1-4)] obtain new t' where
    new: "update_of home data expected mutate = Inr new" "node_at s1 path = Some (Regular 384 (Some new) t')" by blast
  from new(2) assms(6) have "node_at s2 path = Some (Regular 384 (Some new) t')" by simp
  from update_cases [OF assms(7) this assms(8,9)] update_of_stale [OF new(1) assms(5)] assms(6) show ?thesis by auto
qed

definition doc_example :: json_doc where
  "doc_example = Values [JObj [(''listen'', JStr '':7853''), (''x_note'', JStr ''kept'')]]"

definition fs_config_example :: "json_doc fs" where
  "fs_config_example = \<lparr>nodes = [(''/c'', Directory 448), (''/c/config.json'', Regular 384 (Some doc_example) 5)],
     faults = [], clock = 9\<rparr>"


definition rename_example :: "Config \<Rightarrow> json_fields \<Rightarrow> (Config \<times> json_fields) res" where
  "rename_example c raw = Inr (c\<lparr>cf_Hostname := ''desk''\<rparr>, raw)"

definition expect_example :: RevisionExpectation where
  "expect_example = \<lparr>re_State = RevisionStatePreV2, re_Revision = None\<rparr>"

definition update_example :: "json_doc fs \<Rightarrow> (os_error + unit) \<times> json_doc fs" where
  "update_example s = updateConfigV2ScopedRawWithBackupAndLock (Inr ''/h'') ''/c/t'' ''/c/config.json'' True
     expect_example [] False rename_example s"

lemma update_example_ok: "fst (update_example fs_config_example) = Inr ()"
  by code_simp

lemma fs_config_example_node: "node_at fs_config_example ''/c/config.json'' = Some (Regular 384 (Some doc_example) 5)"
  by code_simp

theorem config_update_atomic_witness:
  "\<exists>doc. parseConfigDocument (Inr ''/h'') doc_example = Inr doc \<and> nextConfigRevision doc = Inr 1"
proof -
  have "updateConfigV2ScopedRawWithBackupAndLock (Inr ''/h'') ''/c/t'' ''/c/config.json'' True
     expect_example [] False rename_example fs_config_example = (Inr (), snd (update_example fs_config_example))"
    using update_example_ok by (simp add: update_example_def prod_eq_iff)
  from config_update_atomic [OF this fs_config_example_node] obtain doc rv where
    "parseConfigDocument (Inr ''/h'') doc_example = Inr doc" "validateRevisionExpectation doc expect_example = Inr ()"
    "nextConfigRevision doc = Inr rv" by auto
  then show ?thesis
    by (auto simp: validateRevisionExpectation_def nextConfigRevision_def expect_example_def
        RevisionStatePreV2_def RevisionStateVersioned_def split: if_splits)
qed

theorem stale_update_refused_witness:
  "fst (update_example (snd (update_example fs_config_example))) \<noteq> Inr ()"
proof -
  have 1: "updateConfigV2ScopedRawWithBackupAndLock (Inr ''/h'') ''/c/t'' ''/c/config.json'' True
     expect_example [] False rename_example fs_config_example = (Inr (), snd (update_example fs_config_example))"
    using update_example_ok by (simp add: update_example_def prod_eq_iff)
  have 2: "updateConfigV2ScopedRawWithBackupAndLock (Inr ''/h'') ''/c/t'' ''/c/config.json'' True
     expect_example [] False rename_example (snd (update_example fs_config_example)) =
     (fst (update_example (snd (update_example fs_config_example))), snd (update_example (snd (update_example fs_config_example))))"
    by (simp add: update_example_def)
  have "keeps_keys rename_example" by (auto simp: keeps_keys_def rename_example_def)
  from stale_update_refused [OF 1 fs_config_example_node _ _ this refl 2] show ?thesis by simp
qed

end
