(* ===== verification/Clipfan_PeerConfig.thy ===== *)
theory Clipfan_PeerConfig
  imports Clipfan_ConfigDoc
begin

text \<open>
  The peer operations of the configuration: \<open>internal/config/ssh_peer_config.go\<close>. A peer is kept as
  the map of its raw JSON members, so that unknown members survive every update; the typed peer is
  decoded from it. A map of raw members is an association list with distinct keys; \<open>None\<close> is the
  nil map. The migration states of a peer form a state machine, whose allowed edges are the
  abstract specification \<open>migration_edge\<close>. The current time is an argument.
\<close>

section \<open>Requests\<close>

record SSHPeerConfigReadResult =
  rr_Peer :: json_fields
  rr_ConfigRevision :: "64 word option"
  rr_RevisionState :: string
  rr_ConfigVersion :: "int option"

record SSHPeerUpsertFields =
  uf_ID :: "string option"
  uf_Enabled :: "bool option"
  uf_Accept :: "bool option"
  uf_Connect :: "bool option"
  uf_Persistent :: "bool option"
  uf_OnDemand :: "bool option"
  uf_SSHHost :: "string option"
  uf_SSHUser :: "string option"
  uf_SSHPort :: "int option"
  uf_InstallPath :: "string option"
  uf_GatewayPath :: "string option"
  uf_MigrationState :: "string option"
  uf_SharedKey :: "string option"

definition empty_upsert :: SSHPeerUpsertFields where
  "empty_upsert = \<lparr>uf_ID = None, uf_Enabled = None, uf_Accept = None, uf_Connect = None, uf_Persistent = None,
     uf_OnDemand = None, uf_SSHHost = None, uf_SSHUser = None, uf_SSHPort = None, uf_InstallPath = None,
     uf_GatewayPath = None, uf_MigrationState = None, uf_SharedKey = None\<rparr>"

record SSHPeerUpsertRequest =
  ur_ExpectedConfigRevision :: "64 word option"
  ur_Peer :: SSHPeerUpsertFields

record SSHPeerDirectionalProofPatch =
  dp_KeyID :: string
  dp_GatewayPath :: string
  dp_VerifiedAt :: string
  dp_VerifiedBy :: string

record SSHPeerProofPatchRequest =
  pp_ExpectedConfigRevision :: "64 word option"
  pp_AcceptProof :: "SSHPeerDirectionalProofPatch option"
  pp_ConnectProof :: "SSHPeerDirectionalProofPatch option"

record SSHPeerRemoteSecretAbsenceProof =
  ap_FailedPhase :: string
  ap_SecretWriteCommandSpawned :: bool
  ap_AbsenceVerifiedBy :: string
  ap_VerifiedAt :: string
  ap_RemoteConfigRevision :: "64 word option"
  ap_LogID :: string

record SSHPeerTransitionRequest =
  tr_ExpectedConfigRevision :: "64 word option"
  tr_FromState :: string
  tr_ToState :: string
  tr_Reason :: string
  tr_LogID :: string
  tr_FailedPhase :: "string option"
  tr_RemoteSecretAbsenceProof :: "SSHPeerRemoteSecretAbsenceProof option"

record SSHPeerDisableRequest =
  di_ExpectedConfigRevision :: "64 word option"
  di_Reason :: string

record SSHPeerDeleteRequest =
  dl_ExpectedConfigRevision :: "64 word option"
  dl_Reason :: string
  dl_LogID :: string

section \<open>Maps of raw members\<close>

definition dedup :: "json_fields \<Rightarrow> json_fields" where
  "dedup fs = foldl (\<lambda>acc (k, v). AList.update k v acc) [] fs"

text \<open>\<open>json.Unmarshal\<close> into \<open>map[string]json.RawMessage\<close>, \<open>[]json.RawMessage\<close> and
  \<open>[]map[string]json.RawMessage\<close>; \<open>json.Marshal\<close> of a map sorts its keys.\<close>

definition dec_map :: "json \<Rightarrow> json_fields option res" where
  "dec_map v = (case v of
     JNull \<Rightarrow> Inr None
   | JObj fs \<Rightarrow> Inr (Some (dedup fs))
   | _ \<Rightarrow> type_error ''map[string]json.RawMessage'')"

definition dec_raws :: "json \<Rightarrow> json list res" where
  "dec_raws v = (case v of JNull \<Rightarrow> Inr [] | JArr vs \<Rightarrow> Inr vs | _ \<Rightarrow> type_error ''[]json.RawMessage'')"

fun dec_map_list :: "json list \<Rightarrow> json_fields option list res" where
  "dec_map_list [] = Inr []"
| "dec_map_list (v # vs) = and_then (dec_map v) (\<lambda>m. and_then (dec_map_list vs) (\<lambda>ms. Inr (m # ms)))"

definition dec_maps :: "json \<Rightarrow> json_fields option list res" where
  "dec_maps v = (case v of
     JNull \<Rightarrow> Inr [] | JArr vs \<Rightarrow> dec_map_list vs | _ \<Rightarrow> type_error ''[]map[string]json.RawMessage'')"

definition members :: "json_fields option \<Rightarrow> json_fields" where
  "members m = (case m of None \<Rightarrow> [] | Some fs \<Rightarrow> fs)"

definition marshal_map :: "json_fields \<Rightarrow> json" where
  "marshal_map fs = JObj (sort_key fst fs)"

definition marshal_opt :: "json_fields option \<Rightarrow> json" where
  "marshal_opt m = (case m of None \<Rightarrow> JNull | Some fs \<Rightarrow> marshal_map fs)"

definition isJSONNull :: "json \<Rightarrow> bool" where
  "isJSONNull v \<longleftrightarrow> v = JNull"

definition juint :: "64 word \<Rightarrow> json" where
  "juint w = JNum (show_nat (unat w))"

definition setRawPointer :: "json_fields \<Rightarrow> string \<Rightarrow> json option \<Rightarrow> json_fields" where
  "setRawPointer raw key value = (case value of None \<Rightarrow> raw | Some v \<Rightarrow> setRaw key v raw)"

section \<open>Secret-like names\<close>

definition secret_words :: "string list" where
  "secret_words = [''shared_key'', ''secret'', ''token'', ''seed'', ''password'', ''credential'', ''private'', ''hmac'',
     ''nonce'', ''encrypted'', ''clipboard'', ''signed_frame'']"

definition secretLikePeerField :: "string \<Rightarrow> bool" where
  "secretLikePeerField field =
     (let lower = to_lower field in
      if lower = ''proof'' then False
      else lower \<in> {''shared_key'', ''private_key'', ''private_key_path'', ''sync_key'', ''sync_key_path'',
                     ''accept_proof'', ''connect_proof''} \<or>
           list_ex (contains_sub lower) secret_words)"

section \<open>Decoding requests\<close>

text \<open>
  \<open>decoder.Decode(&raw)\<close> followed by \<open>rejectTrailingJSON\<close>: the body holds exactly one value, an
  object.
\<close>

definition decode_body :: "string \<Rightarrow> json_doc \<Rightarrow> json_fields res" where
  "decode_body code body = (case body of
     BadSyntax \<Rightarrow> Inl (code @ '': json'')
   | Values [] \<Rightarrow> Inl (code @ '': EOF'')
   | Values (v # vs) \<Rightarrow>
       and_then (wrap_err code (dec_map v)) (\<lambda>m.
       case m of
         None \<Rightarrow> Inl (code @ '': expected object'')
       | Some raw \<Rightarrow> (if vs \<noteq> [] then Inl (code @ '': trailing data'') else Inr raw)))"

definition only_fields :: "string \<Rightarrow> string list \<Rightarrow> json_fields \<Rightarrow> unit res" where
  "only_fields pre allowed raw = (case find (\<lambda>(k, _). k \<notin> set allowed) raw of
     None \<Rightarrow> Inr () | Some (k, _) \<Rightarrow> Inl (''unknown_field: '' @ pre @ k))"

definition decodeSSHPeerExpectedRevision :: "json_fields \<Rightarrow> (64 word option) res" where
  "decodeSSHPeerExpectedRevision raw = (case map_of raw ''expected_config_revision'' of
     None \<Rightarrow> Inr None
   | Some v \<Rightarrow>
       (if isJSONNull v then Inr None
        else and_then (parseJSONUint v ''invalid_expected_config_revision'') (\<lambda>revision.
          if revision = 0 then Inl ErrConfigRevisionConflict else Inr (Some revision))))"

definition decodeRequiredSSHPeerMutationRevision :: "json_fields \<Rightarrow> string \<Rightarrow> (64 word option) res" where
  "decodeRequiredSSHPeerMutationRevision raw action = (case map_of raw ''expected_config_revision'' of
     None \<Rightarrow> Inl (''missing_ssh_peer_'' @ action @ ''_field: expected_config_revision'')
   | Some v \<Rightarrow>
       (if isJSONNull v then Inl (''missing_ssh_peer_'' @ action @ ''_field: expected_config_revision'')
        else and_then (decodeSSHPeerExpectedRevision raw) (\<lambda>revision.
          if revision = None \<or> revision = Some 0 then Inl ErrConfigRevisionConflict else Inr revision)))"

definition decodeRequiredSSHPeerMutationStringField :: "json_fields \<Rightarrow> string \<Rightarrow> string \<Rightarrow> string res" where
  "decodeRequiredSSHPeerMutationStringField raw action field =
     (let missing = Inl (''missing_ssh_peer_'' @ action @ ''_field: '' @ field) in
      case map_of raw field of
        None \<Rightarrow> missing
      | Some v \<Rightarrow>
          (if isJSONNull v then missing
           else case dec_string v [] of
             Inl _ \<Rightarrow> Inl (''invalid_ssh_peer_'' @ action @ ''_field: '' @ field)
           | Inr out \<Rightarrow> (if trim_space out = [] then missing else Inr out)))"

text \<open>The revision every request of the first three kinds must carry.\<close>

definition decode_revision :: "string \<Rightarrow> json_fields \<Rightarrow> (64 word option) res" where
  "decode_revision action raw =
     (if map_of raw ''expected_config_revision'' = None
      then Inl (''missing_ssh_peer_'' @ action @ ''_field: expected_config_revision'')
      else and_then (decodeSSHPeerExpectedRevision raw) (\<lambda>revision.
        if revision = None \<or> revision = Some 0 then Inl ErrConfigRevisionConflict else Inr revision))"

definition decodeBoolField :: "json \<Rightarrow> string \<Rightarrow> bool res" where
  "decodeBoolField v field =
     (let bad = Inl (''invalid_ssh_peer_upsert_field: peer.'' @ field) in
      if isJSONNull v then bad else case dec_bool v False of Inl _ \<Rightarrow> bad | Inr b \<Rightarrow> Inr b)"

definition decodeStringField :: "json \<Rightarrow> string \<Rightarrow> string res" where
  "decodeStringField v field =
     (let bad = Inl (''invalid_ssh_peer_upsert_field: peer.'' @ field) in
      if isJSONNull v then bad else case dec_string v [] of Inl _ \<Rightarrow> bad | Inr s \<Rightarrow> Inr s)"

definition decode_port_field :: "json \<Rightarrow> string \<Rightarrow> int res" where
  "decode_port_field v field =
     (let bad = Inl (''invalid_ssh_peer_upsert_field: peer.'' @ field) in
      if isJSONNull v then bad else case dec_int v 0 of Inl _ \<Rightarrow> bad | Inr i \<Rightarrow> Inr i)"

definition upsert_allowed :: "string list" where
  "upsert_allowed = [''id'', ''enabled'', ''accept'', ''connect'', ''persistent'', ''on_demand'', ''ssh_host'', ''ssh_user'',
     ''ssh_port'', ''install_path'', ''gateway_path'', ''migration_state'']"

definition upsert_field :: "string \<Rightarrow> json \<Rightarrow> SSHPeerUpsertFields \<Rightarrow> SSHPeerUpsertFields res" where
  "upsert_field field v req =
     (if field = ''id'' then and_then (decodeStringField v field) (\<lambda>x. Inr (req\<lparr>uf_ID := Some x\<rparr>))
      else if field = ''enabled'' then and_then (decodeBoolField v field) (\<lambda>x. Inr (req\<lparr>uf_Enabled := Some x\<rparr>))
      else if field = ''accept'' then and_then (decodeBoolField v field) (\<lambda>x. Inr (req\<lparr>uf_Accept := Some x\<rparr>))
      else if field = ''connect'' then and_then (decodeBoolField v field) (\<lambda>x. Inr (req\<lparr>uf_Connect := Some x\<rparr>))
      else if field = ''persistent'' then and_then (decodeBoolField v field) (\<lambda>x. Inr (req\<lparr>uf_Persistent := Some x\<rparr>))
      else if field = ''on_demand'' then and_then (decodeBoolField v field) (\<lambda>x. Inr (req\<lparr>uf_OnDemand := Some x\<rparr>))
      else if field = ''ssh_host'' then and_then (decodeStringField v field) (\<lambda>x. Inr (req\<lparr>uf_SSHHost := Some x\<rparr>))
      else if field = ''ssh_user'' then and_then (decodeStringField v field) (\<lambda>x. Inr (req\<lparr>uf_SSHUser := Some x\<rparr>))
      else if field = ''install_path'' then and_then (decodeStringField v field) (\<lambda>x. Inr (req\<lparr>uf_InstallPath := Some x\<rparr>))
      else if field = ''gateway_path'' then and_then (decodeStringField v field) (\<lambda>x. Inr (req\<lparr>uf_GatewayPath := Some x\<rparr>))
      else if field = ''ssh_port'' then and_then (decode_port_field v field) (\<lambda>x. Inr (req\<lparr>uf_SSHPort := Some x\<rparr>))
      else if field = ''migration_state'' then and_then (decodeStringField v field) (\<lambda>x. Inr (req\<lparr>uf_MigrationState := Some x\<rparr>))
      else Inr req)"

fun upsert_fields :: "json_fields \<Rightarrow> SSHPeerUpsertFields \<Rightarrow> SSHPeerUpsertFields res" where
  "upsert_fields [] req = Inr req"
| "upsert_fields ((field, v) # fs) req =
     (if field = ''shared_key'' \<or> secretLikePeerField field
      then Inl (''ssh_peer_secret_field_not_allowed: peer.'' @ field)
      else if field \<notin> set upsert_allowed then Inl (''unknown_field: peer.'' @ field)
      else and_then (upsert_field field v req) (upsert_fields fs))"

definition decodeSSHPeerUpsertFields :: "json \<Rightarrow> SSHPeerUpsertFields res" where
  "decodeSSHPeerUpsertFields v = (case dec_map v of
     Inr (Some flds) \<Rightarrow> upsert_fields flds empty_upsert
   | _ \<Rightarrow> Inl ''invalid_ssh_peer_upsert_field: peer'')"

definition DecodeSSHPeerUpsertRequest :: "json_doc \<Rightarrow> SSHPeerUpsertRequest res" where
  "DecodeSSHPeerUpsertRequest body =
     and_then (decode_body ''malformed_ssh_peer_upsert_request'' body) (\<lambda>raw.
     and_then (only_fields [] [''expected_config_revision'', ''peer''] raw) (\<lambda>_.
     and_then (decode_revision ''upsert'' raw) (\<lambda>revision.
     case map_of raw ''peer'' of
       None \<Rightarrow> Inl ''missing_ssh_peer_upsert_field: peer''
     | Some peerRaw \<Rightarrow>
         and_then (decodeSSHPeerUpsertFields peerRaw) (\<lambda>peer.
         Inr \<lparr>ur_ExpectedConfigRevision = revision, ur_Peer = peer\<rparr>))))"

definition decodeRequiredProofPatchStringField :: "json_fields \<Rightarrow> string \<Rightarrow> string \<Rightarrow> string res" where
  "decodeRequiredProofPatchStringField flds wrapperField field =
     (let missing = Inl (''missing_ssh_peer_proof_patch_field: '' @ wrapperField @ ''.'' @ field) in
      case map_of flds field of
        None \<Rightarrow> missing
      | Some v \<Rightarrow>
          (if isJSONNull v then missing
           else case dec_string v [] of
             Inl _ \<Rightarrow> Inl (''invalid_ssh_peer_proof_patch_field: '' @ wrapperField @ ''.'' @ field)
           | Inr out \<Rightarrow> Inr out))"

definition decodeSSHPeerDirectionalProofPatch :: "json \<Rightarrow> string \<Rightarrow> SSHPeerDirectionalProofPatch res" where
  "decodeSSHPeerDirectionalProofPatch v wrapperField = (case dec_map v of
     Inr (Some flds) \<Rightarrow>
       and_then (only_fields (wrapperField @ ''.'') [''key_id'', ''gateway_path'', ''verified_at'', ''verified_by''] flds) (\<lambda>_.
       and_then (decodeRequiredProofPatchStringField flds wrapperField ''key_id'') (\<lambda>keyID.
       and_then (decodeRequiredProofPatchStringField flds wrapperField ''gateway_path'') (\<lambda>gatewayPath.
       and_then (decodeRequiredProofPatchStringField flds wrapperField ''verified_at'') (\<lambda>verifiedAt.
       and_then (decodeRequiredProofPatchStringField flds wrapperField ''verified_by'') (\<lambda>verifiedBy.
       and_then (wrap_err (''invalid_ssh_peer_proof_patch_field: '' @ wrapperField)
         (validateProofFields keyID gatewayPath verifiedAt verifiedBy)) (\<lambda>_.
       Inr \<lparr>dp_KeyID = keyID, dp_GatewayPath = gatewayPath, dp_VerifiedAt = verifiedAt, dp_VerifiedBy = verifiedBy\<rparr>))))))
   | _ \<Rightarrow> Inl (''invalid_ssh_peer_proof_patch_field: '' @ wrapperField))"

definition optional_member :: "json_fields \<Rightarrow> string \<Rightarrow> (json \<Rightarrow> 'a res) \<Rightarrow> 'a option res" where
  "optional_member raw field dec = (case map_of raw field of
     None \<Rightarrow> Inr None | Some v \<Rightarrow> and_then (dec v) (\<lambda>x. Inr (Some x)))"

definition DecodeSSHPeerProofPatchRequest :: "json_doc \<Rightarrow> SSHPeerProofPatchRequest res" where
  "DecodeSSHPeerProofPatchRequest body =
     and_then (decode_body ''malformed_ssh_peer_proof_patch_request'' body) (\<lambda>raw.
     and_then (only_fields [] [''expected_config_revision'', ''accept_proof'', ''connect_proof''] raw) (\<lambda>_.
     and_then (decode_revision ''proof_patch'' raw) (\<lambda>revision.
     and_then (optional_member raw ''accept_proof'' (\<lambda>v. decodeSSHPeerDirectionalProofPatch v ''accept_proof'')) (\<lambda>acc.
     and_then (optional_member raw ''connect_proof'' (\<lambda>v. decodeSSHPeerDirectionalProofPatch v ''connect_proof'')) (\<lambda>con.
     if acc = None \<and> con = None then Inl ''ssh_peer_proof_patch_empty''
     else Inr \<lparr>pp_ExpectedConfigRevision = revision, pp_AcceptProof = acc, pp_ConnectProof = con\<rparr>)))))"

definition decodeTransitionStringValue :: "json \<Rightarrow> string \<Rightarrow> string res" where
  "decodeTransitionStringValue v field =
     (let bad = Inl (''invalid_ssh_peer_transition_field: '' @ field) in
      if isJSONNull v then bad
      else case dec_string v [] of Inl _ \<Rightarrow> bad | Inr out \<Rightarrow> (if trim_space out = [] then bad else Inr out))"

definition decodeRequiredTransitionStringField :: "json_fields \<Rightarrow> string \<Rightarrow> string res" where
  "decodeRequiredTransitionStringField flds field =
     (let missing = Inl (''missing_ssh_peer_transition_field: '' @ field) in
      case map_of flds field of
        None \<Rightarrow> missing
      | Some v \<Rightarrow> (if isJSONNull v then missing else decodeTransitionStringValue v field))"

definition decodeRequiredRemoteAbsenceProofStringField :: "json_fields \<Rightarrow> string \<Rightarrow> string res" where
  "decodeRequiredRemoteAbsenceProofStringField flds field =
     (let missing = Inl (''missing_ssh_peer_transition_field: remote_secret_absence_proof.'' @ field);
          bad = Inl (''invalid_ssh_peer_transition_field: remote_secret_absence_proof.'' @ field)
      in case map_of flds field of
        None \<Rightarrow> missing
      | Some v \<Rightarrow>
          (if isJSONNull v then missing
           else case dec_string v [] of Inl _ \<Rightarrow> bad | Inr out \<Rightarrow> (if trim_space out = [] then bad else Inr out)))"

definition decodeRequiredRemoteAbsenceProofBoolField :: "json_fields \<Rightarrow> string \<Rightarrow> bool res" where
  "decodeRequiredRemoteAbsenceProofBoolField flds field =
     (let missing = Inl (''missing_ssh_peer_transition_field: remote_secret_absence_proof.'' @ field) in
      case map_of flds field of
        None \<Rightarrow> missing
      | Some v \<Rightarrow>
          (if isJSONNull v then missing
           else case dec_bool v False of
             Inl _ \<Rightarrow> Inl (''invalid_ssh_peer_transition_field: remote_secret_absence_proof.'' @ field)
           | Inr out \<Rightarrow> Inr out))"

definition remote_revision :: "json \<Rightarrow> (64 word) res" where
  "remote_revision v =
     (if isJSONNull v then Inl ''invalid_ssh_peer_transition_field: remote_secret_absence_proof.remote_config_revision''
      else parseJSONUint v ''invalid_ssh_peer_transition_field: remote_secret_absence_proof.remote_config_revision'')"

definition decodeSSHPeerRemoteSecretAbsenceProof :: "json \<Rightarrow> SSHPeerRemoteSecretAbsenceProof res" where
  "decodeSSHPeerRemoteSecretAbsenceProof v = (case dec_map v of
     Inr (Some flds) \<Rightarrow>
       and_then (only_fields ''remote_secret_absence_proof.'' [''failed_phase'', ''secret_write_command_spawned'',
         ''absence_verified_by'', ''verified_at'', ''remote_config_revision'', ''log_id''] flds) (\<lambda>_.
       and_then (decodeRequiredRemoteAbsenceProofStringField flds ''failed_phase'') (\<lambda>failedPhase.
       and_then (decodeRequiredRemoteAbsenceProofBoolField flds ''secret_write_command_spawned'') (\<lambda>spawned.
       and_then (decodeRequiredRemoteAbsenceProofStringField flds ''absence_verified_by'') (\<lambda>absenceVerifiedBy.
       and_then (decodeRequiredRemoteAbsenceProofStringField flds ''verified_at'') (\<lambda>verifiedAt.
       and_then (decodeRequiredRemoteAbsenceProofStringField flds ''log_id'') (\<lambda>logID.
       and_then (optional_member flds ''remote_config_revision'' remote_revision) (\<lambda>remoteRevision.
       Inr \<lparr>ap_FailedPhase = failedPhase, ap_SecretWriteCommandSpawned = spawned, ap_AbsenceVerifiedBy = absenceVerifiedBy,
            ap_VerifiedAt = verifiedAt, ap_RemoteConfigRevision = remoteRevision, ap_LogID = logID\<rparr>)))))))
   | _ \<Rightarrow> Inl ''invalid_ssh_peer_transition_field: remote_secret_absence_proof'')"

definition DecodeSSHPeerTransitionRequest :: "json_doc \<Rightarrow> SSHPeerTransitionRequest res" where
  "DecodeSSHPeerTransitionRequest body =
     and_then (decode_body ''malformed_ssh_peer_transition_request'' body) (\<lambda>raw.
     and_then (only_fields [] [''expected_config_revision'', ''from_state'', ''to_state'', ''reason'', ''log_id'',
       ''failed_phase'', ''remote_secret_absence_proof''] raw) (\<lambda>_.
     and_then (decode_revision ''transition'' raw) (\<lambda>revision.
     and_then (decodeRequiredTransitionStringField raw ''from_state'') (\<lambda>fromState.
     and_then (decodeRequiredTransitionStringField raw ''to_state'') (\<lambda>toState.
     and_then (decodeRequiredTransitionStringField raw ''reason'') (\<lambda>reason.
     and_then (decodeRequiredTransitionStringField raw ''log_id'') (\<lambda>logID.
     and_then (optional_member raw ''failed_phase'' (\<lambda>v. decodeTransitionStringValue v ''failed_phase'')) (\<lambda>failedPhase.
     and_then (optional_member raw ''remote_secret_absence_proof'' decodeSSHPeerRemoteSecretAbsenceProof) (\<lambda>absence.
     Inr \<lparr>tr_ExpectedConfigRevision = revision, tr_FromState = fromState, tr_ToState = toState, tr_Reason = reason,
          tr_LogID = logID, tr_FailedPhase = failedPhase, tr_RemoteSecretAbsenceProof = absence\<rparr>)))))))))"

definition stableSSHPeerReasonPattern :: "string \<Rightarrow> bool" where
  "stableSSHPeerReasonPattern s = (case s of
     [] \<Rightarrow> False
   | c # r \<Rightarrow> lower_letter c \<and> 1 \<le> length r \<and> length r \<le> 63 \<and>
       list_all (\<lambda>d. lower_letter d \<or> is_digit d \<or> d = CHR ''_'') r)"

definition DecodeSSHPeerDisableRequest :: "json_doc \<Rightarrow> SSHPeerDisableRequest res" where
  "DecodeSSHPeerDisableRequest body =
     and_then (decode_body ''malformed_ssh_peer_disable_request'' body) (\<lambda>raw.
     and_then (only_fields [] [''expected_config_revision'', ''reason''] raw) (\<lambda>_.
     and_then (decodeRequiredSSHPeerMutationRevision raw ''disable'') (\<lambda>revision.
     and_then (decodeRequiredSSHPeerMutationStringField raw ''disable'' ''reason'') (\<lambda>reason.
     if \<not> stableSSHPeerReasonPattern reason then Inl ''invalid_ssh_peer_disable_field: reason''
     else Inr \<lparr>di_ExpectedConfigRevision = revision, di_Reason = reason\<rparr>))))"

definition DecodeSSHPeerDeleteRequest :: "json_doc \<Rightarrow> SSHPeerDeleteRequest res" where
  "DecodeSSHPeerDeleteRequest body =
     and_then (decode_body ''malformed_ssh_peer_delete_request'' body) (\<lambda>raw.
     and_then (only_fields [] [''expected_config_revision'', ''reason'', ''log_id''] raw) (\<lambda>_.
     and_then (decodeRequiredSSHPeerMutationRevision raw ''delete'') (\<lambda>revision.
     and_then (decodeRequiredSSHPeerMutationStringField raw ''delete'' ''reason'') (\<lambda>reason.
     if \<not> stableSSHPeerReasonPattern reason then Inl ''invalid_ssh_peer_delete_field: reason''
     else and_then (decodeRequiredSSHPeerMutationStringField raw ''delete'' ''log_id'') (\<lambda>logID.
     Inr \<lparr>dl_ExpectedConfigRevision = revision, dl_Reason = reason, dl_LogID = logID\<rparr>)))))"

section \<open>Redaction\<close>

lemma json_field_size: "(k, v) \<in> set fs \<Longrightarrow> size v < size (JObj fs)"
proof -
  assume "(k, v) \<in> set fs"
  then have "size_prod (\<lambda>_. 0) size (k, v) \<le> size_list (size_prod (\<lambda>_. 0) size) fs"
    by (rule size_list_estimation') simp
  then show ?thesis by simp
qed

lemma json_elem_size: "v \<in> set vs \<Longrightarrow> size v < size (JArr vs)"
  using size_list_estimation' [of v vs "size v" size] by simp

lemma set_update_subset: "set (AList.update k v xs) \<subseteq> insert (k, v) (set xs)"
  by (induction xs) auto

lemma set_dedup: "set (dedup fs) \<subseteq> set fs"
proof -
  have "set (foldl (\<lambda>acc (k, v). AList.update k v acc) acc fs) \<subseteq> set acc \<union> set fs" for acc
  proof (induction fs arbitrary: acc)
    case (Cons p fs)
    obtain k v where p: "p = (k, v)" by fastforce
    from Cons [of "AList.update k v acc"] set_update_subset [of k v acc] show ?case by (auto simp: p)
  qed simp
  from this [of "[]"] show ?thesis by (simp add: dedup_def)
qed

text \<open>Decoding into \<open>any\<close>: an object keeps the last of equal keys.\<close>

fun decode_any :: "json \<Rightarrow> json" where
  "decode_any (JObj fs) = JObj (dedup (map (\<lambda>(k, v). (k, decode_any v)) fs))"
| "decode_any (JArr vs) = JArr (map decode_any vs)"
| "decode_any v = v"

definition safeTopLevelPeerScalarField :: "string \<Rightarrow> bool" where
  "safeTopLevelPeerScalarField field \<longleftrightarrow> field \<in> set [''id'', ''enabled'', ''accept'', ''connect'', ''persistent'', ''on_demand'',
     ''ssh_host'', ''ssh_user'', ''ssh_port'', ''install_path'', ''gateway_path'', ''migration_state'']"

definition peerContainerValue :: "json \<Rightarrow> bool" where
  "peerContainerValue v \<longleftrightarrow> (case v of JObj _ \<Rightarrow> True | JArr _ \<Rightarrow> True | _ \<Rightarrow> False)"

definition opt_fields :: "(string \<times> json option) list \<Rightarrow> json_fields" where
  "opt_fields xs = concat (map (\<lambda>(k, r). case r of None \<Rightarrow> [] | Some v \<Rightarrow> [(k, v)]) xs)"

function (sequential) redactDecodedPeerField :: "string \<Rightarrow> json \<Rightarrow> bool \<Rightarrow> json option"
  and redactProofValue :: "json \<Rightarrow> json option"
  and redactDecodedPeerValue :: "json \<Rightarrow> json" where
  "redactDecodedPeerField key v topLevel =
     (if secretLikePeerField key then None
      else if fold_case key = ''proof'' then redactProofValue v
      else if topLevel \<and> \<not> safeTopLevelPeerScalarField key \<and> \<not> peerContainerValue v then None
      else Some (redactDecodedPeerValue v))"
| "redactProofValue (JObj fs) = Some (redactDecodedPeerValue (JObj fs))"
| "redactProofValue (JArr vs) = Some (JArr (map redactDecodedPeerValue (filter peerContainerValue vs)))"
| "redactProofValue _ = None"
| "redactDecodedPeerValue (JObj fs) =
     JObj (opt_fields (map (\<lambda>(k, w). (k, redactDecodedPeerField k w False)) fs))"
| "redactDecodedPeerValue (JArr vs) = JArr (map redactDecodedPeerValue vs)"
| "redactDecodedPeerValue v = v"
  by pat_completeness auto

termination
  by (relation "measures [case_sum (\<lambda>(_, v, _). size v) (case_sum size size),
                          case_sum (\<lambda>_. 2) (case_sum (\<lambda>_. 1) (\<lambda>_. 0))]")
    (auto dest: json_field_size json_elem_size)

definition redactRawPeer :: "json_fields \<Rightarrow> json_fields" where
  "redactRawPeer rawPeer = opt_fields (map (\<lambda>(k, v). (k, redactDecodedPeerField k (decode_any v) True)) rawPeer)"

section \<open>Scrubbing\<close>

text \<open>
  A map without its secret-like members; \<open>rs\<close> are the members with the scrubbed value and whether
  it changed. The keys in \<open>preserve\<close> are left alone.
\<close>

definition scrub_keep :: "string list \<Rightarrow> (string \<times> json \<times> bool) list \<Rightarrow> json_fields" where
  "scrub_keep preserve rs =
     map (\<lambda>(k, w, _). (k, w)) (filter (\<lambda>(k, _). k \<in> set preserve \<or> \<not> secretLikePeerField k) rs)"

definition scrub_changed :: "string list \<Rightarrow> (string \<times> json \<times> bool) list \<Rightarrow> bool" where
  "scrub_changed preserve rs = list_ex (\<lambda>(k, _, ch). k \<notin> set preserve \<and> (secretLikePeerField k \<or> ch)) rs"

function (sequential) scrubSecretLikeRawValue :: "json \<Rightarrow> json \<times> bool" where
  "scrubSecretLikeRawValue (JObj fs) =
     (let rs = map (\<lambda>(k, w). (k, scrubSecretLikeRawValue w)) (dedup fs)
      in if scrub_changed [] rs then (marshal_map (scrub_keep [] rs), True) else (JObj fs, False))"
| "scrubSecretLikeRawValue (JArr vs) =
     (let rs = map scrubSecretLikeRawValue vs
      in if list_ex snd rs then (JArr (map fst rs), True) else (JArr vs, False))"
| "scrubSecretLikeRawValue v = (v, False)"
  by pat_completeness auto

termination
  by (relation "measure size") (auto dest!: json_elem_size json_field_size subsetD [OF set_dedup])

definition scrubSecretLikeRawFields :: "json_fields \<Rightarrow> string list \<Rightarrow> json_fields \<times> bool" where
  "scrubSecretLikeRawFields raw preserve =
     (let rs = map (\<lambda>(k, w). (k, if k \<in> set preserve then (w, False) else scrubSecretLikeRawValue w)) raw
      in (scrub_keep preserve rs, scrub_changed preserve rs))"

section \<open>Peers in the raw document\<close>

definition rawSSHPeers :: "json_fields \<Rightarrow> (json_fields \<times> json_fields option list) res" where
  "rawSSHPeers raw =
     and_then (case map_of raw ''ssh'' of
         None \<Rightarrow> Inr []
       | Some v \<Rightarrow> (if isJSONNull v then Inr [] else and_then (wrap_err ''invalid_ssh_config'' (dec_map v)) (\<lambda>m. Inr (members m))))
     (\<lambda>sshRaw.
     and_then (case map_of sshRaw ''peers'' of
         None \<Rightarrow> Inr []
       | Some v \<Rightarrow> (if isJSONNull v then Inr [] else wrap_err ''invalid_ssh_peers'' (dec_maps v)))
     (\<lambda>peers. Inr (sshRaw, peers)))"

definition rawPeerID :: "json_fields option \<Rightarrow> string res" where
  "rawPeerID peer = (case map_of (members peer) ''id'' of
     None \<Rightarrow> Inl ''invalid_ssh_peer_id: missing''
   | Some v \<Rightarrow>
       and_then (wrap_err ''invalid_ssh_peer_id'' (dec_string v [])) (\<lambda>i.
       and_then (wrap_err ''invalid_ssh_peer_id'' (ValidateHostID i)) (\<lambda>_. Inr i)))"

fun find_peer_from :: "nat \<Rightarrow> json_fields option list \<Rightarrow> string \<Rightarrow> (nat \<times> json_fields) option res" where
  "find_peer_from i [] peerID = Inr None"
| "find_peer_from i (p # ps) peerID =
     and_then (rawPeerID p) (\<lambda>pid.
       if pid = peerID then Inr (Some (i, members p)) else find_peer_from (Suc i) ps peerID)"

definition findRawPeerForUpdate :: "json_fields option list \<Rightarrow> string \<Rightarrow> (nat \<times> json_fields) option res" where
  "findRawPeerForUpdate peers peerID = find_peer_from 0 peers peerID"

definition ssh_peer_not_found :: "string \<Rightarrow> 'a res" where
  "ssh_peer_not_found peerID = Inl (''ssh_peer_not_found: '' @ peerID)"

definition rawSSHPeerByID :: "json_fields \<Rightarrow> string \<Rightarrow> (json_fields \<times> nat) res" where
  "rawSSHPeerByID raw peerID =
     and_then (rawSSHPeers raw) (\<lambda>(_, peers).
     and_then (find_peer_from 0 peers peerID) (\<lambda>r.
     case r of None \<Rightarrow> ssh_peer_not_found peerID | Some (i, p) \<Rightarrow> Inr (p, i)))"

definition rawPeerMigrationState :: "json_fields \<Rightarrow> string res" where
  "rawPeerMigrationState peer = (case map_of peer ''migration_state'' of
     None \<Rightarrow> Inr []
   | Some v \<Rightarrow> (if isJSONNull v then Inr [] else wrap_err ''invalid_migration_state'' (dec_string v [])))"

definition typedPeerFromRaw :: "json_fields option \<Rightarrow> SSHPeer res" where
  "typedPeerFromRaw peer = dec_peer (marshal_opt peer) empty_peer"

fun typed_peers :: "json_fields option list \<Rightarrow> SSHPeer list res" where
  "typed_peers [] = Inr []"
| "typed_peers (p # ps) = and_then (typedPeerFromRaw p) (\<lambda>t. and_then (typed_peers ps) (\<lambda>ts. Inr (t # ts)))"

definition rebuildTypedSSHPeersAndWriteBack ::
  "Config \<Rightarrow> json_fields \<Rightarrow> json_fields \<Rightarrow> json_fields option list \<Rightarrow> (Config \<times> json_fields) res" where
  "rebuildTypedSSHPeersAndWriteBack cfg raw sshRaw peers =
     and_then (typed_peers peers) (\<lambda>typed.
     let ssh = (case cf_SSH cfg of None \<Rightarrow> empty_ssh | Some s \<Rightarrow> s)
     in Inr (cfg\<lparr>cf_SSH := Some (ssh\<lparr>s_Peers := typed, s_PeersNil := False\<rparr>)\<rparr>,
             setRaw ''ssh'' (marshal_map (setRaw ''peers'' (JArr (map marshal_opt peers)) sshRaw)) raw))"

definition rawPeerProofObject :: "json_fields \<Rightarrow> json_fields res" where
  "rawPeerProofObject peer = (case map_of peer ''proof'' of
     None \<Rightarrow> Inr []
   | Some v \<Rightarrow>
       (if isJSONNull v then Inr []
        else and_then (wrap_err ''invalid_ssh_peer_proof'' (dec_map v)) (\<lambda>m.
          case m of None \<Rightarrow> Inl ''invalid_ssh_peer_proof: expected object'' | Some fs \<Rightarrow> Inr fs)))"

definition setDirectionalProofRaw :: "string \<Rightarrow> SSHPeerDirectionalProofPatch \<Rightarrow> json_fields \<Rightarrow> json_fields" where
  "setDirectionalProofRaw direction p proofRaw =
     (if direction = DirectionAccept then
        setRaw ''accept_verified_by'' (jstr (dp_VerifiedBy p)) (setRaw ''accept_verified_at'' (jstr (dp_VerifiedAt p))
        (setRaw ''accept_gateway_path'' (jstr (dp_GatewayPath p)) (setRaw ''accept_key_id'' (jstr (dp_KeyID p)) proofRaw)))
      else if direction = DirectionConnect then
        setRaw ''connect_verified_by'' (jstr (dp_VerifiedBy p)) (setRaw ''connect_verified_at'' (jstr (dp_VerifiedAt p))
        (setRaw ''connect_gateway_path'' (jstr (dp_GatewayPath p)) (setRaw ''connect_key_id'' (jstr (dp_KeyID p)) proofRaw)))
      else proofRaw)"

section \<open>Creating and changing a peer\<close>

definition validateSSHPeerCreateFields :: "SSHPeerUpsertFields \<Rightarrow> unit res" where
  "validateSSHPeerCreateFields peer =
     (if uf_ID peer = None then Inl ''ssh_peer_create_requires_id''
      else if uf_Enabled peer = None then Inl ''ssh_peer_create_requires_enabled''
      else if uf_Accept peer = None then Inl ''ssh_peer_create_requires_accept''
      else if uf_Connect peer = None then Inl ''ssh_peer_create_requires_connect''
      else if uf_Accept peer = Some False \<and> uf_Connect peer = Some False then Inl ''ssh_peer_create_requires_direction''
      else if uf_Connect peer = Some True then
        (if uf_Persistent peer = None \<or> uf_OnDemand peer = None then Inl ''ssh_peer_create_requires_outbound_mode''
         else if uf_SSHHost peer = None \<or> uf_SSHUser peer = None \<or> uf_SSHPort peer = None
           then Inl ''ssh_peer_create_requires_connect_locator''
         else if uf_InstallPath peer = None then Inl ''ssh_peer_create_requires_install_path''
         else if uf_GatewayPath peer = None then Inl ''ssh_peer_create_requires_gateway_path''
         else Inr ())
      else Inr ())"

definition set_upsert_scalars :: "SSHPeerUpsertFields \<Rightarrow> json_fields \<Rightarrow> json_fields" where
  "set_upsert_scalars f peer0 =
     (let peer1 = setRawPointer peer0 ''migration_state'' (map_option jstr (uf_MigrationState f));
          peer2 = setRawPointer peer1 ''enabled'' (map_option JBool (uf_Enabled f));
          peer3 = setRawPointer peer2 ''accept'' (map_option JBool (uf_Accept f));
          peer4 = setRawPointer peer3 ''connect'' (map_option JBool (uf_Connect f));
          peer5 = setRawPointer peer4 ''persistent'' (map_option JBool (uf_Persistent f));
          peer6 = setRawPointer peer5 ''on_demand'' (map_option JBool (uf_OnDemand f));
          peer7 = setRawPointer peer6 ''ssh_user'' (map_option jstr (uf_SSHUser f));
          peer8 = setRawPointer peer7 ''ssh_port'' (map_option (\<lambda>i. JNum (show_int i)) (uf_SSHPort f));
          peer9 = setRawPointer peer8 ''install_path'' (map_option jstr (uf_InstallPath f))
      in setRawPointer peer9 ''gateway_path'' (map_option jstr (uf_GatewayPath f)))"

type_synonym peer_update = "(json_fields \<times> Config \<times> json_fields) res"

definition check_upsert_state :: "bool \<Rightarrow> string \<Rightarrow> SSHPeerUpsertFields \<Rightarrow> unit res" where
  "check_upsert_state creating currentState f =
     (if creating then
        (if uf_MigrationState f \<noteq> Some MigrationStateLoopbackUnprovisioned
         then Inl ''ssh_peer_create_requires_loopback_unprovisioned''
         else validateSSHPeerCreateFields f)
      else if uf_MigrationState f \<noteq> None \<and> uf_MigrationState f \<noteq> Some currentState
      then Inl ''ssh_peer_migration_state_change_not_allowed''
      else Inr ())"

definition check_upsert_id :: "SSHPeerUpsertFields \<Rightarrow> unit res" where
  "check_upsert_id f = (case uf_ID f of None \<Rightarrow> Inr () | Some i \<Rightarrow> wrap_err ''invalid_ssh_peer_id'' (ValidateHostID i))"

definition set_upsert_host :: "SSHPeerUpsertFields \<Rightarrow> json_fields \<Rightarrow> json_fields res" where
  "set_upsert_host f peer = (case uf_SSHHost f of
     None \<Rightarrow> Inr peer
   | Some h \<Rightarrow> and_then (wrap_err ''invalid_ssh_host'' (CanonicalSSHHost h)) (\<lambda>host. Inr (setRaw ''ssh_host'' (jstr host) peer)))"

definition applySSHPeerUpsert :: "Config \<Rightarrow> json_fields \<Rightarrow> string \<Rightarrow> SSHPeerUpsertRequest \<Rightarrow> peer_update" where
  "applySSHPeerUpsert cfg raw peerID req =
     (let f = ur_Peer req in
      and_then (check_upsert_id f) (\<lambda>_.
      and_then (rawSSHPeers raw) (\<lambda>(sshRaw, peers).
      and_then (findRawPeerForUpdate peers peerID) (\<lambda>found.
      let peer0 = (case found of None \<Rightarrow> setRaw ''id'' (jstr peerID) [] | Some (_, p) \<Rightarrow> p) in
      and_then (rawPeerMigrationState peer0) (\<lambda>currentState.
      and_then (check_upsert_state (found = None) currentState f) (\<lambda>_.
      and_then (set_upsert_host f (set_upsert_scalars f peer0)) (\<lambda>peer.
      and_then (typedPeerFromRaw (Some peer)) (\<lambda>typedPeer.
      and_then (validateSSHPeer (cf_Hostname cfg) typedPeer (cf_Transport cfg = TransportSSH)) (\<lambda>_.
      and_then (rebuildTypedSSHPeersAndWriteBack cfg raw sshRaw
        (case found of None \<Rightarrow> peers @ [Some peer] | Some (i, _) \<Rightarrow> peers[i := Some peer])) (\<lambda>(cfg', raw').
      Inr (peer, cfg', raw')))))))))))"

definition proof_patch_mismatch :: "SSHPeerProofPatchRequest \<Rightarrow> SSHPeer \<Rightarrow> unit res" where
  "proof_patch_mismatch req typedPeer =
     (if pp_AcceptProof req \<noteq> None \<and> (\<not> sp_Enabled typedPeer \<or> \<not> sp_Accept typedPeer) then Inl ''proof_mismatch: accept''
      else if pp_ConnectProof req \<noteq> None \<and> (\<not> sp_Enabled typedPeer \<or> \<not> sp_Connect typedPeer) then Inl ''proof_mismatch: connect''
      else Inr ())"

definition patch_proofs :: "SSHPeerProofPatchRequest \<Rightarrow> json_fields \<Rightarrow> json_fields" where
  "patch_proofs req proofRaw =
     (let p1 = (case pp_AcceptProof req of None \<Rightarrow> proofRaw | Some p \<Rightarrow> setDirectionalProofRaw DirectionAccept p proofRaw)
      in case pp_ConnectProof req of None \<Rightarrow> p1 | Some p \<Rightarrow> setDirectionalProofRaw DirectionConnect p p1)"

definition applySSHPeerProofPatch :: "Config \<Rightarrow> json_fields \<Rightarrow> string \<Rightarrow> SSHPeerProofPatchRequest \<Rightarrow> peer_update" where
  "applySSHPeerProofPatch cfg raw peerID req =
     and_then (rawSSHPeers raw) (\<lambda>(sshRaw, peers).
     and_then (findRawPeerForUpdate peers peerID) (\<lambda>found.
     case found of
       None \<Rightarrow> ssh_peer_not_found peerID
     | Some (index, peer0) \<Rightarrow>
         and_then (typedPeerFromRaw (Some peer0)) (\<lambda>typedPeer.
         and_then (proof_patch_mismatch req typedPeer) (\<lambda>_.
         and_then (rawPeerProofObject peer0) (\<lambda>proofRaw.
         let peer = setRaw ''proof'' (marshal_map (patch_proofs req proofRaw)) peer0 in
         and_then (rebuildTypedSSHPeersAndWriteBack cfg raw sshRaw (peers[index := Some peer])) (\<lambda>(cfg', raw').
         Inr (peer, cfg', raw')))))))"

section \<open>Transitions of the migration state\<close>

definition validSSHPeerTransitionState :: "string \<Rightarrow> bool" where
  "validSSHPeerTransitionState state \<longleftrightarrow> state \<in> set [MigrationStateLoopbackUnprovisioned, MigrationStateSSHMaterialStaged,
     MigrationStateProvisionFailed, MigrationStateSharedKeyWrittenUnverified, MigrationStateSSHKeysReady]"

definition validateSSHPeerTransitionEnabledProofs :: "SSHPeer \<Rightarrow> unit res" where
  "validateSSHPeerTransitionEnabledProofs peer =
     and_then (wrap_err ''ssh_peer_transition_requires_current_proof'' (ValidateDirectionalProof peer DirectionAccept)) (\<lambda>_.
     wrap_err ''ssh_peer_transition_requires_current_proof'' (ValidateDirectionalProof peer DirectionConnect))"

definition validateSSHPeerTransitionTargetStaged :: "SSHPeer \<Rightarrow> unit res" where
  "validateSSHPeerTransitionTargetStaged peer =
     (if \<not> sp_Enabled peer then Inr ()
      else if sp_Accept peer \<and> sp_GatewayPath peer = [] then Inl ''ssh_peer_transition_requires_accept_material''
      else if sp_Connect peer \<and> (sp_SSHHost peer = [] \<or> sp_SSHUser peer = [] \<or> sp_SSHPort peer = 0 \<or>
                sp_InstallPath peer = [] \<or> sp_GatewayPath peer = [])
      then Inl ''ssh_peer_transition_requires_connect_material''
      else validateSSHPeerTransitionEnabledProofs peer)"

definition preSecretProvisionFailedPhase :: "string \<Rightarrow> bool" where
  "preSecretProvisionFailedPhase phase \<longleftrightarrow> phase \<in> set [''host_key_confirmation'', ''upload_install'', ''identity_probe'',
     ''daemon_stop'', ''required_sync_key_provision'', ''known_hosts_provision'', ''non_secret_config_write'',
     ''managed_authorized_keys_write'', ''pre_secret_forced_command_probe'', ''local_peer_create'', ''local_proof_patch'',
     ''staged_transition'']"

definition validateSSHPeerProvisionFailedTransition :: "SSHPeerTransitionRequest \<Rightarrow> unit res" where
  "validateSSHPeerProvisionFailedTransition req = (case tr_FailedPhase req of
     None \<Rightarrow> Inl ''missing_ssh_peer_transition_field: failed_phase''
   | Some failedPhase \<Rightarrow>
       (if trim_space failedPhase = [] then Inl ''missing_ssh_peer_transition_field: failed_phase''
        else case tr_RemoteSecretAbsenceProof req of
          None \<Rightarrow> Inl ''missing_ssh_peer_transition_field: remote_secret_absence_proof''
        | Some p \<Rightarrow>
            (if ap_FailedPhase p \<noteq> failedPhase then Inl ''ssh_peer_transition_absence_proof_failed_phase_mismatch''
             else if text_time (ap_VerifiedAt p) = None
             then Inl ''invalid_ssh_peer_transition_field: remote_secret_absence_proof.verified_at: parsing time''
             else if \<not> ap_SecretWriteCommandSpawned p \<and> \<not> preSecretProvisionFailedPhase (ap_FailedPhase p)
             then Inl (''invalid_ssh_peer_transition_failed_phase: '' @ ap_FailedPhase p)
             else Inr ())))"

definition identityResetOrRemovalPrepReason :: "string \<Rightarrow> bool" where
  "identityResetOrRemovalPrepReason reason \<longleftrightarrow> reason = ''identity_reset_prepared'' \<or> reason = ''identity_removal_prepared''"

definition bad_reason :: "SSHPeerTransitionRequest \<Rightarrow> 'a res" where
  "bad_reason req = Inl (''invalid_ssh_peer_transition_reason: '' @ tr_Reason req)"

definition not_allowed :: "SSHPeerTransitionRequest \<Rightarrow> 'a res" where
  "not_allowed req = Inl (''ssh_peer_transition_not_allowed: '' @ tr_FromState req @ ''_to_'' @ tr_ToState req)"

text \<open>The \<open>switch\<close> over the pair of states.\<close>

definition check_transition :: "SSHPeer \<Rightarrow> SSHPeerTransitionRequest \<Rightarrow> unit res" where
  "check_transition typedPeer req =
     (let f = tr_FromState req; t = tr_ToState req in
      if f = MigrationStateLoopbackUnprovisioned \<and> t = MigrationStateSSHMaterialStaged
        then validateSSHPeerTransitionTargetStaged typedPeer
      else if (f = MigrationStateLoopbackUnprovisioned \<or> f = MigrationStateSSHMaterialStaged) \<and> t = MigrationStateProvisionFailed
        then validateSSHPeerProvisionFailedTransition req
      else if f = MigrationStateProvisionFailed \<and> (t = MigrationStateLoopbackUnprovisioned \<or> t = MigrationStateSSHMaterialStaged)
        then (if tr_Reason req \<noteq> ''retry_progress'' then bad_reason req
              else if t = MigrationStateSSHMaterialStaged then validateSSHPeerTransitionTargetStaged typedPeer
              else Inr ())
      else if f = MigrationStateSSHMaterialStaged \<and> t = MigrationStateSharedKeyWrittenUnverified
        then (if tr_Reason req \<noteq> ''remote_shared_key_written'' \<and> tr_Reason req \<noteq> ''secret_write_outcome_unknown''
              then bad_reason req else Inr ())
      else if f = MigrationStateSharedKeyWrittenUnverified \<and> t = MigrationStateSSHKeysReady
        then (if tr_Reason req \<noteq> ''gateway_version_verified'' then bad_reason req
              else validateSSHPeerTransitionEnabledProofs typedPeer)
      else if f = MigrationStateSSHMaterialStaged \<and> t = MigrationStateSSHKeysReady
        then (if tr_Reason req \<noteq> ''ssh_material_verified'' then bad_reason req
              else validateSSHPeerTransitionEnabledProofs typedPeer)
      else if (f = MigrationStateSharedKeyWrittenUnverified \<or> f = MigrationStateSSHKeysReady) \<and> t = MigrationStateSSHMaterialStaged
        then (if tr_Reason req \<noteq> ''remote_shared_key_cleanup_verified'' then bad_reason req else Inr ())
      else if f = MigrationStateSSHKeysReady \<and> t = MigrationStateLoopbackUnprovisioned
        then (if \<not> identityResetOrRemovalPrepReason (tr_Reason req) then bad_reason req else Inr ())
      else not_allowed req)"

definition validateSSHPeerTransitionRequest :: "json_fields \<Rightarrow> SSHPeerTransitionRequest \<Rightarrow> unit res" where
  "validateSSHPeerTransitionRequest peer req =
     (if \<not> validSSHPeerTransitionState (tr_FromState req) then Inl ''invalid_ssh_peer_transition_state: from_state''
      else if \<not> validSSHPeerTransitionState (tr_ToState req) then Inl ''invalid_ssh_peer_transition_state: to_state''
      else if trim_space (tr_Reason req) = [] then Inl ''missing_ssh_peer_transition_field: reason''
      else if trim_space (tr_LogID req) = [] then Inl ''missing_ssh_peer_transition_field: log_id''
      else if tr_FromState req = tr_ToState req then not_allowed req
      else if tr_ToState req \<noteq> MigrationStateProvisionFailed \<and> tr_FailedPhase req \<noteq> None
        then Inl ''invalid_ssh_peer_transition_field: failed_phase''
      else if tr_ToState req \<noteq> MigrationStateProvisionFailed \<and> tr_RemoteSecretAbsenceProof req \<noteq> None
        then Inl ''invalid_ssh_peer_transition_field: remote_secret_absence_proof''
      else and_then (typedPeerFromRaw (Some peer)) (\<lambda>typedPeer. check_transition typedPeer req))"

definition absence_json :: "SSHPeerRemoteSecretAbsenceProof \<Rightarrow> json" where
  "absence_json p = marshal_map ([(''failed_phase'', jstr (ap_FailedPhase p)),
     (''secret_write_command_spawned'', JBool (ap_SecretWriteCommandSpawned p)),
     (''absence_verified_by'', jstr (ap_AbsenceVerifiedBy p)), (''verified_at'', jstr (ap_VerifiedAt p)),
     (''log_id'', jstr (ap_LogID p))] @
     (case ap_RemoteConfigRevision p of None \<Rightarrow> [] | Some r \<Rightarrow> [(''remote_config_revision'', juint r)]))"

definition migration_entry :: "SSHPeerTransitionRequest \<Rightarrow> json" where
  "migration_entry req = marshal_map ([(''from_state'', jstr (tr_FromState req)), (''to_state'', jstr (tr_ToState req)),
     (''reason'', jstr (tr_Reason req)), (''log_id'', jstr (tr_LogID req))] @
     (case tr_FailedPhase req of None \<Rightarrow> [] | Some x \<Rightarrow> [(''failed_phase'', jstr x)]) @
     (case tr_RemoteSecretAbsenceProof req of None \<Rightarrow> [] | Some p \<Rightarrow> [(''remote_secret_absence_proof'', absence_json p)]))"

definition append_raw_array :: "json_fields \<Rightarrow> string \<Rightarrow> json \<Rightarrow> string \<Rightarrow> json_fields res" where
  "append_raw_array raw field entry errorPrefix =
     and_then (case map_of raw field of
         None \<Rightarrow> Inr []
       | Some v \<Rightarrow> (if isJSONNull v then Inr [] else wrap_err errorPrefix (dec_raws v)))
     (\<lambda>existing. Inr (setRaw field (JArr (existing @ [entry])) raw))"

definition appendSSHPeerMigrationLog :: "json_fields \<Rightarrow> SSHPeerTransitionRequest \<Rightarrow> json_fields res" where
  "appendSSHPeerMigrationLog peer req =
     append_raw_array peer ''migration_log'' (migration_entry req) ''invalid_ssh_peer_migration_log''"

definition reset_peer :: "json_fields \<Rightarrow> json_fields" where
  "reset_peer peer = fst (scrubSecretLikeRawFields (AList.delete ''proof'' peer) [''migration_log''])"

definition applySSHPeerTransition :: "Config \<Rightarrow> json_fields \<Rightarrow> string \<Rightarrow> SSHPeerTransitionRequest \<Rightarrow> peer_update" where
  "applySSHPeerTransition cfg raw peerID req =
     and_then (rawSSHPeers raw) (\<lambda>(sshRaw, peers).
     and_then (findRawPeerForUpdate peers peerID) (\<lambda>found.
     case found of
       None \<Rightarrow> ssh_peer_not_found peerID
     | Some (index, peer0) \<Rightarrow>
         and_then (rawPeerMigrationState peer0) (\<lambda>currentState.
         if currentState \<noteq> tr_FromState req then Inl ''ssh_peer_transition_state_mismatch''
         else
         and_then (validateSSHPeerTransitionRequest peer0 req) (\<lambda>_.
         let peer1 = (if tr_ToState req = MigrationStateLoopbackUnprovisioned then reset_peer peer0 else peer0) in
         and_then (appendSSHPeerMigrationLog (setRaw ''migration_state'' (jstr (tr_ToState req)) peer1) req) (\<lambda>peer.
         and_then (rebuildTypedSSHPeersAndWriteBack cfg raw sshRaw (peers[index := Some peer])) (\<lambda>(cfg', raw').
         Inr (peer, cfg', raw')))))))"

section \<open>Disabling and deleting a peer\<close>

definition validateStableSSHPeerReason :: "string \<Rightarrow> string \<Rightarrow> unit res" where
  "validateStableSSHPeerReason action reason =
     (if trim_space reason = [] then Inl (''missing_ssh_peer_'' @ action @ ''_field: reason'')
      else if \<not> stableSSHPeerReasonPattern reason then Inl (''invalid_ssh_peer_'' @ action @ ''_field: reason'')
      else Inr ())"

definition validSSHPeerConfigMutationState :: "string \<Rightarrow> bool" where
  "validSSHPeerConfigMutationState state \<longleftrightarrow> state \<in> set [MigrationStateLoopbackUnprovisioned, MigrationStateSSHMaterialStaged,
     MigrationStateSharedKeyWrittenUnverified, MigrationStateSSHKeysReady, MigrationStateProvisionFailed]"

definition sshPeerDisableAuditEntry :: "string \<Rightarrow> string \<Rightarrow> string \<Rightarrow> string \<Rightarrow> json" where
  "sshPeerDisableAuditEntry peerID previousState reason now = marshal_map
     [(''source'', jstr ''ssh_peer_disable''), (''durable'', JBool True), (''peer_id'', jstr peerID),
      (''previous_migration_state'', jstr previousState), (''reason'', jstr reason), (''disabled_at'', jstr now)]"

definition sshPeerDeleteAuditEntry :: "string \<Rightarrow> string \<Rightarrow> SSHPeerDeleteRequest \<Rightarrow> string \<Rightarrow> json" where
  "sshPeerDeleteAuditEntry peerID previousState req removedAt = marshal_map
     [(''source'', jstr ''ssh_peer_delete''), (''durable'', JBool True), (''peer_id'', jstr peerID),
      (''previous_migration_state'', jstr previousState), (''reason'', jstr (dl_Reason req)),
      (''log_id'', jstr (dl_LogID req)), (''removed_at'', jstr removedAt)]"

definition appendSSHRawObjectArray :: "json_fields \<Rightarrow> string \<Rightarrow> json \<Rightarrow> string \<Rightarrow> json_fields res" where
  "appendSSHRawObjectArray sshRaw field entry errorPrefix = append_raw_array sshRaw field entry errorPrefix"

definition appendSSHAuditLog :: "json_fields \<Rightarrow> json \<Rightarrow> json_fields res" where
  "appendSSHAuditLog sshRaw entry = appendSSHRawObjectArray sshRaw ''audit_log'' entry ''invalid_ssh_peer_audit_log''"

definition appendSSHRemediation :: "json_fields \<Rightarrow> json \<Rightarrow> json_fields res" where
  "appendSSHRemediation sshRaw entry = appendSSHRawObjectArray sshRaw ''remediation'' entry ''invalid_ssh_peer_remediation''"

definition applySSHPeerDisable :: "string \<Rightarrow> Config \<Rightarrow> json_fields \<Rightarrow> string \<Rightarrow> SSHPeerDisableRequest \<Rightarrow> peer_update" where
  "applySSHPeerDisable now cfg raw peerID req =
     and_then (rawSSHPeers raw) (\<lambda>(sshRaw0, peers).
     and_then (findRawPeerForUpdate peers peerID) (\<lambda>found.
     case found of
       None \<Rightarrow> ssh_peer_not_found peerID
     | Some (index, peer0) \<Rightarrow>
         and_then (rawPeerMigrationState peer0) (\<lambda>currentState.
         if \<not> validSSHPeerConfigMutationState currentState then Inl (''invalid_ssh_peer_disable_state: '' @ currentState)
         else
         let peer = setRaw ''enabled'' (JBool False) peer0 in
         and_then (appendSSHAuditLog sshRaw0 (sshPeerDisableAuditEntry peerID currentState (di_Reason req) now)) (\<lambda>sshRaw.
         and_then (rebuildTypedSSHPeersAndWriteBack cfg raw sshRaw (peers[index := Some peer])) (\<lambda>(cfg', raw').
         Inr (peer, cfg', raw'))))))"

definition copyRawStringToRecord :: "json_fields \<Rightarrow> string \<Rightarrow> json_fields \<Rightarrow> json_fields" where
  "copyRawStringToRecord raw field rec = (case map_of raw field of
     None \<Rightarrow> rec
   | Some v \<Rightarrow>
       (if isJSONNull v then rec
        else case dec_string v [] of
          Inl _ \<Rightarrow> rec
        | Inr s \<Rightarrow> (if s = [] then rec else AList.update field (jstr s) rec)))"

definition copyRawIntToRecord :: "json_fields \<Rightarrow> string \<Rightarrow> json_fields \<Rightarrow> json_fields" where
  "copyRawIntToRecord raw field rec = (case map_of raw field of
     None \<Rightarrow> rec
   | Some v \<Rightarrow>
       (if isJSONNull v then rec
        else case dec_int v 0 of
          Inl _ \<Rightarrow> rec
        | Inr i \<Rightarrow> (if i = 0 then rec else AList.update field (JNum (show_int i)) rec)))"

text \<open>The non-empty text of a member, if it is one.\<close>

definition text_member :: "json_fields \<Rightarrow> string \<Rightarrow> string" where
  "text_member m field = (case map_of m field of
     None \<Rightarrow> []
   | Some v \<Rightarrow> (case dec_string v [] of Inl _ \<Rightarrow> [] | Inr s \<Rightarrow> s))"

fun failed_phase_of :: "json_fields option list \<Rightarrow> string" where
  "failed_phase_of [] = []"
| "failed_phase_of (e # es) =
     (if text_member (members e) ''failed_phase'' \<noteq> [] then text_member (members e) ''failed_phase''
      else case map_of (members e) ''remote_secret_absence_proof'' of
        None \<Rightarrow> failed_phase_of es
      | Some v \<Rightarrow>
          (case dec_map v of
             Inl _ \<Rightarrow> failed_phase_of es
           | Inr p \<Rightarrow>
               (if text_member (members p) ''failed_phase'' \<noteq> [] then text_member (members p) ''failed_phase''
                else failed_phase_of es)))"

definition peer_log :: "json_fields \<Rightarrow> json_fields option list option" where
  "peer_log peer = (case map_of peer ''migration_log'' of
     None \<Rightarrow> None
   | Some v \<Rightarrow> (if isJSONNull v then None else case dec_maps v of Inl _ \<Rightarrow> None | Inr log \<Rightarrow> Some log))"

definition lastSSHPeerFailedPhase :: "json_fields \<Rightarrow> string" where
  "lastSSHPeerFailedPhase peer = (case peer_log peer of None \<Rightarrow> [] | Some log \<Rightarrow> failed_phase_of (rev log))"

fun absence_proved :: "json_fields option list \<Rightarrow> bool" where
  "absence_proved [] = False"
| "absence_proved (e # es) = (case map_of (members e) ''remote_secret_absence_proof'' of
     None \<Rightarrow> absence_proved es
   | Some v \<Rightarrow>
       (if isJSONNull v then absence_proved es
        else case dec_map v of
          Inl _ \<Rightarrow> absence_proved es
        | Inr p \<Rightarrow>
            (if map_of (members p) ''failed_phase'' = None then False
             else case map_of (members p) ''secret_write_command_spawned'' of
               None \<Rightarrow> False
             | Some w \<Rightarrow> (if isJSONNull w then False else case dec_bool w False of Inl _ \<Rightarrow> False | Inr spawned \<Rightarrow> \<not> spawned))))"

definition provisionFailedHasRemoteSecretAbsenceProof :: "json_fields \<Rightarrow> bool" where
  "provisionFailedHasRemoteSecretAbsenceProof peer = (case peer_log peer of None \<Rightarrow> False | Some log \<Rightarrow> absence_proved (rev log))"

definition sshPeerCleanupRecord ::
  "string \<Rightarrow> string \<Rightarrow> string \<Rightarrow> json_fields \<Rightarrow> SSHPeerDeleteRequest \<Rightarrow> string \<Rightarrow> json_fields res" where
  "sshPeerCleanupRecord source peerID previousState peer req removedAt =
     (let rec0 = [(''source'', jstr source), (''durable'', JBool True), (''peer_id'', jstr peerID),
            (''previous_migration_state'', jstr previousState), (''removed_at'', jstr removedAt),
            (''reason'', jstr (dl_Reason req)), (''log_id'', jstr (dl_LogID req))];
          rec1 = copyRawStringToRecord peer ''gateway_path'' (copyRawStringToRecord peer ''install_path''
            (copyRawIntToRecord peer ''ssh_port'' (copyRawStringToRecord peer ''ssh_user''
            (copyRawStringToRecord peer ''ssh_host'' rec0))))
      in and_then (rawPeerProofObject peer) (\<lambda>proofRaw.
        let rec2 = copyRawStringToRecord proofRaw ''connect_gateway_path'' (copyRawStringToRecord proofRaw ''connect_key_id''
              (copyRawStringToRecord proofRaw ''accept_gateway_path'' (copyRawStringToRecord proofRaw ''accept_key_id'' rec1)));
            failedPhase = lastSSHPeerFailedPhase peer
        in Inr (if failedPhase \<noteq> [] then AList.update ''last_provisioning_phase'' (jstr failedPhase) rec2 else rec2)))"

definition sshPeerCleanupStatus :: "string \<Rightarrow> bool \<Rightarrow> json" where
  "sshPeerCleanupStatus source pending = marshal_map
     [(''source'', jstr source), (''durable'', JBool True), (''cleanup_required'', JBool pending), (''pending'', JBool pending)]"

definition sshMaterialCleanupResult ::
  "string \<Rightarrow> string \<Rightarrow> json_fields \<Rightarrow> SSHPeerDeleteRequest \<Rightarrow> string \<Rightarrow> (json \<times> json option) res" where
  "sshMaterialCleanupResult peerID previousState peer req removedAt =
     and_then (sshPeerCleanupRecord ''ssh_material_cleanup'' peerID previousState peer req removedAt) (\<lambda>rec0.
     let rec = AList.update ''remaining_user_actions'' (JArr [jstr ''retry_regular_ssh_cleanup'', jstr ''dismiss_after_acknowledgement''])
           (AList.update ''cleanup_verified'' (JBool False) (AList.update ''pending'' (JBool True)
           (AList.update ''cleanup_required'' (JBool True) rec0)))
     in Inr (sshPeerCleanupStatus ''ssh_material_cleanup'' True, Some (marshal_map rec)))"

definition postSecretTombstoneResult ::
  "string \<Rightarrow> string \<Rightarrow> json_fields \<Rightarrow> SSHPeerDeleteRequest \<Rightarrow> string \<Rightarrow> (json \<times> json option) res" where
  "postSecretTombstoneResult peerID previousState peer req removedAt =
     and_then (sshPeerCleanupRecord ''post_secret_tombstone'' peerID previousState peer req removedAt) (\<lambda>rec0.
     let rec = AList.update ''remaining_user_actions'' (JArr [jstr ''retry_regular_ssh_cleanup'', jstr ''rotate_fleet_shared_key'',
             jstr ''dismiss_after_acknowledgement''])
           (AList.update ''remote_managed_key_cleanup_verified'' (JBool False)
           (AList.update ''remote_fleet_secret_cleanup_verified'' (JBool False)
           (AList.update ''pending'' (JBool True) (AList.update ''cleanup_required'' (JBool True) rec0))))
     in Inr (sshPeerCleanupStatus ''post_secret_tombstone'' True, Some (marshal_map rec)))"

definition sshPeerDeleteCleanupStatus ::
  "string \<Rightarrow> string \<Rightarrow> json_fields \<Rightarrow> SSHPeerDeleteRequest \<Rightarrow> string \<Rightarrow> (json \<times> json option) res" where
  "sshPeerDeleteCleanupStatus peerID previousState peer req removedAt =
     (if previousState = MigrationStateLoopbackUnprovisioned then
        Inr (marshal_map [(''source'', jstr ''ssh_peer_delete''), (''durable'', JBool True), (''cleanup_required'', JBool False),
               (''pending'', JBool False)], None)
      else if previousState = MigrationStateSSHMaterialStaged then sshMaterialCleanupResult peerID previousState peer req removedAt
      else if previousState = MigrationStateProvisionFailed then
        (if provisionFailedHasRemoteSecretAbsenceProof peer then sshMaterialCleanupResult peerID previousState peer req removedAt
         else postSecretTombstoneResult peerID previousState peer req removedAt)
      else if previousState = MigrationStateSharedKeyWrittenUnverified \<or> previousState = MigrationStateSSHKeysReady
      then postSecretTombstoneResult peerID previousState peer req removedAt
      else Inl (''invalid_ssh_peer_delete_state: '' @ previousState))"

definition applySSHPeerDelete :: "string \<Rightarrow> Config \<Rightarrow> json_fields \<Rightarrow> string \<Rightarrow> SSHPeerDeleteRequest \<Rightarrow> peer_update" where
  "applySSHPeerDelete removedAt cfg raw peerID req =
     and_then (rawSSHPeers raw) (\<lambda>(sshRaw0, peers).
     and_then (findRawPeerForUpdate peers peerID) (\<lambda>found.
     case found of
       None \<Rightarrow> ssh_peer_not_found peerID
     | Some (index, peer) \<Rightarrow>
         and_then (rawPeerMigrationState peer) (\<lambda>currentState.
         if \<not> validSSHPeerConfigMutationState currentState then Inl (''invalid_ssh_peer_delete_state: '' @ currentState)
         else
         and_then (appendSSHAuditLog sshRaw0 (sshPeerDeleteAuditEntry peerID currentState req removedAt)) (\<lambda>sshRaw1.
         and_then (sshPeerDeleteCleanupStatus peerID currentState peer req removedAt) (\<lambda>(cleanupStatus, remediation).
         and_then (case remediation of None \<Rightarrow> Inr sshRaw1 | Some r \<Rightarrow> appendSSHRemediation sshRaw1 r) (\<lambda>sshRaw.
         and_then (rebuildTypedSSHPeersAndWriteBack cfg raw sshRaw (take index peers @ drop (Suc index) peers)) (\<lambda>(cfg', raw').
         Inr (setRaw ''cleanup_status'' cleanupStatus peer, cfg', raw'))))))))"

section \<open>Updating the file\<close>

definition marshalConfigDocumentPreservingRawSSH :: "configDocument \<Rightarrow> Config \<Rightarrow> json_fields \<Rightarrow> 64 word \<Rightarrow> json_doc" where
  "marshalConfigDocumentPreservingRawSSH doc cfg raw nextRevision =
     (let out = applyConfigScalars (doc\<lparr>cd_raw := raw\<rparr>) cfg nextRevision raw;
          out1 = (case cf_SSH cfg of
                    None \<Rightarrow> AList.delete ''ssh'' out
                  | Some s \<Rightarrow> (if map_of out ''ssh'' = None then setRaw ''ssh'' (ssh_json s) out else out))
      in Values [JObj (sort_key fst out1)])"

definition persistNormalizedLocalSSHPath :: "string \<Rightarrow> string \<Rightarrow> json_fields \<Rightarrow> json_fields" where
  "persistNormalizedLocalSSHPath key normalized sshRaw = (case map_of sshRaw key of
     None \<Rightarrow> sshRaw
   | Some v \<Rightarrow>
       (case dec_string v [] of
          Inl _ \<Rightarrow> sshRaw
        | Inr current \<Rightarrow> (if needsHomeExpansion current then setRaw key (jstr normalized) sshRaw else sshRaw)))"

definition persistNormalizedLocalSSHPaths :: "json_fields \<Rightarrow> Config \<Rightarrow> json_fields res" where
  "persistNormalizedLocalSSHPaths raw cfg = (case cf_SSH cfg of
     None \<Rightarrow> Inr raw
   | Some ssh \<Rightarrow>
       and_then (rawSSHPeers raw) (\<lambda>(sshRaw, _).
       Inr (setRaw ''ssh'' (marshal_map (persistNormalizedLocalSSHPath ''known_hosts'' (s_KnownHosts ssh)
              (persistNormalizedLocalSSHPath ''sync_key'' (s_SyncKey ssh) sshRaw))) raw)))"

text \<open>The part of an update between the reading of the document and the writing of its successor.\<close>

definition rewrite_document ::
  "(Config \<Rightarrow> json_fields \<Rightarrow> peer_update) \<Rightarrow> configDocument \<Rightarrow> (json_doc \<times> SSHPeerConfigReadResult) res" where
  "rewrite_document apply doc =
     and_then (apply (clone_config (cd_Config doc)) (cd_raw doc)) (\<lambda>(updatedPeer, cfg, raw).
     and_then (ValidateSSHTransportConfig cfg) (\<lambda>_.
     and_then (nextConfigRevision doc) (\<lambda>nextRevision.
     Inr (marshalConfigDocumentPreservingRawSSH doc cfg raw nextRevision,
          \<lparr>rr_Peer = redactRawPeer updatedPeer, rr_ConfigRevision = Some nextRevision,
           rr_RevisionState = RevisionStateVersioned, rr_ConfigVersion = Some 2\<rparr>))))"

definition rewrite_config ::
  "string res \<Rightarrow> string \<Rightarrow> string \<Rightarrow> RevisionExpectation \<Rightarrow> (configDocument \<Rightarrow> (json_doc \<times> 'a) res) \<Rightarrow> (json_doc, 'a) io" where
  "rewrite_config home tmp path expected compute =
     io_bind (readConfigFileSafe path) (\<lambda>data.
     io_bind (io_res (parseConfigDocument home data)) (\<lambda>doc.
     io_bind (io_res (validateRevisionExpectation doc expected)) (\<lambda>_.
     io_bind (removeStaleConfigV2Temps path) (\<lambda>_.
     io_bind (io_res (compute doc)) (\<lambda>(out, x).
     io_bind (writeConfigV2Atomic tmp path out 384) (\<lambda>_. io_return x))))))"

definition withSSHPeerConfigUpdate ::
  "string res \<Rightarrow> string \<Rightarrow> string \<Rightarrow> bool \<Rightarrow> RevisionExpectation \<Rightarrow> (Config \<Rightarrow> json_fields \<Rightarrow> peer_update) \<Rightarrow>
   (json_doc, SSHPeerConfigReadResult) io" where
  "withSSHPeerConfigUpdate home tmp path gateEnabled expected apply =
     (if \<not> gateEnabled then io_fail (ErrMsg ErrConfigV2WritesDisabled)
      else withConfigFileLock path (rewrite_config home tmp path expected (rewrite_document apply)))"

definition peer_expectation :: "string \<Rightarrow> 64 word option \<Rightarrow> RevisionExpectation res" where
  "peer_expectation peerID revision =
     and_then (wrap_err ''invalid_ssh_peer_id'' (ValidateHostID peerID)) (\<lambda>_.
     if revision = None \<or> revision = Some 0 then Inl ErrConfigRevisionConflict
     else Inr \<lparr>re_State = RevisionStateVersioned, re_Revision = revision\<rparr>)"

definition upsert_and_persist :: "string res \<Rightarrow> string \<Rightarrow> SSHPeerUpsertRequest \<Rightarrow> Config \<Rightarrow> json_fields \<Rightarrow> peer_update" where
  "upsert_and_persist home peerID req cfg raw =
     and_then (applySSHPeerUpsert cfg raw peerID req) (\<lambda>(updatedPeer, cfg1, raw1).
     and_then (NormalizeLocalSSHPaths home cfg1) (\<lambda>cfg2.
     and_then (persistNormalizedLocalSSHPaths raw1 cfg2) (\<lambda>raw2. Inr (updatedPeer, cfg2, raw2))))"

definition updateSSHPeerConfigRaw ::
  "string res \<Rightarrow> string \<Rightarrow> string \<Rightarrow> bool \<Rightarrow> RevisionExpectation \<Rightarrow> string \<Rightarrow> SSHPeerUpsertRequest \<Rightarrow>
   (json_doc, SSHPeerConfigReadResult) io" where
  "updateSSHPeerConfigRaw home tmp path gateEnabled expected peerID req =
     withSSHPeerConfigUpdate home tmp path gateEnabled expected (upsert_and_persist home peerID req)"

definition upsertSSHPeerWithGate ::
  "string res \<Rightarrow> string \<Rightarrow> string \<Rightarrow> bool \<Rightarrow> string \<Rightarrow> SSHPeerUpsertRequest \<Rightarrow> (json_doc, SSHPeerConfigReadResult) io" where
  "upsertSSHPeerWithGate home tmp path gateEnabled peerID req =
     io_bind (io_res (peer_expectation peerID (ur_ExpectedConfigRevision req))) (\<lambda>expected.
     io_bind (io_res (case uf_ID (ur_Peer req) of
         None \<Rightarrow> Inr ()
       | Some i \<Rightarrow> and_then (wrap_err ''invalid_ssh_peer_id'' (ValidateHostID i)) (\<lambda>_.
           if i \<noteq> peerID then Inl ''ssh_peer_id_mismatch'' else Inr ()))) (\<lambda>_.
     if uf_SharedKey (ur_Peer req) \<noteq> None then io_fail (ErrMsg ''ssh_peer_secret_field_not_allowed: peer.shared_key'')
     else updateSSHPeerConfigRaw home tmp path gateEnabled expected peerID req))"

definition patchSSHPeerProofWithGate ::
  "string res \<Rightarrow> string \<Rightarrow> string \<Rightarrow> bool \<Rightarrow> string \<Rightarrow> SSHPeerProofPatchRequest \<Rightarrow> (json_doc, SSHPeerConfigReadResult) io" where
  "patchSSHPeerProofWithGate home tmp path gateEnabled peerID req =
     io_bind (io_res (peer_expectation peerID (pp_ExpectedConfigRevision req))) (\<lambda>expected.
     if pp_AcceptProof req = None \<and> pp_ConnectProof req = None then io_fail (ErrMsg ''ssh_peer_proof_patch_empty'')
     else withSSHPeerConfigUpdate home tmp path gateEnabled expected (\<lambda>cfg raw. applySSHPeerProofPatch cfg raw peerID req))"

definition transitionSSHPeerWithGate ::
  "string res \<Rightarrow> string \<Rightarrow> string \<Rightarrow> bool \<Rightarrow> string \<Rightarrow> SSHPeerTransitionRequest \<Rightarrow> (json_doc, SSHPeerConfigReadResult) io" where
  "transitionSSHPeerWithGate home tmp path gateEnabled peerID req =
     io_bind (io_res (peer_expectation peerID (tr_ExpectedConfigRevision req))) (\<lambda>expected.
     withSSHPeerConfigUpdate home tmp path gateEnabled expected (\<lambda>cfg raw. applySSHPeerTransition cfg raw peerID req))"

definition disableSSHPeerWithGate ::
  "string \<Rightarrow> string res \<Rightarrow> string \<Rightarrow> string \<Rightarrow> bool \<Rightarrow> string \<Rightarrow> SSHPeerDisableRequest \<Rightarrow> (json_doc, SSHPeerConfigReadResult) io" where
  "disableSSHPeerWithGate now home tmp path gateEnabled peerID req =
     io_bind (io_res (peer_expectation peerID (di_ExpectedConfigRevision req))) (\<lambda>expected.
     io_bind (io_res (validateStableSSHPeerReason ''disable'' (di_Reason req))) (\<lambda>_.
     withSSHPeerConfigUpdate home tmp path gateEnabled expected (\<lambda>cfg raw. applySSHPeerDisable now cfg raw peerID req)))"

definition deleteSSHPeerWithGate ::
  "string \<Rightarrow> string res \<Rightarrow> string \<Rightarrow> string \<Rightarrow> bool \<Rightarrow> string \<Rightarrow> SSHPeerDeleteRequest \<Rightarrow> (json_doc, SSHPeerConfigReadResult) io" where
  "deleteSSHPeerWithGate now home tmp path gateEnabled peerID req =
     io_bind (io_res (peer_expectation peerID (dl_ExpectedConfigRevision req))) (\<lambda>expected.
     io_bind (io_res (validateStableSSHPeerReason ''delete'' (dl_Reason req))) (\<lambda>_.
     if trim_space (dl_LogID req) = [] then io_fail (ErrMsg ''missing_ssh_peer_delete_field: log_id'')
     else withSSHPeerConfigUpdate home tmp path gateEnabled expected (\<lambda>cfg raw. applySSHPeerDelete now cfg raw peerID req)))"

definition sshPeerConfigReadResultFromRaw :: "configDocument \<Rightarrow> json_fields \<Rightarrow> SSHPeerConfigReadResult" where
  "sshPeerConfigReadResultFromRaw doc rawPeer =
     \<lparr>rr_Peer = redactRawPeer rawPeer, rr_ConfigRevision = cf_ConfigRevision (cd_Config doc),
      rr_RevisionState = cd_RevisionState doc, rr_ConfigVersion = cf_ConfigVersion (cd_Config doc)\<rparr>"

definition ReadSSHPeer :: "string res \<Rightarrow> string \<Rightarrow> string \<Rightarrow> (json_doc, SSHPeerConfigReadResult) io" where
  "ReadSSHPeer home path peerID =
     io_bind (io_res (wrap_err ''invalid_ssh_peer_id'' (ValidateHostID peerID))) (\<lambda>_.
     io_bind (readConfigDocumentLocked home path) (\<lambda>doc.
     io_bind (io_res (rawSSHPeerByID (cd_raw doc) peerID)) (\<lambda>(rawPeer, _).
     io_return (sshPeerConfigReadResultFromRaw doc rawPeer))))"

section \<open>Redaction hides every secret\<close>

declare redactDecodedPeerField.simps [simp del]

text \<open>No object at any depth has a member with a secret-like name.\<close>

fun secret_free :: "json \<Rightarrow> bool" where
  "secret_free (JObj fs) = list_all (\<lambda>(k, v). \<not> secretLikePeerField k \<and> secret_free v) fs"
| "secret_free (JArr vs) = list_all secret_free vs"
| "secret_free _ = True"

lemma set_opt_fields: "(k, v) \<in> set (opt_fields xs) \<longleftrightarrow> (k, Some v) \<in> set xs"
  by (induction xs) (auto simp: opt_fields_def split: option.splits)

lemma redact_secret_free:
  "redactDecodedPeerField k v t = Some w \<Longrightarrow> \<not> secretLikePeerField k \<and> secret_free w"
  "redactProofValue v = Some w \<Longrightarrow> secret_free w"
  "secret_free (redactDecodedPeerValue v)"
proof (induction k v t and v and v arbitrary: w and w
    rule: redactDecodedPeerField_redactProofValue_redactDecodedPeerValue.induct)
  case (1 key v topLevel)
  then show ?case by (auto simp: redactDecodedPeerField.simps [of key] split: if_splits)
qed (fastforce simp: list_all_iff set_opt_fields)+

lemma redactRawPeer_secret_free: "secret_free (JObj (redactRawPeer raw))"
  by (auto simp: redactRawPeer_def list_all_iff set_opt_fields dest!: sym [of "Some _"] redact_secret_free(1))

section \<open>Reading back what was written\<close>

lemma dedup_id: "distinct (map fst fs) \<Longrightarrow> dedup fs = fs"
proof -
  have "foldl (\<lambda>acc (k, v). AList.update k v acc) acc fs = acc @ fs"
    if "distinct (map fst (acc @ fs))" for acc
    using that
  proof (induction fs arbitrary: acc)
    case (Cons p fs)
    obtain k v where p: "p = (k, v)" by fastforce
    have "AList.update k v acc = acc @ [(k, v)]" if "k \<notin> fst ` set acc" for acc :: json_fields
      using that by (induction acc) auto
    with Cons p show ?case by auto
  qed simp
  from this [of "[]"] show "distinct (map fst fs) \<Longrightarrow> dedup fs = fs" by (simp add: dedup_def)
qed

lemma dedup_distinct [simp]: "distinct (map fst (dedup fs))"
proof -
  have "distinct (map fst (foldl (\<lambda>acc (k, v). AList.update k v acc) acc fs))" if "distinct (map fst acc)"
    for acc :: json_fields
    using that by (induction fs arbitrary: acc) (auto split: prod.splits)
  then show ?thesis by (simp add: dedup_def)
qed

lemma dec_map_distinct: "dec_map v = Inr m \<Longrightarrow> distinct (map fst (members m))"
  by (auto simp: dec_map_def members_def type_error_def split: json.splits)

lemma dec_map_marshal:
  "distinct (map fst fs) \<Longrightarrow> dec_map (marshal_map fs) = Inr (Some (sort_key fst fs))"
  by (simp add: dec_map_def marshal_map_def dedup_id sort_key_distinct)

lemma dec_map_list_distinct: "dec_map_list vs = Inr ms \<Longrightarrow> \<forall>m \<in> set ms. distinct (map fst (members m))"
  by (induction vs arbitrary: ms) (auto dest: dec_map_distinct)

lemma dec_maps_distinct: "dec_maps v = Inr ms \<Longrightarrow> \<forall>m \<in> set ms. distinct (map fst (members m))"
  by (auto simp: dec_maps_def type_error_def split: json.splits dest: dec_map_list_distinct)

lemma dec_maps_marshal:
  "\<forall>p \<in> set ps. distinct (map fst (members p)) \<Longrightarrow>
   dec_map_list (map marshal_opt ps) = Inr (map (map_option (sort_key fst)) ps)"
proof (induction ps)
  case (Cons p ps)
  then have "dec_map (marshal_opt p) = Inr (map_option (sort_key fst) p)"
    by (cases p) (simp_all add: marshal_opt_def dec_map_marshal members_def, simp add: dec_map_def)
  with Cons show ?case by simp
qed simp

lemma rawSSHPeers_distinct:
  "rawSSHPeers raw = Inr (sshRaw, ps) \<Longrightarrow> distinct (map fst sshRaw) \<and> (\<forall>p \<in> set ps. distinct (map fst (members p)))"
  by (auto simp: rawSSHPeers_def split: option.splits if_splits dest: dec_map_distinct dec_maps_distinct)

text \<open>After \<open>rebuildTypedSSHPeersAndWriteBack\<close> the raw document lists the peers it was given.\<close>

lemma rebuild_reads:
  assumes "rebuildTypedSSHPeersAndWriteBack cfg raw sshRaw ps = Inr (cfg', raw')"
    and "distinct (map fst sshRaw)" and "\<forall>p \<in> set ps. distinct (map fst (members p))"
  shows "\<exists>sshRaw'. rawSSHPeers raw' = Inr (sshRaw', map (map_option (sort_key fst)) ps) \<and>
    map_of sshRaw' = (map_of sshRaw)(''peers'' \<mapsto> JArr (map marshal_opt ps))"
proof -
  let ?ssh = "setRaw ''peers'' (JArr (map marshal_opt ps)) sshRaw"
  from assms(1) have "raw' = setRaw ''ssh'' (marshal_map ?ssh) raw"
    by (auto simp: rebuildTypedSSHPeersAndWriteBack_def Let_def)
  moreover have "distinct (map fst ?ssh)" using assms(2) by simp
  ultimately have "rawSSHPeers raw' = Inr (sort_key fst ?ssh, map (map_option (sort_key fst)) ps)"
    using dec_map_marshal [of ?ssh] dec_maps_marshal [OF assms(3)] map_of_sort_key [of ?ssh]
    by (simp add: rawSSHPeers_def isJSONNull_def marshal_map_def members_def dec_maps_def)
  then show ?thesis using map_of_sort_key [of ?ssh] assms(2) by simp
qed

section \<open>The contract of a peer operation\<close>

text \<open>The peer a document holds under an identifier, as a map of its members.\<close>

fun peer_find :: "json_fields option list \<Rightarrow> string \<Rightarrow> (string \<rightharpoonup> json) option" where
  "peer_find [] peerID = None"
| "peer_find (p # ps) peerID = (case rawPeerID p of
     Inl _ \<Rightarrow> None
   | Inr i \<Rightarrow> (if i = peerID then Some (map_of (members p)) else peer_find ps peerID))"

definition peer_in :: "json_fields \<Rightarrow> string \<Rightarrow> (string \<rightharpoonup> json) option" where
  "peer_in raw peerID = (case rawSSHPeerByID raw peerID of Inl _ \<Rightarrow> None | Inr (p, _) \<Rightarrow> Some (map_of p))"

definition without :: "string \<Rightarrow> json_fields option list \<Rightarrow> json_fields option list" where
  "without peerID ps = filter (\<lambda>p. rawPeerID p \<noteq> Inr peerID) ps"

lemma find_peer_from_find:
  "peer_find ps peerID = (case find_peer_from i ps peerID of Inr (Some (_, p)) \<Rightarrow> Some (map_of p) | _ \<Rightarrow> None)"
  by (induction i ps peerID rule: find_peer_from.induct) (auto split: sum.splits)

lemma peer_in_find: "rawSSHPeers raw = Inr (sshRaw, ps) \<Longrightarrow> peer_in raw peerID = peer_find ps peerID"
  by (auto simp: peer_in_def rawSSHPeerByID_def ssh_peer_not_found_def find_peer_from_find [of _ _ 0]
      split: sum.splits option.splits)

lemma peer_find_without: "other \<noteq> peerID \<Longrightarrow> peer_find (without peerID ps) other = peer_find ps other"
  by (induction ps) (auto simp: without_def split: sum.splits)

definition sorted_peers :: "json_fields option list \<Rightarrow> json_fields option list" where
  "sorted_peers ps = map (map_option (sort_key fst)) ps"

lemma map_of_sorted_members:
  "distinct (map fst (members p)) \<Longrightarrow> map_of (members (map_option (sort_key fst) p)) = map_of (members p)"
  by (cases p) (simp_all add: members_def map_of_sort_key)

lemma rawPeerID_sorted: "distinct (map fst (members p)) \<Longrightarrow> rawPeerID (map_option (sort_key fst) p) = rawPeerID p"
  by (simp add: rawPeerID_def map_of_sorted_members)

lemma peer_find_sorted:
  "\<forall>p \<in> set ps. distinct (map fst (members p)) \<Longrightarrow> peer_find (sorted_peers ps) peerID = peer_find ps peerID"
  by (induction ps) (auto simp: sorted_peers_def rawPeerID_sorted map_of_sorted_members split: sum.splits)

lemma find_peer_from_Some:
  assumes "find_peer_from i ps peerID = Inr (Some (j, p))"
  shows "\<exists>n < length ps. j = i + n \<and> p = members (ps ! n) \<and> rawPeerID (ps ! n) = Inr peerID"
  using assms
proof (induction i ps peerID rule: find_peer_from.induct)
  case (2 i q ps peerID)
  show ?case
  proof (cases "rawPeerID q = Inr peerID")
    case True
    with "2.prems" show ?thesis by (intro exI [of _ 0]) auto
  next
    case False
    with "2.prems" obtain pid where "rawPeerID q = Inr pid" "pid \<noteq> peerID" "find_peer_from (Suc i) ps peerID = Inr (Some (j, p))"
      by (auto split: if_splits)
    from "2.IH" [OF _ this(3)] this(2) obtain n where "n < length ps" "j = Suc i + n" "p = members (ps ! n)"
      "rawPeerID (ps ! n) = Inr peerID" by blast
    then show ?thesis by (intro exI [of _ "Suc n"]) auto
  qed
qed simp

lemma without_update:
  "n < length ps \<Longrightarrow> rawPeerID (ps ! n) = Inr peerID \<Longrightarrow> rawPeerID q = Inr peerID \<Longrightarrow>
   without peerID (ps[n := q]) = without peerID ps"
  by (induction ps arbitrary: n) (auto simp: without_def nth_Cons split: nat.splits)

lemma without_remove:
  "n < length ps \<Longrightarrow> rawPeerID (ps ! n) = Inr peerID \<Longrightarrow>
   without peerID (take n ps @ drop (Suc n) ps) = without peerID ps"
  by (induction ps arbitrary: n) (auto simp: without_def nth_Cons split: nat.splits)

text \<open>
  An operation on one peer: it may change that peer, create or remove it; it leaves the other peers,
  the other members of the document and the other fields of the configuration as they are, and
  the typed peers of the configuration are those of the document.
\<close>

definition edits_only :: "string \<Rightarrow> json_fields \<Rightarrow> Config \<Rightarrow> json_fields \<Rightarrow> Config \<Rightarrow> json_fields \<Rightarrow> bool" where
  "edits_only peerID peer cfg raw cfg' raw' \<longleftrightarrow>
     (\<exists>sshRaw ps0 sshRaw' ps ssh. rawSSHPeers raw = Inr (sshRaw, ps0) \<and> rawSSHPeers raw' = Inr (sshRaw', sorted_peers ps) \<and>
        (\<forall>p \<in> set ps. distinct (map fst (members p))) \<and>
        without peerID ps = without peerID ps0 \<and> set ps \<subseteq> insert (Some peer) (set ps0) \<and> (\<forall>k. k \<noteq> ''ssh'' \<longrightarrow> map_of raw' k = map_of raw k) \<and>
        map_of raw' ''ssh'' \<noteq> None \<and>
        typed_peers ps = Inr (s_Peers ssh) \<and> cfg' = cfg\<lparr>cf_SSH := Some ssh\<rparr> \<and>
        (distinct (map fst raw) \<longrightarrow> distinct (map fst raw')))"

lemma rebuild_edits:
  assumes "rebuildTypedSSHPeersAndWriteBack cfg raw sshRaw' ps = Inr (cfg', raw')"
    and "rawSSHPeers raw = Inr (sshRaw, ps0)" and "distinct (map fst sshRaw')"
    and "\<forall>p \<in> set ps. distinct (map fst (members p))" and "without peerID ps = without peerID ps0"
    and "set ps \<subseteq> insert (Some peer) (set ps0)"
  shows "edits_only peerID peer cfg raw cfg' raw'"
proof -
  let ?raw = "setRaw ''ssh'' (marshal_map (setRaw ''peers'' (JArr (map marshal_opt ps)) sshRaw')) raw"
  let ?base = "case cf_SSH cfg of None \<Rightarrow> empty_ssh | Some s \<Rightarrow> s"
  from assms(1) obtain typed where t: "typed_peers ps = Inr typed"
    "cfg' = cfg\<lparr>cf_SSH := Some (?base\<lparr>s_Peers := typed, s_PeersNil := False\<rparr>)\<rparr>" and raw: "raw' = ?raw"
    by (auto simp: rebuildTypedSSHPeersAndWriteBack_def Let_def)
  have "s_Peers (?base\<lparr>s_Peers := typed, s_PeersNil := False\<rparr>) = typed" by (cases "cf_SSH cfg") simp_all
  with t have "\<exists>ssh. typed_peers ps = Inr (s_Peers ssh) \<and> cfg' = cfg\<lparr>cf_SSH := Some ssh\<rparr>" by metis
  moreover have "\<forall>k. k \<noteq> ''ssh'' \<longrightarrow> map_of raw' k = map_of raw k" "map_of raw' ''ssh'' \<noteq> None" "distinct (map fst raw) \<longrightarrow> distinct (map fst raw')"
    by (simp_all add: raw)
  moreover from rebuild_reads [OF assms(1,3,4)] obtain s where "rawSSHPeers raw' = Inr (s, sorted_peers ps)"
    by (auto simp: sorted_peers_def)
  ultimately show ?thesis unfolding edits_only_def using assms(2,4,5,6) by blast
qed

locale peer_operation =
  fixes oper :: "Config \<Rightarrow> json_fields \<Rightarrow> peer_update" and peerID :: string
  assumes edits: "ValidateHostID peerID = Inr () \<Longrightarrow> oper cfg raw = Inr (peer, cfg', raw') \<Longrightarrow>
    edits_only peerID peer cfg raw cfg' raw'"
begin

lemma others_kept:
  assumes "ValidateHostID peerID = Inr ()" and "oper cfg raw = Inr (peer, cfg', raw')" and "other \<noteq> peerID"
  shows "peer_in raw' other = peer_in raw other"
proof -
  from edits [OF assms(1,2)] obtain sshRaw ps0 sshRaw' ps where
    p: "rawSSHPeers raw = Inr (sshRaw, ps0)" "rawSSHPeers raw' = Inr (sshRaw', sorted_peers ps)"
    "\<forall>p \<in> set ps. distinct (map fst (members p))" "without peerID ps = without peerID ps0"
    by (auto simp: edits_only_def)
  have "peer_in raw' other = peer_find ps other" using p(2,3) by (simp add: peer_in_find peer_find_sorted)
  also have "\<dots> = peer_find (without peerID ps0) other" using peer_find_without [OF assms(3)] p(4) by metis
  finally show ?thesis using p(1) peer_find_without [OF assms(3)] by (simp add: peer_in_find)
qed

lemma rest_kept:
  assumes "ValidateHostID peerID = Inr ()" and "oper cfg raw = Inr (peer, cfg', raw')" and "k \<noteq> ''ssh''"
  shows "map_of raw' k = map_of raw k"
  using edits [OF assms(1,2)] assms(3) by (auto simp: edits_only_def)

lemma config_kept:
  assumes "ValidateHostID peerID = Inr ()" and "oper cfg raw = Inr (peer, cfg', raw')"
  shows "\<exists>ssh. cfg' = cfg\<lparr>cf_SSH := Some ssh\<rparr> \<and> (distinct (map fst raw) \<longrightarrow> distinct (map fst raw'))"
  using edits [OF assms] by (auto simp: edits_only_def)

end

lemma valid_id_text: "ValidateHostID i = Inr () \<Longrightarrow> json_string i = i"
proof (rule json_string_ascii)
  assume "ValidateHostID i = Inr ()"
  then have "list_all name_char i" by (auto simp: ValidateHostID_def split: if_splits)
  moreover have "(of_char c :: nat) < 128" if "name_char c" for c
    using that by (auto simp: name_char_def upper_letter_def lower_letter_def is_digit_def)
  ultimately show "is_ascii i" by (auto simp: is_ascii_def list_all_iff)
qed

text \<open>The peer an update found, and the peers with that one replaced.\<close>

lemma found_peer:
  assumes "rawSSHPeers raw = Inr (sshRaw, ps)" and "findRawPeerForUpdate ps peerID = Inr (Some (n, p))"
  shows "n < length ps \<and> p = members (ps ! n) \<and> rawPeerID (Some p) = Inr peerID \<and> rawPeerID (ps ! n) = Inr peerID \<and>
    distinct (map fst p) \<and> distinct (map fst sshRaw) \<and> (\<forall>q \<in> set ps. distinct (map fst (members q)))"
proof -
  from find_peer_from_Some assms(2) have f: "n < length ps" "p = members (ps ! n)" "rawPeerID (ps ! n) = Inr peerID"
    by (fastforce simp: findRawPeerForUpdate_def)+
  then have "rawPeerID (Some p) = Inr peerID" by (simp add: rawPeerID_def members_def split: option.splits)
  with f rawSSHPeers_distinct [OF assms(1)] show ?thesis by auto
qed

lemma replaced_edits:
  assumes "rawSSHPeers raw = Inr (sshRaw, ps)" and "findRawPeerForUpdate ps peerID = Inr (Some (n, p))"
    and "rebuildTypedSSHPeersAndWriteBack cfg raw sshRaw' (ps[n := Some q]) = Inr (cfg', raw')"
    and "map_of q ''id'' = map_of p ''id''" and "distinct (map fst q)" and "distinct (map fst sshRaw')"
  shows "edits_only peerID q cfg raw cfg' raw'"
proof -
  note f = found_peer [OF assms(1,2)]
  have "rawPeerID (Some q) = Inr peerID" using f assms(4) by (simp add: rawPeerID_def members_def)
  with f have "without peerID (ps[n := Some q]) = without peerID ps" by (simp add: without_update)
  moreover have "\<forall>r \<in> set (ps[n := Some q]). distinct (map fst (members r))"
    using f assms(5) set_update_subset_insert [of ps n "Some q"] by (auto simp: members_def)
  ultimately show ?thesis using rebuild_edits [OF assms(3,1,6)] set_update_subset_insert [of ps n "Some q"] by blast
qed


lemma setRawPointer_simps [simp]:
  "k \<noteq> key \<Longrightarrow> map_of (setRawPointer raw key v) k = map_of raw k"
  "distinct (map fst raw) \<Longrightarrow> distinct (map fst (setRawPointer raw key v))"
  by (auto simp: setRawPointer_def split: option.splits)

lemma upsert_scalars_simps:
  "map_of (set_upsert_scalars f p) ''id'' = map_of p ''id''"
  "distinct (map fst p) \<Longrightarrow> distinct (map fst (set_upsert_scalars f p))"
  by (simp_all add: set_upsert_scalars_def Let_def)

lemma set_upsert_host_keeps:
  "set_upsert_host f p = Inr q \<Longrightarrow> map_of q ''id'' = map_of p ''id'' \<and> (distinct (map fst p) \<longrightarrow> distinct (map fst q))"
  by (auto simp: set_upsert_host_def split: option.splits)

lemma without_append: "rawPeerID q = Inr peerID \<Longrightarrow> without peerID (ps @ [q]) = without peerID ps"
  by (simp add: without_def)

lemma applySSHPeerUpsert_edits:
  assumes "ValidateHostID peerID = Inr ()" and "applySSHPeerUpsert cfg raw peerID req = Inr (peer, cfg', raw')"
  shows "edits_only peerID peer cfg raw cfg' raw'"
proof -
  let ?f = "ur_Peer req"
  from assms(2) obtain sshRaw ps found peer0 where
    ps: "rawSSHPeers raw = Inr (sshRaw, ps)" and fnd: "findRawPeerForUpdate ps peerID = Inr found"
    and p0: "peer0 = (case found of None \<Rightarrow> setRaw ''id'' (jstr peerID) [] | Some (_, p) \<Rightarrow> p)"
    and pe: "set_upsert_host ?f (set_upsert_scalars ?f peer0) = Inr peer"
    and rb: "rebuildTypedSSHPeersAndWriteBack cfg raw sshRaw
        (case found of None \<Rightarrow> ps @ [Some peer] | Some (i, _) \<Rightarrow> ps[i := Some peer]) = Inr (cfg', raw')"
    by (auto simp: applySSHPeerUpsert_def Let_def split: prod.splits)
  from set_upsert_host_keeps [OF pe] have k: "map_of peer ''id'' = map_of peer0 ''id''"
    "distinct (map fst peer0) \<Longrightarrow> distinct (map fst peer)" by (simp_all add: upsert_scalars_simps)
  show ?thesis
  proof (cases found)
    case None
    with p0 k have d: "distinct (map fst peer)" "map_of peer ''id'' = Some (jstr peerID)" by simp_all
    then have "rawPeerID (Some peer) = Inr peerID"
      using assms(1) by (simp add: rawPeerID_def members_def jstr_def dec_string_def valid_id_text)
    moreover from rb None have "rebuildTypedSSHPeersAndWriteBack cfg raw sshRaw (ps @ [Some peer]) = Inr (cfg', raw')" by simp
    ultimately show ?thesis using d(1) rawSSHPeers_distinct [OF ps]
      by (intro rebuild_edits [where ps = "ps @ [Some peer]" and sshRaw' = sshRaw, OF _ ps])
        (auto simp: members_def [of "Some peer"] without_append)
  next
    case (Some a)
    then obtain n p where a: "found = Some (n, p)" by (cases a) auto
    with fnd have f: "findRawPeerForUpdate ps peerID = Inr (Some (n, p))" by simp
    from found_peer [OF ps f] p0 k a rb show ?thesis by (intro replaced_edits [where sshRaw' = sshRaw, OF ps f]) auto
  qed
qed

lemma normalize_peers:
  assumes "NormalizeLocalSSHPaths home cfg1 = Inr cfg2" and "cfg1 = cfg\<lparr>cf_SSH := Some ssh\<rparr>"
  shows "\<exists>ssh2. cfg2 = cfg\<lparr>cf_SSH := Some ssh2\<rparr> \<and> s_Peers ssh2 = s_Peers ssh"
proof (cases "\<not> needsHomeExpansion (s_SyncKey ssh) \<and> \<not> needsHomeExpansion (s_KnownHosts ssh)")
  case True
  with assms show ?thesis by (intro exI [of _ ssh]) (simp add: NormalizeLocalSSHPaths_def)
next
  case False
  with assms obtain h where "cfg2 = cfg\<lparr>cf_SSH := Some (ssh\<lparr>s_SyncKey := ExpandLocalSSHPath (s_SyncKey ssh) h,
      s_KnownHosts := ExpandLocalSSHPath (s_KnownHosts ssh) h\<rparr>)\<rparr>"
    by (auto simp: NormalizeLocalSSHPaths_def simp del: de_Morgan_conj)
  then show ?thesis by (intro exI) (rule conjI, assumption, simp)
qed

definition peers_value :: "json_fields \<Rightarrow> json_fields option list res" where
  "peers_value sshRaw = (case map_of sshRaw ''peers'' of
     None \<Rightarrow> Inr [] | Some v \<Rightarrow> (if isJSONNull v then Inr [] else wrap_err ''invalid_ssh_peers'' (dec_maps v)))"

lemma rawSSHPeers_value: "rawSSHPeers raw = Inr (sshRaw, ps) \<Longrightarrow> peers_value sshRaw = Inr ps"
  by (auto simp: rawSSHPeers_def peers_value_def)

lemma rawSSHPeers_set:
  assumes "distinct (map fst s)" and "peers_value s = Inr ps"
  shows "rawSSHPeers (setRaw ''ssh'' (marshal_map s) raw) = Inr (sort_key fst s, ps)"
proof -
  have "\<not> isJSONNull (marshal_map s)" by (simp add: isJSONNull_def marshal_map_def)
  moreover have "members (Some (sort_key fst s)) = sort_key fst s" by (simp add: members_def)
  ultimately show ?thesis
    using assms(2) dec_map_marshal [OF assms(1)] map_of_sort_key [OF assms(1)]
    unfolding rawSSHPeers_def peers_value_def by simp
qed

lemma persist_edits:
  assumes "edits_only peerID peer cfg raw cfg1 raw1" and "NormalizeLocalSSHPaths home cfg1 = Inr cfg2"
    and "persistNormalizedLocalSSHPaths raw1 cfg2 = Inr raw2"
  shows "edits_only peerID peer cfg raw cfg2 raw2"
proof -
  from assms(1) obtain sshRaw ps0 sshRaw' ps ssh where
    p: "rawSSHPeers raw = Inr (sshRaw, ps0)" "rawSSHPeers raw1 = Inr (sshRaw', sorted_peers ps)"
    "\<forall>p \<in> set ps. distinct (map fst (members p))" "without peerID ps = without peerID ps0"
    "\<forall>k. k \<noteq> ''ssh'' \<longrightarrow> map_of raw1 k = map_of raw k" "typed_peers ps = Inr (s_Peers ssh)"
    "cfg1 = cfg\<lparr>cf_SSH := Some ssh\<rparr>" "distinct (map fst raw) \<longrightarrow> distinct (map fst raw1)"
    "set ps \<subseteq> insert (Some peer) (set ps0)"
    unfolding edits_only_def by blast
  have "\<exists>ssh2. cfg2 = cfg\<lparr>cf_SSH := Some ssh2\<rparr> \<and> s_Peers ssh2 = s_Peers ssh"
    by (rule normalize_peers [OF assms(2) p(7)])
  then obtain ssh2 where s2: "cfg2 = cfg\<lparr>cf_SSH := Some ssh2\<rparr>" "typed_peers ps = Inr (s_Peers ssh2)"
    using p(6) by auto
  let ?s = "persistNormalizedLocalSSHPath ''known_hosts'' (s_KnownHosts ssh2)
    (persistNormalizedLocalSSHPath ''sync_key'' (s_SyncKey ssh2) sshRaw')"
  have "map_of ?s ''peers'' = map_of sshRaw' ''peers''" and d: "distinct (map fst ?s)"
    using rawSSHPeers_distinct [OF p(2)]
    by (auto simp: persistNormalizedLocalSSHPath_def split: option.splits sum.splits)
  moreover have raw2: "raw2 = setRaw ''ssh'' (marshal_map ?s) raw1"
    using assms(3) p(2) by (simp add: persistNormalizedLocalSSHPaths_def s2(1))
  moreover have "peers_value sshRaw' = Inr (sorted_peers ps)"
    using p(2) by (auto simp: rawSSHPeers_value)
  ultimately have "rawSSHPeers raw2 = Inr (sort_key fst ?s, sorted_peers ps)"
    using rawSSHPeers_set [OF d] by (simp add: peers_value_def)
  moreover have "\<forall>k. k \<noteq> ''ssh'' \<longrightarrow> map_of raw2 k = map_of raw k" "map_of raw2 ''ssh'' \<noteq> None" "distinct (map fst raw) \<longrightarrow> distinct (map fst raw2)"
    using p(5,8) by (simp_all add: raw2)
  ultimately show ?thesis unfolding edits_only_def using p(1,3,4,9) s2 by blast
qed

lemma append_raw_array_keeps:
  "append_raw_array raw field entry e = Inr raw' \<Longrightarrow>
   (distinct (map fst raw) \<longrightarrow> distinct (map fst raw')) \<and> (\<forall>k. k \<noteq> field \<longrightarrow> map_of raw' k = map_of raw k)"
  by (auto simp: append_raw_array_def)

text \<open>The beginning that four of the five operations share.\<close>

lemma on_found_Inr:
  assumes "and_then (rawSSHPeers raw) (\<lambda>(sshRaw, peers). and_then (findRawPeerForUpdate peers peerID) (\<lambda>found.
    case found of None \<Rightarrow> ssh_peer_not_found peerID | Some (i, p) \<Rightarrow> body sshRaw peers i p)) = Inr x"
  obtains sshRaw ps n p where "rawSSHPeers raw = Inr (sshRaw, ps)" and "findRawPeerForUpdate ps peerID = Inr (Some (n, p))"
    and "body sshRaw ps n p = Inr x"
proof -
  from assms obtain sshRaw ps found where "rawSSHPeers raw = Inr (sshRaw, ps)" "findRawPeerForUpdate ps peerID = Inr found"
    "(case found of None \<Rightarrow> ssh_peer_not_found peerID | Some (i, p) \<Rightarrow> body sshRaw ps i p) = Inr x" by auto
  then show thesis using that by (cases found) (auto simp: ssh_peer_not_found_def)
qed

lemma applySSHPeerProofPatch_edits:
  assumes "applySSHPeerProofPatch cfg raw peerID req = Inr (peer, cfg', raw')"
  shows "edits_only peerID peer cfg raw cfg' raw'"
proof -
  from assms obtain sshRaw ps n p prv where
    ps: "rawSSHPeers raw = Inr (sshRaw, ps)" and f: "findRawPeerForUpdate ps peerID = Inr (Some (n, p))"
    and pe: "peer = setRaw ''proof'' prv p"
    and rb: "rebuildTypedSSHPeersAndWriteBack cfg raw sshRaw (ps[n := Some peer]) = Inr (cfg', raw')"
    unfolding applySSHPeerProofPatch_def by (elim on_found_Inr) (auto simp: Let_def)
  with found_peer [OF ps f] show ?thesis by (intro replaced_edits [OF ps f rb]) simp_all
qed

lemma map_of_scrub_keep:
  "map_of (scrub_keep pres (map (\<lambda>(k, w). (k, f k w)) raw)) k =
     (if k \<in> set pres \<or> \<not> secretLikePeerField k then map_option (\<lambda>w. fst (f k w)) (map_of raw k) else None)"
  by (induction raw) (auto simp: scrub_keep_def split: prod.splits)

lemma fst_scrub_keep:
  "map fst (scrub_keep pres (map (\<lambda>(k, w). (k, f k w)) raw)) =
     filter (\<lambda>k. k \<in> set pres \<or> \<not> secretLikePeerField k) (map fst raw)"
  by (induction raw) (auto simp: scrub_keep_def split: prod.splits)

lemma reset_peer_map:
  "map_of (reset_peer p) k =
     (if k = ''proof'' \<or> (k \<noteq> ''migration_log'' \<and> secretLikePeerField k) then None
      else if k = ''migration_log'' then map_of p k else map_option (\<lambda>w. fst (scrubSecretLikeRawValue w)) (map_of p k))"
  by (auto simp: reset_peer_def scrubSecretLikeRawFields_def Let_def map_of_scrub_keep option.map_ident)

lemma reset_peer_distinct: "distinct (map fst p) \<Longrightarrow> distinct (map fst (reset_peer p))"
  by (simp add: reset_peer_def scrubSecretLikeRawFields_def Let_def fst_scrub_keep)

lemma secretLike_id: "\<not> secretLikePeerField ''id''" "\<not> secretLikePeerField ''migration_state''"
  by code_simp+

text \<open>The identifier is a text, which scrubbing leaves alone.\<close>

lemma reset_peer_id: "rawPeerID (Some p) = Inr peerID \<Longrightarrow> map_of (reset_peer p) ''id'' = map_of p ''id''"
  by (auto simp: reset_peer_map secretLike_id rawPeerID_def members_def dec_string_def type_error_def ValidateHostID_def
      split: option.splits json.splits)

lemma applySSHPeerTransition_cases:
  assumes "applySSHPeerTransition cfg raw peerID req = Inr (peer, cfg', raw')"
  obtains sshRaw ps n p p1 where "rawSSHPeers raw = Inr (sshRaw, ps)" and "findRawPeerForUpdate ps peerID = Inr (Some (n, p))"
    and "rawPeerMigrationState p = Inr (tr_FromState req)" and "validateSSHPeerTransitionRequest p req = Inr ()"
    and "p1 = (if tr_ToState req = MigrationStateLoopbackUnprovisioned then reset_peer p else p)"
    and "appendSSHPeerMigrationLog (setRaw ''migration_state'' (jstr (tr_ToState req)) p1) req = Inr peer"
    and "rebuildTypedSSHPeersAndWriteBack cfg raw sshRaw (ps[n := Some peer]) = Inr (cfg', raw')"
  using assms unfolding applySSHPeerTransition_def
  by (elim on_found_Inr) (auto simp: Let_def split: if_splits)

lemma applySSHPeerTransition_edits:
  assumes "applySSHPeerTransition cfg raw peerID req = Inr (peer, cfg', raw')"
  shows "edits_only peerID peer cfg raw cfg' raw'"
  using assms
proof (rule applySSHPeerTransition_cases)
  fix sshRaw ps n p p1
  assume ps: "rawSSHPeers raw = Inr (sshRaw, ps)" and f: "findRawPeerForUpdate ps peerID = Inr (Some (n, p))"
    and p1: "p1 = (if tr_ToState req = MigrationStateLoopbackUnprovisioned then reset_peer p else p)"
    and l: "appendSSHPeerMigrationLog (setRaw ''migration_state'' (jstr (tr_ToState req)) p1) req = Inr peer"
    and rb: "rebuildTypedSSHPeersAndWriteBack cfg raw sshRaw (ps[n := Some peer]) = Inr (cfg', raw')"
  have "map_of p1 ''id'' = map_of p ''id''"
    using found_peer [OF ps f] p1 by (auto simp: reset_peer_id)
  moreover have "distinct (map fst p1)" using found_peer [OF ps f] p1 by (simp add: reset_peer_distinct)
  ultimately show ?thesis using append_raw_array_keeps [OF l [unfolded appendSSHPeerMigrationLog_def]] found_peer [OF ps f]
    by (intro replaced_edits [OF ps f rb]) auto
qed

lemma applySSHPeerDisable_edits:
  assumes "applySSHPeerDisable now cfg raw peerID req = Inr (peer, cfg', raw')"
  shows "edits_only peerID peer cfg raw cfg' raw'"
proof -
  from assms obtain sshRaw ps n p sshRaw' entry where
    ps: "rawSSHPeers raw = Inr (sshRaw, ps)" and f: "findRawPeerForUpdate ps peerID = Inr (Some (n, p))"
    and pe: "peer = setRaw ''enabled'' (JBool False) p"
    and l: "append_raw_array sshRaw ''audit_log'' entry ''invalid_ssh_peer_audit_log'' = Inr sshRaw'"
    and rb: "rebuildTypedSSHPeersAndWriteBack cfg raw sshRaw' (ps[n := Some peer]) = Inr (cfg', raw')"
    unfolding applySSHPeerDisable_def appendSSHAuditLog_def appendSSHRawObjectArray_def
    by (elim on_found_Inr) (auto simp: Let_def split: if_splits)
  with found_peer [OF ps f] append_raw_array_keeps [OF l] show ?thesis by (intro replaced_edits [OF ps f rb]) simp_all
qed

lemma applySSHPeerDelete_cases:
  assumes "applySSHPeerDelete now cfg raw peerID req = Inr (peer, cfg', raw')"
  obtains sshRaw ps n p st sshRaw1 cleanup rm sshRaw' where "rawSSHPeers raw = Inr (sshRaw, ps)"
    and "findRawPeerForUpdate ps peerID = Inr (Some (n, p))" and "rawPeerMigrationState p = Inr st"
    and "validSSHPeerConfigMutationState st"
    and "append_raw_array sshRaw ''audit_log'' (sshPeerDeleteAuditEntry peerID st req now) ''invalid_ssh_peer_audit_log'' = Inr sshRaw1"
    and "sshPeerDeleteCleanupStatus peerID st p req now = Inr (cleanup, rm)"
    and "(case rm of None \<Rightarrow> Inr sshRaw1 | Some r \<Rightarrow> append_raw_array sshRaw1 ''remediation'' r ''invalid_ssh_peer_remediation'') = Inr sshRaw'"
    and "rebuildTypedSSHPeersAndWriteBack cfg raw sshRaw' (take n ps @ drop (Suc n) ps) = Inr (cfg', raw')"
  using assms unfolding applySSHPeerDelete_def appendSSHAuditLog_def appendSSHRemediation_def appendSSHRawObjectArray_def
  by (elim on_found_Inr) (auto split: if_splits)

lemma applySSHPeerDelete_edits:
  assumes "applySSHPeerDelete now cfg raw peerID req = Inr (peer, cfg', raw')"
  shows "edits_only peerID peer cfg raw cfg' raw'"
  using assms
proof (rule applySSHPeerDelete_cases)
  fix sshRaw ps n p st sshRaw1 cleanup rm sshRaw'
  assume ps: "rawSSHPeers raw = Inr (sshRaw, ps)" and f: "findRawPeerForUpdate ps peerID = Inr (Some (n, p))"
    and l: "append_raw_array sshRaw ''audit_log'' (sshPeerDeleteAuditEntry peerID st req now) ''invalid_ssh_peer_audit_log'' = Inr sshRaw1"
    and r: "(case rm of None \<Rightarrow> Inr sshRaw1 | Some r \<Rightarrow> append_raw_array sshRaw1 ''remediation'' r ''invalid_ssh_peer_remediation'') = Inr sshRaw'"
    and rb: "rebuildTypedSSHPeersAndWriteBack cfg raw sshRaw' (take n ps @ drop (Suc n) ps) = Inr (cfg', raw')"
  note fp = found_peer [OF ps f]
  have "distinct (map fst sshRaw1)" using append_raw_array_keeps [OF l] fp by simp
  then have "distinct (map fst sshRaw')" using r by (cases rm) (auto dest: append_raw_array_keeps)
  moreover have "\<forall>q \<in> set (take n ps @ drop (Suc n) ps). distinct (map fst (members q))"
    using fp by (auto dest: in_set_takeD in_set_dropD)
  ultimately show ?thesis using fp
    by (intro rebuild_edits [OF rb ps] without_remove) (auto dest: in_set_takeD in_set_dropD)
qed

text \<open>The five operations satisfy the contract.\<close>

interpretation upsert: peer_operation "upsert_and_persist home peerID req" peerID for home peerID req
proof
  fix cfg raw peer cfg' raw'
  assume v: "ValidateHostID peerID = Inr ()" and "upsert_and_persist home peerID req cfg raw = Inr (peer, cfg', raw')"
  then obtain cfg1 raw1 where "applySSHPeerUpsert cfg raw peerID req = Inr (peer, cfg1, raw1)"
    "NormalizeLocalSSHPaths home cfg1 = Inr cfg'" "persistNormalizedLocalSSHPaths raw1 cfg' = Inr raw'"
    by (auto simp: upsert_and_persist_def)
  then show "edits_only peerID peer cfg raw cfg' raw'" using applySSHPeerUpsert_edits [OF v] persist_edits by blast
qed

interpretation patch: peer_operation "\<lambda>cfg raw. applySSHPeerProofPatch cfg raw peerID req" peerID for peerID req
  by standard (rule applySSHPeerProofPatch_edits)

interpretation transition: peer_operation "\<lambda>cfg raw. applySSHPeerTransition cfg raw peerID req" peerID for peerID req
  by standard (rule applySSHPeerTransition_edits)

interpretation disable: peer_operation "\<lambda>cfg raw. applySSHPeerDisable now cfg raw peerID req" peerID for now peerID req
  by standard (rule applySSHPeerDisable_edits)

interpretation delete: peer_operation "\<lambda>cfg raw. applySSHPeerDelete now cfg raw peerID req" peerID for now peerID req
  by standard (rule applySSHPeerDelete_edits)

section \<open>Requests against the file\<close>

datatype peer_request =
    Upsert SSHPeerUpsertRequest | PatchProof SSHPeerProofPatchRequest | Transition SSHPeerTransitionRequest
  | Disable SSHPeerDisableRequest | Delete SSHPeerDeleteRequest

definition apply_request :: "string \<Rightarrow> string res \<Rightarrow> string \<Rightarrow> peer_request \<Rightarrow> Config \<Rightarrow> json_fields \<Rightarrow> peer_update" where
  "apply_request now home peerID r cfg raw = (case r of
     Upsert req \<Rightarrow> upsert_and_persist home peerID req cfg raw
   | PatchProof req \<Rightarrow> applySSHPeerProofPatch cfg raw peerID req
   | Transition req \<Rightarrow> applySSHPeerTransition cfg raw peerID req
   | Disable req \<Rightarrow> applySSHPeerDisable now cfg raw peerID req
   | Delete req \<Rightarrow> applySSHPeerDelete now cfg raw peerID req)"

definition expected_revision :: "peer_request \<Rightarrow> 64 word option" where
  "expected_revision r = (case r of
     Upsert req \<Rightarrow> ur_ExpectedConfigRevision req | PatchProof req \<Rightarrow> pp_ExpectedConfigRevision req
   | Transition req \<Rightarrow> tr_ExpectedConfigRevision req | Disable req \<Rightarrow> di_ExpectedConfigRevision req
   | Delete req \<Rightarrow> dl_ExpectedConfigRevision req)"

definition run_request :: "string \<Rightarrow> string res \<Rightarrow> string \<Rightarrow> string \<Rightarrow> bool \<Rightarrow> string \<Rightarrow> peer_request \<Rightarrow>
    (json_doc, SSHPeerConfigReadResult) io" where
  "run_request now home tmp path gate peerID r = (case r of
     Upsert req \<Rightarrow> upsertSSHPeerWithGate home tmp path gate peerID req
   | PatchProof req \<Rightarrow> patchSSHPeerProofWithGate home tmp path gate peerID req
   | Transition req \<Rightarrow> transitionSSHPeerWithGate home tmp path gate peerID req
   | Disable req \<Rightarrow> disableSSHPeerWithGate now home tmp path gate peerID req
   | Delete req \<Rightarrow> deleteSSHPeerWithGate now home tmp path gate peerID req)"

lemma apply_request_edits:
  "ValidateHostID peerID = Inr () \<Longrightarrow> apply_request now home peerID r cfg raw = Inr (peer, cfg', raw') \<Longrightarrow>
   edits_only peerID peer cfg raw cfg' raw'"
  by (cases r) (auto simp: apply_request_def intro: upsert.edits applySSHPeerProofPatch_edits applySSHPeerTransition_edits
      applySSHPeerDisable_edits applySSHPeerDelete_edits)

interpretation request: peer_operation "apply_request now home peerID r" peerID for now home peerID r
  by standard (rule apply_request_edits)

text \<open>A request either fails and leaves the file, or installs the rewritten document.\<close>

lemma rewrite_config_triple:
  fixes old :: json_doc
  fixes home expected compute m t
  assumes neq: "tmp \<noteq> path"
  defines "same \<equiv> holds_old path (Some (Regular m (Some old) t))"
    and "wrote \<equiv> \<lambda>x s. \<exists>doc new t'. parseConfigDocument home old = Inr doc \<and> validateRevisionExpectation doc expected = Inr () \<and>
           compute doc = Inr (new, x) \<and> node_at s path = Some (Regular 384 (Some new) t')"
  shows "triple same (rewrite_config home tmp path expected compute) wrote (\<lambda>s. same s \<or> (\<exists>x. wrote x s))"
proof -
  let ?E = "\<lambda>s. same s \<or> (\<exists>x. wrote x s)"
  have rd: "triple same (readConfigFileSafe path) (\<lambda>d s. same s \<and> d = old) ?E"
    by (rule tripleI) (auto simp: same_def holds_old_def
        dest: quiet_at [OF readConfigFileSafe_quiet, where p = path] readConfigFileSafe_data)
  have st: "triple same (removeStaleConfigV2Temps path) (\<lambda>_. same) ?E"
    by (rule tripleI) (auto simp: same_def holds_old_def dest: removeStale_keeps)
  have wr: "triple same (io_bind (writeConfigV2Atomic tmp path new 384) (\<lambda>_. io_return x)) wrote ?E"
    if c: "compute doc = Inr (new, x)" "parseConfigDocument home old = Inr doc" "validateRevisionExpectation doc expected = Inr ()" for doc new x
  proof (rule triple_bind [where Q = "\<lambda>_. wrote x"])
    show "triple same (writeConfigV2Atomic tmp path new 384) (\<lambda>_. wrote x) ?E"
      using writeConfigV2Atomic_triple [OF neq, of _ new 384] c unfolding same_def wrote_def installed_def
      by (fastforce simp: triple_def split: sum.splits)
    show "triple (wrote x) (io_return x) wrote ?E" for u by (rule tripleI) (auto simp: io_return_def)
  qed
  show ?thesis unfolding rewrite_config_def
    apply (rule triple_bind [OF rd], rule triple_pure, hypsubst, rule triple_res_bind [rotated], simp)
    apply (rule triple_res_bind [rotated], simp, rule triple_bind [OF st])
    apply (rule triple_res_bind [rotated], simp, split prod.split, intro allI impI)
    apply (rule wr)
      apply simp_all
    done
qed

lemma peer_expectation_Inr:
  "peer_expectation peerID rv = Inr e \<longleftrightarrow>
   ValidateHostID peerID = Inr () \<and> rv \<noteq> None \<and> rv \<noteq> Some 0 \<and> e = \<lparr>re_State = RevisionStateVersioned, re_Revision = rv\<rparr>"
  by (auto simp: peer_expectation_def)

text \<open>The raw members of a stored document.\<close>

definition doc_raw :: "json_doc \<Rightarrow> json_fields" where
  "doc_raw d = (case raw_map d of Inr (Some raw) \<Rightarrow> raw | _ \<Rightarrow> [])"

lemma raw_map_dedup: "raw_map (Values [JObj fs]) = Inr (Some (dedup fs))"
  by (simp add: raw_map_def dedup_def)

lemma peer_in_cong: "map_of raw ''ssh'' = map_of raw' ''ssh'' \<Longrightarrow> peer_in raw i = peer_in raw' i"
  by (simp add: peer_in_def rawSSHPeerByID_def rawSSHPeers_def)

definition scalar_names :: "string list" where
  "scalar_names = [''config_version'', ''config_revision'', ''listen'', ''shared_key'', ''discovery'', ''static_peers'',
     ''hostname'', ''transport'', ''port'', ''max_history'']"

lemma applyConfigScalars_other: "k \<notin> set scalar_names \<Longrightarrow> map_of (applyConfigScalars doc cfg n out) k = map_of out k"
  by (simp add: applyConfigScalars_def scalar_names_def)

lemma applyConfigScalars_distinct: "distinct (map fst out) \<Longrightarrow> distinct (map fst (applyConfigScalars doc cfg n out))"
  by (simp add: applyConfigScalars_def)

lemma preserving_members:
  assumes "distinct (map fst raw)" and "map_of raw ''ssh'' \<noteq> None" and "cf_SSH cfg = Some ssh"
  shows "distinct (map fst (doc_raw (marshalConfigDocumentPreservingRawSSH doc cfg raw n)))"
    and "map_of (doc_raw (marshalConfigDocumentPreservingRawSSH doc cfg raw n)) =
      map_of (applyConfigScalars (doc\<lparr>cd_raw := raw\<rparr>) cfg n raw)"
proof -
  let ?out = "applyConfigScalars (doc\<lparr>cd_raw := raw\<rparr>) cfg n raw"
  have d: "distinct (map fst ?out)" by (rule applyConfigScalars_distinct [OF assms(1)])
  have "map_of ?out ''ssh'' \<noteq> None" using assms(2) by (simp add: applyConfigScalars_other scalar_names_def)
  then have m: "marshalConfigDocumentPreservingRawSSH doc cfg raw n = Values [JObj (sort_key fst ?out)]"
    using assms(3) by (auto simp: marshalConfigDocumentPreservingRawSSH_def Let_def)
  have e: "doc_raw (Values [JObj (sort_key fst ?out)]) = sort_key fst ?out"
    using d by (simp add: doc_raw_def raw_map_dedup dedup_id sort_key_distinct)
  show "distinct (map fst (doc_raw (marshalConfigDocumentPreservingRawSSH doc cfg raw n)))"
    unfolding m e using d by (simp add: sort_key_distinct)
  show "map_of (doc_raw (marshalConfigDocumentPreservingRawSSH doc cfg raw n)) = map_of ?out"
    unfolding m e using d by (simp add: map_of_sort_key)
qed

lemma parse_doc_raw: "parseConfigDocument home old = Inr doc \<Longrightarrow> doc_raw old = cd_raw doc \<and> distinct (map fst (doc_raw old))"
  using parse_raw parse_raw_distinct by (fastforce simp: doc_raw_def)

text \<open>Whatever fails, a request leaves the file as it was or installs the rewritten document.\<close>

lemma withSSHPeerConfigUpdate_cases:
  assumes "withSSHPeerConfigUpdate home tmp path gate expected apply s = (x, s')"
    and "node_at s path = Some (Regular m (Some old) t)" and "tmp \<noteq> path"
  obtains e where "x = Inl e" and "node_at s' path = node_at s path"
    | doc new res t' where "parseConfigDocument home old = Inr doc" and "validateRevisionExpectation doc expected = Inr ()"
      and "rewrite_document apply doc = Inr (new, res)" and "node_at s' path = Some (Regular 384 (Some new) t')"
      and "\<And>y. x = Inr y \<Longrightarrow> y = res"
proof (cases gate)
  case False
  with assms(1) that(1) show thesis by (auto simp: withSSHPeerConfigUpdate_def io_fail_def)
next
  case True
  with assms(1) have "withConfigFileLockMode path False (rewrite_config home tmp path expected (rewrite_document apply)) s = (x, s')"
    by (simp add: withSSHPeerConfigUpdate_def withConfigFileLock_def)
  from this assms(2) show thesis
  proof (rule withConfigFileLockModeE)
    fix e assume "x = Inl e" "node_at s' path = node_at s path" then show thesis by (rule that(1))
  next
    fix s1 assume s1: "node_at s1 path = node_at s path" and r: "rewrite_config home tmp path expected (rewrite_document apply) s1 = (x, s')"
    then have h: "holds_old path (Some (Regular m (Some old) t)) s1" using assms(2) by (simp add: holds_old_def)
    note t = tripleD [OF rewrite_config_triple [OF assms(3), of m old t home expected "rewrite_document apply"] h]
    show thesis
    proof (cases x)
      case (Inl e)
      with t(2) r assms(2) show thesis using that by (auto simp: holds_old_def)
    next
      case (Inr y)
      with t(1) [of y s'] r that(2) show thesis by auto
    qed
  qed
qed

lemma io_res_bind_any:
  assumes "io_bind (io_res x) f s = (y, s')"
  obtains e where "y = Inl e" and "s' = s" | v where "x = Inr v" and "f v s = (y, s')"
  using assms by (cases x) (auto simp: io_bind_def io_res_run)

abbreviation requested :: "peer_request \<Rightarrow> RevisionExpectation" where
  "requested r \<equiv> \<lparr>re_State = RevisionStateVersioned, re_Revision = expected_revision r\<rparr>"

lemma run_request_any:
  assumes "run_request now home tmp path gate peerID r s = (x, s')"
  obtains e where "x = Inl e" and "s' = s"
    | "ValidateHostID peerID = Inr ()" and
      "withSSHPeerConfigUpdate home tmp path gate (requested r) (apply_request now home peerID r) s = (x, s')"
proof -
  have "(\<exists>e. x = Inl e \<and> s' = s) \<or> ValidateHostID peerID = Inr () \<and>
      withSSHPeerConfigUpdate home tmp path gate (requested r) (apply_request now home peerID r) s = (x, s')"
  proof (cases r)
    case (Upsert req)
    then have "apply_request now home peerID r = upsert_and_persist home peerID req" by (simp add: apply_request_def fun_eq_iff)
    with assms Upsert show ?thesis unfolding run_request_def upsertSSHPeerWithGate_def updateSSHPeerConfigRaw_def
      by (auto elim!: io_res_bind_any simp: peer_expectation_Inr expected_revision_def io_fail_def split: if_splits)
  next
    case (PatchProof req)
    then have "apply_request now home peerID r = (\<lambda>cfg raw. applySSHPeerProofPatch cfg raw peerID req)"
      by (simp add: apply_request_def fun_eq_iff)
    with assms PatchProof show ?thesis unfolding run_request_def patchSSHPeerProofWithGate_def
      by (auto elim!: io_res_bind_any simp: peer_expectation_Inr expected_revision_def io_fail_def split: if_splits)
  next
    case (Transition req)
    then have "apply_request now home peerID r = (\<lambda>cfg raw. applySSHPeerTransition cfg raw peerID req)"
      by (simp add: apply_request_def fun_eq_iff)
    with assms Transition show ?thesis unfolding run_request_def transitionSSHPeerWithGate_def
      by (auto elim!: io_res_bind_any simp: peer_expectation_Inr expected_revision_def)
  next
    case (Disable req)
    then have "apply_request now home peerID r = (\<lambda>cfg raw. applySSHPeerDisable now cfg raw peerID req)"
      by (simp add: apply_request_def fun_eq_iff)
    with assms Disable show ?thesis unfolding run_request_def disableSSHPeerWithGate_def
      by (auto elim!: io_res_bind_any simp: peer_expectation_Inr expected_revision_def)
  next
    case (Delete req)
    then have "apply_request now home peerID r = (\<lambda>cfg raw. applySSHPeerDelete now cfg raw peerID req)"
      by (simp add: apply_request_def fun_eq_iff)
    with assms Delete show ?thesis unfolding run_request_def deleteSSHPeerWithGate_def
      by (auto elim!: io_res_bind_any simp: peer_expectation_Inr expected_revision_def io_fail_def split: if_splits)
  qed
  with that show thesis by blast
qed

text \<open>What a request that took effect leaves in the file, in terms of the operation it applied.\<close>

definition took_effect :: "string \<Rightarrow> string res \<Rightarrow> string \<Rightarrow> peer_request \<Rightarrow> json_doc \<Rightarrow> json_doc \<Rightarrow> json_fields \<Rightarrow> json_fields \<Rightarrow> bool" where
  "took_effect now home peerID r old new peer raw \<longleftrightarrow>
     (\<exists>cfg0 cfg rv. expected_revision r = Some rv \<and> map_of (doc_raw new) ''config_revision'' = Some (juint (rv + 1)) \<and>
        ValidateHostID peerID = Inr () \<and> apply_request now home peerID r cfg0 (doc_raw old) = Inr (peer, cfg, raw) \<and>
        map_of (doc_raw new) ''ssh'' = map_of raw ''ssh'' \<and>
        (\<forall>k. k \<notin> set scalar_names \<longrightarrow> k \<noteq> ''ssh'' \<longrightarrow> map_of (doc_raw new) k = map_of (doc_raw old) k))"

lemma rewrite_took_effect:
  assumes d: "parseConfigDocument home old = Inr doc" and ve: "validateRevisionExpectation doc (requested r) = Inr ()"
    and v: "ValidateHostID peerID = Inr ()" and rw: "rewrite_document (apply_request now home peerID r) doc = Inr (new, res)"
  obtains peer raw where "took_effect now home peerID r old new peer raw" and "rr_Peer res = redactRawPeer peer"
proof -
  from ve obtain rv where rv: "cd_ConfigRevision doc = Some rv" "cd_RevisionState doc = RevisionStateVersioned" "expected_revision r = Some rv"
    by (auto simp: validateRevisionExpectation_def RevisionStateVersioned_def RevisionStatePreV2_def
        RevisionStateMissingRevision_def split: if_splits)
  from rw rv obtain peer cfg raw where
    a: "apply_request now home peerID r (clone_config (cd_Config doc)) (cd_raw doc) = Inr (peer, cfg, raw)"
    and rr: "rr_Peer res = redactRawPeer peer" and new: "new = marshalConfigDocumentPreservingRawSSH doc cfg raw (rv + 1)"
    by (auto simp: rewrite_document_def nextConfigRevision_def split: if_splits)
  from parse_doc_raw [OF d] have o: "doc_raw old = cd_raw doc" "distinct (map fst (cd_raw doc))" by auto
  from apply_request_edits [OF v a] o(2) obtain ssh where w: "distinct (map fst raw)" "map_of raw ''ssh'' \<noteq> None" "cf_SSH cfg = Some ssh"
    "\<forall>k. k \<noteq> ''ssh'' \<longrightarrow> map_of raw k = map_of (cd_raw doc) k"
    by (force simp: edits_only_def)
  have mm: "map_of (doc_raw new) = map_of (applyConfigScalars (doc\<lparr>cd_raw := raw\<rparr>) cfg (rv + 1) raw)"
    unfolding new by (rule preserving_members(2) [OF w(1-3)])
  have 1: "map_of (doc_raw new) ''config_revision'' = Some (juint (rv + 1))"
    unfolding mm by (simp add: applyConfigScalars_def juint_def)
  have 2: "map_of (doc_raw new) ''ssh'' = map_of raw ''ssh''"
    unfolding mm by (simp add: applyConfigScalars_other scalar_names_def)
  have 3: "\<forall>k. k \<notin> set scalar_names \<longrightarrow> k \<noteq> ''ssh'' \<longrightarrow> map_of (doc_raw new) k = map_of (doc_raw old) k"
    using w(4) unfolding mm o(1) by (simp add: applyConfigScalars_other)
  have "took_effect now home peerID r old new peer raw"
    unfolding took_effect_def using rv(3) 1 v a [folded o(1)] 2 3 by (intro exI conjI)
  then show thesis using rr by (rule that)
qed

lemma run_request_cases:
  assumes "run_request now home tmp path gate peerID r s = (x, s')"
    and "node_at s path = Some (Regular m (Some old) t)" and "tmp \<noteq> path"
  obtains e where "x = Inl e" and "node_at s' path = node_at s path"
    | new t' peer raw where "node_at s' path = Some (Regular 384 (Some new) t')" and "took_effect now home peerID r old new peer raw"
      and "\<And>res. x = Inr res \<Longrightarrow> rr_Peer res = redactRawPeer peer"
  using assms(1)
proof (rule run_request_any)
  fix e assume "x = Inl e" "s' = s" then show thesis using that(1) by blast
next
  assume v: "ValidateHostID peerID = Inr ()"
    and "withSSHPeerConfigUpdate home tmp path gate (requested r) (apply_request now home peerID r) s = (x, s')"
  from this(2) assms(2,3) show thesis
  proof (rule withSSHPeerConfigUpdate_cases)
    fix e assume "x = Inl e" "node_at s' path = node_at s path" then show thesis by (rule that(1))
  next
    fix doc new res t'
    assume d: "parseConfigDocument home old = Inr doc" "validateRevisionExpectation doc (requested r) = Inr ()"
      and rw: "rewrite_document (apply_request now home peerID r) doc = Inr (new, res)"
      and n: "node_at s' path = Some (Regular 384 (Some new) t')" and y: "\<And>y. x = Inr y \<Longrightarrow> y = res"
    from rewrite_took_effect [OF d v rw] obtain peer raw where
      "took_effect now home peerID r old new peer raw" "rr_Peer res = redactRawPeer peer" by blast
    with that(2) [OF n] y show thesis by blast
  qed
qed

end
