(* ===== verification/Clipfan_PeerRules.thy ===== *)
theory Clipfan_PeerRules
  imports Clipfan_PeerConfig
begin

text \<open>
  What the peer operations of the configuration guarantee: a request touches one peer only, the
  migration state follows the machine \<open>migration_edge\<close> and the migration log is its history, a peer that
  may hold the fleet's secret is not forgotten, a reset and a response carry no secret.
\<close>

section \<open>The migration machine\<close>

text \<open>The abstract machine of the migration states: the moves a peer may make.\<close>

inductive migration_edge :: "string \<Rightarrow> string \<Rightarrow> bool" where
  stage: "migration_edge MigrationStateLoopbackUnprovisioned MigrationStateSSHMaterialStaged"
| fails: "x \<in> {MigrationStateLoopbackUnprovisioned, MigrationStateSSHMaterialStaged} \<Longrightarrow> migration_edge x MigrationStateProvisionFailed"
| retry: "y \<in> {MigrationStateLoopbackUnprovisioned, MigrationStateSSHMaterialStaged} \<Longrightarrow> migration_edge MigrationStateProvisionFailed y"
| write_key: "migration_edge MigrationStateSSHMaterialStaged MigrationStateSharedKeyWrittenUnverified"
| verify: "x \<in> {MigrationStateSSHMaterialStaged, MigrationStateSharedKeyWrittenUnverified} \<Longrightarrow> migration_edge x MigrationStateSSHKeysReady"
| cleanup: "x \<in> {MigrationStateSharedKeyWrittenUnverified, MigrationStateSSHKeysReady} \<Longrightarrow>
    migration_edge x MigrationStateSSHMaterialStaged"
| reset: "migration_edge MigrationStateSSHKeysReady MigrationStateLoopbackUnprovisioned"

lemmas migration_states = MigrationStateLoopbackUnprovisioned_def MigrationStateSSHMaterialStaged_def
  MigrationStateProvisionFailed_def MigrationStateSharedKeyWrittenUnverified_def MigrationStateSSHKeysReady_def

lemma check_transition_edge:
  assumes "check_transition typedPeer req = Inr ()"
  shows "migration_edge (tr_FromState req) (tr_ToState req)"
  using assms unfolding check_transition_def Let_def bad_reason_def not_allowed_def
  by (auto split: if_splits intro: migration_edge.intros)

lemma check_transition_proofs:
  assumes "check_transition typedPeer req = Inr ()" and "tr_ToState req = MigrationStateSSHKeysReady"
  shows "validateSSHPeerTransitionEnabledProofs typedPeer = Inr ()"
  using assms unfolding check_transition_def Let_def bad_reason_def not_allowed_def
  by (auto simp: migration_states split: if_splits)

lemma validate_transition_Inr:
  assumes "validateSSHPeerTransitionRequest p req = Inr ()"
  obtains typed where "typedPeerFromRaw (Some p) = Inr typed" and "check_transition typed req = Inr ()"
    and "validSSHPeerTransitionState (tr_FromState req)" and "validSSHPeerTransitionState (tr_ToState req)"
  using assms that unfolding validateSSHPeerTransitionRequest_def not_allowed_def by (auto split: if_splits)

lemma valid_state_text: "validSSHPeerTransitionState x \<Longrightarrow> json_string x = x"
  by (rule json_string_ascii) (auto simp: validSSHPeerTransitionState_def migration_states is_ascii_def)

text \<open>What a peer's record says of its migration: the state and the entries of the log.\<close>

definition state_of :: "(string \<rightharpoonup> json) \<Rightarrow> string option" where
  "state_of p = (case p ''migration_state'' of Some (JStr x) \<Rightarrow> Some x | None \<Rightarrow> Some [] | Some JNull \<Rightarrow> Some [] | _ \<Rightarrow> None)"

definition log_of :: "(string \<rightharpoonup> json) \<Rightarrow> json list" where
  "log_of p = (case p ''migration_log'' of Some (JArr vs) \<Rightarrow> vs | _ \<Rightarrow> [])"

lemma rawPeerMigrationState_state: "rawPeerMigrationState p = Inr st \<longleftrightarrow> state_of (map_of p) = Some st"
  by (auto simp: rawPeerMigrationState_def state_of_def isJSONNull_def dec_string_def type_error_def
      split: option.splits json.splits)

lemma append_log:
  assumes "append_raw_array p field entry e = Inr q"
  shows "map_of q field = Some (JArr ((case map_of p field of Some (JArr vs) \<Rightarrow> vs | _ \<Rightarrow> []) @ [entry]))"
  using assms
  by (auto simp: append_raw_array_def isJSONNull_def dec_raws_def type_error_def split: option.splits json.splits)

lemma peer_find_first:
  assumes "find_peer_from i ps peerID = Inr (Some (j, p))"
  shows "peer_find ps peerID = Some (map_of p)"
  using assms by (simp add: find_peer_from_find [of _ _ i])

lemma peer_in_found:
  assumes "rawSSHPeers raw = Inr (sshRaw, ps)" and "findRawPeerForUpdate ps peerID = Inr (Some (n, p))"
  shows "peer_in raw peerID = Some (map_of p)"
  using peer_find_first assms by (simp add: peer_in_find findRawPeerForUpdate_def)

lemma transition_result:
  assumes "applySSHPeerTransition cfg raw peerID req = Inr (peer, cfg', raw')"
  obtains old typed where "peer_in raw peerID = Some (map_of old)" and "state_of (map_of old) = Some (tr_FromState req)"
    and "typedPeerFromRaw (Some old) = Inr typed" and "check_transition typed req = Inr ()"
    and "validSSHPeerTransitionState (tr_ToState req)"
    and "map_of peer ''migration_state'' = Some (jstr (tr_ToState req))"
    and "map_of peer ''migration_log'' = Some (JArr (log_of (map_of old) @ [migration_entry req]))"
    and "tr_ToState req \<noteq> MigrationStateLoopbackUnprovisioned \<Longrightarrow>
      \<forall>k. k \<notin> {''migration_state'', ''migration_log''} \<longrightarrow> map_of peer k = map_of old k"
    and "tr_ToState req = MigrationStateLoopbackUnprovisioned \<Longrightarrow>
      \<forall>k. k \<notin> {''migration_state'', ''migration_log''} \<longrightarrow> map_of peer k = map_of (reset_peer old) k"
  using assms
proof (rule applySSHPeerTransition_cases)
  fix sshRaw ps n p p1
  assume ps: "rawSSHPeers raw = Inr (sshRaw, ps)" and f: "findRawPeerForUpdate ps peerID = Inr (Some (n, p))"
    and st: "rawPeerMigrationState p = Inr (tr_FromState req)" and v: "validateSSHPeerTransitionRequest p req = Inr ()"
    and p1: "p1 = (if tr_ToState req = MigrationStateLoopbackUnprovisioned then reset_peer p else p)"
    and l: "appendSSHPeerMigrationLog (setRaw ''migration_state'' (jstr (tr_ToState req)) p1) req = Inr peer"
  from v obtain typed where t: "typedPeerFromRaw (Some p) = Inr typed" "check_transition typed req = Inr ()"
    "validSSHPeerTransitionState (tr_ToState req)" by (rule validate_transition_Inr)
  have lg: "map_of p1 ''migration_log'' = map_of p ''migration_log''" using p1 by (simp add: reset_peer_map)
  note k = append_raw_array_keeps [OF l [unfolded appendSSHPeerMigrationLog_def]]
  have 1: "map_of peer ''migration_state'' = Some (jstr (tr_ToState req))" using k by simp
  have 2: "map_of peer ''migration_log'' = Some (JArr (log_of (map_of p) @ [migration_entry req]))"
    using append_log [OF l [unfolded appendSSHPeerMigrationLog_def]] lg by (simp add: log_of_def)
  have 3: "\<forall>k. k \<notin> {''migration_state'', ''migration_log''} \<longrightarrow> map_of peer k = map_of p1 k" using k by simp
  show thesis
    using that [OF peer_in_found [OF ps f] _ t 1 2] st 3 p1 by (simp add: rawPeerMigrationState_state)
qed

section \<open>The log is the history\<close>

text \<open>A sequence of transition requests is a path of the machine.\<close>

inductive migration_path :: "string \<Rightarrow> SSHPeerTransitionRequest list \<Rightarrow> string \<Rightarrow> bool" where
  empty: "migration_path x [] x"
| move: "migration_path x rs (tr_FromState r) \<Longrightarrow> migration_edge (tr_FromState r) (tr_ToState r) \<Longrightarrow>
    migration_path x (rs @ [r]) (tr_ToState r)"

text \<open>The state of a peer is where the moves in its log lead from the state it is created in.\<close>

definition logged :: "(string \<rightharpoonup> json) \<Rightarrow> bool" where
  "logged p \<longleftrightarrow> (\<exists>rs st. state_of p = Some st \<and> validSSHPeerTransitionState st \<and> log_of p = map migration_entry rs \<and>
     migration_path MigrationStateLoopbackUnprovisioned rs st)"

lemma logged_cong:
  "p ''migration_state'' = q ''migration_state'' \<Longrightarrow> p ''migration_log'' = q ''migration_log'' \<Longrightarrow> logged p \<longleftrightarrow> logged q"
  by (simp add: logged_def state_of_def log_of_def)

lemma transition_logged:
  assumes "applySSHPeerTransition cfg raw peerID req = Inr (peer, cfg', raw')"
    and "\<And>old. peer_in raw peerID = Some old \<Longrightarrow> logged old"
  shows "logged (map_of peer)"
  using assms(1)
proof (rule transition_result)
  fix old typed
  assume o: "peer_in raw peerID = Some (map_of old)" "state_of (map_of old) = Some (tr_FromState req)"
    and c: "check_transition typed req = Inr ()" and v: "validSSHPeerTransitionState (tr_ToState req)"
    and s: "map_of peer ''migration_state'' = Some (jstr (tr_ToState req))"
    and l: "map_of peer ''migration_log'' = Some (JArr (log_of (map_of old) @ [migration_entry req]))"
  from assms(2) [OF o(1)] o(2) obtain rs where
    rs: "log_of (map_of old) = map migration_entry rs" "migration_path MigrationStateLoopbackUnprovisioned rs (tr_FromState req)"
    by (auto simp: logged_def)
  have "migration_path MigrationStateLoopbackUnprovisioned (rs @ [req]) (tr_ToState req)"
    by (rule migration_path.move [OF rs(2) check_transition_edge [OF c]])
  moreover have "log_of (map_of peer) = map migration_entry (rs @ [req])" using l rs(1) by (simp add: log_of_def)
  moreover have "state_of (map_of peer) = Some (tr_ToState req)" using s valid_state_text [OF v] by (simp add: state_of_def jstr_def)
  ultimately show ?thesis using v unfolding logged_def by blast
qed

lemma upsert_scalars_state:
  "map_of (set_upsert_scalars f p) ''migration_log'' = map_of p ''migration_log''"
  "map_of (set_upsert_scalars f p) ''migration_state'' =
     (case uf_MigrationState f of None \<Rightarrow> map_of p ''migration_state'' | Some x \<Rightarrow> Some (jstr x))"
  by (simp_all add: set_upsert_scalars_def Let_def) (simp add: setRawPointer_def split: option.splits)

lemma upsert_host_state:
  "set_upsert_host f p = Inr q \<Longrightarrow> map_of q ''migration_log'' = map_of p ''migration_log'' \<and>
     map_of q ''migration_state'' = map_of p ''migration_state''"
  by (auto simp: set_upsert_host_def split: option.splits)

lemma created_logged:
  "p ''migration_state'' = Some (jstr MigrationStateLoopbackUnprovisioned) \<Longrightarrow> p ''migration_log'' = None \<Longrightarrow> logged p"
  using valid_state_text [of MigrationStateLoopbackUnprovisioned]
  by (auto simp: logged_def state_of_def log_of_def jstr_def validSSHPeerTransitionState_def intro: migration_path.empty)

lemma rewritten_state_logged:
  assumes "logged p" and "state_of p = Some st" and "q ''migration_state'' = Some (jstr st)" and "q ''migration_log'' = p ''migration_log''"
  shows "logged q"
proof -
  from assms(1,2) have "validSSHPeerTransitionState st" by (auto simp: logged_def)
  from valid_state_text [OF this] assms show ?thesis by (simp add: logged_def state_of_def [of q] log_of_def jstr_def)
qed

lemma upsert_logged:
  assumes "applySSHPeerUpsert cfg raw peerID req = Inr (peer, cfg', raw')"
    and "\<And>old. peer_in raw peerID = Some old \<Longrightarrow> logged old"
  shows "logged (map_of peer)"
proof -
  let ?f = "ur_Peer req"
  from assms(1) obtain sshRaw ps found peer0 st where
    ps: "rawSSHPeers raw = Inr (sshRaw, ps)" and fnd: "findRawPeerForUpdate ps peerID = Inr found"
    and p0: "peer0 = (case found of None \<Rightarrow> setRaw ''id'' (jstr peerID) [] | Some (_, p) \<Rightarrow> p)"
    and st: "rawPeerMigrationState peer0 = Inr st" and ck: "check_upsert_state (found = None) st ?f = Inr ()"
    and pe: "set_upsert_host ?f (set_upsert_scalars ?f peer0) = Inr peer"
    by (auto simp: applySSHPeerUpsert_def Let_def split: prod.splits)
  from upsert_host_state [OF pe] have k: "map_of peer ''migration_log'' = map_of peer0 ''migration_log''"
    "map_of peer ''migration_state'' = (case uf_MigrationState ?f of None \<Rightarrow> map_of peer0 ''migration_state'' | Some x \<Rightarrow> Some (jstr x))"
    by (simp_all add: upsert_scalars_state)
  show ?thesis
  proof (cases found)
    case None
    with ck k p0 show ?thesis by (intro created_logged) (auto simp: check_upsert_state_def split: if_splits)
  next
    case (Some a)
    then obtain n p where a: "found = Some (n, p)" by (cases a) auto
    with fnd have "findRawPeerForUpdate ps peerID = Inr (Some (n, p))" by simp
    from assms(2) [OF peer_in_found [OF ps this]] a p0 have l: "logged (map_of peer0)" by simp
    show ?thesis
    proof (cases "uf_MigrationState ?f")
      case None
      with k l show ?thesis using logged_cong [of "map_of peer" "map_of peer0"] by simp
    next
      case (Some x)
      with ck a have "x = st" by (auto simp: check_upsert_state_def split: if_splits)
      with k(2) Some have "map_of peer ''migration_state'' = Some (jstr st)" by simp
      then show ?thesis using rewritten_state_logged [of "map_of peer0" st "map_of peer"] l k(1) st by (simp add: rawPeerMigrationState_state)
    qed
  qed
qed

lemma kept_state_logged:
  assumes "rawSSHPeers raw = Inr (sshRaw, ps)" and "findRawPeerForUpdate ps peerID = Inr (Some (n, p))"
    and "\<And>old. peer_in raw peerID = Some old \<Longrightarrow> logged old" and "peer = setRaw k v p" and "k \<noteq> ''migration_state''" "k \<noteq> ''migration_log''"
  shows "logged (map_of peer)"
proof -
  have "logged (map_of p)" by (rule assms(3) [OF peer_in_found [OF assms(1,2)]])
  with assms(4-6) show ?thesis using logged_cong [of "map_of peer" "map_of p"] by simp
qed

lemma proof_patch_logged:
  assumes "applySSHPeerProofPatch cfg raw peerID req = Inr (peer, cfg', raw')"
    and "\<And>old. peer_in raw peerID = Some old \<Longrightarrow> logged old"
  shows "logged (map_of peer)"
proof -
  from assms(1) obtain sshRaw ps n p v where "rawSSHPeers raw = Inr (sshRaw, ps)"
    "findRawPeerForUpdate ps peerID = Inr (Some (n, p))" "peer = setRaw ''proof'' v p"
    unfolding applySSHPeerProofPatch_def by (elim on_found_Inr) (auto simp: Let_def)
  from kept_state_logged [OF this(1,2) assms(2) this(3)] show ?thesis by simp
qed

lemma disable_logged:
  assumes "applySSHPeerDisable now cfg raw peerID req = Inr (peer, cfg', raw')"
    and "\<And>old. peer_in raw peerID = Some old \<Longrightarrow> logged old"
  shows "logged (map_of peer)"
proof -
  from assms(1) obtain sshRaw ps n p v where "rawSSHPeers raw = Inr (sshRaw, ps)"
    "findRawPeerForUpdate ps peerID = Inr (Some (n, p))" "peer = setRaw ''enabled'' v p"
    unfolding applySSHPeerDisable_def by (elim on_found_Inr) (auto simp: Let_def split: if_splits)
  from kept_state_logged [OF this(1,2) assms(2) this(3)] show ?thesis by simp
qed

lemma delete_logged:
  assumes "applySSHPeerDelete now cfg raw peerID req = Inr (peer, cfg', raw')"
    and "\<And>old. peer_in raw peerID = Some old \<Longrightarrow> logged old"
  shows "logged (map_of peer)"
proof -
  from assms(1) obtain sshRaw ps n p v where "rawSSHPeers raw = Inr (sshRaw, ps)"
    "findRawPeerForUpdate ps peerID = Inr (Some (n, p))" "peer = setRaw ''cleanup_status'' v p"
    unfolding applySSHPeerDelete_def by (elim on_found_Inr) (auto simp: Let_def split: if_splits)
  from kept_state_logged [OF this(1,2) assms(2) this(3)] show ?thesis by simp
qed

lemma apply_request_logged:
  assumes "apply_request now home peerID r cfg raw = Inr (peer, cfg', raw')"
    and "\<And>old. peer_in raw peerID = Some old \<Longrightarrow> logged old"
  shows "logged (map_of peer)"
  using assms
  by (cases r) (auto simp: apply_request_def upsert_and_persist_def
      intro: upsert_logged proof_patch_logged transition_logged disable_logged delete_logged)

text \<open>Every peer of a document is.\<close>

definition all_logged :: "json_fields \<Rightarrow> bool" where
  "all_logged raw \<longleftrightarrow> (\<forall>sshRaw ps. rawSSHPeers raw = Inr (sshRaw, ps) \<longrightarrow> (\<forall>p \<in> set ps. logged (map_of (members p))))"

lemma peer_find_in: "peer_find ps peerID = Some q \<Longrightarrow> \<exists>p \<in> set ps. q = map_of (members p)"
  by (induction ps) (auto split: sum.splits if_splits)

lemma all_logged_cong: "map_of raw ''ssh'' = map_of raw' ''ssh'' \<Longrightarrow> all_logged raw = all_logged raw'"
  by (simp add: all_logged_def rawSSHPeers_def)

lemma edits_only_peers:
  assumes "edits_only peerID peer cfg raw cfg' raw'"
  obtains sshRaw ps0 sshRaw' ps where "rawSSHPeers raw = Inr (sshRaw, ps0)" and "rawSSHPeers raw' = Inr (sshRaw', sorted_peers ps)"
    and "\<forall>p \<in> set ps. distinct (map fst (members p))" and "set ps \<subseteq> insert (Some peer) (set ps0)"
  using assms unfolding edits_only_def by (elim exE conjE) (rule that)

lemma apply_request_all_logged:
  assumes "ValidateHostID peerID = Inr ()" and "apply_request now home peerID r cfg raw = Inr (peer, cfg', raw')" and "all_logged raw"
  shows "all_logged raw'"
proof -
  from apply_request_edits [OF assms(1,2)] obtain sshRaw ps0 sshRaw' ps where
    p: "rawSSHPeers raw = Inr (sshRaw, ps0)" "rawSSHPeers raw' = Inr (sshRaw', sorted_peers ps)"
    "\<forall>p \<in> set ps. distinct (map fst (members p))" "set ps \<subseteq> insert (Some peer) (set ps0)"
    by (rule edits_only_peers)
  from assms(3) p(1) have o: "\<forall>p \<in> set ps0. logged (map_of (members p))" by (simp add: all_logged_def)
  have "logged old" if "peer_in raw peerID = Some old" for old
    using that o p(1) peer_find_in [of ps0 peerID old] by (auto simp: peer_in_find)
  then have "logged (map_of peer)" by (rule apply_request_logged [OF assms(2)])
  then have "logged (map_of (members (Some peer)))" by (simp add: members_def)
  with o p(4) have "\<forall>q \<in> set ps. logged (map_of (members q))" by blast
  then have "\<forall>q \<in> set (sorted_peers ps). logged (map_of (members q))"
    using p(3) by (auto simp: sorted_peers_def map_of_sorted_members)
  with p(2) show ?thesis by (simp add: all_logged_def)
qed

section \<open>The rest of the \<open>ssh\<close> object\<close>

text \<open>The members of the \<open>ssh\<close> object of a document, and what a request may do to one of them: nothing, but for the
  two paths an update of a peer expands, and the two logs that grow by one entry.\<close>

definition ssh_members :: "json_fields \<Rightarrow> (string \<rightharpoonup> json)" where
  "ssh_members raw = (case rawSSHPeers raw of Inl _ \<Rightarrow> Map.empty | Inr (sshRaw, _) \<Rightarrow> map_of sshRaw)"

definition array_of :: "json option \<Rightarrow> json list" where
  "array_of v = (case v of Some (JArr vs) \<Rightarrow> vs | _ \<Rightarrow> [])"

definition home_text :: "json option \<Rightarrow> bool" where
  "home_text v \<longleftrightarrow> (\<exists>w text. v = Some w \<and> dec_string w [] = Inr text \<and> needsHomeExpansion text)"

definition member_change :: "peer_request \<Rightarrow> string \<Rightarrow> json option \<Rightarrow> json option \<Rightarrow> bool" where
  "member_change r k before after \<longleftrightarrow> after = before \<or> (case r of
     Upsert _ \<Rightarrow> k \<in> {''known_hosts'', ''sync_key''} \<and> home_text before \<and> (\<exists>path. after = Some (jstr path))
   | Disable _ \<Rightarrow> k = ''audit_log'' \<and> (\<exists>e. after = Some (JArr (array_of before @ [e])))
   | Delete _ \<Rightarrow> k \<in> {''audit_log'', ''remediation''} \<and> (\<exists>e. after = Some (JArr (array_of before @ [e])))
   | _ \<Rightarrow> False)"

lemma ssh_members_read: "rawSSHPeers raw = Inr (sshRaw, ps) \<Longrightarrow> ssh_members raw = map_of sshRaw"
  by (simp add: ssh_members_def)

lemma ssh_members_cong: "map_of raw ''ssh'' = map_of raw' ''ssh'' \<Longrightarrow> ssh_members raw = ssh_members raw'"
  by (simp add: ssh_members_def rawSSHPeers_def)

lemma ssh_members_set:
  assumes "rawSSHPeers raw' = Inr (s, q)" and "raw' = setRaw ''ssh'' (marshal_map x) raw" and "distinct (map fst x)"
  shows "ssh_members raw' = map_of x"
proof -
  have "map_of raw' ''ssh'' = Some (marshal_map x)" using assms(2) by simp
  with assms(1) dec_map_marshal [OF assms(3)] have "s = sort_key fst x"
    by (auto simp: rawSSHPeers_def isJSONNull_def marshal_map_def members_def split: option.splits if_splits)
  with ssh_members_read [OF assms(1)] map_of_sort_key [OF assms(3)] show ?thesis by simp
qed

lemma ssh_members_rebuilt:
  assumes rb: "rebuildTypedSSHPeersAndWriteBack cfg raw x ps = Inr (cfg', raw')"
    and e: "edits_only peerID peer cfg raw cfg' raw'" and d: "distinct (map fst x)" and k: "k \<noteq> ''peers''"
  shows "ssh_members raw' k = map_of x k"
proof -
  from e obtain s q where r: "rawSSHPeers raw' = Inr (s, q)" by (auto simp: edits_only_def)
  have "raw' = setRaw ''ssh'' (marshal_map (setRaw ''peers'' (JArr (map marshal_opt ps)) x)) raw"
    using rb by (auto simp: rebuildTypedSSHPeersAndWriteBack_def Let_def)
  from ssh_members_set [OF r this] d k show ?thesis by simp
qed

lemma append_member:
  assumes "append_raw_array x field entry e = Inr y"
  shows "map_of y field = Some (JArr (array_of (map_of x field) @ [entry])) \<and> (\<forall>k. k \<noteq> field \<longrightarrow> map_of y k = map_of x k) \<and>
    (distinct (map fst x) \<longrightarrow> distinct (map fst y))"
  using assms by (auto simp: append_raw_array_def array_of_def isJSONNull_def dec_raws_def type_error_def split: option.splits json.splits)

lemma persisted_members:
  assumes "edits_only peerID peer cfg raw cfg1 raw1" and "persistNormalizedLocalSSHPaths raw1 cfg2 = Inr raw2"
    and "edits_only peerID peer cfg raw cfg2 raw2" and "\<And>k. k \<noteq> ''peers'' \<Longrightarrow> ssh_members raw1 k = ssh_members raw k" and "k \<noteq> ''peers''"
  shows "member_change (Upsert req) k (ssh_members raw k) (ssh_members raw2 k)"
proof -
  from assms(1) obtain x q where r: "rawSSHPeers raw1 = Inr (x, q)" by (auto simp: edits_only_def)
  from assms(3) obtain s q' where r2: "rawSSHPeers raw2 = Inr (s, q')" by (auto simp: edits_only_def)
  show ?thesis
  proof (cases "cf_SSH cfg2")
    case None
    with assms(2,4,5) show ?thesis by (simp add: persistNormalizedLocalSSHPaths_def member_change_def)
  next
    case (Some ssh)
    let ?y = "persistNormalizedLocalSSHPath ''known_hosts'' (s_KnownHosts ssh) (persistNormalizedLocalSSHPath ''sync_key'' (s_SyncKey ssh) x)"
    have p: "(map_of (persistNormalizedLocalSSHPath f v z) k = map_of z k \<or> k = f \<and> home_text (map_of z k) \<and>
        map_of (persistNormalizedLocalSSHPath f v z) k = Some (jstr v)) \<and>
        (distinct (map fst z) \<longrightarrow> distinct (map fst (persistNormalizedLocalSSHPath f v z)))" for f v z
      by (auto simp: persistNormalizedLocalSSHPath_def home_text_def split: option.splits sum.splits)
    have "raw2 = setRaw ''ssh'' (marshal_map ?y) raw1" using assms(2) r Some by (simp add: persistNormalizedLocalSSHPaths_def)
    then have "ssh_members raw2 = map_of ?y" using p rawSSHPeers_distinct [OF r] by (intro ssh_members_set [OF r2]) blast+
    moreover have "map_of x k = ssh_members raw k" using assms(4,5) ssh_members_read [OF r] by simp
    moreover have "''known_hosts'' \<noteq> ''sync_key''" by simp
    ultimately show ?thesis
      using p [of "''known_hosts''" "s_KnownHosts ssh" "persistNormalizedLocalSSHPath ''sync_key'' (s_SyncKey ssh) x"]
        p [of "''sync_key''" "s_SyncKey ssh" x]
      by (auto simp: member_change_def)
  qed
qed

lemma apply_request_members:
  assumes v: "ValidateHostID peerID = Inr ()" and a: "apply_request now home peerID r cfg raw = Inr (peer, cfg', raw')" and k: "k \<noteq> ''peers''"
  shows "member_change r k (ssh_members raw k) (ssh_members raw' k)"
proof -
  have e: "edits_only peerID peer cfg raw cfg' raw'" by (rule apply_request_edits [OF v a])
  show ?thesis
  proof (cases r)
    case (Upsert req)
    with a obtain cfg1 raw1 where u: "applySSHPeerUpsert cfg raw peerID req = Inr (peer, cfg1, raw1)"
      and n: "persistNormalizedLocalSSHPaths raw1 cfg' = Inr raw'" by (auto simp: apply_request_def upsert_and_persist_def)
    note e1 = applySSHPeerUpsert_edits [OF v u]
    from u obtain sshRaw ps qs where ps: "rawSSHPeers raw = Inr (sshRaw, ps)"
      and rb: "rebuildTypedSSHPeersAndWriteBack cfg raw sshRaw qs = Inr (cfg1, raw1)"
      by (auto simp: applySSHPeerUpsert_def Let_def split: prod.splits)
    have "ssh_members raw1 k = ssh_members raw k" if "k \<noteq> ''peers''" for k
      using ssh_members_rebuilt [OF rb e1 _ that] rawSSHPeers_distinct [OF ps] ssh_members_read [OF ps] by simp
    from persisted_members [OF e1 n e this k] Upsert show ?thesis by simp
  next
    case (PatchProof req)
    with a have u: "applySSHPeerProofPatch cfg raw peerID req = Inr (peer, cfg', raw')" by (simp add: apply_request_def)
    from u obtain sshRaw ps qs where ps: "rawSSHPeers raw = Inr (sshRaw, ps)"
      and rb: "rebuildTypedSSHPeersAndWriteBack cfg raw sshRaw qs = Inr (cfg', raw')"
      unfolding applySSHPeerProofPatch_def by (elim on_found_Inr) (auto simp: Let_def)
    show ?thesis using ssh_members_rebuilt [OF rb e _ k] rawSSHPeers_distinct [OF ps] ssh_members_read [OF ps]
      by (simp add: member_change_def)
  next
    case (Transition req)
    with a have "applySSHPeerTransition cfg raw peerID req = Inr (peer, cfg', raw')" by (simp add: apply_request_def)
    then show ?thesis
    proof (rule applySSHPeerTransition_cases)
      fix sshRaw ps n
      assume ps: "rawSSHPeers raw = Inr (sshRaw, ps)"
        and rb: "rebuildTypedSSHPeersAndWriteBack cfg raw sshRaw (ps[n := Some peer]) = Inr (cfg', raw')"
      show ?thesis using ssh_members_rebuilt [OF rb e _ k] rawSSHPeers_distinct [OF ps] ssh_members_read [OF ps]
        by (simp add: member_change_def)
    qed
  next
    case (Disable req)
    with a have u: "applySSHPeerDisable now cfg raw peerID req = Inr (peer, cfg', raw')" by (simp add: apply_request_def)
    from u obtain sshRaw ps qs x entry where ps: "rawSSHPeers raw = Inr (sshRaw, ps)"
      and l: "append_raw_array sshRaw ''audit_log'' entry ''invalid_ssh_peer_audit_log'' = Inr x"
      and rb: "rebuildTypedSSHPeersAndWriteBack cfg raw x qs = Inr (cfg', raw')"
      unfolding applySSHPeerDisable_def appendSSHAuditLog_def appendSSHRawObjectArray_def
      by (elim on_found_Inr) (auto simp: Let_def split: if_splits)
    show ?thesis using ssh_members_rebuilt [OF rb e _ k] append_member [OF l] rawSSHPeers_distinct [OF ps] ssh_members_read [OF ps] Disable
      by (cases "k = ''audit_log''") (auto simp: member_change_def)
  next
    case (Delete req)
    with a have "applySSHPeerDelete now cfg raw peerID req = Inr (peer, cfg', raw')" by (simp add: apply_request_def)
    then show ?thesis
    proof (rule applySSHPeerDelete_cases)
      fix sshRaw ps n st sshRaw1 rm x
      assume ps: "rawSSHPeers raw = Inr (sshRaw, ps)"
        and l: "append_raw_array sshRaw ''audit_log'' (sshPeerDeleteAuditEntry peerID st req now) ''invalid_ssh_peer_audit_log'' = Inr sshRaw1"
        and m: "(case rm of None \<Rightarrow> Inr sshRaw1 | Some r \<Rightarrow> append_raw_array sshRaw1 ''remediation'' r ''invalid_ssh_peer_remediation'') = Inr x"
        and rb: "rebuildTypedSSHPeersAndWriteBack cfg raw x (take n ps @ drop (Suc n) ps) = Inr (cfg', raw')"
      have x: "distinct (map fst x) \<and> (map_of x k = map_of sshRaw k \<or> k \<in> {''audit_log'', ''remediation''} \<and>
          (\<exists>e. map_of x k = Some (JArr (array_of (map_of sshRaw k) @ [e]))))"
      proof (cases rm)
        case None
        with m append_member [OF l] rawSSHPeers_distinct [OF ps] show ?thesis by (cases "k = ''audit_log''") auto
      next
        case (Some r)
        with m have "append_raw_array sshRaw1 ''remediation'' r ''invalid_ssh_peer_remediation'' = Inr x" by simp
        from append_member [OF this] append_member [OF l] rawSSHPeers_distinct [OF ps] show ?thesis
          by (cases "k = ''audit_log''"; cases "k = ''remediation''") auto
      qed
      with ssh_members_rebuilt [OF rb e _ k] ssh_members_read [OF ps] Delete show ?thesis by (auto simp: member_change_def)
    qed
  qed
qed

section \<open>Properties\<close>

text \<open>C9. Whatever fails, a request about one peer (create, change, prove, move, disable or delete) either
  reports an error and leaves the file as it was, or stores a document in which every other peer is exactly
  as it was, and so is every other member that is not one of the program's own scalars, unknown ones
  included. Within the \<open>ssh\<close> object too, every member but the list of peers stays as it was, except that an update of
  a peer replaces a path to the keys that begins with the home directory's sign, disabling a peer adds one entry to the
  audit log, and deleting one adds at most one entry to each of the audit log and the remediation list. The
  revision the caller expected is replaced by its successor.\<close>

theorem peer_request_isolated:
  assumes "run_request now home tmp path gate peerID r s = (x, s')"
    and "node_at s path = Some (Regular m (Some old) t)" and "tmp \<noteq> path"
  shows "(\<exists>e. x = Inl e) \<and> node_at s' path = node_at s path \<or>
    (\<exists>new t' rv. node_at s' path = Some (Regular 384 (Some new) t') \<and> expected_revision r = Some rv \<and>
       map_of (doc_raw new) ''config_revision'' = Some (juint (rv + 1)) \<and>
       (\<forall>other. other \<noteq> peerID \<longrightarrow> peer_in (doc_raw new) other = peer_in (doc_raw old) other) \<and>
       (\<forall>k. k \<notin> set scalar_names \<longrightarrow> k \<noteq> ''ssh'' \<longrightarrow> map_of (doc_raw new) k = map_of (doc_raw old) k) \<and>
       (\<forall>k. k \<noteq> ''peers'' \<longrightarrow> member_change r k (ssh_members (doc_raw old) k) (ssh_members (doc_raw new) k)))"
  using assms
proof (rule run_request_cases)
  fix e assume "x = Inl e" "node_at s' path = node_at s path" then show ?thesis by blast
next
  fix new t' peer raw
  assume n: "node_at s' path = Some (Regular 384 (Some new) t')" and "took_effect now home peerID r old new peer raw"
  then obtain cfg0 cfg rv where v: "ValidateHostID peerID = Inr ()"
    and a: "apply_request now home peerID r cfg0 (doc_raw old) = Inr (peer, cfg, raw)"
    and s: "map_of (doc_raw new) ''ssh'' = map_of raw ''ssh''"
    and rest: "expected_revision r = Some rv" "map_of (doc_raw new) ''config_revision'' = Some (juint (rv + 1))"
      "\<forall>k. k \<notin> set scalar_names \<longrightarrow> k \<noteq> ''ssh'' \<longrightarrow> map_of (doc_raw new) k = map_of (doc_raw old) k"
    by (auto simp: took_effect_def)
  have "peer_in (doc_raw new) other = peer_in (doc_raw old) other" if "other \<noteq> peerID" for other
    using request.others_kept [OF v a that] peer_in_cong [OF s] by simp
  moreover have "member_change r k (ssh_members (doc_raw old) k) (ssh_members (doc_raw new) k)" if "k \<noteq> ''peers''" for k
    using apply_request_members [OF v a that] ssh_members_cong [OF s] by simp
  ultimately show ?thesis using n rest by blast
qed

definition peers_example :: json_doc where
  "peers_example = Values [JObj [(''config_version'', JNum ''2''), (''config_revision'', JNum ''7''),
     (''ssh'', JObj [(''peers'', JArr [JObj [(''id'', JStr ''a''), (''migration_state'', JStr ''loopback_unprovisioned'')]]),
       (''unknown'', JNum ''1'')])]]"

definition fs_peers_example :: "json_doc fs" where
  "fs_peers_example = \<lparr>nodes = [(''/c'', Directory 448), (''/c/config.json'', Regular 384 (Some peers_example) 5)],
     faults = [], clock = 9\<rparr>"

definition create_example :: SSHPeerUpsertRequest where
  "create_example = \<lparr>ur_ExpectedConfigRevision = Some 7, ur_Peer = empty_upsert\<lparr>uf_ID := Some ''b'', uf_Enabled := Some False,
     uf_Accept := Some True, uf_Connect := Some False, uf_MigrationState := Some MigrationStateLoopbackUnprovisioned\<rparr>\<rparr>"

definition created_example :: "(os_error + SSHPeerConfigReadResult) \<times> json_doc fs" where
  "created_example = run_request ''now'' (Inr ''/h'') ''/c/t'' ''/c/config.json'' True ''b'' (Upsert create_example) fs_peers_example"

definition created_doc :: json_doc where
  "created_doc = Values [JObj [(''config_revision'', JNum ''8''), (''config_version'', JNum ''2''), (''ssh'', JObj [(''peers'', JArr
     [JObj [(''id'', JStr ''a''), (''migration_state'', JStr ''loopback_unprovisioned'')],
      JObj [(''accept'', JBool True), (''connect'', JBool False), (''enabled'', JBool False), (''id'', JStr ''b''),
            (''migration_state'', JStr ''loopback_unprovisioned'')]]),
       (''unknown'', JNum ''1'')])]]"

lemma created_example_runs:
  "(case created_example of (x, s) \<Rightarrow> (isl x, node_at s ''/c/config.json'')) = (False, Some (Regular 384 (Some created_doc) 9))"
  by code_simp

lemma peers_example_node: "node_at fs_peers_example ''/c/config.json'' = Some (Regular 384 (Some peers_example) 5)"
  by code_simp

lemma created_example_run:
  obtains x s where "run_request ''now'' (Inr ''/h'') ''/c/t'' ''/c/config.json'' True ''b'' (Upsert create_example) fs_peers_example =
      (x, s)" and "\<not> isl x" and "node_at s ''/c/config.json'' = Some (Regular 384 (Some created_doc) 9)"
  using created_example_runs by (cases created_example) (auto simp: created_example_def)

theorem peer_request_isolated_witness:
  "peer_in (doc_raw created_doc) ''a'' = peer_in (doc_raw peers_example) ''a'' \<and> peer_in (doc_raw created_doc) ''a'' \<noteq> None \<and>
   ssh_members (doc_raw created_doc) ''unknown'' = Some (JNum ''1'')"
proof -
  obtain x s where r: "run_request ''now'' (Inr ''/h'') ''/c/t'' ''/c/config.json'' True ''b'' (Upsert create_example) fs_peers_example =
      (x, s)" and "\<not> isl x" and n: "node_at s ''/c/config.json'' = Some (Regular 384 (Some created_doc) 9)"
    by (rule created_example_run)
  with peer_request_isolated [OF r peers_example_node] have
    "peer_in (doc_raw created_doc) ''a'' = peer_in (doc_raw peers_example) ''a''"
    "member_change (Upsert create_example) ''unknown'' (ssh_members (doc_raw peers_example) ''unknown'') (ssh_members (doc_raw created_doc) ''unknown'')"
    by auto
  moreover have "ssh_members (doc_raw peers_example) ''unknown'' = Some (JNum ''1'')" by code_simp
  moreover have "case rawSSHPeerByID (doc_raw created_doc) ''a'' of Inl _ \<Rightarrow> False | Inr _ \<Rightarrow> True" by code_simp
  ultimately show ?thesis by (auto simp: peer_in_def member_change_def split: sum.splits)
qed

text \<open>
  The documents that come about from one whose peers have all just been created, by any sequence of
  requests, each at any time, against any file system, with any outcome.
\<close>

inductive managed :: "json_doc \<Rightarrow> bool" where
  start: "rawSSHPeers (doc_raw d) = Inr (sshRaw, ps) \<Longrightarrow>
    \<forall>p \<in> set ps. state_of (map_of (members p)) = Some MigrationStateLoopbackUnprovisioned \<and> log_of (map_of (members p)) = [] \<Longrightarrow> managed d"
| request: "managed old \<Longrightarrow> node_at s path = Some (Regular m (Some old) t) \<Longrightarrow> tmp \<noteq> path \<Longrightarrow>
    run_request now home tmp path gate peerID r s = (x, s') \<Longrightarrow> node_at s' path = Some (Regular m' (Some new) t') \<Longrightarrow> managed new"

lemma managed_all_logged: "managed d \<Longrightarrow> all_logged (doc_raw d)"
proof (induction rule: managed.induct)
  case (start d sshRaw ps)
  have "logged p" if "state_of p = Some MigrationStateLoopbackUnprovisioned" "log_of p = []" for p
    using that by (auto simp: logged_def validSSHPeerTransitionState_def intro: migration_path.empty)
  with start show ?case by (simp add: all_logged_def)
next
  case (request old s path m t tmp now home gate peerID r x s' m' new t')
  from request.hyps(4,2,3) show ?case
  proof (rule run_request_cases)
    fix e assume "node_at s' path = node_at s path"
    with request.hyps(2,5) have "new = old" by simp
    with request.IH show ?thesis by simp
  next
    fix new' t'' peer raw
    assume "node_at s' path = Some (Regular 384 (Some new') t'')" and te: "took_effect now home peerID r old new' peer raw"
    with request.hyps(5) have new: "new' = new" by simp
    from te obtain cfg0 cfg where "ValidateHostID peerID = Inr ()" "apply_request now home peerID r cfg0 (doc_raw old) = Inr (peer, cfg, raw)"
      "map_of (doc_raw new) ''ssh'' = map_of raw ''ssh''" by (auto simp: took_effect_def new)
    with request.IH show ?thesis using apply_request_all_logged all_logged_cong by blast
  qed
qed

text \<open>C8. The migration log of a peer is its history: in every document that requests can produce, the moves
  recorded in the log of a peer lead, one allowed edge after the other, from \<open>loopback_unprovisioned\<close> to the
  state the peer is in.\<close>

theorem migration_log_is_history:
  assumes "managed d" and "peer_in (doc_raw d) peerID = Some p"
  shows "\<exists>rs st. state_of p = Some st \<and> log_of p = map migration_entry rs \<and>
    migration_path MigrationStateLoopbackUnprovisioned rs st"
proof -
  from assms(2) obtain sshRaw ps where ps: "rawSSHPeers (doc_raw d) = Inr (sshRaw, ps)"
    by (auto simp: peer_in_def rawSSHPeerByID_def split: sum.splits)
  with assms(2) have "\<exists>q \<in> set ps. p = map_of (members q)" by (intro peer_find_in) (simp add: peer_in_find)
  with managed_all_logged [OF assms(1)] ps have "logged p" by (auto simp: all_logged_def)
  then show ?thesis by (auto simp: logged_def)
qed

lemma created_doc_managed: "managed created_doc"
proof -
  let ?ps = "[Some [(''id'', JStr ''a''), (''migration_state'', JStr ''loopback_unprovisioned'')]]"
  have "(case rawSSHPeers (doc_raw peers_example) of Inl _ \<Rightarrow> None | Inr (_, ps) \<Rightarrow> Some ps) = Some ?ps" by code_simp
  then obtain sshRaw where "rawSSHPeers (doc_raw peers_example) = Inr (sshRaw, ?ps)" by (auto split: sum.splits)
  then have m: "managed peers_example"
    by (rule managed.start) (simp add: state_of_def log_of_def members_def migration_states)
  obtain x s where r: "run_request ''now'' (Inr ''/h'') ''/c/t'' ''/c/config.json'' True ''b'' (Upsert create_example)
      fs_peers_example = (x, s)" and n: "node_at s ''/c/config.json'' = Some (Regular 384 (Some created_doc) 9)"
    by (rule created_example_run)
  show ?thesis by (rule managed.request [OF m peers_example_node _ r n]) simp
qed

theorem migration_log_is_history_witness:
  "\<exists>p rs st. peer_in (doc_raw created_doc) ''b'' = Some p \<and> state_of p = Some st \<and> log_of p = map migration_entry rs \<and>
     migration_path MigrationStateLoopbackUnprovisioned rs st"
proof -
  have "case rawSSHPeerByID (doc_raw created_doc) ''b'' of Inl _ \<Rightarrow> False | Inr _ \<Rightarrow> True" by code_simp
  then obtain p where "peer_in (doc_raw created_doc) ''b'' = Some p" by (auto simp: peer_in_def split: sum.splits)
  with migration_log_is_history [OF created_doc_managed this] show ?thesis by blast
qed

section \<open>Moves, resets and deletions\<close>

lemma peer_find_replaced:
  assumes "find_peer_from i ps peerID = Inr (Some (j, p))" and "rawPeerID (Some q) = Inr peerID"
  shows "peer_find (ps[j - i := Some q]) peerID = Some (map_of q)"
  using assms
proof (induction i ps peerID rule: find_peer_from.induct)
  case (2 i r ps peerID)
  show ?case
  proof (cases "rawPeerID r = Inr peerID")
    case True
    with 2 show ?thesis by (simp add: members_def split: if_splits)
  next
    case False
    with "2.prems" obtain pid where r: "rawPeerID r = Inr pid" "pid \<noteq> peerID" "find_peer_from (Suc i) ps peerID = Inr (Some (j, p))"
      by (auto split: if_splits)
    from find_peer_from_Some [OF r(3)] have "Suc i \<le> j" by auto
    then have "j - i = Suc (j - Suc i)" by simp
    with "2.IH" [OF r(2,3) "2.prems"(2)] r show ?thesis by simp
  qed
qed simp

lemma peer_in_replaced:
  assumes "rawSSHPeers raw = Inr (sshRaw, ps)" and "findRawPeerForUpdate ps peerID = Inr (Some (n, p))"
    and "rebuildTypedSSHPeersAndWriteBack cfg raw sshRaw (ps[n := Some q]) = Inr (cfg', raw')"
    and "map_of q ''id'' = map_of p ''id''" and "distinct (map fst q)"
  shows "peer_in raw' peerID = Some (map_of q)"
proof -
  note f = found_peer [OF assms(1,2)]
  have "rawPeerID (Some q) = Inr peerID" using f assms(4) by (simp add: rawPeerID_def members_def)
  with peer_find_replaced [of 0 ps peerID n p q] assms(2) have "peer_find (ps[n := Some q]) peerID = Some (map_of q)"
    by (simp add: findRawPeerForUpdate_def)
  moreover have d: "\<forall>r \<in> set (ps[n := Some q]). distinct (map fst (members r))"
    using f assms(5) set_update_subset_insert [of ps n "Some q"] by (auto simp: members_def)
  moreover from rebuild_reads [OF assms(3) _ d] f obtain s where "rawSSHPeers raw' = Inr (s, sorted_peers (ps[n := Some q]))"
    by (auto simp: sorted_peers_def)
  ultimately show ?thesis by (simp add: peer_in_find peer_find_sorted)
qed

lemma transition_stored:
  assumes "applySSHPeerTransition cfg raw peerID req = Inr (peer, cfg', raw')"
  shows "peer_in raw' peerID = Some (map_of peer)"
  using assms
proof (rule applySSHPeerTransition_cases)
  fix sshRaw ps n p p1
  assume ps: "rawSSHPeers raw = Inr (sshRaw, ps)" and f: "findRawPeerForUpdate ps peerID = Inr (Some (n, p))"
    and p1: "p1 = (if tr_ToState req = MigrationStateLoopbackUnprovisioned then reset_peer p else p)"
    and l: "appendSSHPeerMigrationLog (setRaw ''migration_state'' (jstr (tr_ToState req)) p1) req = Inr peer"
    and rb: "rebuildTypedSSHPeersAndWriteBack cfg raw sshRaw (ps[n := Some peer]) = Inr (cfg', raw')"
  have "map_of p1 ''id'' = map_of p ''id''" using found_peer [OF ps f] p1 by (auto simp: reset_peer_id)
  moreover have "distinct (map fst p1)" using found_peer [OF ps f] p1 by (simp add: reset_peer_distinct)
  ultimately show ?thesis using append_raw_array_keeps [OF l [unfolded appendSSHPeerMigrationLog_def]]
    by (intro peer_in_replaced [OF ps f rb]) auto
qed

text \<open>C10. Every accepted transition is a move of the abstract machine: the peer was in the state the caller
  named, the edge is one of the machine's, the stored peer is in the target state and its log has one more entry, the
  record of this request. \<open>ssh_keys_ready\<close> is only entered with current proofs for the enabled directions.\<close>

theorem transition_follows_machine:
  assumes "applySSHPeerTransition cfg raw peerID req = Inr (peer, cfg', raw')"
  shows "\<exists>old typed new. peer_in raw peerID = Some (map_of old) \<and> typedPeerFromRaw (Some old) = Inr typed \<and>
    state_of (map_of old) = Some (tr_FromState req) \<and> migration_edge (tr_FromState req) (tr_ToState req) \<and>
    peer_in raw' peerID = Some new \<and> state_of new = Some (tr_ToState req) \<and>
    log_of new = log_of (map_of old) @ [migration_entry req] \<and>
    (tr_ToState req = MigrationStateSSHKeysReady \<longrightarrow>
       ValidateDirectionalProof typed DirectionAccept = Inr () \<and> ValidateDirectionalProof typed DirectionConnect = Inr ())"
  using assms
proof (rule transition_result)
  fix old typed
  assume o: "peer_in raw peerID = Some (map_of old)" "state_of (map_of old) = Some (tr_FromState req)"
    and t: "typedPeerFromRaw (Some old) = Inr typed"
    and c: "check_transition typed req = Inr ()" and v: "validSSHPeerTransitionState (tr_ToState req)"
    and s: "map_of peer ''migration_state'' = Some (jstr (tr_ToState req))"
    and l: "map_of peer ''migration_log'' = Some (JArr (log_of (map_of old) @ [migration_entry req]))"
  have 1: "state_of (map_of peer) = Some (tr_ToState req)" using s valid_state_text [OF v] by (simp add: state_of_def jstr_def)
  have 2: "log_of (map_of peer) = log_of (map_of old) @ [migration_entry req]" using l by (simp add: log_of_def)
  have 3: "tr_ToState req = MigrationStateSSHKeysReady \<longrightarrow>
       ValidateDirectionalProof typed DirectionAccept = Inr () \<and> ValidateDirectionalProof typed DirectionConnect = Inr ()"
    using check_transition_proofs [OF c] by (auto simp: validateSSHPeerTransitionEnabledProofs_def)
  show ?thesis
    using o(1) t o(2) check_transition_edge [OF c] transition_stored [OF assms] 1 2 3 by (intro exI conjI)
qed

text \<open>Scrubbing and decoding.\<close>

lemma dedup_map: "dedup (map (\<lambda>(k, v). (k, g v)) fs) = map (\<lambda>(k, v). (k, g v)) (dedup fs)"
proof -
  have u: "AList.update k (g v) (map (\<lambda>(k, v). (k, g v)) xs) = map (\<lambda>(k, v). (k, g v)) (AList.update k v xs)" for k v xs
    by (induction xs) auto
  have "foldl (\<lambda>acc (k, v). AList.update k v acc) (map (\<lambda>(k, v). (k, g v)) acc) (map (\<lambda>(k, v). (k, g v)) fs) =
      map (\<lambda>(k, v). (k, g v)) (foldl (\<lambda>acc (k, v). AList.update k v acc) acc fs)" for acc
    by (induction fs arbitrary: acc) (auto simp: u)
  from this [of "[]"] show ?thesis by (simp add: dedup_def)
qed

lemma decode_any_obj: "decode_any (JObj fs) = JObj (map (\<lambda>(k, v). (k, decode_any v)) (dedup fs))"
  by (simp add: dedup_map)

lemma scrub_unchanged: "\<not> snd (scrubSecretLikeRawValue v) \<Longrightarrow> fst (scrubSecretLikeRawValue v) = v"
  by (cases v) (auto simp: Let_def split: if_splits)

lemma scrub_keep_mem:
  "(k, w) \<in> set (scrub_keep pres rs) \<longleftrightarrow> (\<exists>ch. (k, w, ch) \<in> set rs) \<and> (k \<in> set pres \<or> \<not> secretLikePeerField k)"
  by (force simp: scrub_keep_def)

lemma scrub_secret_free: "secret_free (decode_any (fst (scrubSecretLikeRawValue v)))"
proof (induction v rule: scrubSecretLikeRawValue.induct)
  case (1 fs)
  let ?rs = "map (\<lambda>(k, w). (k, scrubSecretLikeRawValue w)) (dedup fs)"
  have IH: "secret_free (decode_any (fst (scrubSecretLikeRawValue w)))" if "(k, w) \<in> set (dedup fs)" for k w
    using 1 that by blast
  show ?case
  proof (cases "scrub_changed [] ?rs")
    case True
    let ?ks = "scrub_keep [] ?rs"
    have "distinct (map fst ?ks)" using fst_scrub_keep [of "[]" "\<lambda>_. scrubSecretLikeRawValue" "dedup fs"] by simp
    then have "dedup (sort_key fst ?ks) = sort_key fst ?ks" by (simp add: dedup_id sort_key_distinct)
    moreover have "\<not> secretLikePeerField k \<and> secret_free (decode_any w)" if "(k, w) \<in> set ?ks" for k w
      using that IH by (auto simp: scrub_keep_mem) (metis fst_conv)
    ultimately have "secret_free (decode_any (marshal_map ?ks))"
      by (auto simp: marshal_map_def decode_any_obj list_all_iff simp del: decode_any.simps(1))
    with True show ?thesis by (simp add: Let_def)
  next
    case False
    then have "\<forall>(k, w) \<in> set (dedup fs). \<not> secretLikePeerField k \<and> \<not> snd (scrubSecretLikeRawValue w)"
      by (fastforce simp: scrub_changed_def list_ex_iff)
    with IH have "\<forall>(k, w) \<in> set (dedup fs). \<not> secretLikePeerField k \<and> secret_free (decode_any w)"
      by (fastforce dest: scrub_unchanged)
    then have "secret_free (decode_any (JObj fs))" by (auto simp: decode_any_obj list_all_iff simp del: decode_any.simps(1))
    with False show ?thesis by (simp add: Let_def)
  qed
next
  case (2 vs)
  show ?case
  proof (cases "list_ex snd (map scrubSecretLikeRawValue vs)")
    case True
    with 2 show ?thesis by (auto simp: Let_def list_all_iff)
  next
    case False
    with 2 show ?thesis by (fastforce simp: Let_def list_all_iff list_ex_iff dest: scrub_unchanged)
  qed
qed simp_all


text \<open>C12. A peer that goes back to \<open>loopback_unprovisioned\<close> keeps nothing secret: its proof is gone, it has no member
  with a secret-like name, and what the other members decode to has none at any depth (the migration log apart).\<close>

theorem reset_leaves_no_secret:
  assumes "applySSHPeerTransition cfg raw peerID req = Inr (peer, cfg', raw')"
    and "tr_ToState req = MigrationStateLoopbackUnprovisioned"
  shows "\<exists>new. peer_in raw' peerID = Some new \<and> new ''proof'' = None \<and>
    (\<forall>k v. k \<noteq> ''migration_log'' \<longrightarrow> new k = Some v \<longrightarrow> \<not> secretLikePeerField k \<and> secret_free (decode_any v))"
  using assms(1)
proof (rule transition_result)
  fix old typed
  assume s: "map_of peer ''migration_state'' = Some (jstr (tr_ToState req))"
    and "tr_ToState req = MigrationStateLoopbackUnprovisioned \<Longrightarrow>
      \<forall>k. k \<notin> {''migration_state'', ''migration_log''} \<longrightarrow> map_of peer k = map_of (reset_peer old) k"
  with assms(2) have k: "\<forall>k. k \<notin> {''migration_state'', ''migration_log''} \<longrightarrow> map_of peer k = map_of (reset_peer old) k" by blast
  have "\<not> secretLikePeerField k \<and> secret_free (decode_any v)" if n: "k \<noteq> ''migration_log''" and v: "map_of peer k = Some v" for k v
  proof (cases "k = ''migration_state''")
    case True
    with s v show ?thesis using secretLike_id(2) by (auto simp: jstr_def)
  next
    case False
    with k n v have "map_of (reset_peer old) k = Some v" by simp
    then show ?thesis using scrub_secret_free n by (auto simp: reset_peer_map split: if_splits)
  qed
  moreover have "map_of peer ''proof'' = None" using k by (simp add: reset_peer_map)
  ultimately show ?thesis using transition_stored [OF assms(1)] by blast
qed

text \<open>A value that a later duplicate of its key hides survives the scrubbing, since the raw text of an object in which
  nothing else is secret is kept.\<close>

lemma scrub_keeps_shadowed:
  "scrubSecretLikeRawValue (JObj [(''x'', JObj [(''token'', JStr ''s'')]), (''x'', JNull)]) =
     (JObj [(''x'', JObj [(''token'', JStr ''s'')]), (''x'', JNull)], False)"
  by code_simp



lemma copyRaw_other [simp]:
  "k \<noteq> field \<Longrightarrow> map_of (copyRawStringToRecord raw field rc) k = map_of rc k"
  "k \<noteq> field \<Longrightarrow> map_of (copyRawIntToRecord raw field rc) k = map_of rc k"
  "distinct (map fst rc) \<Longrightarrow> distinct (map fst (copyRawStringToRecord raw field rc))"
  "distinct (map fst rc) \<Longrightarrow> distinct (map fst (copyRawIntToRecord raw field rc))"
  by (auto simp: copyRawStringToRecord_def copyRawIntToRecord_def update_conv' distinct_update split: option.splits sum.splits)






lemma redactRawPeer_top:
  "(k, v) \<in> set (redactRawPeer raw) \<Longrightarrow> peerContainerValue v \<or> safeTopLevelPeerScalarField k"
proof -
  have c: "peerContainerValue (redactDecodedPeerValue w)" if "peerContainerValue w" for w
    using that by (cases w) (auto simp: peerContainerValue_def)
  have p: "redactProofValue w = Some v \<Longrightarrow> peerContainerValue v" for w
    by (cases w) (auto simp: peerContainerValue_def)
  assume "(k, v) \<in> set (redactRawPeer raw)"
  then obtain w where "redactDecodedPeerField k (decode_any w) True = Some v"
    by (auto simp: redactRawPeer_def set_opt_fields dest: sym)
  then show ?thesis using c p by (auto simp: redactDecodedPeerField.simps split: if_splits)
qed
text \<open>C13. No response carries a secret: the peer in the answer to a read or to a successful request has no
  member with a secret-like name at any depth, and of the scalars at its top level only those of a fixed list.\<close>

theorem response_has_no_secret:
  assumes "run_request now home tmp path gate peerID r s = (Inr res, s') \<and>
      node_at s path = Some (Regular m (Some old) t) \<and> tmp \<noteq> path \<or> ReadSSHPeer home path peerID s = (Inr res, s')"
  shows "secret_free (JObj (rr_Peer res)) \<and>
    list_all (\<lambda>(k, v). peerContainerValue v \<or> safeTopLevelPeerScalarField k) (rr_Peer res)"
proof -
  have "\<exists>peer. rr_Peer res = redactRawPeer peer"
  proof (rule disjE [OF assms])
    assume "run_request now home tmp path gate peerID r s = (Inr res, s') \<and>
      node_at s path = Some (Regular m (Some old) t) \<and> tmp \<noteq> path"
    then show ?thesis by (auto elim: run_request_cases)
  next
    assume "ReadSSHPeer home path peerID s = (Inr res, s')"
    then show ?thesis unfolding ReadSSHPeer_def
      by (elim io_bindE) (auto simp: io_return_def sshPeerConfigReadResultFromRaw_def, rule exI, rule refl)
  qed
  then show ?thesis using redactRawPeer_secret_free redactRawPeer_top by (fastforce simp: list_all_iff)
qed

definition raw_example :: json_fields where
  "raw_example = [(''ssh'', JObj [(''peers'', JArr [JObj [(''id'', JStr ''a''), (''migration_state'', JStr ''ssh_keys_ready''),
     (''api_token'', JStr ''s'')]])])]"

definition reset_example :: SSHPeerTransitionRequest where
  "reset_example = \<lparr>tr_ExpectedConfigRevision = Some 7, tr_FromState = MigrationStateSSHKeysReady,
     tr_ToState = MigrationStateLoopbackUnprovisioned, tr_Reason = ''identity_reset_prepared'', tr_LogID = ''l'',
     tr_FailedPhase = None, tr_RemoteSecretAbsenceProof = None\<rparr>"

lemma reset_example_runs: "\<not> isl (applySSHPeerTransition empty_config raw_example ''a'' reset_example)"
  by code_simp

lemma reset_example_run:
  obtains peer cfg raw where "applySSHPeerTransition empty_config raw_example ''a'' reset_example = Inr (peer, cfg, raw)"
  using reset_example_runs by (cases "applySSHPeerTransition empty_config raw_example ''a'' reset_example") auto

theorem transition_follows_machine_witness:
  "\<exists>peer cfg raw new. applySSHPeerTransition empty_config raw_example ''a'' reset_example = Inr (peer, cfg, raw) \<and>
     peer_in raw ''a'' = Some new \<and> state_of new = Some MigrationStateLoopbackUnprovisioned"
proof (rule reset_example_run)
  fix peer cfg raw assume r: "applySSHPeerTransition empty_config raw_example ''a'' reset_example = Inr (peer, cfg, raw)"
  from transition_follows_machine [OF r] r show ?thesis by (auto simp: reset_example_def)
qed

theorem reset_leaves_no_secret_witness:
  "\<exists>peer cfg raw new. applySSHPeerTransition empty_config raw_example ''a'' reset_example = Inr (peer, cfg, raw) \<and>
     peer_in raw ''a'' = Some new \<and> new ''api_token'' = None"
proof (rule reset_example_run)
  fix peer cfg raw assume r: "applySSHPeerTransition empty_config raw_example ''a'' reset_example = Inr (peer, cfg, raw)"
  from reset_leaves_no_secret [OF r] obtain new where "peer_in raw ''a'' = Some new"
    "\<And>v. new ''api_token'' = Some v \<Longrightarrow> \<not> secretLikePeerField ''api_token''" by (auto simp: reset_example_def)
  moreover have "secretLikePeerField ''api_token''" by code_simp
  ultimately show ?thesis using r by (cases "new ''api_token''") auto
qed




theorem response_has_no_secret_witness:
  "\<exists>res s. run_request ''now'' (Inr ''/h'') ''/c/t'' ''/c/config.json'' True ''b'' (Upsert create_example) fs_peers_example =
     (Inr res, s) \<and> secret_free (JObj (rr_Peer res))"
proof (rule created_example_run)
  fix x s
  assume "run_request ''now'' (Inr ''/h'') ''/c/t'' ''/c/config.json'' True ''b'' (Upsert create_example) fs_peers_example = (x, s)"
    and "\<not> isl x"
  then obtain res where r: "run_request ''now'' (Inr ''/h'') ''/c/t'' ''/c/config.json'' True ''b'' (Upsert create_example)
      fs_peers_example = (Inr res, s)" by (cases x) auto
  moreover have "secret_free (JObj (rr_Peer res))"
    using response_has_no_secret [OF disjI1 [OF conjI [OF r conjI [OF peers_example_node]]]] by simp
  ultimately show ?thesis by blast
qed

end
