(* ===== verification/Clipfan_SSHFiles.thy ===== *)
theory Clipfan_SSHFiles
  imports Clipfan_ConfigDoc
begin

text \<open>
  What \<open>internal/sshprovision/known_hosts.go\<close> and \<open>authorized_keys.go\<close> share: \<open>strings.Fields\<close>, base64
  without padding, the string at the front of an SSH key blob, the checks of a file that must not be a symbolic
  link, and a file replaced through a temporary one with a check before the rename. A file here holds the
  text of its bytes. The owner, the link count and the identity of an inode are not part of the file system model.
\<close>

section \<open>Text\<close>

text \<open>\<open>strings.Fields\<close>; \<open>cur\<close> is the field read so far, reversed.\<close>

function fields_from :: "string \<Rightarrow> string \<Rightarrow> string list" where
  "fields_from cur s =
     (if s = [] then (if cur = [] then [] else [rev cur])
      else case find (\<lambda>p. p \<noteq> [] \<and> has_prefix s p) go_spaces of
        None \<Rightarrow> fields_from (hd s # cur) (tl s)
      | Some p \<Rightarrow> (if cur = [] then [] else [rev cur]) @ fields_from [] (drop (length p) s))"
  by pat_completeness auto
termination
proof (relation "measure (\<lambda>(cur, s). length s)", goal_cases)
  case (3 cur s p)
  then show ?case by (auto simp: find_Some_iff)
qed auto

declare fields_from.simps [simp del]

definition str_fields :: "string \<Rightarrow> string list" where
  "str_fields s = fields_from [] s"

definition replace_char :: "char \<Rightarrow> string \<Rightarrow> string \<Rightarrow> string" where
  "replace_char c r s = concat (map (\<lambda>x. if x = c then r else [x]) s)"

text \<open>\<open>base64.RawStdEncoding.DecodeString\<close>: no padding.\<close>

fun b64_raw_groups :: "string \<Rightarrow> bytes option" where
  "b64_raw_groups [] = Some []"
| "b64_raw_groups [p, q] = (case (b64_value p, b64_value q) of
     (Some a, Some b) \<Rightarrow> Some [char_of (a * 4 + b div 16)] | _ \<Rightarrow> None)"
| "b64_raw_groups [p, q, r] = (case (b64_value p, b64_value q, b64_value r) of
     (Some a, Some b, Some c) \<Rightarrow> Some [char_of (a * 4 + b div 16), char_of (b mod 16 * 16 + c div 4)] | _ \<Rightarrow> None)"
| "b64_raw_groups (p # q # r # s # rest) = (case (b64_value p, b64_value q, b64_value r, b64_value s, b64_raw_groups rest) of
     (Some a, Some b, Some c, Some d, Some rst) \<Rightarrow>
       Some (char_of (a * 4 + b div 16) # char_of (b mod 16 * 16 + c div 4) # char_of (c mod 4 * 64 + d) # rst)
   | _ \<Rightarrow> None)"
| "b64_raw_groups _ = None"

definition b64_raw_decode :: "string \<Rightarrow> bytes option" where
  "b64_raw_decode s = b64_raw_groups (filter (\<lambda>c. c \<noteq> CHR 0x0A \<and> c \<noteq> CHR 0x0D) s)"

definition blank_chars :: string where
  "blank_chars = [CHR 0x00, CHR 0x0D, CHR 0x0A, CHR 0x09, CHR 0x20]"

definition big_endian :: "bytes \<Rightarrow> nat" where
  "big_endian bs = foldl (\<lambda>n c. 256 * n + of_char c) 0 bs"

definition readSSHString :: "bytes \<Rightarrow> string res" where
  "readSSHString data =
     (if length data < 4 then Inl ''unexpected EOF''
      else let size = big_endian (take 4 data) in
        if size = 0 \<or> size > length data - 4 then Inl ''unexpected EOF''
        else let value = take size (drop 4 data) in
          if contains_any value blank_chars then Inl ''invalid ssh string'' else Inr value)"

section \<open>Files\<close>

text \<open>The proper ancestors of a clean path, and the path itself.\<close>

definition ancestry :: "string \<Rightarrow> string list" where
  "ancestry p = map (\<lambda>n. take n p) (filter (\<lambda>n. 0 < n \<and> p ! n = slash) [0..<length p]) @ [p]"

text \<open>Whether \<open>filepath.EvalSymlinks\<close> gives the path back.\<close>

definition os_eval_symlinks :: "string \<Rightarrow> ('d, bool) io" where
  "os_eval_symlinks p = syscall (\<lambda>s. case node_at s p of
     None \<Rightarrow> (Inl ErrNotExist, s)
   | Some _ \<Rightarrow> (Inr (\<not> list_ex (\<lambda>q. node_at s q = Some Symlink) (ancestry p)), s))"

text \<open>\<open>os.OpenFile(path, O_RDONLY|O_NOFOLLOW, 0)\<close>, and with \<open>O_CREATE|O_RDWR|O_NOFOLLOW\<close> and mode 0600.\<close>

definition open_nofollow :: "string \<Rightarrow> string \<Rightarrow> ('d, 'd node) io" where
  "open_nofollow unsafe p = syscall (\<lambda>s. case node_at s p of
     None \<Rightarrow> (Inl ErrNotExist, s)
   | Some Symlink \<Rightarrow> (Inl (ErrMsg unsafe), s)
   | Some n \<Rightarrow> (Inr n, s))"

definition open_create_nofollow :: "string \<Rightarrow> string \<Rightarrow> ('d, 'd node) io" where
  "open_create_nofollow unsafe p = syscall (\<lambda>s. case node_at s p of
     None \<Rightarrow> (Inr (Regular 384 None (clock s)), set_node p (Regular 384 None (clock s)) s)
   | Some Symlink \<Rightarrow> (Inl (ErrMsg unsafe), s)
   | Some (Directory _) \<Rightarrow> (Inl ErrIO, s)
   | Some n \<Rightarrow> (Inr n, s))"

definition check_file_info :: "string \<Rightarrow> 'd node \<Rightarrow> unit res" where
  "check_file_info unsafe n = (case n of
     Symlink \<Rightarrow> Inl (unsafe @ '': file is symlink'')
   | Regular mode _ _ \<Rightarrow> (if mode mod 64 \<noteq> 0 then Inl (unsafe @ '': permissions are too open'') else Inr ())
   | _ \<Rightarrow> Inl (unsafe @ '': file is not regular''))"

text \<open>Open, check what was opened and what stands at the path, read everything. \<open>None\<close>: there is no file.\<close>

definition read_checked :: "string \<Rightarrow> string \<Rightarrow> (string, string option) io" where
  "read_checked unsafe path s = (case open_nofollow (unsafe @ '': file is symlink'') path s of
     (Inl e, s1) \<Rightarrow> (if e = ErrNotExist then (Inr None, s1) else (Inl e, s1))
   | (Inr info, s1) \<Rightarrow>
       io_bind (io_res (check_file_info unsafe info)) (\<lambda>_.
       io_bind (os_lstat path) (\<lambda>pathInfo.
       io_bind (io_res (check_file_info unsafe pathInfo)) (\<lambda>_.
       io_bind (os_read_file path) (\<lambda>d. io_return (Some (case d of None \<Rightarrow> [] | Some x \<Rightarrow> x)))))) s1)"

definition check_lock_file :: "string \<Rightarrow> string \<Rightarrow> 'd node \<Rightarrow> ('d, unit) io" where
  "check_lock_file unsafe lock info =
     (if \<not> is_regular_node info then io_fail (ErrMsg (unsafe @ '': lock is not regular''))
      else io_bind (os_lstat lock) (\<lambda>pathInfo.
        case pathInfo of
          Symlink \<Rightarrow> io_fail (ErrMsg (unsafe @ '': lock is symlink''))
        | Regular mode _ _ \<Rightarrow>
            (if mode mod 64 \<noteq> 0 then io_fail (ErrMsg (unsafe @ '': lock permissions are too open'')) else io_return ())
        | _ \<Rightarrow> io_fail (ErrMsg (unsafe @ '': lock is not regular''))))"

definition syncDirBestEffort :: "string \<Rightarrow> ('d, unit) io" where
  "syncDirBestEffort dir =
     io_bind (syscall (\<lambda>s. case node_at s dir of None \<Rightarrow> (Inl ErrNotExist, s) | Some _ \<Rightarrow> (Inr (), s))) (\<lambda>_. file_sync)"

definition syncBestEffort :: "('d, unit) io" where
  "syncBestEffort = file_sync"

section \<open>Words\<close>

text \<open>A character of a word: ASCII and not a space.\<close>

definition plain_char :: "char \<Rightarrow> bool" where
  "plain_char c \<longleftrightarrow> (of_char c :: nat) < 128 \<and> c \<notin> set [CHR 0x09, CHR 0x0A, CHR 0x0B, CHR 0x0C, CHR 0x0D, CHR 0x20]"

definition plain_word :: "string \<Rightarrow> bool" where
  "plain_word w \<longleftrightarrow> w \<noteq> [] \<and> list_all plain_char w"

lemma plain_word_line: "plain_word w \<Longrightarrow> CHR 0x0A \<notin> set w"
  by (auto simp: plain_word_def list_all_iff plain_char_def)

lemma go_spaces_heads: "p \<in> set go_spaces \<Longrightarrow> p \<noteq> [] \<and> \<not> plain_char (hd p)"
  by (auto simp: go_spaces_def plain_char_def)

lemma plain_not_space: "plain_char c \<Longrightarrow> find (\<lambda>p. p \<noteq> [] \<and> has_prefix (c # s) p) go_spaces = None"
proof -
  assume c: "plain_char c"
  have "\<not> (p \<noteq> [] \<and> has_prefix (c # s) p)" if "p \<in> set go_spaces" for p
    using go_spaces_heads [OF that] c by (cases p) (auto simp: has_prefix_def)
  then show ?thesis by (simp add: find_None_iff)
qed

lemma fields_from_word: "list_all plain_char w \<Longrightarrow> fields_from cur (w @ s) = fields_from (rev w @ cur) s"
proof (induction w arbitrary: cur)
  case (Cons c w)
  then have "fields_from cur ((c # w) @ s) = fields_from (c # cur) (w @ s)"
    by (subst fields_from.simps) (simp add: plain_not_space)
  with Cons show ?case by simp
qed simp

lemma find_blank: "find (\<lambda>p. p \<noteq> [] \<and> has_prefix (CHR 0x20 # s) p) go_spaces = Some [CHR 0x20]"
  by (simp add: go_spaces_def has_prefix_def)

lemma fields_from_blank:
  "fields_from cur (CHR 0x20 # s) = (if cur = [] then [] else [rev cur]) @ fields_from [] s"
  by (subst fields_from.simps) (simp add: find_blank)

lemma fields_from_Nil: "fields_from cur [] = (if cur = [] then [] else [rev cur])"
  by (simp add: fields_from.simps)

text \<open>Words separated by single blanks are the fields of the line.\<close>

lemma str_fields_words: "list_all plain_word ws \<Longrightarrow> str_fields (join_with [CHR 0x20] ws) = ws"
proof (induction "[CHR 0x20]" ws rule: join_with.induct)
  case 1
  show ?case by (simp add: str_fields_def fields_from_Nil)
next
  case (2 x)
  then show ?case using fields_from_word [of x "[]" "[]"] by (simp add: str_fields_def fields_from_Nil plain_word_def)
next
  case (3 x y zs)
  then show ?case using fields_from_word [of x "[]" "CHR 0x20 # join_with [CHR 0x20] (y # zs)"]
    by (simp add: str_fields_def fields_from_blank plain_word_def)
qed

lemma strip_front_plain: "plain_char c \<Longrightarrow> strip_front go_spaces (c # s) = c # s"
  by (simp add: strip_front.simps plain_not_space)

lemma strip_front_rev_plain: "plain_char c \<Longrightarrow> strip_front (map rev go_spaces) (c # s) = c # s"
proof -
  assume c: "plain_char c"
  have "\<not> (rev p \<noteq> [] \<and> has_prefix (c # s) (rev p))" if "p \<in> set go_spaces" for p
    using that c by (auto simp: go_spaces_def has_prefix_def plain_char_def)
  then have "find (\<lambda>p. p \<noteq> [] \<and> has_prefix (c # s) p) (map rev go_spaces) = None"
    by (auto simp: find_None_iff)
  then show ?thesis by (simp add: strip_front.simps)
qed

lemma trim_space_plain: "s \<noteq> [] \<Longrightarrow> plain_char (hd s) \<Longrightarrow> plain_char (last s) \<Longrightarrow> trim_space s = s"
proof -
  assume a: "s \<noteq> []" "plain_char (hd s)" "plain_char (last s)"
  then obtain c t where "s = c # t" by (cases s) auto
  with a(2) have 1: "strip_front go_spaces s = s" by (simp add: strip_front_plain)
  from a(1,3) obtain d u where r: "rev s = d # u" "plain_char d"
    by (metis append_butlast_last_id rev_eq_Cons_iff rev_rev_ident)
  then have "strip_front (map rev go_spaces) (rev s) = rev s" by (simp add: strip_front_rev_plain)
  with 1 show ?thesis by (simp add: trim_space_def)
qed

section \<open>Replacing a file\<close>

lemma touches_eval_symlinks: "touches {} (os_eval_symlinks p)"
  unfolding os_eval_symlinks_def by (rule touches_syscall) (auto split: option.splits)

lemma touches_syncDir: "touches {} (syncDirBestEffort dir)"
  unfolding syncDirBestEffort_def
  by (intro touches_bind touches_syscall touches_calls(8)) (auto split: option.splits)

lemma touches_open_nofollow: "touches {} (open_nofollow e p)"
  unfolding open_nofollow_def by (rule touches_syscall) (auto split: option.splits node.splits)

lemma touches_open_create: "touches {p} (open_create_nofollow e p)"
  unfolding open_create_nofollow_def by (rule touches_syscall) (auto split: option.splits node.splits)

lemma touches_io_res: "touches {} (io_res r)"
  by (rule touchesI) (auto simp: io_res_run split: sum.splits)

lemma touches_io_fail: "touches {} (io_fail e)"
  by (rule touchesI) (simp add: io_fail_def)

lemma touches_io_return: "touches {} (io_return x)"
  by (rule touchesI) (simp add: io_return_def)

text \<open>The writers of the two packages: \<open>chk\<close> runs before the rename, \<open>fin\<close> after it; neither changes a file.\<close>

lemma replace_triple:
  assumes "tmp \<noteq> path" and "touches {} chk" and "touches {} fin"
  shows "triple (holds_old path old)
     (io_bind (os_create_excl tmp mode) (\<lambda>_. io_bind (with_cleanup tmp
        (io_bind (file_write tmp d) (\<lambda>_. io_bind (file_chmod tmp mode) (\<lambda>_. io_bind file_sync (\<lambda>_. io_bind file_close (\<lambda>_.
         io_bind chk (\<lambda>_. os_rename tmp path))))))) (\<lambda>_. fin)))
     (\<lambda>_. installed tmp path mode d) (\<lambda>s. holds_old path old s \<or> installed tmp path mode d s)"
proof -
  let ?body = "io_bind (file_write tmp d) (\<lambda>_. io_bind (file_chmod tmp mode) (\<lambda>_.
      io_bind file_sync (\<lambda>_. io_bind file_close (\<lambda>_. io_bind chk (\<lambda>_. os_rename tmp path)))))"
  have body: "triple (holds_old path old) ?body (\<lambda>_. installed tmp path mode d) (holds_old path old)"
    by (rule triple_bind [OF triple_stage_write], rule assms, rule triple_bind [OF triple_stage_chmod], rule assms,
        rule triple_bind [OF triple_stage_quiet], rule touches_calls,
        rule triple_bind [OF triple_stage_quiet], rule touches_calls,
        rule triple_bind [OF triple_stage_quiet], rule assms, rule triple_stage_rename, rule assms)
  have clean: "triple (holds_old path old) (with_cleanup tmp ?body) (\<lambda>_. installed tmp path mode d) (holds_old path old)"
    by (rule triple_cleanup [OF body]) (auto intro: holds_old_remove [rotated] simp: assms)
  have fin: "triple (installed tmp path mode d) fin (\<lambda>_. installed tmp path mode d) (installed tmp path mode d)"
    by (rule tripleI) (auto simp: installed_def quiet_nodes [OF assms(3)])
  show ?thesis
    by (rule triple_bind [OF triple_weaken [OF triple_holds_old]], rule touches_calls, use assms in simp, simp,
        rule triple_bind [OF triple_weaken [OF clean]], simp, rule triple_weaken [OF fin], simp)
qed

section \<open>What leaves a file alone\<close>

text \<open>A temporary name, \<open>pre\<close> followed by the name of the file and more, is never the file itself.\<close>

lemma temp_name_neq:
  assumes "has_prefix name (pre @ path_base path @ suf)" and "slash \<notin> set name" and "3 \<le> length pre"
  shows "path_join (path_dir path) name \<noteq> path"
proof
  assume eq: "path_join (path_dir path) name = path"
  from assms(1) obtain more where n: "name = (pre @ path_base path @ suf) @ more" by (auto simp: has_prefix_iff)
  with assms(3) have "3 \<le> length name" by simp
  then have "name \<noteq> []" "name \<noteq> ''.''" "name \<noteq> ''..''" by auto
  with assms(2) have "plain_name name" by (simp add: plain_name_def)
  then have "path_base path = name" using path_base_join eq by metis
  then have "length name = length (path_base path)" by simp
  with n assms(3) show False by simp
qed

lemma remove_temps_keeps:
  assumes "io_bind (os_read_dir (path_dir path)) (\<lambda>es. remove_entries (path_dir path) (pre @ path_base path @ suf) es) s = (r, s')"
    and "3 \<le> length pre"
  shows "node_at s' path = node_at s path"
  using assms(1)
proof (rule io_bindE)
  fix e assume "os_read_dir (path_dir path) s = (Inl e, s')"
  then show ?thesis using os_read_dir_cases by metis
next
  fix es s1 assume d: "os_read_dir (path_dir path) s = (Inr es, s1)"
    and r: "remove_entries (path_dir path) (pre @ path_base path @ suf) es s1 = (r, s')"
  from os_read_dir_cases [OF d] have n: "node_at s1 = node_at s" and "\<forall>m \<in> set (map fst es). slash \<notin> set m" by auto
  then have "\<forall>(name, n) \<in> set es. has_prefix name (pre @ path_base path @ suf) \<longrightarrow> path_join (path_dir path) name \<noteq> path"
    using assms(2) by (fastforce dest: temp_name_neq)
  from remove_entries_keeps [OF r this] n show ?thesis by simp
qed

lemma read_checked_keeps: "read_checked unsafe path s = (r, s') \<Longrightarrow> node_at s' p = node_at s p"
proof -
  have o: "node_at s1 p = node_at s p" if "open_nofollow e path s = (x, s1)" for e x s1
    using that by (rule quiet_at [OF touches_open_nofollow])
  have q: "touches {} (io_bind (io_res (check_file_info unsafe info)) (\<lambda>_.
       io_bind (os_lstat path) (\<lambda>pathInfo.
       io_bind (io_res (check_file_info unsafe pathInfo)) (\<lambda>_.
       io_bind (os_read_file path) (\<lambda>d. io_return (Some (case d of None \<Rightarrow> [] | Some x \<Rightarrow> x)))))))" for info
    by (intro touches_bind touches_io_res touches_calls touches_io_return)
  show "read_checked unsafe path s = (r, s') \<Longrightarrow> node_at s' p = node_at s p"
    unfolding read_checked_def
    by (auto split: prod.splits sum.splits if_splits dest!: quiet_at [OF q, where p = p] o)
qed

lemma read_checked_data:
  assumes "read_checked unsafe path s = (Inr d, s')" and "node_at s path = Some (Regular m (Some data) t)"
  shows "d = Some data"
proof -
  have o: "node_at s1 path = node_at s path \<and> x \<noteq> Inl ErrNotExist" if "open_nofollow e path s = (x, s1)" for e x s1
    using that assms(2) quiet_at [OF touches_open_nofollow that] unfolding open_nofollow_def
    by (auto elim!: syscallE)
  have ls: "node_at s2 path = node_at s1 path" if "os_lstat path s1 = (r1, s2)" for r1 s1 s2
    using that by (rule quiet_at [OF touches_calls(5)])
  have rd: "x = Some data" if "os_read_file path s0 = (Inr x, s1)" "node_at s0 path = node_at s path" for s0 s1 x
    using that assms(2) unfolding os_read_file_def by (rule_tac syscallE) (auto split: option.splits)
  from assms(1) obtain info s1 where 1: "open_nofollow (unsafe @ '': file is symlink'') path s = (Inr info, s1)"
    and 2: "io_bind (io_res (check_file_info unsafe info)) (\<lambda>_.
       io_bind (os_lstat path) (\<lambda>pathInfo.
       io_bind (io_res (check_file_info unsafe pathInfo)) (\<lambda>_.
       io_bind (os_read_file path) (\<lambda>d. io_return (Some (case d of None \<Rightarrow> [] | Some x \<Rightarrow> x)))))) s1 = (Inr d, s')"
    unfolding read_checked_def by (auto split: prod.splits sum.splits if_splits dest!: o)
  from 2 show ?thesis
    by (elim io_bindE) (auto simp: io_res_Inr io_return_def ls o [OF 1] dest!: rd)
qed

lemma check_lock_quiet: "touches {} (check_lock_file unsafe lock info)"
  unfolding check_lock_file_def
  by (auto intro!: touches_bind touches_calls touches_io_fail touches_io_return split: node.splits)

text \<open>A directory that is created and made private is not a regular file.\<close>

lemma mkdir_chmod_keeps:
  assumes "node_at s p = Some (Regular a b c)"
  shows "os_mkdir_all d mode s = (r, s') \<Longrightarrow> node_at s' p = node_at s p"
    and "os_lstat d s = (Inr n, s') \<Longrightarrow> is_dir_node n \<Longrightarrow> os_chmod d mode s' = (r, s'') \<Longrightarrow> node_at s'' p = node_at s p"
proof -
  show "os_mkdir_all d mode s = (r, s') \<Longrightarrow> node_at s' p = node_at s p"
    using assms unfolding os_mkdir_all_def by (erule_tac syscallE) (auto split: option.splits node.splits)
  assume l: "os_lstat d s = (Inr n, s')" and n: "is_dir_node n" and c: "os_chmod d mode s' = (r, s'')"
  have k: "node_at s' p = node_at s p" using l by (rule quiet_at [OF touches_calls(5)])
  have "node_at s' d = Some n" using l unfolding os_lstat_def by (rule syscallE) (auto split: option.splits)
  with k n assms have "p \<noteq> d" by (auto simp: is_dir_node_def)
  with touchesD [OF touches_calls(1) c, of p] k show "node_at s'' p = node_at s p" by simp
qed

lemma io_res_bind_cases:
  assumes "io_bind (io_res x) f s = (r, s')"
  obtains e where "r = Inl e" and "s' = s" | v where "x = Inr v" and "f v s = (r, s')"
  using assms by (cases x) (auto simp: io_bind_def io_res_run)

text \<open>A section under a lock: either it is not entered and the file is as it was, or it runs on that file.\<close>

lemma locked_sectionE:
  assumes "io_bind ens (\<lambda>_. io_bind (open_create_nofollow e (lock_of path)) (\<lambda>info.
      io_bind (check_lock_file u (lock_of path) info) (\<lambda>_. io_bind (os_chmod (lock_of path) 384) (\<lambda>_.
      io_bind (flock False) (\<lambda>_. fn))))) s = (r, s')"
    and ens: "\<And>x s1. ens s = (x, s1) \<Longrightarrow> node_at s1 path = node_at s path"
  obtains e where "r = Inl e" and "node_at s' path = node_at s path"
        | s1 where "node_at s1 path = node_at s path" and "fn s1 = (r, s')"
proof -
  have ol: "node_at s1 path = node_at s0 path" if "open_create_nofollow e (lock_of path) s0 = (r1, s1)" for r1 s0 s1
    using touchesD [OF touches_open_create that] by simp
  have ck: "node_at s1 path = node_at s0 path" if "check_lock_file u (lock_of path) info s0 = (r1, s1)" for info r1 s0 s1
    using that by (rule quiet_at [OF check_lock_quiet])
  have ch: "node_at s1 path = node_at s0 path" if "os_chmod (lock_of path) 384 s0 = (r1, s1)" for r1 s0 s1
    using touchesD [OF touches_calls(1) that] by simp
  have fl: "node_at s1 path = node_at s0 path" if "flock nb s0 = (r1, s1)" for nb r1 s0 s1
    using that by (rule quiet_at [OF flock_quiet])
  have "r \<in> range Inl \<and> node_at s' path = node_at s path \<or> (\<exists>s1. node_at s1 path = node_at s path \<and> fn s1 = (r, s'))"
    using assms(1) by (elim io_bindE) (auto simp: ens ol ck ch fl)
  with that show thesis by blast
qed

end
