(* ===== verification/Clipfan_KnownHosts.thy ===== *)
theory Clipfan_KnownHosts
  imports Clipfan_SSHFiles
begin

text \<open>
  The pinned host keys: \<open>internal/sshprovision/known_hosts.go\<close>. A pin is one exact line of a
  \<open>known_hosts\<close> file; an entry that could match the same host in another way (a marker, a hash, a
  wildcard) makes the file unusable for that pin. The file is read, checked and replaced under a lock; the
  name of the temporary file is an argument.
\<close>

section \<open>Pins\<close>

definition ErrInvalidKnownHostPin :: string where "ErrInvalidKnownHostPin = ''invalid_known_host_pin''"
definition ErrKnownHostMismatch :: string where "ErrKnownHostMismatch = ''known_host_mismatch''"
definition ErrKnownHostNotFound :: string where "ErrKnownHostNotFound = ''known_host_not_found''"
definition ErrKnownHostsUnsafe :: string where "ErrKnownHostsUnsafe = ''known_hosts_unsafe''"

definition knownHostKeyTypePattern :: "string \<Rightarrow> bool" where
  "knownHostKeyTypePattern s \<longleftrightarrow> (case s of
     [] \<Rightarrow> False
   | c # cs \<Rightarrow> (upper_letter c \<or> lower_letter c \<or> is_digit c) \<and> length cs \<le> 127 \<and>
       list_all (\<lambda>d. name_char d \<or> d \<in> {CHR 0x40, CHR 0x2B}) cs)"

record KnownHostPin =
  kp_Pattern :: string
  kp_KeyType :: string
  kp_PublicKey :: string

definition KnownHostsPattern :: "string \<Rightarrow> int \<Rightarrow> string res" where
  "KnownHostsPattern host port =
     (if port < 1 \<or> port > 65535 then Inl (ErrInvalidKnownHostPin @ '': invalid port '' @ show_int port)
      else and_then (wrap_err (ErrInvalidKnownHostPin @ '': invalid host'') (CanonicalSSHHost host)) (\<lambda>canonicalHost.
        if port = 22 then Inr canonicalHost else Inr (''['' @ canonicalHost @ '']:'' @ show_int port)))"

definition decodeKnownHostPublicKeyBlob :: "string \<Rightarrow> bytes res" where
  "decodeKnownHostPublicKeyBlob publicKey =
     (let decoded = (case b64_decode publicKey of Some b \<Rightarrow> Some b | None \<Rightarrow> b64_raw_decode publicKey)
      in case decoded of
        None \<Rightarrow> Inl (ErrInvalidKnownHostPin @ '': invalid public key base64'')
      | Some blob \<Rightarrow> (if length blob < 4 then Inl (ErrInvalidKnownHostPin @ '': public key blob too short'') else Inr blob))"

definition validateKnownHostPattern :: "string \<Rightarrow> unit res" where
  "validateKnownHostPattern pattern =
     (if pattern = [] \<or> trim_space pattern \<noteq> pattern then Inl (ErrInvalidKnownHostPin @ '': invalid pattern'')
      else if has_prefix pattern [CHR 0x40] \<or> contains_any pattern (blank_chars @ [CHR 0x2C])
      then Inl (ErrInvalidKnownHostPin @ '': invalid pattern'')
      else Inr ())"

definition validateKnownHostPin :: "KnownHostPin \<Rightarrow> unit res" where
  "validateKnownHostPin pin =
     and_then (validateKnownHostPattern (kp_Pattern pin)) (\<lambda>_.
     if \<not> knownHostKeyTypePattern (kp_KeyType pin) \<or> trim_space (kp_KeyType pin) \<noteq> kp_KeyType pin
     then Inl (ErrInvalidKnownHostPin @ '': invalid key type'')
     else if trim_space (kp_PublicKey pin) \<noteq> kp_PublicKey pin \<or> contains_any (kp_PublicKey pin) blank_chars
     then Inl (ErrInvalidKnownHostPin @ '': invalid public key'')
     else if kp_PublicKey pin = [] then Inl (ErrInvalidKnownHostPin @ '': empty public key'')
     else and_then (decodeKnownHostPublicKeyBlob (kp_PublicKey pin)) (\<lambda>blob.
       case readSSHString blob of
         Inl _ \<Rightarrow> Inl (ErrInvalidKnownHostPin @ '': malformed public key blob'')
       | Inr blobKeyType \<Rightarrow>
           (if blobKeyType \<noteq> kp_KeyType pin then Inl (ErrInvalidKnownHostPin @ '': public key blob type does not match'')
            else Inr ())))"

definition NewKnownHostPin :: "string \<Rightarrow> int \<Rightarrow> string \<Rightarrow> string \<Rightarrow> KnownHostPin res" where
  "NewKnownHostPin host port keyType publicKey =
     and_then (KnownHostsPattern host port) (\<lambda>pattern.
     let pin = \<lparr>kp_Pattern = pattern, kp_KeyType = keyType, kp_PublicKey = publicKey\<rparr>
     in and_then (validateKnownHostPin pin) (\<lambda>_. Inr pin))"

definition knownHostPatternListContains :: "string \<Rightarrow> string \<Rightarrow> bool" where
  "knownHostPatternListContains lst pattern = list_ex (\<lambda>candidate. candidate = pattern) (split_on (CHR 0x2C) lst)"

definition ParseKnownHostScanLine :: "string \<Rightarrow> int \<Rightarrow> string \<Rightarrow> KnownHostPin res" where
  "ParseKnownHostScanLine host port line =
     and_then (KnownHostsPattern host port) (\<lambda>pattern.
     let fs = str_fields (trim_space line) in
     if length fs < 3 \<or> has_prefix (fs ! 0) [CHR 0x40]
     then Inl (ErrInvalidKnownHostPin @ '': malformed known_hosts scan line'')
     else if \<not> knownHostPatternListContains (fs ! 0) pattern
     then Inl (ErrKnownHostMismatch @ '': scan line does not contain '' @ pattern)
     else NewKnownHostPin host port (fs ! 1) (fs ! 2))"

definition pin_Line :: "KnownHostPin \<Rightarrow> string" where
  "pin_Line pin = kp_Pattern pin @ '' '' @ kp_KeyType pin @ '' '' @ kp_PublicKey pin"

section \<open>Entries\<close>

record knownHostsEntry =
  ke_marker :: string
  ke_patterns :: string
  ke_keyType :: string
  ke_publicKey :: string

definition parseKnownHostsEntry :: "string \<Rightarrow> knownHostsEntry option" where
  "parseKnownHostsEntry line =
     (let fs = str_fields (trim_space line) in
      if fs = [] \<or> has_prefix (fs ! 0) [CHR 0x23] then None
      else if has_prefix (fs ! 0) [CHR 0x40] then
        (if length fs < 4 then None
         else Some \<lparr>ke_marker = fs ! 0, ke_patterns = fs ! 1, ke_keyType = fs ! 2, ke_publicKey = fs ! 3\<rparr>)
      else if length fs < 3 then None
      else Some \<lparr>ke_marker = [], ke_patterns = fs ! 0, ke_keyType = fs ! 1, ke_publicKey = fs ! 2\<rparr>)"

text \<open>
  The table of \<open>openSSHKnownHostGlobMatches\<close>, row by row from the last: \<open>glob_row g value below\<close> is the row of
  the pattern character \<open>g\<close>, given the row below it; entry \<open>j\<close> says whether the rest of the pattern matches
  \<open>value[j:]\<close>.
\<close>

fun glob_row :: "char \<Rightarrow> string \<Rightarrow> bool list \<Rightarrow> bool list" where
  "glob_row g [] below = [g = CHR 0x2A \<and> hd below]"
| "glob_row g (v # vs) below =
     (let right = glob_row g vs (tl below)
      in (if g = CHR 0x2A then hd below \<or> hd right
          else if g = CHR 0x3F then hd (tl below)
          else g = v \<and> hd (tl below)) # right)"

definition openSSHKnownHostGlobMatches :: "string \<Rightarrow> string \<Rightarrow> bool" where
  "openSSHKnownHostGlobMatches glob value =
     hd (foldr (\<lambda>g below. glob_row g value below) glob (replicate (length value) False @ [True]))"

definition knownHostPatternListMayMatch :: "string \<Rightarrow> string \<Rightarrow> bool" where
  "knownHostPatternListMayMatch lst pattern =
     list_ex (\<lambda>candidate.
       candidate \<noteq> [] \<and>
       (has_prefix candidate [CHR 0x7C] \<or>
        (let c = trim_prefix candidate [CHR 0x21]
         in contains_any c [CHR 0x2A, CHR 0x3F] \<and> openSSHKnownHostGlobMatches c pattern)))
       (split_on (CHR 0x2C) lst)"

datatype known_host_error = KnownHostMismatch string | KnownHostNotFound string

fun known_host_message :: "known_host_error \<Rightarrow> string" where
  "known_host_message (KnownHostMismatch m) = ErrKnownHostMismatch @ '': '' @ m"
| "known_host_message (KnownHostNotFound m) = ErrKnownHostNotFound @ '': '' @ m"

fun verify_lines :: "bool \<Rightarrow> string list \<Rightarrow> KnownHostPin \<Rightarrow> known_host_error + bool" where
  "verify_lines found [] pin =
     (if found then Inr True else Inl (KnownHostNotFound (kp_Pattern pin @ '' '' @ kp_KeyType pin)))"
| "verify_lines found (rawLine # rest) pin = (case parseKnownHostsEntry rawLine of
     None \<Rightarrow> verify_lines found rest pin
   | Some entry \<Rightarrow>
       (if ke_marker entry \<noteq> [] \<and> (knownHostPatternListContains (ke_patterns entry) (kp_Pattern pin) \<or>
             knownHostPatternListMayMatch (ke_patterns entry) (kp_Pattern pin))
        then Inl (KnownHostMismatch (''marked entry for '' @ kp_Pattern pin))
        else if knownHostPatternListMayMatch (ke_patterns entry) (kp_Pattern pin)
        then Inl (KnownHostMismatch (''broad entry for '' @ kp_Pattern pin))
        else if \<not> knownHostPatternListContains (ke_patterns entry) (kp_Pattern pin) then verify_lines found rest pin
        else if ke_keyType entry \<noteq> kp_KeyType pin then verify_lines found rest pin
        else if ke_publicKey entry \<noteq> kp_PublicKey pin
        then Inl (KnownHostMismatch (kp_Pattern pin @ '' '' @ kp_KeyType pin))
        else verify_lines True rest pin))"

definition verifyKnownHostPinData :: "string \<Rightarrow> KnownHostPin \<Rightarrow> known_host_error + bool" where
  "verifyKnownHostPinData data pin = verify_lines False (split_on (CHR 0x0A) data) pin"

definition appendKnownHostLine :: "string \<Rightarrow> string \<Rightarrow> string" where
  "appendKnownHostLine data line =
     data @ (if data \<noteq> [] \<and> last data \<noteq> CHR 0x0A then [CHR 0x0A] else []) @ line @ [CHR 0x0A]"

section \<open>The file\<close>

definition rejectSymlinkedKnownHostsAncestry :: "string \<Rightarrow> ('d, unit) io" where
  "rejectSymlinkedKnownHostsAncestry path s = (case os_lstat (path_clean path) s of
     (Inl e, s1) \<Rightarrow> (if e = ErrNotExist then (Inr (), s1) else (Inl e, s1))
   | (Inr info, s1) \<Rightarrow>
       (case info of
          Symlink \<Rightarrow> (Inl (ErrMsg (ErrKnownHostsUnsafe @ '': parent path uses symlink'')), s1)
        | Directory _ \<Rightarrow>
            (case os_eval_symlinks (path_clean path) s1 of
               (Inl _, s2) \<Rightarrow> (Inl (ErrMsg (ErrKnownHostsUnsafe @ '': parent path is unsafe'')), s2)
             | (Inr same, s2) \<Rightarrow>
                 (if same then (Inr (), s2) else (Inl (ErrMsg (ErrKnownHostsUnsafe @ '': parent ancestry uses symlink'')), s2)))
        | _ \<Rightarrow> (Inl (ErrMsg (ErrKnownHostsUnsafe @ '': parent path is not a directory'')), s1)))"

definition validateKnownHostsPath :: "string \<Rightarrow> ('d, unit) io" where
  "validateKnownHostsPath path =
     io_bind (io_res (wrap_err (ErrKnownHostsUnsafe @ '': invalid path'') (ValidateSSHExecutablePath path))) (\<lambda>_.
     rejectSymlinkedKnownHostsAncestry (path_dir path))"

definition ensureKnownHostsDir :: "string \<Rightarrow> ('d, unit) io" where
  "ensureKnownHostsDir dir =
     io_bind (os_mkdir_all dir 448) (\<lambda>_.
     io_bind (rejectSymlinkedKnownHostsAncestry dir) (\<lambda>_.
     io_bind (os_lstat dir) (\<lambda>info.
     if \<not> is_dir_node info then io_fail (ErrMsg (ErrKnownHostsUnsafe @ '': parent is not a directory''))
     else os_chmod dir 448)))"

definition validateKnownHostsFileInfo :: "'d node \<Rightarrow> unit res" where
  "validateKnownHostsFileInfo n = check_file_info ErrKnownHostsUnsafe n"

definition validateKnownHostsLockFile :: "string \<Rightarrow> 'd node \<Rightarrow> ('d, unit) io" where
  "validateKnownHostsLockFile lockPath info = check_lock_file ErrKnownHostsUnsafe lockPath info"

definition withKnownHostsLock :: "string \<Rightarrow> ('d, 'a) io \<Rightarrow> ('d, 'a) io" where
  "withKnownHostsLock path fn =
     io_bind (ensureKnownHostsDir (path_dir path)) (\<lambda>_.
     io_bind (open_create_nofollow (ErrKnownHostsUnsafe @ '': lock is symlink'') (lock_of path)) (\<lambda>info.
     io_bind (validateKnownHostsLockFile (lock_of path) info) (\<lambda>_.
     io_bind (os_chmod (lock_of path) 384) (\<lambda>_.
     io_bind (flock False) (\<lambda>_. fn)))))"

definition readKnownHostsFileForUpdate :: "string \<Rightarrow> (string, string option) io" where
  "readKnownHostsFileForUpdate path = read_checked ErrKnownHostsUnsafe path"

definition readKnownHostsFileLenient :: "string \<Rightarrow> (string, string) io" where
  "readKnownHostsFileLenient path s = (case open_nofollow (ErrKnownHostsUnsafe @ '': file is symlink'') path s of
     (Inl e, s1) \<Rightarrow> (if e = ErrNotExist then (Inr [], s1) else (Inl e, s1))
   | (Inr _, s1) \<Rightarrow> io_bind (os_read_file path) (\<lambda>d. io_return (case d of None \<Rightarrow> [] | Some x \<Rightarrow> x)) s1)"

definition knownHostsTempPrefix :: "string \<Rightarrow> string" where
  "knownHostsTempPrefix path = ''.known-hosts-'' @ path_base path @ ''.tmp.''"

definition removeStaleKnownHostsTemps :: "string \<Rightarrow> ('d, unit) io" where
  "removeStaleKnownHostsTemps path =
     io_bind (os_read_dir (path_dir path)) (\<lambda>es. remove_entries (path_dir path) (knownHostsTempPrefix path) es)"

definition writeKnownHostsAtomic :: "string \<Rightarrow> string \<Rightarrow> 'd \<Rightarrow> nat \<Rightarrow> ('d, unit) io" where
  "writeKnownHostsAtomic tmp path data mode =
     io_bind (os_create_excl tmp mode) (\<lambda>_. io_bind (with_cleanup tmp
        (io_bind (file_write tmp data) (\<lambda>_.
         io_bind (file_chmod tmp mode) (\<lambda>_.
         io_bind syncBestEffort (\<lambda>_.
         io_bind file_close (\<lambda>_.
         os_rename tmp path)))))) (\<lambda>_.
     syncDirBestEffort (path_dir path)))"

text \<open>What \<open>UpsertKnownHostPin\<close> does under the lock.\<close>

definition upsert_pin_locked :: "string \<Rightarrow> string \<Rightarrow> KnownHostPin \<Rightarrow> (string, unit) io" where
  "upsert_pin_locked tmp path pin =
     io_bind (removeStaleKnownHostsTemps path) (\<lambda>_.
     io_bind (readKnownHostsFileForUpdate path) (\<lambda>d.
     let data = (case d of None \<Rightarrow> [] | Some x \<Rightarrow> x) in
     case verifyKnownHostPinData data pin of
       Inr found \<Rightarrow>
         (if found then io_return () else writeKnownHostsAtomic tmp path (appendKnownHostLine data (pin_Line pin)) 384)
     | Inl (KnownHostNotFound _) \<Rightarrow> writeKnownHostsAtomic tmp path (appendKnownHostLine data (pin_Line pin)) 384
     | Inl e \<Rightarrow> io_fail (ErrMsg (known_host_message e))))"

definition UpsertKnownHostPin :: "string \<Rightarrow> string \<Rightarrow> KnownHostPin \<Rightarrow> (string, unit) io" where
  "UpsertKnownHostPin tmp path pin =
     io_bind (validateKnownHostsPath path) (\<lambda>_.
     io_bind (io_res (validateKnownHostPin pin)) (\<lambda>_.
     withKnownHostsLock path (upsert_pin_locked tmp path pin)))"

definition VerifyKnownHostPin :: "string \<Rightarrow> KnownHostPin \<Rightarrow> (string, unit) io" where
  "VerifyKnownHostPin path pin =
     io_bind (validateKnownHostsPath path) (\<lambda>_.
     io_bind (io_res (validateKnownHostPin pin)) (\<lambda>_.
     io_bind (readKnownHostsFileForUpdate path) (\<lambda>d.
     case d of
       None \<Rightarrow> io_fail (ErrMsg (ErrKnownHostNotFound @ '': '' @ path))
     | Some data \<Rightarrow>
         (case verifyKnownHostPinData data pin of
            Inl e \<Rightarrow> io_fail (ErrMsg (known_host_message e))
          | Inr _ \<Rightarrow> io_return ()))))"

definition AppendKnownHostsLinesLocked :: "string \<Rightarrow> string \<Rightarrow> string list \<Rightarrow> (string, unit) io" where
  "AppendKnownHostsLinesLocked tmp path lines =
     (if lines = [] then io_return ()
      else io_bind (validateKnownHostsPath path) (\<lambda>_.
        if list_ex (\<lambda>line. contains_any line [CHR 0x0A, CHR 0x00]) lines
        then io_fail (ErrMsg (ErrInvalidKnownHostPin @ '': known_hosts line contains control characters''))
        else io_bind (readKnownHostsFileLenient path) (\<lambda>data.
          writeKnownHostsAtomic tmp path (foldl appendKnownHostLine data lines) 384)))"

section \<open>Wildcards\<close>

text \<open>What a pattern means: a star stands for any text, a question mark for any character.\<close>

inductive glob_match :: "string \<Rightarrow> string \<Rightarrow> bool" where
  finish: "glob_match [] []"
| star: "glob_match gs v \<Longrightarrow> glob_match (CHR 0x2A # gs) (u @ v)"
| question: "glob_match gs v \<Longrightarrow> glob_match (CHR 0x3F # gs) (c # v)"
| literal: "g \<noteq> CHR 0x2A \<Longrightarrow> g \<noteq> CHR 0x3F \<Longrightarrow> glob_match gs v \<Longrightarrow> glob_match (g # gs) (g # v)"

inductive_simps glob_match_Nil: "glob_match [] v"
inductive_simps glob_match_Cons: "glob_match (g # gs) v"

lemma star_unfold:
  "glob_match (CHR 0x2A # gs) v \<longleftrightarrow> glob_match gs v \<or> (\<exists>c w. v = c # w \<and> glob_match (CHR 0x2A # gs) w)"
proof -
  have "glob_match (CHR 0x2A # gs) v \<longleftrightarrow> (\<exists>u w. v = u @ w \<and> glob_match gs w)" for v
    by (auto simp: glob_match_Cons)
  then show ?thesis by (simp add: append_eq_Cons_conv Cons_eq_append_conv) (metis append_Cons append_Nil neq_Nil_conv)
qed

text \<open>A row of the table: a predicate at every suffix.\<close>

fun suffix_row :: "(string \<Rightarrow> bool) \<Rightarrow> string \<Rightarrow> bool list" where
  "suffix_row P [] = [P []]"
| "suffix_row P (x # xs) = P (x # xs) # suffix_row P xs"

lemma hd_suffix_row [simp]: "hd (suffix_row P v) = P v"
  by (cases v) simp_all

lemma glob_match_step:
  "glob_match (g # gs) [] \<longleftrightarrow> g = CHR 0x2A \<and> glob_match gs []"
  "glob_match (g # gs) (c # v) \<longleftrightarrow>
     (if g = CHR 0x2A then glob_match gs (c # v) \<or> glob_match (g # gs) v
      else if g = CHR 0x3F then glob_match gs v else g = c \<and> glob_match gs v)"
proof -
  show "glob_match (g # gs) [] \<longleftrightarrow> g = CHR 0x2A \<and> glob_match gs []" by (auto simp: glob_match_Cons)
  show "glob_match (g # gs) (c # v) \<longleftrightarrow>
     (if g = CHR 0x2A then glob_match gs (c # v) \<or> glob_match (g # gs) v
      else if g = CHR 0x3F then glob_match gs v else g = c \<and> glob_match gs v)"
  proof (cases "g = CHR 0x2A")
    case True
    then show ?thesis using star_unfold [of gs "c # v"] by simp
  next
    case False
    then show ?thesis by (auto simp: glob_match_Cons [of g])
  qed
qed

lemma glob_row_suffix: "glob_row g v (suffix_row (glob_match gs) v) = suffix_row (glob_match (g # gs)) v"
  by (induction v) (simp_all add: Let_def glob_match_step)

lemma last_row: "replicate (length v) False @ [True] = suffix_row (glob_match []) v"
  by (induction v) (simp_all add: glob_match_Nil)

lemma glob_rows: "foldr (\<lambda>g below. glob_row g v below) gs (suffix_row (glob_match []) v) = suffix_row (glob_match gs) v"
  by (induction gs) (simp_all add: glob_row_suffix)

section \<open>Verification\<close>

text \<open>No entry of the file speaks against the pin, and one that states it.\<close>

definition entry_allows :: "KnownHostPin \<Rightarrow> knownHostsEntry \<Rightarrow> bool" where
  "entry_allows pin e \<longleftrightarrow> \<not> knownHostPatternListMayMatch (ke_patterns e) (kp_Pattern pin) \<and>
     (knownHostPatternListContains (ke_patterns e) (kp_Pattern pin) \<longrightarrow>
        ke_marker e = [] \<and> (ke_keyType e = kp_KeyType pin \<longrightarrow> ke_publicKey e = kp_PublicKey pin))"

definition entry_states :: "KnownHostPin \<Rightarrow> knownHostsEntry \<Rightarrow> bool" where
  "entry_states pin e \<longleftrightarrow> ke_marker e = [] \<and> knownHostPatternListContains (ke_patterns e) (kp_Pattern pin) \<and>
     ke_keyType e = kp_KeyType pin \<and> ke_publicKey e = kp_PublicKey pin"

definition entries_of :: "string \<Rightarrow> knownHostsEntry list" where
  "entries_of data = List.map_filter parseKnownHostsEntry (split_on (CHR 0x0A) data)"

lemma verify_lines_iff:
  "verify_lines found ls pin = Inr b \<longleftrightarrow>
     b \<and> list_all (entry_allows pin) (List.map_filter parseKnownHostsEntry ls) \<and>
     (found \<or> list_ex (entry_states pin) (List.map_filter parseKnownHostsEntry ls))"
  "(\<exists>m. verify_lines found ls pin = Inl (KnownHostNotFound m)) \<longleftrightarrow>
     list_all (entry_allows pin) (List.map_filter parseKnownHostsEntry ls) \<and>
     \<not> found \<and> \<not> list_ex (entry_states pin) (List.map_filter parseKnownHostsEntry ls)"
  by (induction found ls pin arbitrary: b rule: verify_lines.induct)
    (auto simp: map_filter_simps entry_allows_def entry_states_def split: option.splits)

lemma verify_found: "verifyKnownHostPinData data pin = Inr b \<longleftrightarrow>
    b \<and> list_all (entry_allows pin) (entries_of data) \<and> list_ex (entry_states pin) (entries_of data)"
  by (simp add: verifyKnownHostPinData_def verify_lines_iff entries_of_def)

lemma verify_not_found: "(\<exists>m. verifyKnownHostPinData data pin = Inl (KnownHostNotFound m)) \<longleftrightarrow>
    list_all (entry_allows pin) (entries_of data) \<and> \<not> list_ex (entry_states pin) (entries_of data)"
  by (simp add: verifyKnownHostPinData_def verify_lines_iff entries_of_def)

lemma parse_empty_line: "parseKnownHostsEntry [] = None"
  by code_simp

lemma entries_of_append:
  assumes "CHR 0x0A \<notin> set line"
  shows "entries_of (appendKnownHostLine data line) = entries_of data @ List.map_filter parseKnownHostsEntry [line]"
proof -
  have mf: "List.map_filter f (xs @ ys) = List.map_filter f xs @ List.map_filter f ys" for f :: "string \<Rightarrow> knownHostsEntry option" and xs ys
    by (simp add: List.map_filter_def)
  have l: "split_on (CHR 0x0A) (line @ [CHR 0x0A]) = [line, []]"
    using split_on_append [of "CHR 0x0A" line "[]"] split_on_plain [OF assms] by simp
  show ?thesis
  proof (cases "data = [] \<or> last data = CHR 0x0A")
    case True
    then have "data = [] \<or> data = butlast data @ [CHR 0x0A]" by (metis append_butlast_last_id)
    then show ?thesis
    proof
      assume "data = []"
      then show ?thesis by (simp add: entries_of_def appendKnownHostLine_def l List.map_filter_def parse_empty_line)
    next
      assume d: "data = butlast data @ [CHR 0x0A]"
      have "split_on (CHR 0x0A) data = split_on (CHR 0x0A) (butlast data) @ [[]]"
        by (subst d) (simp add: split_on_append)
      moreover have "split_on (CHR 0x0A) (appendKnownHostLine data line) = split_on (CHR 0x0A) (butlast data) @ [line, []]"
      proof -
        have "appendKnownHostLine data line = data @ line @ [CHR 0x0A]" using True by (auto simp: appendKnownHostLine_def)
        also have "\<dots> = butlast data @ CHR 0x0A # (line @ [CHR 0x0A])" by (subst d) simp
        finally show ?thesis by (simp add: split_on_append split_on_plain [OF assms])
      qed
      ultimately show ?thesis by (simp add: entries_of_def mf List.map_filter_def parse_empty_line)
    qed
  next
    case False
    then have "appendKnownHostLine data line = data @ CHR 0x0A # (line @ [CHR 0x0A])" by (simp add: appendKnownHostLine_def)
    then show ?thesis by (simp add: entries_of_def split_on_append split_on_plain [OF assms] List.map_filter_def parse_empty_line)
  qed
qed

section \<open>The line of a pin\<close>

text \<open>The characters of a canonical host name or address, and of a pattern made from one.\<close>

definition host_char :: "char \<Rightarrow> bool" where
  "host_char c \<longleftrightarrow> lower_letter c \<or> is_digit c \<or> c \<in> set [CHR ''-'', CHR ''.'', CHR '':'']"

definition pattern_char :: "char \<Rightarrow> bool" where
  "pattern_char c \<longleftrightarrow> host_char c \<or> c \<in> set [CHR ''['', CHR '']'']"

lemma set_join_with: "set (join_with sep xs) \<subseteq> set sep \<union> \<Union> (set ` set xs)"
  by (induction sep xs rule: join_with.induct) auto

lemma show_nat_host_char: "c \<in> set (show_nat n) \<Longrightarrow> host_char c"
  using show_nat_digits [of n] by (auto simp: list_all_iff host_char_def)

lemma hex_digit_host_char: "n < 16 \<Longrightarrow> host_char (hex_digit n)"
  by (auto simp: hex_digit_def host_char_def lower_letter_def is_digit_def)

lemma show_hex_host_char: "c \<in> set (show_hex n) \<Longrightarrow> host_char c"
proof (induction n rule: show_hex.induct)
  case (1 n)
  show ?case
  proof (cases "n < 16")
    case True
    with "1.prems" show ?thesis by (simp add: show_hex.simps [of n] hex_digit_host_char)
  next
    case False
    with 1 show ?thesis by (auto simp: show_hex.simps [of n] hex_digit_host_char)
  qed
qed

lemma IP_String_host_char: "c \<in> set (IP_String ip) \<Longrightarrow> host_char c"
proof -
  have dot: "host_char (CHR ''.'')" "host_char (CHR '':'')" by (simp_all add: host_char_def)
  assume "c \<in> set (IP_String ip)"
  then show ?thesis using set_join_with dot show_nat_host_char show_hex_host_char
    by (fastforce simp: IP_String_def v6_text_def split: option.splits prod.splits if_splits)
qed

lemma lower_char_host: "host_char c \<Longrightarrow> lower_char c = c \<and> (of_char c :: nat) < 128"
  by (auto simp: host_char_def lower_letter_def is_digit_def lower_char_def)

lemma to_lower_host_char: "list_all host_char s \<Longrightarrow> to_lower s = s"
proof (induction s rule: to_lower.induct)
  case (1 a b c s)
  then have "lower_char a = a" "(of_char a :: nat) < 128" using lower_char_host by auto
  with 1 show ?case by auto
next
  case (2 a b)
  then have "lower_char a = a" "lower_char b = b" "(of_char a :: nat) < 128" using lower_char_host by auto
  then show ?case by auto
qed (use lower_char_host in auto)

lemma check_labels_chars: "check_labels ls = Inr () \<Longrightarrow> list_all (list_all dns_label_char) ls"
  by (induction ls) (auto split: if_splits)

lemma CanonicalSSHHost_chars: "CanonicalSSHHost v = Inr h \<Longrightarrow> list_all host_char h"
proof -
  assume h: "CanonicalSSHHost v = Inr h"
  show ?thesis
  proof (cases "ParseIP v")
    case (Some ip)
    have "list_all host_char (IP_String ip)" using IP_String_host_char by (auto simp: list_all_iff)
    with h Some show ?thesis by (auto simp: CanonicalSSHHost_def to_lower_host_char split: if_splits)
  next
    case None
    with h have "check_labels (split_on (CHR ''.'') h) = Inr ()" by (auto simp: CanonicalSSHHost_def Let_def split: if_splits)
    then have l: "list_all (list_all dns_label_char) (split_on (CHR ''.'') h)" by (rule check_labels_chars)
    have "host_char c" if "c \<in> set h" for c
    proof -
      from that join_split_on [of "CHR ''.''" h] set_join_with [of "[CHR ''.'']" "split_on (CHR ''.'') h"]
      have "c = CHR ''.'' \<or> (\<exists>t \<in> set (split_on (CHR ''.'') h). c \<in> set t)" by auto
      with l show ?thesis by (auto simp: list_all_iff host_char_def dns_label_char_def)
    qed
    then show ?thesis by (simp add: list_all_iff)
  qed
qed

lemma KnownHostsPattern_chars: "KnownHostsPattern host port = Inr p \<Longrightarrow> list_all pattern_char p"
proof -
  have d: "list_all pattern_char (show_int port)" if "\<not> port < 1"
    using that show_nat_host_char by (auto simp: show_int_def list_all_iff pattern_char_def)
  have "pattern_char (CHR ''['')" "pattern_char (CHR '']'')" "pattern_char (CHR '':'')" by (simp_all add: pattern_char_def host_char_def)
  then show "KnownHostsPattern host port = Inr p \<Longrightarrow> list_all pattern_char p"
    using d CanonicalSSHHost_chars by (fastforce simp: KnownHostsPattern_def pattern_char_def list_all_iff split: if_splits)
qed

lemma pattern_char_plain: "pattern_char c \<Longrightarrow> plain_char c"
  by (auto simp: pattern_char_def host_char_def plain_char_def lower_letter_def is_digit_def)

lemma name_char_plain: "name_char c \<Longrightarrow> plain_char c"
  by (auto simp: name_char_def plain_char_def lower_letter_def upper_letter_def is_digit_def)

lemma key_type_plain: "knownHostKeyTypePattern s \<Longrightarrow> plain_word s"
proof -
  have "plain_char c" if "upper_letter c \<or> lower_letter c \<or> is_digit c \<or> c \<in> {CHR 0x40, CHR 0x2B}" for c
    using that by (auto simp: plain_char_def lower_letter_def upper_letter_def is_digit_def)
  then show "knownHostKeyTypePattern s \<Longrightarrow> plain_word s"
    using name_char_plain by (auto simp: knownHostKeyTypePattern_def plain_word_def list_all_iff split: list.splits)
qed

lemma b64_value_plain: "b64_value c \<noteq> None \<Longrightarrow> plain_char c"
  by (auto simp: b64_value_def plain_char_def Let_def split: if_splits)

lemma b64_groups_plain: "b64_groups s \<noteq> None \<Longrightarrow> list_all plain_char s"
proof -
  have "plain_char pad_char" by (simp add: plain_char_def)
  then show "b64_groups s \<noteq> None \<Longrightarrow> list_all plain_char s"
    by (induction s rule: b64_groups.induct) (auto split: option.splits if_splits intro: b64_value_plain)
qed

lemma b64_raw_groups_plain: "b64_raw_groups s \<noteq> None \<Longrightarrow> list_all plain_char s"
  by (induction s rule: b64_raw_groups.induct) (auto split: option.splits intro: b64_value_plain)

text \<open>A key that decodes, without line breaks, is one word.\<close>

lemma public_key_plain:
  assumes "decodeKnownHostPublicKeyBlob k = Inr blob" and "\<not> contains_any k blank_chars"
  shows "plain_word k"
proof -
  have "CHR 0x0A \<notin> set k" "CHR 0x0D \<notin> set k"
    using assms(2) by (auto simp: contains_any_def blank_chars_def list_ex_iff)
  then have "filter (\<lambda>c. c \<noteq> CHR 0x0A \<and> c \<noteq> CHR 0x0D) k = k" by (intro filter_True) auto
  with assms(1) have "b64_groups k \<noteq> None \<or> b64_raw_groups k \<noteq> None" and "k \<noteq> []"
    by (auto simp: decodeKnownHostPublicKeyBlob_def b64_decode_def b64_raw_decode_def split: option.splits if_splits)
  then show ?thesis using b64_groups_plain b64_raw_groups_plain by (auto simp: plain_word_def)
qed

lemma join3: "join_with s [a, b, c] = a @ s @ b @ s @ c" by simp

lemma new_pin_entry:
  assumes "NewKnownHostPin host port keyType publicKey = Inr pin"
  shows "parseKnownHostsEntry (pin_Line pin) =
      Some \<lparr>ke_marker = [], ke_patterns = kp_Pattern pin, ke_keyType = kp_KeyType pin, ke_publicKey = kp_PublicKey pin\<rparr>"
    and "list_all pattern_char (kp_Pattern pin)" and "CHR 0x0A \<notin> set (pin_Line pin)"
proof -
  from assms have v: "validateKnownHostPin pin = Inr ()" and "KnownHostsPattern host port = Inr (kp_Pattern pin)"
    by (auto simp: NewKnownHostPin_def Let_def)
  then show pc: "list_all pattern_char (kp_Pattern pin)" by (auto dest: KnownHostsPattern_chars)
  from v have ne: "kp_Pattern pin \<noteq> []" and kt: "knownHostKeyTypePattern (kp_KeyType pin)"
    and pk: "plain_word (kp_PublicKey pin)"
    by (auto simp: validateKnownHostPin_def validateKnownHostPattern_def intro: public_key_plain split: if_splits)
  have w: "list_all plain_word [kp_Pattern pin, kp_KeyType pin, kp_PublicKey pin]"
    using pc ne pattern_char_plain key_type_plain [OF kt] pk by (auto simp: plain_word_def list_all_iff)
  then have f: "str_fields (pin_Line pin) = [kp_Pattern pin, kp_KeyType pin, kp_PublicKey pin]"
    using str_fields_words [OF w] by (simp add: pin_Line_def)
  have "plain_char (hd (pin_Line pin))" "plain_char (last (pin_Line pin))" "pin_Line pin \<noteq> []"
    using w by (simp_all add: pin_Line_def plain_word_def list_all_iff)
  then have "trim_space (pin_Line pin) = pin_Line pin" by (intro trim_space_plain)
  moreover have "\<not> has_prefix (kp_Pattern pin) [CHR 0x23]" "\<not> has_prefix (kp_Pattern pin) [CHR 0x40]"
    using pc ne by (cases "kp_Pattern pin"; auto simp: has_prefix_def pattern_char_def host_char_def lower_letter_def is_digit_def)+
  ultimately show "parseKnownHostsEntry (pin_Line pin) =
      Some \<lparr>ke_marker = [], ke_patterns = kp_Pattern pin, ke_keyType = kp_KeyType pin, ke_publicKey = kp_PublicKey pin\<rparr>"
    using f by (simp add: parseKnownHostsEntry_def Let_def)
  show "CHR 0x0A \<notin> set (pin_Line pin)"
    using w plain_word_line by (simp add: pin_Line_def)
qed

section \<open>Files and locks\<close>

lemma reject_quiet: "rejectSymlinkedKnownHostsAncestry d s = (r, s') \<Longrightarrow> node_at s' p = node_at s p"
proof -
  have l: "node_at s1 p = node_at s p" if "os_lstat q s = (x, s1)" for q x s s1 using that by (rule quiet_at [OF touches_calls(5)])
  have e: "node_at s1 p = node_at s p" if "os_eval_symlinks q s = (x, s1)" for q x s s1
    using that by (rule quiet_at [OF touches_eval_symlinks])
  show "rejectSymlinkedKnownHostsAncestry d s = (r, s') \<Longrightarrow> node_at s' p = node_at s p"
    unfolding rejectSymlinkedKnownHostsAncestry_def
    by (auto split: prod.splits sum.splits node.splits if_splits dest!: l e)
qed

lemma validate_path_quiet: "validateKnownHostsPath path s = (r, s') \<Longrightarrow> node_at s' p = node_at s p"
  unfolding validateKnownHostsPath_def
  by (erule io_bindE) (auto simp: io_res_Inr dest: io_res_Inl reject_quiet [where p = p])

lemma ensureKnownHostsDir_keeps:
  assumes "ensureKnownHostsDir d s = (r, s')" and n: "node_at s p = Some (Regular a b c)"
  shows "node_at s' p = node_at s p"
proof -
  from assms(1) show ?thesis unfolding ensureKnownHostsDir_def
  proof (rule io_bindE)
    fix e assume "os_mkdir_all d 448 s = (Inl e, s')"
    then show ?thesis by (rule mkdir_chmod_keeps(1) [OF n])
  next
    fix u s1 assume "os_mkdir_all d 448 s = (Inr u, s1)"
    then have n1: "node_at s1 p = node_at s p" by (rule mkdir_chmod_keeps(1) [OF n])
    assume "io_bind (rejectSymlinkedKnownHostsAncestry d) (\<lambda>_. io_bind (os_lstat d) (\<lambda>info.
      if \<not> is_dir_node info then io_fail (ErrMsg (ErrKnownHostsUnsafe @ '': parent is not a directory'')) else os_chmod d 448)) s1 = (r, s')"
    then show ?thesis
    proof (rule io_bindE)
      fix e assume "rejectSymlinkedKnownHostsAncestry d s1 = (Inl e, s')"
      then show ?thesis using reject_quiet n1 by metis
    next
      fix u s2 assume "rejectSymlinkedKnownHostsAncestry d s1 = (Inr u, s2)"
      then have n2: "node_at s2 p = Some (Regular a b c)" using reject_quiet n1 n by metis
      assume "io_bind (os_lstat d) (\<lambda>info. if \<not> is_dir_node info
        then io_fail (ErrMsg (ErrKnownHostsUnsafe @ '': parent is not a directory'')) else os_chmod d 448) s2 = (r, s')"
      then have "node_at s' p = node_at s2 p"
        by (rule io_bindE)
          (auto simp: io_fail_def split: if_splits
            dest: quiet_at [OF touches_calls(5), where p = p] mkdir_chmod_keeps(2) [OF n2])
      with n n2 show ?thesis by simp
    qed
  qed
qed

lemma withKnownHostsLockE:
  assumes "withKnownHostsLock path fn s = (r, s')" and "node_at s path = Some (Regular a b c)"
  obtains e where "r = Inl e" and "node_at s' path = node_at s path"
        | s1 where "node_at s1 path = node_at s path" and "fn s1 = (r, s')"
  using assms(1) unfolding withKnownHostsLock_def validateKnownHostsLockFile_def
  by (rule locked_sectionE) (use ensureKnownHostsDir_keeps [OF _ assms(2)] that in blast)+

lemma writeKnownHostsAtomic_triple:
  assumes "tmp \<noteq> path"
  shows "triple (holds_old path old) (writeKnownHostsAtomic tmp path d mode)
     (\<lambda>_. installed tmp path mode d) (\<lambda>s. holds_old path old s \<or> installed tmp path mode d s)"
proof -
  have "io_bind (io_return ()) (\<lambda>_. m) = m" for m :: "('a, unit) io" by (simp add: io_bind_def io_return_def fun_eq_iff)
  with replace_triple [OF assms touches_io_return touches_syncDir, of old mode d "()" "path_dir path"] show ?thesis
    by (simp add: writeKnownHostsAtomic_def syncBestEffort_def)
qed

lemma removeStaleKnownHosts_keeps: "removeStaleKnownHostsTemps path s = (r, s') \<Longrightarrow> node_at s' path = node_at s path"
  unfolding removeStaleKnownHostsTemps_def knownHostsTempPrefix_def
  by (rule remove_temps_keeps [where pre = "''.known-hosts-''"]) simp_all

lemma upsert_pin_triple:
  fixes data tmp path pin m t
  defines "same \<equiv> holds_old path (Some (Regular m (Some data) t))"
    and "wrote \<equiv> \<lambda>s. (\<exists>k. verifyKnownHostPinData data pin = Inl (KnownHostNotFound k)) \<and>
      (\<exists>t'. node_at s path = Some (Regular 384 (Some (appendKnownHostLine data (pin_Line pin))) t'))"
  assumes "tmp \<noteq> path"
  shows "triple same (upsert_pin_locked tmp path pin)
    (\<lambda>_ s. same s \<and> verifyKnownHostPinData data pin = Inr True \<or> wrote s) (\<lambda>s. same s \<or> wrote s)"
proof -
  let ?Q = "\<lambda>_ :: unit. \<lambda>s. same s \<and> verifyKnownHostPinData data pin = Inr True \<or> wrote s"
  let ?E = "\<lambda>s. same s \<or> wrote s"
  have rm: "triple same (removeStaleKnownHostsTemps path) (\<lambda>_. same) ?E"
    by (rule tripleI) (auto simp: same_def holds_old_def dest: removeStaleKnownHosts_keeps)
  have rd: "triple same (readKnownHostsFileForUpdate path) (\<lambda>d s. same s \<and> d = Some data) ?E"
    by (rule tripleI) (auto simp: same_def holds_old_def readKnownHostsFileForUpdate_def
        dest: read_checked_keeps [where p = path] read_checked_data)
  have wr: "triple same (writeKnownHostsAtomic tmp path (appendKnownHostLine data (pin_Line pin)) 384) ?Q ?E"
    if "verifyKnownHostPinData data pin = Inl (KnownHostNotFound k)" for k
    using that writeKnownHostsAtomic_triple [OF assms(3), of "Some (Regular m (Some data) t)" "appendKnownHostLine data (pin_Line pin)" 384]
    by (fastforce simp: triple_def same_def wrote_def installed_def split: sum.splits)
  have "triple same (case verifyKnownHostPinData data pin of
       Inr found \<Rightarrow> (if found then io_return () else writeKnownHostsAtomic tmp path (appendKnownHostLine data (pin_Line pin)) 384)
     | Inl (KnownHostNotFound _) \<Rightarrow> writeKnownHostsAtomic tmp path (appendKnownHostLine data (pin_Line pin)) 384
     | Inl e \<Rightarrow> io_fail (ErrMsg (known_host_message e))) ?Q ?E"
  proof (cases "verifyKnownHostPinData data pin")
    case (Inl e)
    then show ?thesis using wr by (cases e) (auto intro!: tripleI simp: io_fail_def)
  next
    case (Inr b)
    then have "b" by (simp add: verify_found)
    with Inr show ?thesis by (auto intro!: tripleI simp: io_return_def)
  qed
  then show ?thesis unfolding upsert_pin_locked_def
    by (intro triple_bind [OF rm] triple_bind [OF rd] triple_pure) simp
qed

lemma UpsertKnownHostPin_cases:
  assumes "UpsertKnownHostPin tmp path pin s = (r, s')" and "node_at s path = Some (Regular m (Some data) t)" and "tmp \<noteq> path"
  shows "node_at s' path = node_at s path \<and> (r = Inr () \<longrightarrow> verifyKnownHostPinData data pin = Inr True) \<or>
    (\<exists>k. verifyKnownHostPinData data pin = Inl (KnownHostNotFound k)) \<and>
    (\<exists>t'. node_at s' path = Some (Regular 384 (Some (appendKnownHostLine data (pin_Line pin))) t'))"
proof -
  have v: "node_at s1 path = node_at s path" if "validateKnownHostsPath path s = (x, s1)" for x s1
    using that by (rule validate_path_quiet)
  from assms(1) show ?thesis unfolding UpsertKnownHostPin_def
  proof (rule io_bindE)
    fix e assume "validateKnownHostsPath path s = (Inl e, s')" "r = Inl e"
    then show ?thesis by (auto dest: v)
  next
    fix u s1 assume p: "validateKnownHostsPath path s = (Inr u, s1)"
      and "io_bind (io_res (validateKnownHostPin pin)) (\<lambda>_. withKnownHostsLock path (upsert_pin_locked tmp path pin)) s1 = (r, s')"
    have n1: "node_at s1 path = Some (Regular m (Some data) t)" using v [OF p] assms(2) by simp
    from \<open>io_bind (io_res (validateKnownHostPin pin)) _ s1 = (r, s')\<close> show ?thesis
    proof (rule io_res_bind_cases)
      assume "withKnownHostsLock path (upsert_pin_locked tmp path pin) s1 = (r, s')"
      from this n1 show ?thesis
      proof (rule withKnownHostsLockE)
        fix s2 assume n2: "node_at s2 path = node_at s1 path" and b: "upsert_pin_locked tmp path pin s2 = (r, s')"
        have h: "holds_old path (Some (Regular m (Some data) t)) s2" using n1 n2 by (simp add: holds_old_def)
        note t = tripleD [OF upsert_pin_triple [OF assms(3)] h]
        from b show ?thesis using assms(2) by (cases r) (auto simp: holds_old_def dest!: t)
      qed (use v [OF p] in auto)
    qed (use v [OF p] in auto)
  qed
qed

section \<open>Properties\<close>

text \<open>The table-driven matcher of host patterns decides exactly the meaning of a pattern: a star stands for any
  text, a question mark for any one character, everything else for itself.\<close>

lemma known_hosts_glob_correct: "openSSHKnownHostGlobMatches glob value \<longleftrightarrow> glob_match glob value"
  by (simp add: openSSHKnownHostGlobMatches_def last_row glob_rows)

text \<open>C25. A host key is accepted only when the file says so without contradiction: one plain entry states this very
  key for this very host, every plain entry that names the host has the same key for the key type, and no
  entry for the host is marked, hashed or a wildcard that matches it. Conversely such a file is accepted.\<close>

theorem known_host_accepted_iff:
  "verifyKnownHostPinData data pin = Inr b \<longleftrightarrow>
     b \<and> list_all (entry_allows pin) (entries_of data) \<and> list_ex (entry_states pin) (entries_of data)"
  by (rule verify_found)

lemma new_pin_allowed:
  assumes "list_all pattern_char p" and "p \<noteq> []"
  shows "\<not> knownHostPatternListMayMatch p p" and "knownHostPatternListContains p p"
proof -
  have "CHR 0x2C \<notin> set p" and star: "\<not> contains_any p [CHR 0x2A, CHR 0x3F]"
    and h: "\<not> has_prefix p [CHR 0x7C]" "\<not> has_prefix p [CHR 0x21]"
    using assms by (auto simp: list_all_iff contains_any_def list_ex_iff pattern_char_def host_char_def lower_letter_def is_digit_def has_prefix_iff)
  then have "split_on (CHR 0x2C) p = [p]" by (simp add: split_on_plain)
  with star h show "\<not> knownHostPatternListMayMatch p p" "knownHostPatternListContains p p"
    by (simp_all add: knownHostPatternListMayMatch_def knownHostPatternListContains_def trim_prefix_def Let_def)
qed

lemma append_pin_verifies:
  assumes "NewKnownHostPin host port keyType publicKey = Inr pin"
    and "verifyKnownHostPinData data pin = Inl (KnownHostNotFound k)"
  shows "verifyKnownHostPinData (appendKnownHostLine data (pin_Line pin)) pin = Inr True"
proof -
  note l = new_pin_entry [OF assms(1)]
  have "kp_Pattern pin \<noteq> []"
    using assms(1) by (auto simp: NewKnownHostPin_def Let_def validateKnownHostPin_def validateKnownHostPattern_def split: if_splits)
  note a = new_pin_allowed [OF l(2) this]
  have "list_all (entry_allows pin) (entries_of data)" using assms(2) verify_not_found by blast
  with l(1,3) a show ?thesis
    by (simp add: verify_found entries_of_append List.map_filter_def entry_allows_def entry_states_def)
qed

text \<open>C22. Pinning a host key works and forgets nothing: whatever fails, the file is as it was, and then a reported
  success means the pin was already in force, or it is the old text followed by the line of the pin, and then
  the pin verifies. A key that contradicts the file is never written.\<close>

theorem pinned_host_verifies:
  assumes "NewKnownHostPin host port keyType publicKey = Inr pin"
    and "UpsertKnownHostPin tmp path pin s = (r, s')"
    and "node_at s path = Some (Regular m (Some data) t)" and "tmp \<noteq> path"
  shows "node_at s' path = node_at s path \<and> (r = Inr () \<longrightarrow> verifyKnownHostPinData data pin = Inr True) \<or>
    list_all (entry_allows pin) (entries_of data) \<and>
    (\<exists>new t'. node_at s' path = Some (Regular 384 (Some new) t') \<and> new = appendKnownHostLine data (pin_Line pin) \<and>
       verifyKnownHostPinData new pin = Inr True)"
  using UpsertKnownHostPin_cases [OF assms(2-4)] append_pin_verifies [OF assms(1)] verify_not_found [of data pin] by blast

definition fs_hosts_example :: "string fs" where
  "fs_hosts_example = \<lparr>nodes = [(''/k'', Directory 448), (''/k/h'', Regular 384 (Some ''b ssh-rsa AAAA'') 5)], faults = [], clock = 9\<rparr>"

definition key_example :: string where "key_example = ''AAAAC3NzaC1lZDI1NTE5''"

definition pin_example :: KnownHostPin where
  "pin_example = \<lparr>kp_Pattern = ''a'', kp_KeyType = ''ssh-ed25519'', kp_PublicKey = key_example\<rparr>"

lemma pin_example_new: "NewKnownHostPin ''a'' 22 ''ssh-ed25519'' key_example = Inr pin_example"
  by code_simp

lemma pin_example_ok: "fst (UpsertKnownHostPin ''/k/t'' ''/k/h'' pin_example fs_hosts_example) = Inr ()"
  by code_simp

theorem pinned_host_verifies_witness:
  "\<exists>s'. UpsertKnownHostPin ''/k/t'' ''/k/h'' pin_example fs_hosts_example = (Inr (), s') \<and>
     (\<exists>new t m. node_at s' ''/k/h'' = Some (Regular m (Some new) t) \<and> verifyKnownHostPinData new pin_example = Inr True)"
proof -
  obtain s' where r: "UpsertKnownHostPin ''/k/t'' ''/k/h'' pin_example fs_hosts_example = (Inr (), s')"
    using pin_example_ok by (cases "UpsertKnownHostPin ''/k/t'' ''/k/h'' pin_example fs_hosts_example") auto
  have n: "node_at fs_hosts_example ''/k/h'' = Some (Regular 384 (Some ''b ssh-rsa AAAA'') 5)" by code_simp
  from pinned_host_verifies [OF pin_example_new r n] n r show ?thesis by auto
qed

end
