(* ===== verification/Clipfan_AuthKeys.thy ===== *)
theory Clipfan_AuthKeys
  imports Clipfan_KnownHosts
begin

text \<open>
  The managed lines of \<open>~/.ssh/authorized_keys\<close>: \<open>internal/sshprovision/authorized_keys.go\<close>. A managed line grants one
  peer's key the forced command of the gateway and nothing else; every other line of the file belongs to the user. The
  loops over the runes of a line are loops over its bytes: every character they look for is ASCII, and no byte of a longer
  encoding is. Where decoded runes are written out again, invalid bytes become U+FFFD (\<open>json_string\<close>).
\<close>

section \<open>Managed keys\<close>

definition authorizedKeyMarkerPrefix :: string where "authorizedKeyMarkerPrefix = ''clipfan-sync:''"
definition managedKeyType :: string where "managedKeyType = ''ssh-ed25519''"

definition ErrInvalidAuthorizedKey :: string where "ErrInvalidAuthorizedKey = ''invalid_authorized_key''"
definition ErrAuthorizedKeyConflict :: string where "ErrAuthorizedKeyConflict = ''authorized_key_conflict''"
definition ErrAuthorizedKeyNotFound :: string where "ErrAuthorizedKeyNotFound = ''authorized_key_not_found''"
definition ErrAuthorizedKeysUnsafe :: string where "ErrAuthorizedKeysUnsafe = ''authorized_keys_unsafe''"

definition authorizedKeyIDPattern :: "string \<Rightarrow> bool" where
  "authorizedKeyIDPattern s \<longleftrightarrow> 8 \<le> length s \<and> length s \<le> 64 \<and> list_all name_char s"

record ManagedAuthorizedKey =
  ak_PeerID :: string
  ak_KeyID :: string
  ak_GatewayPath :: string
  ak_PublicKey :: string

record ManagedAuthorizedKeyMetadata =
  am_PeerID :: string
  am_KeyID :: string

definition publicKeyType :: "string \<Rightarrow> string res" where
  "publicKeyType publicKey =
     (if trim_space publicKey \<noteq> publicKey \<or> contains_any publicKey blank_chars \<or> publicKey = []
      then Inl (ErrInvalidAuthorizedKey @ '': invalid public key'')
      else and_then (wrap_err ErrInvalidAuthorizedKey (decodeKnownHostPublicKeyBlob publicKey)) (\<lambda>blob.
        case readSSHString blob of
          Inl _ \<Rightarrow> Inl (ErrInvalidAuthorizedKey @ '': malformed public key blob'')
        | Inr keyType \<Rightarrow> Inr keyType))"

definition ValidateManagedAuthorizedKeyID :: "string \<Rightarrow> unit res" where
  "ValidateManagedAuthorizedKeyID keyID =
     (if \<not> authorizedKeyIDPattern keyID then Inl ''invalid_authorized_key_id'' else Inr ())"

definition NewManagedAuthorizedKey :: "ManagedAuthorizedKey \<Rightarrow> ManagedAuthorizedKey res" where
  "NewManagedAuthorizedKey entry =
     and_then (wrap_err (ErrInvalidAuthorizedKey @ '': invalid peer id'') (ValidateHostID (ak_PeerID entry))) (\<lambda>_.
     case ValidateManagedAuthorizedKeyID (ak_KeyID entry) of
       Inl _ \<Rightarrow> Inl (ErrInvalidAuthorizedKey @ '': invalid key id'')
     | Inr _ \<Rightarrow>
         and_then (wrap_err (ErrInvalidAuthorizedKey @ '': invalid gateway path'')
           (ValidateSSHExecutablePath (ak_GatewayPath entry))) (\<lambda>_.
         and_then (publicKeyType (ak_PublicKey entry)) (\<lambda>keyType.
         if keyType \<noteq> managedKeyType then Inl (ErrInvalidAuthorizedKey @ '': unsupported public key type'')
         else Inr entry)))"

definition command_suffix :: "string \<Rightarrow> string \<Rightarrow> string" where
  "command_suffix peerID keyID = '' ssh-gateway --authorized-peer '' @ peerID @ '' --authorized-key-id '' @ keyID"

definition ForcedCommand :: "ManagedAuthorizedKey \<Rightarrow> string" where
  "ForcedCommand entry = ak_GatewayPath entry @ command_suffix (ak_PeerID entry) (ak_KeyID entry)"

definition escapeAuthorizedKeyOption :: "string \<Rightarrow> string" where
  "escapeAuthorizedKeyOption value = replace_char (CHR 0x22) [CHR 0x5C, CHR 0x22] (replace_char (CHR 0x5C) [CHR 0x5C, CHR 0x5C] value)"

definition key_options :: string where
  "key_options = ''no-agent-forwarding,no-X11-forwarding,no-port-forwarding,no-pty,no-user-rc,''"

definition command_option :: string where "command_option = ''command='' @ [CHR 0x22]"

definition key_Line :: "ManagedAuthorizedKey \<Rightarrow> string" where
  "key_Line entry = key_options @ command_option @ escapeAuthorizedKeyOption (ForcedCommand entry) @ [CHR 0x22, CHR 0x20] @
     managedKeyType @ '' '' @ ak_PublicKey entry @ '' '' @ authorizedKeyMarkerPrefix @ ak_PeerID entry @ '':'' @ ak_KeyID entry"

section \<open>Reading a line\<close>

definition isAuthorizedKeySpace :: "char \<Rightarrow> bool" where
  "isAuthorizedKeySpace ch \<longleftrightarrow> ch = CHR 0x20 \<or> ch = CHR 0x09"

text \<open>The loop of \<open>readAuthorizedKeyField\<close>: \<open>acc\<close> is what was read, reversed.\<close>

fun read_field :: "bool \<Rightarrow> bool \<Rightarrow> string \<Rightarrow> string \<Rightarrow> (string \<times> string) option" where
  "read_field inQuote escaped acc [] = (if inQuote then None else Some (rev acc, []))"
| "read_field inQuote escaped acc (ch # cs) =
     (if escaped then read_field inQuote False (ch # acc) cs
      else if inQuote \<and> ch = CHR 0x5C then read_field inQuote True (ch # acc) cs
      else if ch = CHR 0x22 then read_field (\<not> inQuote) False (ch # acc) cs
      else if \<not> inQuote \<and> isAuthorizedKeySpace ch then Some (rev acc, dropWhile isAuthorizedKeySpace (ch # cs))
      else read_field inQuote False (ch # acc) cs)"

definition readAuthorizedKeyField :: "string \<Rightarrow> (string \<times> string) option" where
  "readAuthorizedKeyField line =
     (let l = dropWhile isAuthorizedKeySpace line
      in if l = [] then None else read_field False False [] l)"

definition key_field_is :: "string \<Rightarrow> string \<Rightarrow> bool" where
  "key_field_is rest publicKey = (case readAuthorizedKeyField rest of None \<Rightarrow> False | Some (candidateKey, _) \<Rightarrow> candidateKey = publicKey)"

definition authorizedKeyLineUsesPublicKey :: "string \<Rightarrow> string \<Rightarrow> string \<Rightarrow> bool" where
  "authorizedKeyLineUsesPublicKey line0 keyType publicKey =
     (let line = trim_space line0 in
      if line = [] \<or> has_prefix line [CHR 0x23] then False
      else case readAuthorizedKeyField line of
        None \<Rightarrow> False
      | Some (first, rest) \<Rightarrow>
          (if first = keyType then key_field_is rest publicKey
           else case readAuthorizedKeyField rest of
             None \<Rightarrow> False
           | Some (candidateType, rest') \<Rightarrow> candidateType = keyType \<and> key_field_is rest' publicKey))"

text \<open>\<open>strings.Cut(value, ":")\<close>.\<close>

definition cut_colon :: "string \<Rightarrow> (string \<times> string) option" where
  "cut_colon v = (if CHR '':'' \<in> set v
     then Some (takeWhile (\<lambda>c. c \<noteq> CHR '':'') v, tl (dropWhile (\<lambda>c. c \<noteq> CHR '':'') v)) else None)"

definition parseManagedAuthorizedKeyMarker :: "string \<Rightarrow> ManagedAuthorizedKeyMetadata res" where
  "parseManagedAuthorizedKeyMarker marker =
     (case cut_colon (trim_prefix marker authorizedKeyMarkerPrefix) of
        None \<Rightarrow> Inl (ErrAuthorizedKeyConflict @ '': malformed managed marker'')
      | Some (peerID, keyID) \<Rightarrow>
          (case ValidateHostID peerID of
             Inl _ \<Rightarrow> Inl (ErrAuthorizedKeyConflict @ '': invalid managed peer id'')
           | Inr _ \<Rightarrow>
               (if \<not> authorizedKeyIDPattern keyID then Inl (ErrAuthorizedKeyConflict @ '': invalid managed key id'')
                else Inr \<lparr>am_PeerID = peerID, am_KeyID = keyID\<rparr>)))"

fun read_quoted :: "bool \<Rightarrow> string \<Rightarrow> string \<Rightarrow> string option" where
  "read_quoted escaped out [] = None"
| "read_quoted escaped out (ch # cs) =
     (if escaped then read_quoted False (ch # out) cs
      else if ch = CHR 0x5C then read_quoted True out cs
      else if ch = CHR 0x22 then Some (rev out)
      else read_quoted False (ch # out) cs)"

definition readAuthorizedKeyQuotedOption :: "string \<Rightarrow> string option" where
  "readAuthorizedKeyQuotedOption value = read_quoted False [] (json_string value)"

fun parseAuthorizedKeyCommandOption :: "string \<Rightarrow> string option" where
  "parseAuthorizedKeyCommandOption [] = None"
| "parseAuthorizedKeyCommandOption (c # cs) =
     (if \<not> has_prefix (c # cs) command_option then parseAuthorizedKeyCommandOption cs
      else case readAuthorizedKeyQuotedOption (drop (length command_option) (c # cs)) of
        Some value \<Rightarrow> Some value
      | None \<Rightarrow> parseAuthorizedKeyCommandOption cs)"

definition validateManagedAuthorizedKeyLine ::
  "string \<Rightarrow> string list \<Rightarrow> nat \<Rightarrow> ManagedAuthorizedKeyMetadata \<Rightarrow> unit res" where
  "validateManagedAuthorizedKeyLine line fs markerIndex metadata =
     (if markerIndex < 2 \<or> fs ! (markerIndex - 2) \<noteq> managedKeyType
      then Inl (ErrAuthorizedKeyConflict @ '': malformed managed key line'')
      else if publicKeyType (fs ! (markerIndex - 1)) \<noteq> Inr managedKeyType
      then Inl (ErrAuthorizedKeyConflict @ '': invalid managed public key'')
      else case parseAuthorizedKeyCommandOption line of
        None \<Rightarrow> Inl (ErrAuthorizedKeyConflict @ '': missing managed forced command'')
      | Some command \<Rightarrow>
          (let expectedSuffix = command_suffix (am_PeerID metadata) (am_KeyID metadata) in
           if \<not> has_suffix command expectedSuffix
           then Inl (ErrAuthorizedKeyConflict @ '': managed forced command metadata mismatch'')
           else case ValidateSSHExecutablePath (trim_suffix command expectedSuffix) of
             Inl _ \<Rightarrow> Inl (ErrAuthorizedKeyConflict @ '': invalid managed gateway path'')
           | Inr _ \<Rightarrow> Inr ()))"

text \<open>\<open>None\<close>: the line is not managed.\<close>

definition ParseManagedAuthorizedKeyMetadata :: "string \<Rightarrow> ManagedAuthorizedKeyMetadata option res" where
  "ParseManagedAuthorizedKeyMetadata line =
     (let fs = str_fields line; markerIndex = length (takeWhile (\<lambda>f. \<not> has_prefix f authorizedKeyMarkerPrefix) fs) in
      if markerIndex = length fs then Inr None
      else and_then (parseManagedAuthorizedKeyMarker (fs ! markerIndex)) (\<lambda>metadata.
        and_then (validateManagedAuthorizedKeyLine line fs markerIndex metadata) (\<lambda>_. Inr (Some metadata))))"

section \<open>Rewriting the text\<close>

definition splitAuthorizedKeyLines :: "string \<Rightarrow> string list \<times> bool" where
  "splitAuthorizedKeyLines data =
     (if data = [] then ([], True)
      else let trailingNewline = has_suffix data [CHR 0x0A]; trimmed = trim_suffix data [CHR 0x0A]
           in if trimmed = [] then ([], trailingNewline) else (split_on (CHR 0x0A) trimmed, trailingNewline))"

definition joinAuthorizedKeyLines :: "string list \<Rightarrow> bool \<Rightarrow> string" where
  "joinAuthorizedKeyLines lines trailingNewline =
     (if lines = [] then (if trailingNewline then [CHR 0x0A] else [])
      else join_with [CHR 0x0A] lines @ (if trailingNewline then [CHR 0x0A] else []))"

definition header_line :: "string \<Rightarrow> bool" where
  "header_line line \<longleftrightarrow> trim_space line = [] \<or> has_prefix (trim_space line) [CHR 0x23]"

definition authorizedKeysHeaderLineCount :: "string list \<Rightarrow> nat" where
  "authorizedKeysHeaderLineCount lines = length (takeWhile header_line lines)"

definition insertManagedAuthorizedKeyLine :: "string list \<Rightarrow> nat \<Rightarrow> string \<Rightarrow> string list" where
  "insertManagedAuthorizedKeyLine lines index line = take index lines @ [line] @ drop index lines"

text \<open>The loop over the lines.\<close>

fun upsert_lines :: "ManagedAuthorizedKey \<Rightarrow> string list \<Rightarrow> string list res" where
  "upsert_lines entry [] = Inr []"
| "upsert_lines entry (line # lines) =
     and_then (ParseManagedAuthorizedKeyMetadata line) (\<lambda>managed.
     case managed of
       None \<Rightarrow>
         (if authorizedKeyLineUsesPublicKey line managedKeyType (ak_PublicKey entry) then upsert_lines entry lines
          else and_then (upsert_lines entry lines) (\<lambda>out. Inr (line # out)))
     | Some metadata \<Rightarrow>
         (if am_PeerID metadata = ak_PeerID entry then upsert_lines entry lines
          else if am_KeyID metadata = ak_KeyID entry
          then Inl (ErrAuthorizedKeyConflict @ '': key id '' @ ak_KeyID entry @ '' already belongs to peer '' @ am_PeerID metadata)
          else if authorizedKeyLineUsesPublicKey line managedKeyType (ak_PublicKey entry)
          then Inl (ErrAuthorizedKeyConflict @ '': public key already belongs to peer '' @ am_PeerID metadata)
          else and_then (upsert_lines entry lines) (\<lambda>out. Inr (line # out))))"

definition UpsertManagedAuthorizedKeyLine :: "string \<Rightarrow> ManagedAuthorizedKey \<Rightarrow> string res" where
  "UpsertManagedAuthorizedKeyLine data entry =
     and_then (NewManagedAuthorizedKey entry) (\<lambda>_.
     case splitAuthorizedKeyLines data of (lines, trailingNewline) \<Rightarrow>
       and_then (upsert_lines entry lines) (\<lambda>out.
       Inr (joinAuthorizedKeyLines
         (insertManagedAuthorizedKeyLine out (authorizedKeysHeaderLineCount lines) (key_Line entry)) trailingNewline)))"

section \<open>The file\<close>

definition validateAuthorizedKeysHomeDir :: "string \<Rightarrow> unit res" where
  "validateAuthorizedKeysHomeDir path = wrap_err (ErrAuthorizedKeysUnsafe @ '': invalid path'') (ValidateSafeAbsolutePath path)"

definition ManagedAuthorizedKeysPath :: "string \<Rightarrow> string res" where
  "ManagedAuthorizedKeysPath homeDir =
     and_then (validateAuthorizedKeysHomeDir homeDir) (\<lambda>_. Inr (path_join (path_join homeDir ''.ssh'') ''authorized_keys''))"

definition validateAuthorizedKeysDirInfo :: "'d node \<Rightarrow> unit res" where
  "validateAuthorizedKeysDirInfo info = (case info of
     Symlink \<Rightarrow> Inl (ErrAuthorizedKeysUnsafe @ '': directory is symlink'')
   | Directory _ \<Rightarrow> Inr ()
   | _ \<Rightarrow> Inl (ErrAuthorizedKeysUnsafe @ '': directory is not a directory''))"

definition resolves :: "string \<Rightarrow> ('d, unit) io" where
  "resolves dir s = (case os_eval_symlinks dir s of
     (Inl _, s') \<Rightarrow> (Inl (ErrMsg (ErrAuthorizedKeysUnsafe @ '': directory path is unsafe'')), s')
   | (Inr same, s') \<Rightarrow>
       (if same then (Inr (), s') else (Inl (ErrMsg (ErrAuthorizedKeysUnsafe @ '': directory ancestry uses symlink'')), s')))"

definition validateAuthorizedKeysExistingDir :: "string \<Rightarrow> ('d, unit) io" where
  "validateAuthorizedKeysExistingDir dir =
     io_bind (os_lstat (path_clean dir)) (\<lambda>info.
     io_bind (io_res (validateAuthorizedKeysDirInfo info)) (\<lambda>_. resolves dir))"

text \<open>\<open>os.Mkdir\<close>.\<close>

definition os_mkdir :: "string \<Rightarrow> nat \<Rightarrow> ('d, unit) io" where
  "os_mkdir p mode = syscall (\<lambda>s. case node_at s p of
     None \<Rightarrow> (Inr (), set_node p (Directory mode) s) | Some _ \<Rightarrow> (Inl ErrExist, s))"

definition lstat_or_mkdir :: "string \<Rightarrow> ('d, 'd node) io" where
  "lstat_or_mkdir dir s = (case os_lstat dir s of
     (Inl e, s1) \<Rightarrow> (if e = ErrNotExist then io_bind (os_mkdir dir 448) (\<lambda>_. os_lstat dir) s1 else (Inl e, s1))
   | (Inr info, s1) \<Rightarrow> (Inr info, s1))"

definition ensureAuthorizedKeysDir :: "string \<Rightarrow> ('d, unit) io" where
  "ensureAuthorizedKeysDir dir =
     (if path_base dir \<noteq> ''.ssh'' then io_fail (ErrMsg (ErrAuthorizedKeysUnsafe @ '': parent must be .ssh''))
      else io_bind (validateAuthorizedKeysExistingDir (path_dir dir)) (\<lambda>_.
        io_bind (lstat_or_mkdir dir) (\<lambda>info.
        io_bind (io_res (validateAuthorizedKeysDirInfo info)) (\<lambda>_.
        io_bind (resolves dir) (\<lambda>_.
        os_chmod dir 448)))))"

definition validateAuthorizedKeysReadPath :: "string \<Rightarrow> ('d, unit) io" where
  "validateAuthorizedKeysReadPath path =
     io_bind (validateAuthorizedKeysExistingDir (path_dir (path_dir path))) (\<lambda>_ s.
       case os_lstat (path_dir path) s of
         (Inl e, s1) \<Rightarrow> (if e = ErrNotExist then (Inr (), s1) else (Inl e, s1))
       | (Inr _, s1) \<Rightarrow> validateAuthorizedKeysExistingDir (path_dir path) s1)"

definition validateAuthorizedKeysFileInfo :: "'d node \<Rightarrow> unit res" where
  "validateAuthorizedKeysFileInfo info = check_file_info ErrAuthorizedKeysUnsafe info"

definition readAuthorizedKeysFile :: "string \<Rightarrow> (string, string option) io" where
  "readAuthorizedKeysFile path = read_checked ErrAuthorizedKeysUnsafe path"

definition validateAuthorizedKeysLockFile :: "string \<Rightarrow> 'd node \<Rightarrow> ('d, unit) io" where
  "validateAuthorizedKeysLockFile lockPath info = check_lock_file ErrAuthorizedKeysUnsafe lockPath info"

definition withAuthorizedKeysLock :: "string \<Rightarrow> ('d, 'a) io \<Rightarrow> ('d, 'a) io" where
  "withAuthorizedKeysLock path fn =
     io_bind (ensureAuthorizedKeysDir (path_dir path)) (\<lambda>_.
     io_bind (open_create_nofollow (ErrAuthorizedKeysUnsafe @ '': lock is symlink'') (lock_of path)) (\<lambda>info.
     io_bind (validateAuthorizedKeysLockFile (lock_of path) info) (\<lambda>_.
     io_bind (os_chmod (lock_of path) 384) (\<lambda>_.
     io_bind (flock False) (\<lambda>_. fn)))))"

definition authorizedKeysTempPrefix :: "string \<Rightarrow> string" where
  "authorizedKeysTempPrefix path = ''.authorized-keys-'' @ path_base path @ ''.tmp.''"

definition removeStaleAuthorizedKeysTemps :: "string \<Rightarrow> ('d, unit) io" where
  "removeStaleAuthorizedKeysTemps path =
     io_bind (os_read_dir (path_dir path)) (\<lambda>es. remove_entries (path_dir path) (authorizedKeysTempPrefix path) es)"

definition writeAuthorizedKeysAtomic :: "string \<Rightarrow> string \<Rightarrow> 'd \<Rightarrow> nat \<Rightarrow> ('d, unit) io" where
  "writeAuthorizedKeysAtomic tmp path data mode =
     io_bind (validateAuthorizedKeysExistingDir (path_dir path)) (\<lambda>_.
     io_bind (os_create_excl tmp mode) (\<lambda>_. io_bind (with_cleanup tmp
        (io_bind (file_write tmp data) (\<lambda>_.
         io_bind (file_chmod tmp mode) (\<lambda>_.
         io_bind syncBestEffort (\<lambda>_.
         io_bind file_close (\<lambda>_.
         io_bind (validateAuthorizedKeysExistingDir (path_dir path)) (\<lambda>_.
         os_rename tmp path))))))) (\<lambda>_.
     syncDirBestEffort (path_dir path))))"

text \<open>What \<open>UpsertManagedAuthorizedKeyFile\<close> does under the lock; the result says whether the file changed.\<close>

definition upsert_key_locked :: "string \<Rightarrow> string \<Rightarrow> ManagedAuthorizedKey \<Rightarrow> (string, bool) io" where
  "upsert_key_locked tmp path entry =
     io_bind (removeStaleAuthorizedKeysTemps path) (\<lambda>_.
     io_bind (readAuthorizedKeysFile path) (\<lambda>d.
     let data = (case d of None \<Rightarrow> [] | Some x \<Rightarrow> x) in
     io_bind (io_res (UpsertManagedAuthorizedKeyLine data entry)) (\<lambda>updated.
     if updated = data then io_return False
     else io_bind (writeAuthorizedKeysAtomic tmp path updated 384) (\<lambda>_. io_return True))))"

definition UpsertManagedAuthorizedKeyFile :: "string \<Rightarrow> string \<Rightarrow> ManagedAuthorizedKey \<Rightarrow> (string, bool) io" where
  "UpsertManagedAuthorizedKeyFile tmp homeDir entry =
     io_bind (io_res (ManagedAuthorizedKeysPath homeDir)) (\<lambda>path.
     io_bind (io_res (NewManagedAuthorizedKey entry)) (\<lambda>_.
     withAuthorizedKeysLock path (upsert_key_locked tmp path entry)))"

definition VerifyManagedAuthorizedKeyFile :: "string \<Rightarrow> ManagedAuthorizedKey \<Rightarrow> (string, unit) io" where
  "VerifyManagedAuthorizedKeyFile homeDir entry =
     io_bind (io_res (ManagedAuthorizedKeysPath homeDir)) (\<lambda>path.
     io_bind (io_res (NewManagedAuthorizedKey entry)) (\<lambda>_.
     io_bind (validateAuthorizedKeysReadPath path) (\<lambda>_.
     io_bind (readAuthorizedKeysFile path) (\<lambda>d.
     case d of
       None \<Rightarrow> io_fail (ErrMsg (ErrAuthorizedKeyNotFound @ '': '' @ path))
     | Some data \<Rightarrow>
         io_bind (io_res (UpsertManagedAuthorizedKeyLine data entry)) (\<lambda>updated.
         if updated \<noteq> data then io_fail (ErrMsg (ErrAuthorizedKeyNotFound @ '': '' @ ak_PeerID entry)) else io_return ())))))"

section \<open>The managed line\<close>

text \<open>A character that needs no escape in a quoted option.\<close>

definition unquoted :: "char \<Rightarrow> bool" where
  "unquoted c \<longleftrightarrow> (of_char c :: nat) < 128 \<and> c \<noteq> CHR 0x22 \<and> c \<noteq> CHR 0x5C"

lemma replace_char_id: "c \<notin> set s \<Longrightarrow> replace_char c r s = s"
  by (induction s) (auto simp: replace_char_def)

lemma escape_id: "list_all unquoted s \<Longrightarrow> escapeAuthorizedKeyOption s = s"
proof -
  assume "list_all unquoted s"
  then have "CHR 0x22 \<notin> set s" "CHR 0x5C \<notin> set s" by (auto simp: list_all_iff unquoted_def)
  then show ?thesis by (simp add: escapeAuthorizedKeyOption_def replace_char_id)
qed

lemma read_quoted_plain: "list_all unquoted s \<Longrightarrow> read_quoted False out (s @ CHR 0x22 # rest) = Some (rev out @ s)"
  by (induction s arbitrary: out) (auto simp: unquoted_def)

lemma read_field_quoted:
  "list_all unquoted s \<Longrightarrow> read_field True False acc (s @ CHR 0x22 # rest) = read_field False False (CHR 0x22 # rev s @ acc) rest"
  by (induction s arbitrary: acc) (auto simp: unquoted_def)

lemma read_field_word:
  "list_all (\<lambda>c. unquoted c \<and> \<not> isAuthorizedKeySpace c) s \<Longrightarrow>
   read_field False False acc (s @ rest) = read_field False False (rev s @ acc) rest"
  by (induction s arbitrary: acc) (auto simp: unquoted_def)

lemma name_char_unquoted: "name_char c \<Longrightarrow> unquoted c"
  by (auto simp: name_char_def unquoted_def upper_letter_def lower_letter_def is_digit_def)

lemma name_char_no_colon: "list_all name_char s \<Longrightarrow> CHR '':'' \<notin> set s"
  by (auto simp: list_all_iff name_char_def upper_letter_def lower_letter_def is_digit_def)

lemma ValidateHostID_chars: "ValidateHostID i = Inr () \<Longrightarrow> i \<noteq> [] \<and> list_all name_char i"
  by (auto simp: ValidateHostID_def split: if_splits)

lemma authorizedKeyID_chars: "authorizedKeyIDPattern k \<Longrightarrow> k \<noteq> [] \<and> list_all name_char k"
  by (auto simp: authorizedKeyIDPattern_def)

lemma gateway_chars: "ValidateSSHExecutablePath p = Inr () \<Longrightarrow> p \<noteq> [] \<and> list_all (\<lambda>c. unquoted c \<and> plain_char c) p"
proof -
  have "unquoted c \<and> plain_char c" if "name_char c \<or> c \<in> {slash, CHR 0x40, CHR 0x2B}" for c
    using that name_char_unquoted name_char_plain by (auto simp: unquoted_def plain_char_def slash_def)
  then show "ValidateSSHExecutablePath p = Inr () \<Longrightarrow> p \<noteq> [] \<and> list_all (\<lambda>c. unquoted c \<and> plain_char c) p"
    by (auto simp: ValidateSSHExecutablePath_def sshPathPattern_def list_all_iff split: if_splits)
qed

lemma b64_value_colon: "b64_value (CHR '':'') = None"
  by code_simp

lemma b64_groups_no_colon: "b64_groups s \<noteq> None \<Longrightarrow> CHR '':'' \<notin> set s"
  by (induction s rule: b64_groups.induct) (auto simp: b64_value_colon split: option.splits if_splits)

lemma b64_raw_groups_no_colon: "b64_raw_groups s \<noteq> None \<Longrightarrow> CHR '':'' \<notin> set s"
  by (induction s rule: b64_raw_groups.induct) (auto simp: b64_value_colon split: option.splits)

lemma key_no_colon:
  assumes "decodeKnownHostPublicKeyBlob k = Inr blob" shows "CHR '':'' \<notin> set k"
proof -
  let ?f = "filter (\<lambda>c. c \<noteq> CHR 0x0A \<and> c \<noteq> CHR 0x0D) k"
  from assms have "b64_groups ?f \<noteq> None \<or> b64_raw_groups ?f \<noteq> None"
    by (auto simp: decodeKnownHostPublicKeyBlob_def b64_decode_def b64_raw_decode_def split: option.splits if_splits)
  then have "CHR '':'' \<notin> set ?f" using b64_groups_no_colon b64_raw_groups_no_colon by blast
  then show ?thesis by auto
qed

text \<open>What \<open>NewManagedAuthorizedKey\<close> makes sure of.\<close>

lemma new_key:
  assumes "NewManagedAuthorizedKey entry = Inr e"
  shows "e = entry" and "ValidateHostID (ak_PeerID entry) = Inr ()" and "authorizedKeyIDPattern (ak_KeyID entry)"
    and "ValidateSSHExecutablePath (ak_GatewayPath entry) = Inr ()" and "publicKeyType (ak_PublicKey entry) = Inr managedKeyType"
    and "plain_word (ak_PublicKey entry)" and "CHR '':'' \<notin> set (ak_PublicKey entry)"
proof -
  show b: "e = entry" "ValidateHostID (ak_PeerID entry) = Inr ()" "authorizedKeyIDPattern (ak_KeyID entry)"
    "ValidateSSHExecutablePath (ak_GatewayPath entry) = Inr ()" "publicKeyType (ak_PublicKey entry) = Inr managedKeyType"
    using assms by (auto simp: NewManagedAuthorizedKey_def ValidateManagedAuthorizedKeyID_def split: sum.splits if_splits)
  from b(5) obtain blob where "decodeKnownHostPublicKeyBlob (ak_PublicKey entry) = Inr blob" "\<not> contains_any (ak_PublicKey entry) blank_chars"
    by (auto simp: publicKeyType_def split: if_splits)
  then show "plain_word (ak_PublicKey entry)" "CHR '':'' \<notin> set (ak_PublicKey entry)"
    by (auto intro: public_key_plain dest: key_no_colon)
qed

lemma command_unquoted:
  assumes "NewManagedAuthorizedKey entry = Inr e" shows "list_all unquoted (ForcedCommand entry)"
proof -
  note n = new_key [OF assms]
  have "list_all unquoted '' ssh-gateway --authorized-peer ''" "list_all unquoted '' --authorized-key-id ''"
    by (simp_all add: unquoted_def)
  moreover have "list_all unquoted (ak_GatewayPath entry)" "list_all unquoted (ak_PeerID entry)" "list_all unquoted (ak_KeyID entry)"
    using gateway_chars [OF n(4)] ValidateHostID_chars [OF n(2)] authorizedKeyID_chars [OF n(3)] name_char_unquoted
    by (auto simp: list_all_iff)
  ultimately show ?thesis by (simp add: ForcedCommand_def command_suffix_def)
qed

definition marker_of :: "ManagedAuthorizedKey \<Rightarrow> string" where
  "marker_of entry = authorizedKeyMarkerPrefix @ ak_PeerID entry @ '':'' @ ak_KeyID entry"

definition line_words :: "ManagedAuthorizedKey \<Rightarrow> string list" where
  "line_words entry = [key_options @ command_option @ ak_GatewayPath entry, ''ssh-gateway'', ''--authorized-peer'', ak_PeerID entry,
     ''--authorized-key-id'', ak_KeyID entry @ [CHR 0x22], managedKeyType, ak_PublicKey entry, marker_of entry]"

lemma key_Line_words:
  assumes "NewManagedAuthorizedKey entry = Inr e"
  shows "key_Line entry = join_with '' '' (line_words entry)"
  using escape_id [OF command_unquoted [OF assms]]
  by (simp add: key_Line_def line_words_def ForcedCommand_def command_suffix_def marker_of_def)

lemma line_words_plain:
  assumes "NewManagedAuthorizedKey entry = Inr e" shows "list_all plain_word (line_words entry)"
proof -
  note n = new_key [OF assms]
  have "plain_word key_options" "plain_word command_option" "plain_word authorizedKeyMarkerPrefix" "plain_word managedKeyType"
    "plain_word ''ssh-gateway''" "plain_word ''--authorized-peer''" "plain_word ''--authorized-key-id''"
    "plain_char (CHR '':'')" "plain_char (CHR 0x22)"
    by code_simp+
  moreover have "list_all plain_char (ak_GatewayPath entry)" "plain_word (ak_PeerID entry)" "plain_word (ak_KeyID entry)"
    using gateway_chars [OF n(4)] ValidateHostID_chars [OF n(2)] authorizedKeyID_chars [OF n(3)] name_char_plain
    by (auto simp: plain_word_def list_all_iff)
  ultimately show ?thesis using n(6) by (simp add: line_words_def marker_of_def plain_word_def)
qed

lemma key_Line_fields:
  assumes "NewManagedAuthorizedKey entry = Inr e" shows "str_fields (key_Line entry) = line_words entry"
  using str_fields_words [OF line_words_plain [OF assms]] by (simp add: key_Line_words [OF assms])

lemma no_marker: "CHR '':'' \<notin> set w \<Longrightarrow> \<not> has_prefix w authorizedKeyMarkerPrefix"
  by (auto simp: has_prefix_iff authorizedKeyMarkerPrefix_def)

lemma key_Line_marker_index:
  assumes "NewManagedAuthorizedKey entry = Inr e"
  shows "length (takeWhile (\<lambda>f. \<not> has_prefix f authorizedKeyMarkerPrefix) (line_words entry)) = 8"
proof -
  note n = new_key [OF assms]
  have "\<not> has_prefix (key_options @ command_option @ ak_GatewayPath entry) authorizedKeyMarkerPrefix"
    by (simp add: has_prefix_def key_options_def authorizedKeyMarkerPrefix_def)
  moreover have "\<not> has_prefix (ak_KeyID entry @ [CHR 0x22]) authorizedKeyMarkerPrefix"
    "\<not> has_prefix (ak_PeerID entry) authorizedKeyMarkerPrefix" "\<not> has_prefix (ak_PublicKey entry) authorizedKeyMarkerPrefix"
    using n(7) name_char_no_colon ValidateHostID_chars [OF n(2)] authorizedKeyID_chars [OF n(3)]
    by (auto intro!: no_marker)
  moreover have "\<not> has_prefix ''ssh-gateway'' authorizedKeyMarkerPrefix" "\<not> has_prefix ''--authorized-peer'' authorizedKeyMarkerPrefix"
    "\<not> has_prefix ''--authorized-key-id'' authorizedKeyMarkerPrefix" "\<not> has_prefix managedKeyType authorizedKeyMarkerPrefix" by code_simp+
  moreover have "has_prefix (marker_of entry) authorizedKeyMarkerPrefix" by (simp add: marker_of_def)
  ultimately show ?thesis by (simp add: line_words_def)
qed

lemma marker_parses:
  assumes "NewManagedAuthorizedKey entry = Inr e"
  shows "parseManagedAuthorizedKeyMarker (marker_of entry) = Inr \<lparr>am_PeerID = ak_PeerID entry, am_KeyID = ak_KeyID entry\<rparr>"
proof -
  note n = new_key [OF assms]
  have "CHR '':'' \<notin> set (ak_PeerID entry)" using ValidateHostID_chars [OF n(2)] name_char_no_colon by blast
  then have "cut_colon (ak_PeerID entry @ '':'' @ ak_KeyID entry) = Some (ak_PeerID entry, ak_KeyID entry)"
    by (simp add: cut_colon_def takeWhile_append2 dropWhile_append2 dropWhile_append)
  moreover have "trim_prefix (marker_of entry) authorizedKeyMarkerPrefix = ak_PeerID entry @ '':'' @ ak_KeyID entry"
    by (simp add: trim_prefix_def marker_of_def)
  ultimately show ?thesis using n(2,3) by (simp add: parseManagedAuthorizedKeyMarker_def)
qed

lemma command_found:
  "readAuthorizedKeyQuotedOption rest = Some v \<Longrightarrow> parseAuthorizedKeyCommandOption (key_options @ command_option @ rest) = Some v"
  by (simp add: key_options_def command_option_def has_prefix_def)

lemma key_Line_ascii:
  assumes "NewManagedAuthorizedKey entry = Inr e" shows "is_ascii (key_Line entry)"
proof -
  have "is_ascii w" if "plain_word w" for w using that by (auto simp: is_ascii_def plain_word_def plain_char_def list_all_iff)
  then have "list_all is_ascii (line_words entry)" using line_words_plain [OF assms] by (auto simp: list_all_iff)
  then have "is_ascii (join_with '' '' (line_words entry))"
    using set_join_with [of "'' ''" "line_words entry"] by (fastforce simp: is_ascii_def list_all_iff)
  then show ?thesis by (simp add: key_Line_words [OF assms])
qed

lemma key_Line_tail:
  assumes "NewManagedAuthorizedKey entry = Inr e"
  obtains rest where "key_Line entry = key_options @ command_option @ ForcedCommand entry @ CHR 0x22 # rest"
    and "rest = CHR 0x20 # managedKeyType @ '' '' @ ak_PublicKey entry @ '' '' @ marker_of entry" and "is_ascii rest"
proof -
  let ?rest = "CHR 0x20 # managedKeyType @ '' '' @ ak_PublicKey entry @ '' '' @ marker_of entry"
  have l: "key_Line entry = key_options @ command_option @ ForcedCommand entry @ CHR 0x22 # ?rest"
    using escape_id [OF command_unquoted [OF assms]] by (simp add: key_Line_def marker_of_def)
  with key_Line_ascii [OF assms] have "is_ascii ?rest" by (simp add: is_ascii_def)
  with l show thesis by (rule that [OF _ refl])
qed

lemma key_Line_parses:
  assumes "NewManagedAuthorizedKey entry = Inr e"
  shows "ParseManagedAuthorizedKeyMetadata (key_Line entry) = Inr (Some \<lparr>am_PeerID = ak_PeerID entry, am_KeyID = ak_KeyID entry\<rparr>)"
proof -
  note n = new_key [OF assms]
  let ?m = "\<lparr>am_PeerID = ak_PeerID entry, am_KeyID = ak_KeyID entry\<rparr>"
  obtain rest where l: "key_Line entry = key_options @ command_option @ ForcedCommand entry @ CHR 0x22 # rest" and a: "is_ascii rest"
    by (rule key_Line_tail [OF assms])
  have u: "list_all unquoted (ForcedCommand entry)" by (rule command_unquoted [OF assms])
  have "is_ascii (ForcedCommand entry @ CHR 0x22 # rest)" using u a by (auto simp: is_ascii_def unquoted_def list_all_iff)
  then have "readAuthorizedKeyQuotedOption (ForcedCommand entry @ CHR 0x22 # rest) = Some (ForcedCommand entry)"
    by (simp add: readAuthorizedKeyQuotedOption_def json_string_ascii read_quoted_plain [OF u])
  then have c: "parseAuthorizedKeyCommandOption (key_Line entry) = Some (ForcedCommand entry)"
    unfolding l by (rule command_found)
  have "has_suffix (ForcedCommand entry) (command_suffix (ak_PeerID entry) (ak_KeyID entry))"
    by (auto simp: has_suffix_iff ForcedCommand_def)
  moreover then have "trim_suffix (ForcedCommand entry) (command_suffix (ak_PeerID entry) (ak_KeyID entry)) = ak_GatewayPath entry"
    by (simp add: trim_suffix_def ForcedCommand_def)
  ultimately have "validateManagedAuthorizedKeyLine (key_Line entry) (line_words entry) 8 ?m = Inr ()"
    using c n(4,5) by (simp add: validateManagedAuthorizedKeyLine_def line_words_def Let_def)
  moreover have "line_words entry ! 8 = marker_of entry" "length (line_words entry) = 9" by (simp_all add: line_words_def)
  ultimately show ?thesis
    by (simp add: ParseManagedAuthorizedKeyMetadata_def key_Line_fields [OF assms] key_Line_marker_index [OF assms] Let_def
        marker_parses [OF assms])
qed

text \<open>Neither the parser nor its caller looks for a comment sign: a commented-out line is still managed.\<close>

lemma commented_parses:
  assumes "NewManagedAuthorizedKey entry = Inr e"
  shows "ParseManagedAuthorizedKeyMetadata (''# '' @ key_Line entry) = Inr (Some \<lparr>am_PeerID = ak_PeerID entry, am_KeyID = ak_KeyID entry\<rparr>)"
proof -
  let ?ws = "''#'' # line_words entry"
  have "plain_word ''#''" by code_simp
  with line_words_plain [OF assms] have "str_fields (join_with '' '' ?ws) = ?ws" by (intro str_fields_words) simp
  moreover have "join_with '' '' ?ws = ''# '' @ key_Line entry" by (simp add: key_Line_words [OF assms] line_words_def)
  ultimately have f: "str_fields (''# '' @ key_Line entry) = ?ws" by simp
  have "\<not> has_prefix ''#'' authorizedKeyMarkerPrefix" by code_simp
  with key_Line_marker_index [OF assms] have i: "length (takeWhile (\<lambda>f. \<not> has_prefix f authorizedKeyMarkerPrefix) ?ws) = 9" by simp
  have c: "parseAuthorizedKeyCommandOption (''# '' @ key_Line entry) = parseAuthorizedKeyCommandOption (key_Line entry)"
    by (simp add: has_prefix_def command_option_def)
  have "validateManagedAuthorizedKeyLine (''# '' @ key_Line entry) ?ws 9 md = validateManagedAuthorizedKeyLine (key_Line entry) (line_words entry) 8 md" for md
    unfolding validateManagedAuthorizedKeyLine_def c by simp
  moreover have "?ws ! 9 = line_words entry ! 8" "length ?ws = Suc (length (line_words entry))" "length (line_words entry) = 9" 
    by (simp_all add: line_words_def)
  ultimately show ?thesis using key_Line_parses [OF assms]
    unfolding ParseManagedAuthorizedKeyMetadata_def f i key_Line_fields [OF assms] key_Line_marker_index [OF assms] Let_def by simp
qed

lemma key_Line_options:
  assumes "NewManagedAuthorizedKey entry = Inr e"
  shows "readAuthorizedKeyField (key_Line entry) = Some (key_options @ command_option @ ForcedCommand entry @ [CHR 0x22],
    managedKeyType @ '' '' @ ak_PublicKey entry @ '' '' @ marker_of entry)"
proof -
  obtain rest where l: "key_Line entry = key_options @ command_option @ ForcedCommand entry @ CHR 0x22 # rest"
    and r: "rest = CHR 0x20 # managedKeyType @ '' '' @ ak_PublicKey entry @ '' '' @ marker_of entry"
    by (rule key_Line_tail [OF assms])
  have o: "read_field False False [] (key_options @ command_option @ s) = read_field True False (rev (key_options @ command_option)) s" for s
    by (simp add: key_options_def command_option_def isAuthorizedKeySpace_def)
  have d: "dropWhile isAuthorizedKeySpace (key_Line entry) = key_Line entry"
    by (simp add: key_Line_def key_options_def isAuthorizedKeySpace_def)
  have "dropWhile isAuthorizedKeySpace rest = managedKeyType @ '' '' @ ak_PublicKey entry @ '' '' @ marker_of entry"
    by (simp add: r isAuthorizedKeySpace_def managedKeyType_def)
  then have "read_field False False (CHR 0x22 # rev (ForcedCommand entry) @ rev (key_options @ command_option)) rest =
      Some (key_options @ command_option @ ForcedCommand entry @ [CHR 0x22],
        managedKeyType @ '' '' @ ak_PublicKey entry @ '' '' @ marker_of entry)"
    by (simp add: r isAuthorizedKeySpace_def)
  then have "read_field False False [] (key_Line entry) = Some (key_options @ command_option @ ForcedCommand entry @ [CHR 0x22],
      managedKeyType @ '' '' @ ak_PublicKey entry @ '' '' @ marker_of entry)"
    using command_unquoted [OF assms] unfolding l by (simp only: o append_assoc read_field_quoted)
  then show ?thesis using d by (auto simp: readAuthorizedKeyField_def Let_def l)
qed

section \<open>The rewritten text\<close>

text \<open>A line that an update for \<open>entry\<close> leaves in place, and one that it accepts.\<close>

definition kept :: "ManagedAuthorizedKey \<Rightarrow> string \<Rightarrow> bool" where
  "kept entry line \<longleftrightarrow> (case ParseManagedAuthorizedKeyMetadata line of
     Inl _ \<Rightarrow> False
   | Inr None \<Rightarrow> \<not> authorizedKeyLineUsesPublicKey line managedKeyType (ak_PublicKey entry)
   | Inr (Some m) \<Rightarrow> am_PeerID m \<noteq> ak_PeerID entry \<and> am_KeyID m \<noteq> ak_KeyID entry \<and>
       \<not> authorizedKeyLineUsesPublicKey line managedKeyType (ak_PublicKey entry))"

lemma upsert_lines_filter: "upsert_lines entry ls = Inr out \<Longrightarrow> out = filter (kept entry) ls"
  by (induction ls arbitrary: out) (auto simp: kept_def split: option.splits if_splits)

lemma upsert_lines_kept: "list_all (kept entry) ls \<Longrightarrow> upsert_lines entry ls = Inr ls"
  by (induction ls) (auto simp: kept_def split: sum.splits option.splits)

lemma upsert_lines_append:
  "upsert_lines entry (as @ bs) = and_then (upsert_lines entry as) (\<lambda>x. and_then (upsert_lines entry bs) (\<lambda>y. Inr (x @ y)))"
proof (induction as)
  case Nil
  show ?case by (cases "upsert_lines entry bs") simp_all
next
  case (Cons l as)
  show ?case
    by (cases "ParseManagedAuthorizedKeyMetadata l"; cases "upsert_lines entry as"; cases "upsert_lines entry bs")
      (auto simp: Cons split: option.splits)
qed

lemma upsert_lines_accepts:
  assumes "upsert_lines entry ls = Inr out" and "l \<in> set ls"
  shows "\<exists>m. ParseManagedAuthorizedKeyMetadata l = Inr m \<and> (\<forall>md. m = Some md \<longrightarrow> am_PeerID md \<noteq> ak_PeerID entry \<longrightarrow>
    am_KeyID md \<noteq> ak_KeyID entry \<and> \<not> authorizedKeyLineUsesPublicKey l managedKeyType (ak_PublicKey entry))"
  using assms by (induction ls arbitrary: out) (auto split: option.splits if_splits)

text \<open>A header line is kept.\<close>

lemma header_not_key: "header_line l \<Longrightarrow> \<not> authorizedKeyLineUsesPublicKey l t k"
  by (auto simp: header_line_def authorizedKeyLineUsesPublicKey_def Let_def)

lemma key_Line_ends:
  assumes "NewManagedAuthorizedKey entry = Inr e"
  shows "key_Line entry \<noteq> []" and "\<not> header_line (key_Line entry)" and "CHR 0x0A \<notin> set (key_Line entry)"
proof -
  have w: "list_all plain_word (line_words entry)" by (rule line_words_plain [OF assms])
  show ne: "key_Line entry \<noteq> []" by (simp add: key_Line_def key_options_def)
  have "last (key_Line entry) = last (ak_KeyID entry)" "ak_KeyID entry \<noteq> []"
    using authorizedKeyID_chars [OF new_key(3) [OF assms]] by (simp_all add: key_Line_def)
  moreover have "list_all name_char (ak_KeyID entry)" using authorizedKeyID_chars [OF new_key(3) [OF assms]] by simp
  ultimately have "plain_char (last (key_Line entry))" using name_char_plain by (simp add: list_all_iff)
  moreover have "hd (key_Line entry) = CHR ''n''" by (simp add: key_Line_def key_options_def)
  ultimately have "trim_space (key_Line entry) = key_Line entry" using ne
    by (intro trim_space_plain) (simp_all add: plain_char_def)
  then show "\<not> header_line (key_Line entry)" using ne by (simp add: header_line_def key_Line_def key_options_def has_prefix_def)
  show "CHR 0x0A \<notin> set (key_Line entry)"
    using w plain_word_line set_join_with [of "'' ''" "line_words entry"] by (fastforce simp: key_Line_words [OF assms] list_all_iff)
qed

text \<open>The shape of an updated list of lines.\<close>

definition settled :: "ManagedAuthorizedKey \<Rightarrow> string list \<Rightarrow> bool" where
  "settled entry ls \<longleftrightarrow> (\<exists>as bs. ls = as @ key_Line entry # bs \<and> list_all header_line as \<and> list_all (kept entry) (as @ bs))"

lemma header_of_filter:
  assumes "list_all (\<lambda>l. ParseManagedAuthorizedKeyMetadata l = Inr None) (takeWhile header_line ls)"
  shows "take (authorizedKeysHeaderLineCount ls) (filter (kept entry) ls) = takeWhile header_line ls"
  using assms unfolding authorizedKeysHeaderLineCount_def
  by (induction ls) (auto simp: kept_def header_not_key)

lemma upsert_settled:
  assumes "upsert_lines entry ls = Inr out"
    and "list_all (\<lambda>l. ParseManagedAuthorizedKeyMetadata l = Inr None) (takeWhile header_line ls)"
  shows "settled entry (insertManagedAuthorizedKeyLine out (authorizedKeysHeaderLineCount ls) (key_Line entry))"
proof -
  let ?n = "authorizedKeysHeaderLineCount ls"
  from upsert_lines_filter [OF assms(1)] have o: "list_all (kept entry) out" by (simp add: list_all_iff)
  have "take ?n out = takeWhile header_line ls"
    using header_of_filter [OF assms(2), of entry] upsert_lines_filter [OF assms(1)] by simp
  then have "list_all header_line (take ?n out)" by (metis list_all_iff set_takeWhileD)
  with o show ?thesis
    unfolding settled_def insertManagedAuthorizedKeyLine_def
    by (intro exI [of _ "take ?n out"] exI [of _ "drop ?n out"]) simp
qed

lemma settled_stable:
  assumes "NewManagedAuthorizedKey entry = Inr e" and "settled entry ls"
  shows "\<exists>out. upsert_lines entry ls = Inr out \<and>
    insertManagedAuthorizedKeyLine out (authorizedKeysHeaderLineCount ls) (key_Line entry) = ls"
proof -
  from assms(2) obtain as bs where l: "ls = as @ key_Line entry # bs" and h: "list_all header_line as"
    and k: "list_all (kept entry) as" "list_all (kept entry) bs" by (auto simp: settled_def)
  have "upsert_lines entry (key_Line entry # bs) = upsert_lines entry bs" by (simp add: key_Line_parses [OF assms(1)])
  then have "upsert_lines entry ls = Inr (as @ bs)"
    using k unfolding l upsert_lines_append by (simp add: upsert_lines_kept)
  moreover have "authorizedKeysHeaderLineCount ls = length as"
    using h key_Line_ends(2) [OF assms(1)] by (simp add: authorizedKeysHeaderLineCount_def l takeWhile_append2 list_all_iff)
  ultimately show ?thesis by (simp add: insertManagedAuthorizedKeyLine_def l)
qed

text \<open>Splitting what was joined: the same lines, but for an empty last line without a newline after it.\<close>

lemma split_joined:
  assumes "ls \<noteq> []" and "\<forall>l \<in> set ls. CHR 0x0A \<notin> set l" and "\<exists>l \<in> set ls. l \<noteq> []"
  obtains ls' tn' where "splitAuthorizedKeyLines (joinAuthorizedKeyLines ls tn) = (ls', tn')"
    and "joinAuthorizedKeyLines ls' tn' = joinAuthorizedKeyLines ls tn" and "ls' = ls \<or> ls = ls' @ [[]]"
proof (cases "tn \<or> last ls \<noteq> []")
  case True
  have j: "split_on (CHR 0x0A) (join_with [CHR 0x0A] ls) = ls" by (rule split_on_join_any [OF assms(1,2)])
  have ne: "join_with [CHR 0x0A] ls \<noteq> []"
  proof
    assume "join_with [CHR 0x0A] ls = []"
    with j have "ls = [[]]" by simp
    with assms(3) show False by simp
  qed
  have sfx: "has_suffix (join_with [CHR 0x0A] ls) [CHR 0x0A] \<Longrightarrow> last ls = []"
  proof -
    assume "has_suffix (join_with [CHR 0x0A] ls) [CHR 0x0A]"
    then obtain t where "join_with [CHR 0x0A] ls = t @ CHR 0x0A # []" by (auto simp: has_suffix_iff)
    with j have "ls = split_on (CHR 0x0A) t @ [[]]" by (metis split_on.simps(1) split_on_append)
    then show "last ls = []" by simp
  qed
  have "splitAuthorizedKeyLines (joinAuthorizedKeyLines ls tn) = (ls, tn)"
  proof (cases tn)
    case True
    then show ?thesis using assms(1) ne j
      by (simp add: splitAuthorizedKeyLines_def joinAuthorizedKeyLines_def has_suffix_iff trim_suffix_def Let_def)
  next
    case False
    with \<open>tn \<or> last ls \<noteq> []\<close> sfx have "\<not> has_suffix (join_with [CHR 0x0A] ls) [CHR 0x0A]" by auto
    with False show ?thesis using assms(1) ne j
      by (simp add: splitAuthorizedKeyLines_def joinAuthorizedKeyLines_def trim_suffix_def Let_def)
  qed
  then show ?thesis by (rule that) simp_all
next
  case False
  then obtain ms where ms: "ls = ms @ [[]]" using assms(1) by (metis append_butlast_last_id)
  with assms(3) have m: "ms \<noteq> []" "\<exists>l \<in> set ms. l \<noteq> []" by auto
  have j: "split_on (CHR 0x0A) (join_with [CHR 0x0A] ms) = ms" using m(1) assms(2) ms by (intro split_on_join_any) auto
  have ne: "join_with [CHR 0x0A] ms \<noteq> []"
  proof
    assume "join_with [CHR 0x0A] ms = []"
    with j have "ms = [[]]" by simp
    with m(2) show False by simp
  qed
  have "join_with [CHR 0x0A] ls = join_with [CHR 0x0A] ms @ [CHR 0x0A]"
    using m(1) unfolding ms by (induction ms rule: induct_list012) auto
  with False m(1) ms have t: "joinAuthorizedKeyLines ls tn = joinAuthorizedKeyLines ms True" by (simp add: joinAuthorizedKeyLines_def)
  have "splitAuthorizedKeyLines (joinAuthorizedKeyLines ms True) = (ms, True)"
    using m(1) ne j by (simp add: splitAuthorizedKeyLines_def joinAuthorizedKeyLines_def has_suffix_iff trim_suffix_def Let_def)
  with t ms show ?thesis by (intro that [of ms True]) simp_all
qed

lemma settled_butlast:
  assumes "NewManagedAuthorizedKey entry = Inr e" and "settled entry (ls @ [[]])"
  shows "settled entry ls"
proof -
  from assms(2) obtain as bs where l: "ls @ [[]] = as @ key_Line entry # bs" and h: "list_all header_line as"
    and k: "list_all (kept entry) (as @ bs)" by (auto simp: settled_def)
  have "bs \<noteq> []" using l key_Line_ends(1) [OF assms(1)] by auto
  then obtain cs where "bs = cs @ [[]]" using l by (metis append_butlast_last_id last.simps last_append last_snoc list.discI)
  with l h k show ?thesis by (auto simp: settled_def)
qed

lemma split_no_newline: "splitAuthorizedKeyLines data = (ls, tn) \<Longrightarrow> \<forall>l \<in> set ls. CHR 0x0A \<notin> set l"
  using split_on_no_sep by (auto simp: splitAuthorizedKeyLines_def Let_def split: if_splits)

lemma upsert_stable:
  assumes "UpsertManagedAuthorizedKeyLine data entry = Inr new"
    and "list_all (\<lambda>l. ParseManagedAuthorizedKeyMetadata l = Inr None) (takeWhile header_line (fst (splitAuthorizedKeyLines data)))"
  shows "UpsertManagedAuthorizedKeyLine new entry = Inr new"
proof -
  obtain ls tn where sp: "splitAuthorizedKeyLines data = (ls, tn)" by fastforce
  with assms(1) obtain e out where e: "NewManagedAuthorizedKey entry = Inr e" and u: "upsert_lines entry ls = Inr out"
    and new: "new = joinAuthorizedKeyLines (insertManagedAuthorizedKeyLine out (authorizedKeysHeaderLineCount ls) (key_Line entry)) tn"
    by (auto simp: UpsertManagedAuthorizedKeyLine_def)
  let ?L = "insertManagedAuthorizedKeyLine out (authorizedKeysHeaderLineCount ls) (key_Line entry)"
  have st: "settled entry ?L" using upsert_settled [OF u] assms(2) sp by simp
  have nl: "\<forall>l \<in> set ?L. CHR 0x0A \<notin> set l"
    using split_no_newline [OF sp] upsert_lines_filter [OF u] key_Line_ends(3) [OF e]
    by (auto simp: insertManagedAuthorizedKeyLine_def dest: in_set_takeD in_set_dropD)
  have ne: "?L \<noteq> []" "\<exists>l \<in> set ?L. l \<noteq> []" using key_Line_ends(1) [OF e] by (auto simp: insertManagedAuthorizedKeyLine_def)
  from split_joined [OF ne(1) nl ne(2), of tn] obtain ls' tn' where s: "splitAuthorizedKeyLines new = (ls', tn')"
    and j: "joinAuthorizedKeyLines ls' tn' = new" and l: "ls' = ?L \<or> ?L = ls' @ [[]]" by (auto simp: new)
  from l st have "settled entry ls'" using settled_butlast [OF e] by metis
  from settled_stable [OF e this] obtain out' where "upsert_lines entry ls' = Inr out'"
    "insertManagedAuthorizedKeyLine out' (authorizedKeysHeaderLineCount ls') (key_Line entry) = ls'" by blast
  with s j e show ?thesis by (simp add: UpsertManagedAuthorizedKeyLine_def)
qed

section \<open>The file under the lock\<close>

lemma resolves_quiet: "touches {} (resolves dir)"
  by (rule touchesI) (auto simp: resolves_def split: prod.splits sum.splits if_splits
      dest!: quiet_nodes [OF touches_eval_symlinks])

lemma existingDir_quiet: "touches {} (validateAuthorizedKeysExistingDir dir)"
  unfolding validateAuthorizedKeysExistingDir_def
  by (intro touches_bind touches_calls touches_io_res resolves_quiet)

lemma lstat_or_mkdir_keeps:
  assumes "lstat_or_mkdir dir s = (r, s')" and n: "node_at s p = Some (Regular a b c)"
  shows "node_at s' p = node_at s p" and "r = Inr info \<Longrightarrow> node_at s' dir = Some info"
proof -
  have l: "node_at s2 = node_at s1" if "os_lstat dir s1 = (x, s2)" for x s1 s2
    using that by (rule quiet_nodes [OF touches_calls(5)])
  have li: "node_at s2 dir = Some i" if "os_lstat dir s1 = (Inr i, s2)" for i s1 s2
    using that unfolding os_lstat_def by (rule syscallE) (auto split: option.splits)
  have mk: "node_at s2 p = node_at s1 p" if "os_mkdir dir 448 s1 = (x, s2)" "node_at s1 p = Some (Regular a b c)" for x s1 s2
    using that unfolding os_mkdir_def by (erule_tac syscallE) (auto split: option.splits)
  show "node_at s' p = node_at s p"
    using assms unfolding lstat_or_mkdir_def
    by (auto split: prod.splits sum.splits if_splits elim!: io_bindE simp: l mk)
  show "node_at s' dir = Some info" if "r = Inr info"
    using that assms(1) unfolding lstat_or_mkdir_def
    by (auto split: prod.splits sum.splits if_splits elim!: io_bindE dest: li)
qed

lemma ensureAuthorizedKeysDir_keeps:
  assumes "ensureAuthorizedKeysDir d s = (r, s')" and n: "node_at s p = Some (Regular a b c)"
  shows "node_at s' p = node_at s p"
proof (cases "path_base d \<noteq> ''.ssh''")
  case True
  with assms(1) show ?thesis by (simp add: ensureAuthorizedKeysDir_def io_fail_def)
next
  case False
  have q: "node_at s2 x = node_at s1 x" if "validateAuthorizedKeysExistingDir e s1 = (y, s2)" for e y s1 s2 x
    using that by (rule quiet_at [OF existingDir_quiet])
  have rs: "node_at s2 x = node_at s1 x" if "resolves d s1 = (y, s2)" for y s1 s2 x
    using that by (rule quiet_at [OF resolves_quiet])
  from False assms(1) have "io_bind (validateAuthorizedKeysExistingDir (path_dir d)) (\<lambda>_. io_bind (lstat_or_mkdir d) (\<lambda>info.
      io_bind (io_res (validateAuthorizedKeysDirInfo info)) (\<lambda>_. io_bind (resolves d) (\<lambda>_. os_chmod d 448)))) s = (r, s')"
    by (simp add: ensureAuthorizedKeysDir_def)
  then show ?thesis
  proof (rule io_bindE)
    fix u s1 assume v: "validateAuthorizedKeysExistingDir (path_dir d) s = (Inr u, s1)"
    with n have n1: "node_at s1 p = Some (Regular a b c)" by (simp add: q)
    assume "io_bind (lstat_or_mkdir d) (\<lambda>info. io_bind (io_res (validateAuthorizedKeysDirInfo info)) (\<lambda>_.
      io_bind (resolves d) (\<lambda>_. os_chmod d 448))) s1 = (r, s')"
    then have "node_at s' p = node_at s1 p"
    proof (rule io_bindE)
      fix info s2 assume m: "lstat_or_mkdir d s1 = (Inr info, s2)"
      note k = lstat_or_mkdir_keeps [OF m n1]
      assume "io_bind (io_res (validateAuthorizedKeysDirInfo info)) (\<lambda>_. io_bind (resolves d) (\<lambda>_. os_chmod d 448)) s2 = (r, s')"
      then show ?thesis
      proof (rule io_res_bind_cases)
        fix v assume "validateAuthorizedKeysDirInfo info = Inr v" and b: "io_bind (resolves d) (\<lambda>_. os_chmod d 448) s2 = (r, s')"
        then have "p \<noteq> d" using k n1 by (auto simp: validateAuthorizedKeysDirInfo_def split: node.splits)
        with b show ?thesis using k(1)
          by (elim io_bindE) (auto simp: rs dest: touchesD [OF touches_calls(1), where q = p])
      qed (use k in simp)
    qed (use lstat_or_mkdir_keeps(1) [OF _ n1] in blast)
    with n n1 show ?thesis by simp
  qed (auto simp: q)
qed

lemma withAuthorizedKeysLockE:
  assumes "withAuthorizedKeysLock path fn s = (r, s')" and "node_at s path = Some (Regular a b c)"
  obtains e where "r = Inl e" and "node_at s' path = node_at s path"
        | s1 where "node_at s1 path = node_at s path" and "fn s1 = (r, s')"
  using assms(1) unfolding withAuthorizedKeysLock_def validateAuthorizedKeysLockFile_def
  by (rule locked_sectionE) (use ensureAuthorizedKeysDir_keeps [OF _ assms(2)] that in blast)+

lemma writeAuthorizedKeysAtomic_triple:
  assumes "tmp \<noteq> path"
  shows "triple (holds_old path old) (writeAuthorizedKeysAtomic tmp path d mode)
     (\<lambda>_. installed tmp path mode d) (\<lambda>s. holds_old path old s \<or> installed tmp path mode d s)"
  unfolding writeAuthorizedKeysAtomic_def syncBestEffort_def
  by (rule triple_bind [OF triple_weaken [OF triple_holds_old]], rule existingDir_quiet, simp, simp,
      rule replace_triple [OF assms existingDir_quiet touches_syncDir])

lemma removeStaleAuthorizedKeys_keeps: "removeStaleAuthorizedKeysTemps path s = (r, s') \<Longrightarrow> node_at s' path = node_at s path"
  unfolding removeStaleAuthorizedKeysTemps_def authorizedKeysTempPrefix_def
  by (rule remove_temps_keeps [where pre = "''.authorized-keys-''"]) simp_all

lemma upsert_key_triple:
  fixes data tmp path entry m t
  defines "same \<equiv> holds_old path (Some (Regular m (Some data) t))"
    and "wrote \<equiv> \<lambda>s. \<exists>new t'. UpsertManagedAuthorizedKeyLine data entry = Inr new \<and> node_at s path = Some (Regular 384 (Some new) t')"
  assumes "tmp \<noteq> path"
  shows "triple same (upsert_key_locked tmp path entry)
    (\<lambda>changed s. if changed then wrote s else same s \<and> UpsertManagedAuthorizedKeyLine data entry = Inr data) (\<lambda>s. same s \<or> wrote s)"
proof -
  let ?E = "\<lambda>s. same s \<or> wrote s"
  have rm: "triple same (removeStaleAuthorizedKeysTemps path) (\<lambda>_. same) ?E"
    by (rule tripleI) (auto simp: same_def holds_old_def dest: removeStaleAuthorizedKeys_keeps)
  have rd: "triple same (readAuthorizedKeysFile path) (\<lambda>d s. same s \<and> d = Some data) ?E"
    by (rule tripleI) (auto simp: same_def holds_old_def readAuthorizedKeysFile_def
        dest: read_checked_keeps [where p = path] read_checked_data)
  have wr: "triple same (writeAuthorizedKeysAtomic tmp path new 384) (\<lambda>_. wrote) ?E"
    if "UpsertManagedAuthorizedKeyLine data entry = Inr new" for new
    using that writeAuthorizedKeysAtomic_triple [OF assms(3), of "Some (Regular m (Some data) t)" new 384]
    by (fastforce simp: triple_def same_def wrote_def installed_def split: sum.splits)
  have ret: "triple wrote (io_return True) (\<lambda>changed s. if changed then wrote s
      else same s \<and> UpsertManagedAuthorizedKeyLine data entry = Inr data) ?E"
    by (rule tripleI) (auto simp: io_return_def)
  have "triple same (io_bind (io_res (UpsertManagedAuthorizedKeyLine data entry)) (\<lambda>updated.
     if updated = data then io_return False
     else io_bind (writeAuthorizedKeysAtomic tmp path updated 384) (\<lambda>_. io_return True)))
     (\<lambda>changed s. if changed then wrote s else same s \<and> UpsertManagedAuthorizedKeyLine data entry = Inr data) ?E"
  proof (rule triple_res_bind)
    fix new assume u: "UpsertManagedAuthorizedKeyLine data entry = Inr new"
    show "triple same (if new = data then io_return False
       else io_bind (writeAuthorizedKeysAtomic tmp path new 384) (\<lambda>_. io_return True))
       (\<lambda>changed s. if changed then wrote s else same s \<and> UpsertManagedAuthorizedKeyLine data entry = Inr data) ?E"
      using u triple_bind [OF wr [OF u] ret] by (auto intro!: tripleI simp: io_return_def)
  qed simp
  then show ?thesis unfolding upsert_key_locked_def
    by (intro triple_bind [OF rm] triple_bind [OF rd] triple_pure) simp
qed

lemma UpsertManagedAuthorizedKeyFile_cases:
  assumes "UpsertManagedAuthorizedKeyFile tmp home entry s = (r, s')"
    and path: "ManagedAuthorizedKeysPath home = Inr path"
    and n: "node_at s path = Some (Regular m (Some data) t)" and "tmp \<noteq> path"
  shows "node_at s' path = node_at s path \<and> (\<forall>c. r = Inr c \<longrightarrow> UpsertManagedAuthorizedKeyLine data entry = Inr data) \<or>
    (\<exists>new t'. UpsertManagedAuthorizedKeyLine data entry = Inr new \<and> node_at s' path = Some (Regular 384 (Some new) t'))"
proof -
  from assms(1) path have "io_bind (io_res (NewManagedAuthorizedKey entry)) (\<lambda>_.
     withAuthorizedKeysLock path (upsert_key_locked tmp path entry)) s = (r, s')"
    by (simp add: UpsertManagedAuthorizedKeyFile_def io_res_run io_bind_def)
  then show ?thesis
  proof (rule io_res_bind_cases)
    assume "withAuthorizedKeysLock path (upsert_key_locked tmp path entry) s = (r, s')"
    then show ?thesis
    proof (rule withAuthorizedKeysLockE [OF _ n])
      fix s1 assume k: "node_at s1 path = node_at s path" and u: "upsert_key_locked tmp path entry s1 = (r, s')"
      have "holds_old path (Some (Regular m (Some data) t)) s1" using k n by (simp add: holds_old_def)
      with upsert_key_triple [OF assms(4), of m data t entry] u n show ?thesis
        by (cases r) (fastforce simp: triple_def holds_old_def split: if_splits)+
    qed simp
  qed simp
qed

section \<open>Properties\<close>

text \<open>The line written for a peer reads back as that peer's: the parser accepts it and finds the peer and the
  key it was made from, and the field that sshd reads first holds the restrictions and the forced command of that
  peer and key, with the key itself next, so the key can run nothing else.\<close>

lemma managed_line_roundtrip:
  assumes "NewManagedAuthorizedKey entry = Inr e"
  shows "ParseManagedAuthorizedKeyMetadata (key_Line entry) = Inr (Some \<lparr>am_PeerID = ak_PeerID entry, am_KeyID = ak_KeyID entry\<rparr>)
    \<and> readAuthorizedKeyField (key_Line entry) =
      Some (''no-agent-forwarding,no-X11-forwarding,no-port-forwarding,no-pty,no-user-rc,command='' @ [CHR 0x22] @
            ForcedCommand entry @ [CHR 0x22], managedKeyType @ '' '' @ ak_PublicKey entry @ '' '' @ marker_of entry)"
  using key_Line_parses [OF assms] key_Line_options [OF assms] by (simp add: key_options_def command_option_def)

definition auth_key_example :: ManagedAuthorizedKey where
  "auth_key_example = \<lparr>ak_PeerID = ''p'', ak_KeyID = ''key00001'', ak_GatewayPath = ''/g'', ak_PublicKey = key_example\<rparr>"

lemma auth_key_example_ok: "NewManagedAuthorizedKey auth_key_example = Inr auth_key_example"
  by code_simp

lemma managed_line_roundtrip_witness:
  "NewManagedAuthorizedKey auth_key_example = Inr auth_key_example \<and>
   ParseManagedAuthorizedKeyMetadata (key_Line auth_key_example) = Inr (Some \<lparr>am_PeerID = ''p'', am_KeyID = ''key00001''\<rparr>)"
  using managed_line_roundtrip [OF auth_key_example_ok] auth_key_example_ok by (simp add: auth_key_example_def)

text \<open>C23. An update of the authorized keys puts one line in and takes out only what it replaces: the new text is the
  managed line among the old lines, in their order, less those managed for the same peer and those that grant the
  same key. No other line grants the key, and no other peer's line has the key's id.\<close>

theorem authorized_key_upsert_effect:
  assumes "UpsertManagedAuthorizedKeyLine data entry = Inr new"
    and "splitAuthorizedKeyLines data = (lines, trailing)"
  shows "\<exists>before after. new = joinAuthorizedKeyLines (before @ [key_Line entry] @ after) trailing
    \<and> before @ after = filter (\<lambda>l. \<not> authorizedKeyLineUsesPublicKey l managedKeyType (ak_PublicKey entry) \<and>
        (\<forall>md. ParseManagedAuthorizedKeyMetadata l = Inr (Some md) \<longrightarrow> am_PeerID md \<noteq> ak_PeerID entry)) lines
    \<and> (\<forall>l \<in> set (before @ after). \<forall>md. ParseManagedAuthorizedKeyMetadata l = Inr (Some md) \<longrightarrow> am_KeyID md \<noteq> ak_KeyID entry)"
proof -
  from assms obtain out where u: "upsert_lines entry lines = Inr out"
    and new: "new = joinAuthorizedKeyLines (insertManagedAuthorizedKeyLine out (authorizedKeysHeaderLineCount lines) (key_Line entry)) trailing"
    by (auto simp: UpsertManagedAuthorizedKeyLine_def)
  have o: "out = filter (kept entry) lines" by (rule upsert_lines_filter [OF u])
  have f: "filter (kept entry) lines = filter (\<lambda>l. \<not> authorizedKeyLineUsesPublicKey l managedKeyType (ak_PublicKey entry) \<and>
        (\<forall>md. ParseManagedAuthorizedKeyMetadata l = Inr (Some md) \<longrightarrow> am_PeerID md \<noteq> ak_PeerID entry)) lines"
  proof (rule filter_cong [OF refl])
    fix l assume "l \<in> set lines"
    from upsert_lines_accepts [OF u this]
    show "kept entry l = (\<not> authorizedKeyLineUsesPublicKey l managedKeyType (ak_PublicKey entry) \<and>
        (\<forall>md. ParseManagedAuthorizedKeyMetadata l = Inr (Some md) \<longrightarrow> am_PeerID md \<noteq> ak_PeerID entry))"
      by (auto simp: kept_def split: option.splits)
  qed
  let ?n = "authorizedKeysHeaderLineCount lines"
  have "new = joinAuthorizedKeyLines (take ?n out @ [key_Line entry] @ drop ?n out) trailing"
    by (simp add: new insertManagedAuthorizedKeyLine_def)
  moreover have "take ?n out @ drop ?n out = out" by simp
  moreover have "\<forall>l \<in> set out. \<forall>md. ParseManagedAuthorizedKeyMetadata l = Inr (Some md) \<longrightarrow> am_KeyID md \<noteq> ak_KeyID entry"
    by (auto simp: o kept_def)
  ultimately show ?thesis using o f by metis
qed

lemma upsert_example:
  "UpsertManagedAuthorizedKeyLine ''# a'' auth_key_example = Inr (joinAuthorizedKeyLines [''# a'', key_Line auth_key_example] False)"
  "splitAuthorizedKeyLines ''# a'' = ([''# a''], False)"
  by code_simp+

theorem authorized_key_upsert_effect_witness:
  "\<exists>before after. joinAuthorizedKeyLines [''# a'', key_Line auth_key_example] False =
     joinAuthorizedKeyLines (before @ [key_Line auth_key_example] @ after) False"
  using authorized_key_upsert_effect [OF upsert_example] by blast

text \<open>C24. An update of the authorized_keys file settles it: whatever fails, the file holds the old text, which a
  reported success means was already up to date, or the updated text, on which a further update, and so the check
  that provisioning runs after it, changes nothing. No comment at the top of the file may hold a managed line.\<close>

theorem authorized_key_update_settles:
  assumes "UpsertManagedAuthorizedKeyFile tmp home entry s = (r, s')"
    and "ManagedAuthorizedKeysPath home = Inr path"
    and "node_at s path = Some (Regular m (Some data) t)" and "tmp \<noteq> path"
    and "list_all (\<lambda>l. ParseManagedAuthorizedKeyMetadata l = Inr None) (takeWhile header_line (fst (splitAuthorizedKeyLines data)))"
  shows "node_at s' path = node_at s path \<and> (\<forall>c. r = Inr c \<longrightarrow> UpsertManagedAuthorizedKeyLine data entry = Inr data) \<or>
    (\<exists>new t'. node_at s' path = Some (Regular 384 (Some new) t') \<and> UpsertManagedAuthorizedKeyLine data entry = Inr new \<and>
       UpsertManagedAuthorizedKeyLine new entry = Inr new)"
  using UpsertManagedAuthorizedKeyFile_cases [OF assms(1-4)] upsert_stable [OF _ assms(5)] by blast

definition fs_keys_example :: "string fs" where
  "fs_keys_example = \<lparr>nodes = [(''/h'', Directory 448), (''/h/.ssh'', Directory 448),
     (''/h/.ssh/authorized_keys'', Regular 384 (Some ''# a'') 5)], faults = [], clock = 9\<rparr>"

lemma keys_example_ok: "fst (UpsertManagedAuthorizedKeyFile ''/h/.ssh/t'' ''/h'' auth_key_example fs_keys_example) = Inr True"
  by code_simp

lemma keys_example_path: "ManagedAuthorizedKeysPath ''/h'' = Inr ''/h/.ssh/authorized_keys''"
  by code_simp

lemma keys_example_header: "list_all (\<lambda>l. ParseManagedAuthorizedKeyMetadata l = Inr None)
    (takeWhile header_line (fst (splitAuthorizedKeyLines ''# a'')))"
  by code_simp

theorem authorized_key_update_settles_witness:
  "\<exists>s'. UpsertManagedAuthorizedKeyFile ''/h/.ssh/t'' ''/h'' auth_key_example fs_keys_example = (Inr True, s') \<and>
     (\<exists>new t. node_at s' ''/h/.ssh/authorized_keys'' = Some (Regular 384 (Some new) t) \<and>
        UpsertManagedAuthorizedKeyLine new auth_key_example = Inr new)"
proof -
  obtain s' where r: "UpsertManagedAuthorizedKeyFile ''/h/.ssh/t'' ''/h'' auth_key_example fs_keys_example = (Inr True, s')"
    using keys_example_ok by (cases "UpsertManagedAuthorizedKeyFile ''/h/.ssh/t'' ''/h'' auth_key_example fs_keys_example") auto
  have n: "node_at fs_keys_example ''/h/.ssh/authorized_keys'' = Some (Regular 384 (Some ''# a'') 5)" by code_simp
  from authorized_key_update_settles [OF r keys_example_path n _ keys_example_header] n r show ?thesis by auto
qed

text \<open>A commented-out managed line at the top of the file is counted with the header and removed, so the update puts
  the managed line after a line of the user's and the next update moves it: the two texts differ.\<close>

lemma commented_line_unsettled:
  "UpsertManagedAuthorizedKeyLine (joinAuthorizedKeyLines [''# '' @ key_Line auth_key_example, ''ssh-rsa AAAA''] False) auth_key_example =
     Inr (joinAuthorizedKeyLines [''ssh-rsa AAAA'', key_Line auth_key_example] False)"
  "UpsertManagedAuthorizedKeyLine (joinAuthorizedKeyLines [''ssh-rsa AAAA'', key_Line auth_key_example] False) auth_key_example =
     Inr (joinAuthorizedKeyLines [key_Line auth_key_example, ''ssh-rsa AAAA''] False)"
proof -
  have s: "splitAuthorizedKeyLines (joinAuthorizedKeyLines [''# '' @ key_Line auth_key_example, ''ssh-rsa AAAA''] False) =
      ([''# '' @ key_Line auth_key_example, ''ssh-rsa AAAA''], False)"
    "splitAuthorizedKeyLines (joinAuthorizedKeyLines [''ssh-rsa AAAA'', key_Line auth_key_example] False) =
      ([''ssh-rsa AAAA'', key_Line auth_key_example], False)" by code_simp+
  have h: "authorizedKeysHeaderLineCount [''# '' @ key_Line auth_key_example, ''ssh-rsa AAAA''] = 1"
    "authorizedKeysHeaderLineCount [''ssh-rsa AAAA'', key_Line auth_key_example] = 0" by code_simp+
  have u: "ParseManagedAuthorizedKeyMetadata ''ssh-rsa AAAA'' = Inr None"
    "\<not> authorizedKeyLineUsesPublicKey ''ssh-rsa AAAA'' managedKeyType (ak_PublicKey auth_key_example)" by code_simp+
  show "UpsertManagedAuthorizedKeyLine (joinAuthorizedKeyLines [''# '' @ key_Line auth_key_example, ''ssh-rsa AAAA''] False) auth_key_example =
     Inr (joinAuthorizedKeyLines [''ssh-rsa AAAA'', key_Line auth_key_example] False)"
    unfolding UpsertManagedAuthorizedKeyLine_def s prod.case upsert_lines.simps commented_parses [OF auth_key_example_ok] h
    using u by (simp add: auth_key_example_ok insertManagedAuthorizedKeyLine_def)
  show "UpsertManagedAuthorizedKeyLine (joinAuthorizedKeyLines [''ssh-rsa AAAA'', key_Line auth_key_example] False) auth_key_example =
     Inr (joinAuthorizedKeyLines [key_Line auth_key_example, ''ssh-rsa AAAA''] False)"
    unfolding UpsertManagedAuthorizedKeyLine_def s prod.case upsert_lines.simps key_Line_parses [OF auth_key_example_ok] h
    using u by (simp add: auth_key_example_ok insertManagedAuthorizedKeyLine_def)
qed

end
