(* ===== verification/Clipfan_SSHCommand.thy ===== *)
theory Clipfan_SSHCommand
  imports Clipfan_AuthKeys
begin

text \<open>
  The command lines the program starts: \<open>internal/sshprovision/ssh_command.go\<close> and \<open>ssh_server_mode.go\<close>. A
  command is the argument vector given to the operating system and its standard input. The last
  argument of an ssh command is a text that the remote host's shell splits again; \<open>sh_words\<close> is that shell's
  reading of quotes, and \<open>ssh_options\<close> is ssh's own reading of its arguments.
\<close>

section \<open>Server modes\<close>

definition SSHServerModeOpenSSH :: string where "SSHServerModeOpenSSH = []"
definition SSHServerModeTailscaleSSH :: string where "SSHServerModeTailscaleSSH = ''tailscale_ssh''"

definition NormalizeSSHServerMode :: "string \<Rightarrow> string res" where
  "NormalizeSSHServerMode value =
     (if trim_space value = SSHServerModeOpenSSH then Inr SSHServerModeOpenSSH
      else if trim_space value = SSHServerModeTailscaleSSH then Inr SSHServerModeTailscaleSSH
      else Inl (''invalid_ssh_server_mode: '' @ value))"

definition ProofVerifiedByForSSHServerMode :: "string \<Rightarrow> string" where
  "ProofVerifiedByForSSHServerMode mode =
     (if mode = SSHServerModeTailscaleSSH then ProofVerifiedByTailscaleSSH else ProofVerifiedByRegularSSH)"

section \<open>Specifications of commands\<close>

definition ErrInvalidPinnedSSHCommand :: string where "ErrInvalidPinnedSSHCommand = ''invalid_pinned_ssh_command''"
definition ErrInvalidRegularSSHCommand :: string where "ErrInvalidRegularSSHCommand = ''invalid_regular_ssh_command''"

definition SSHGatewayProbeCommand :: string where "SSHGatewayProbeCommand = ''probe-authorized-key''"
definition SSHGatewaySyncStreamCommand :: string where "SSHGatewaySyncStreamCommand = ''sync-stream''"
definition SSHGatewayFleetSnapshotCommand :: string where "SSHGatewayFleetSnapshotCommand = ''fleet-snapshot''"

record PinnedSSHCommand =
  pc_User :: string
  pc_Host :: string
  pc_Port :: int
  pc_PrivateKeyPath :: string
  pc_KnownHostsPath :: string
  pc_GatewayPath :: string
  pc_AuthorizedPeer :: string
  pc_AuthorizedKeyID :: string
  pc_DirectGateway :: bool

record SSHCommand =
  sc_Args :: "string list"
  sc_Stdin :: string

record SSHKeyscanSpec =
  ks_Host :: string
  ks_Port :: int
  ks_TimeoutSeconds :: int

record SSHConfigSpec =
  cs_User :: string
  cs_Host :: string
  cs_Port :: int

text \<open>The target that every regular specification starts with.\<close>

record ssh_target =
  rt_User :: string
  rt_Host :: string
  rt_Port :: int
  rt_KnownHostsPath :: string

record RegularSSHInstallAuthorizedKeySpec = ssh_target +
  ia_InstallPath :: string
  ia_GatewayPath :: string
  ia_PeerID :: string
  ia_KeyID :: string
  ia_PublicKey :: string

record RegularSSHEnsureSyncKeySpec = ssh_target +
  es_InstallPath :: string
  es_HostID :: string
  es_KeyPath :: string

record RegularSSHInstallKnownHostSpec = ssh_target +
  ik_InstallPath :: string
  ik_TargetKnownHostsPath :: string
  ik_TargetHost :: string
  ik_TargetPort :: int
  ik_KeyType :: string
  ik_PublicKey :: string

record RegularSSHRunProbeSpec = ssh_target +
  rp_InstallPath :: string
  rp_Probe :: PinnedSSHCommand
  rp_ExpectPeerID :: string
  rp_ExpectKeyID :: string

record RegularSSHRosterReadSpec = ssh_target +
  rr_InstallPath :: string

record RegularSSHShellSpec = ssh_target +
  sh_Script :: string

record RegularSSHApplyDirectConfigSpec = ssh_target +
  ad_InstallPath :: string
  ad_PayloadBase64 :: string

section \<open>Quoting\<close>

definition shellQuoteArg :: "string \<Rightarrow> string" where
  "shellQuoteArg arg =
     (if arg = [] then [CHR 0x27, CHR 0x27]
      else [CHR 0x27] @ replace_char (CHR 0x27) [CHR 0x27, CHR 0x5C, CHR 0x27, CHR 0x27] arg @ [CHR 0x27])"

definition shellQuoteCommand :: "string list \<Rightarrow> string" where
  "shellQuoteCommand args = join_with '' '' (map shellQuoteArg args)"

section \<open>Normalisation\<close>

definition ValidateSyncKeyPath :: "string \<Rightarrow> unit res" where
  "ValidateSyncKeyPath value = ValidateSafeAbsolutePath value"

definition valid_port :: "string \<Rightarrow> int \<Rightarrow> unit res" where
  "valid_port err port = require (\<not> (port < 1 \<or> port > 65535)) (err @ '': invalid port '' @ show_int port)"

definition normalizePinnedSSHCommand :: "PinnedSSHCommand \<Rightarrow> PinnedSSHCommand res" where
  "normalizePinnedSSHCommand spec =
     and_then (wrap_err (ErrInvalidPinnedSSHCommand @ '': invalid user'') (ValidateSSHUser (pc_User spec))) (\<lambda>_.
     and_then (wrap_err (ErrInvalidPinnedSSHCommand @ '': invalid host'') (CanonicalSSHHost (pc_Host spec))) (\<lambda>host.
     and_then (valid_port ErrInvalidPinnedSSHCommand (pc_Port spec)) (\<lambda>_.
     and_then (wrap_err (ErrInvalidPinnedSSHCommand @ '': invalid known hosts path'')
       (ValidateSSHExecutablePath (pc_KnownHostsPath spec))) (\<lambda>_.
     and_then (if pc_DirectGateway spec then
         and_then (wrap_err (ErrInvalidPinnedSSHCommand @ '': invalid gateway path'')
           (ValidateSSHExecutablePath (pc_GatewayPath spec))) (\<lambda>_.
         and_then (wrap_err (ErrInvalidPinnedSSHCommand @ '': invalid authorized peer'')
           (ValidateHostID (pc_AuthorizedPeer spec))) (\<lambda>_.
         wrap_err (ErrInvalidPinnedSSHCommand @ '': invalid authorized key id'')
           (ValidateManagedAuthorizedKeyID (pc_AuthorizedKeyID spec))))
       else wrap_err (ErrInvalidPinnedSSHCommand @ '': invalid private key path'')
              (ValidateSSHExecutablePath (pc_PrivateKeyPath spec))) (\<lambda>_.
     Inr (spec\<lparr>pc_Host := host\<rparr>))))))"

definition normalizeSSHKeyscanSpec :: "SSHKeyscanSpec \<Rightarrow> SSHKeyscanSpec res" where
  "normalizeSSHKeyscanSpec spec =
     and_then (wrap_err (ErrInvalidRegularSSHCommand @ '': invalid host'') (CanonicalSSHHost (ks_Host spec))) (\<lambda>host.
     and_then (valid_port ErrInvalidRegularSSHCommand (ks_Port spec)) (\<lambda>_.
     let timeout = (if ks_TimeoutSeconds spec = 0 then 5 else ks_TimeoutSeconds spec) in
     if timeout < 1 \<or> timeout > 60
     then Inl (ErrInvalidRegularSSHCommand @ '': invalid timeout '' @ show_int timeout)
     else Inr (spec\<lparr>ks_TimeoutSeconds := timeout, ks_Host := host\<rparr>)))"

definition normalizeSSHConfigSpec :: "SSHConfigSpec \<Rightarrow> SSHConfigSpec res" where
  "normalizeSSHConfigSpec spec =
     and_then (wrap_err (ErrInvalidRegularSSHCommand @ '': invalid user'') (ValidateSSHUser (cs_User spec))) (\<lambda>_.
     and_then (wrap_err (ErrInvalidRegularSSHCommand @ '': invalid host'') (CanonicalSSHHost (cs_Host spec))) (\<lambda>host.
     and_then (valid_port ErrInvalidRegularSSHCommand (cs_Port spec)) (\<lambda>_.
     Inr (spec\<lparr>cs_Host := host\<rparr>))))"

definition normalizeRegularSSHTarget :: "string \<Rightarrow> string \<Rightarrow> int \<Rightarrow> string \<Rightarrow> (string \<times> string) res" where
  "normalizeRegularSSHTarget user host port knownHostsPath =
     and_then (wrap_err (ErrInvalidRegularSSHCommand @ '': invalid user'') (ValidateSSHUser user)) (\<lambda>_.
     and_then (wrap_err (ErrInvalidRegularSSHCommand @ '': invalid host'') (CanonicalSSHHost host)) (\<lambda>canonicalHost.
     and_then (valid_port ErrInvalidRegularSSHCommand port) (\<lambda>_.
     and_then (wrap_err (ErrInvalidRegularSSHCommand @ '': invalid known hosts path'')
       (ValidateSSHExecutablePath knownHostsPath)) (\<lambda>_.
     Inr (user, canonicalHost)))))"

text \<open>The start that the seven \<open>normalizeRegularSSH...Spec\<close> functions have in common: the target, put back into the
  specification, and the install path.\<close>

definition normalize_target :: "'a ssh_target_scheme \<Rightarrow> 'a ssh_target_scheme res" where
  "normalize_target spec =
     and_then (normalizeRegularSSHTarget (rt_User spec) (rt_Host spec) (rt_Port spec) (rt_KnownHostsPath spec)) (\<lambda>(user, host).
     Inr (spec\<lparr>rt_User := user, rt_Host := host\<rparr>))"

definition valid_install_path :: "string \<Rightarrow> unit res" where
  "valid_install_path path =
     wrap_err (ErrInvalidRegularSSHCommand @ '': invalid install path'') (ValidateSSHExecutablePath path)"

definition normalizeRegularSSHInstallAuthorizedKeySpec ::
  "RegularSSHInstallAuthorizedKeySpec \<Rightarrow> RegularSSHInstallAuthorizedKeySpec res" where
  "normalizeRegularSSHInstallAuthorizedKeySpec spec =
     and_then (normalize_target spec) (\<lambda>normalized.
     and_then (valid_install_path (ia_InstallPath spec)) (\<lambda>_.
     and_then (wrap_err (ErrInvalidRegularSSHCommand @ '': invalid managed key'') (NewManagedAuthorizedKey
       \<lparr>ak_PeerID = ia_PeerID spec, ak_KeyID = ia_KeyID spec, ak_GatewayPath = ia_GatewayPath spec,
        ak_PublicKey = ia_PublicKey spec\<rparr>)) (\<lambda>_.
     Inr normalized)))"

definition normalizeRegularSSHEnsureSyncKeySpec :: "RegularSSHEnsureSyncKeySpec \<Rightarrow> RegularSSHEnsureSyncKeySpec res" where
  "normalizeRegularSSHEnsureSyncKeySpec spec =
     and_then (normalize_target spec) (\<lambda>normalized.
     and_then (valid_install_path (es_InstallPath spec)) (\<lambda>_.
     and_then (wrap_err (ErrInvalidRegularSSHCommand @ '': invalid host id'') (ValidateHostID (es_HostID spec))) (\<lambda>_.
     and_then (wrap_err (ErrInvalidRegularSSHCommand @ '': invalid key path'') (ValidateSyncKeyPath (es_KeyPath spec))) (\<lambda>_.
     Inr normalized))))"

definition normalizeRegularSSHInstallKnownHostSpec ::
  "RegularSSHInstallKnownHostSpec \<Rightarrow> (RegularSSHInstallKnownHostSpec \<times> KnownHostPin) res" where
  "normalizeRegularSSHInstallKnownHostSpec spec =
     and_then (normalize_target spec) (\<lambda>normalized.
     and_then (valid_install_path (ik_InstallPath spec)) (\<lambda>_.
     and_then (wrap_err (ErrInvalidRegularSSHCommand @ '': invalid target known hosts path'')
       (ValidateSSHExecutablePath (ik_TargetKnownHostsPath spec))) (\<lambda>_.
     and_then (wrap_err (ErrInvalidRegularSSHCommand @ '': invalid known host pin'')
       (NewKnownHostPin (ik_TargetHost spec) (ik_TargetPort spec) (ik_KeyType spec) (ik_PublicKey spec))) (\<lambda>pin.
     Inr (normalized\<lparr>ik_TargetHost :=
            trim_prefix (trim_suffix (kp_Pattern pin) ('']:'' @ show_int (ik_TargetPort spec))) ''[''\<rparr>, pin)))))"

definition normalizeRegularSSHRunProbeSpec :: "RegularSSHRunProbeSpec \<Rightarrow> RegularSSHRunProbeSpec res" where
  "normalizeRegularSSHRunProbeSpec spec =
     and_then (normalize_target spec) (\<lambda>normalized.
     and_then (valid_install_path (rp_InstallPath spec)) (\<lambda>_.
     and_then (wrap_err (ErrInvalidRegularSSHCommand @ '': invalid probe'') (normalizePinnedSSHCommand (rp_Probe spec))) (\<lambda>probe.
     and_then (wrap_err (ErrInvalidRegularSSHCommand @ '': invalid expected peer'') (ValidateHostID (rp_ExpectPeerID spec))) (\<lambda>_.
     and_then (wrap_err (ErrInvalidRegularSSHCommand @ '': invalid expected key id'')
       (ValidateManagedAuthorizedKeyID (rp_ExpectKeyID spec))) (\<lambda>_.
     Inr (normalized\<lparr>rp_Probe := probe\<rparr>))))))"

definition normalizeRegularSSHRosterReadSpec :: "RegularSSHRosterReadSpec \<Rightarrow> RegularSSHRosterReadSpec res" where
  "normalizeRegularSSHRosterReadSpec spec =
     and_then (normalize_target spec) (\<lambda>normalized.
     and_then (valid_install_path (rr_InstallPath spec)) (\<lambda>_.
     Inr normalized))"

definition payload_char :: "char \<Rightarrow> bool" where
  "payload_char r \<longleftrightarrow> upper_letter r \<or> lower_letter r \<or> is_digit r \<or> r \<in> {CHR 0x2B, CHR 0x2F, CHR 0x3D}"

definition validProvisionPayloadBase64 :: "string \<Rightarrow> bool" where
  "validProvisionPayloadBase64 value \<longleftrightarrow> value \<noteq> [] \<and> length value \<le> 128 * 1024 \<and> list_all payload_char value"

definition normalizeRegularSSHApplyDirectConfigSpec ::
  "RegularSSHApplyDirectConfigSpec \<Rightarrow> RegularSSHApplyDirectConfigSpec res" where
  "normalizeRegularSSHApplyDirectConfigSpec spec =
     and_then (normalize_target spec) (\<lambda>normalized.
     and_then (valid_install_path (ad_InstallPath spec)) (\<lambda>_.
     and_then (require (validProvisionPayloadBase64 (ad_PayloadBase64 spec))
       (ErrInvalidRegularSSHCommand @ '': invalid payload'')) (\<lambda>_.
     Inr normalized)))"

section \<open>Commands\<close>

definition ssh_option :: "string \<Rightarrow> string list" where
  "ssh_option value = [''-o'', value]"

text \<open>The options of the two pinned commands, up to the identity file.\<close>

definition pinned_options :: "string \<Rightarrow> string list" where
  "pinned_options knownHostsPath = [''-F'', ''/dev/null''] @ concat (map ssh_option
     [''BatchMode=yes'', ''IdentitiesOnly=yes'', ''IdentityFile=none'', ''IdentityAgent=none'', ''ConnectTimeout=5'',
      ''ConnectionAttempts=1'', ''StrictHostKeyChecking=yes'', ''UserKnownHostsFile='' @ knownHostsPath,
      ''GlobalKnownHostsFile=/dev/null'', ''ProxyCommand=none'', ''ProxyJump=none'', ''PermitLocalCommand=no'',
      ''RequestTTY=no'', ''ClearAllForwardings=yes'', ''LogLevel=ERROR''])"

definition directSSHGatewayCommand :: "PinnedSSHCommand \<Rightarrow> string \<Rightarrow> SSHCommand res" where
  "directSSHGatewayCommand normalized remoteCommand =
     (if remoteCommand \<notin> {SSHGatewayProbeCommand, SSHGatewaySyncStreamCommand, SSHGatewayFleetSnapshotCommand}
      then Inl (ErrInvalidPinnedSSHCommand @ '': invalid gateway command'')
      else Inr \<lparr>sc_Args = [''ssh''] @ pinned_options (pc_KnownHostsPath normalized) @
          [''-p'', show_int (pc_Port normalized), pc_User normalized @ ''@'' @ pc_Host normalized,
           shellQuoteCommand [pc_GatewayPath normalized, ''ssh-gateway'',
             ''--authorized-peer'', pc_AuthorizedPeer normalized,
             ''--authorized-key-id'', pc_AuthorizedKeyID normalized,
             ''--direct-command'', remoteCommand]],
         sc_Stdin = []\<rparr>)"

definition pinnedSSHGatewayCommand :: "PinnedSSHCommand \<Rightarrow> string \<Rightarrow> SSHCommand res" where
  "pinnedSSHGatewayCommand spec remoteCommand =
     and_then (normalizePinnedSSHCommand spec) (\<lambda>normalized.
     if pc_DirectGateway normalized then directSSHGatewayCommand normalized remoteCommand
     else Inr \<lparr>sc_Args = [''ssh''] @ pinned_options (pc_KnownHostsPath normalized) @
          [''-i'', pc_PrivateKeyPath normalized, ''-p'', show_int (pc_Port normalized),
           pc_User normalized @ ''@'' @ pc_Host normalized, remoteCommand],
         sc_Stdin = []\<rparr>)"

definition PinnedSSHProbeCommand :: "PinnedSSHCommand \<Rightarrow> SSHCommand res" where
  "PinnedSSHProbeCommand spec = pinnedSSHGatewayCommand spec SSHGatewayProbeCommand"

definition PinnedSSHSyncStreamCommand :: "PinnedSSHCommand \<Rightarrow> SSHCommand res" where
  "PinnedSSHSyncStreamCommand spec = pinnedSSHGatewayCommand spec SSHGatewaySyncStreamCommand"

definition PinnedSSHFleetSnapshotCommand :: "PinnedSSHCommand \<Rightarrow> SSHCommand res" where
  "PinnedSSHFleetSnapshotCommand spec = pinnedSSHGatewayCommand spec SSHGatewayFleetSnapshotCommand"

definition SSHKeyscanCommand :: "SSHKeyscanSpec \<Rightarrow> SSHCommand res" where
  "SSHKeyscanCommand spec =
     and_then (normalizeSSHKeyscanSpec spec) (\<lambda>normalized.
     Inr \<lparr>sc_Args = [''ssh-keyscan'', ''-T'', show_int (ks_TimeoutSeconds normalized),
           ''-p'', show_int (ks_Port normalized), ks_Host normalized], sc_Stdin = []\<rparr>)"

definition RegularSSHConfigCommand :: "SSHConfigSpec \<Rightarrow> SSHCommand res" where
  "RegularSSHConfigCommand spec =
     and_then (normalizeSSHConfigSpec spec) (\<lambda>normalized.
     Inr \<lparr>sc_Args = [''ssh'', ''-G'', ''-l'', cs_User normalized] @
           (if cs_Port normalized \<noteq> 22 then [''-p'', show_int (cs_Port normalized)] else []) @ [cs_Host normalized],
         sc_Stdin = []\<rparr>)"

definition appendRegularSSHPortArgs :: "string list \<Rightarrow> int \<Rightarrow> string list" where
  "appendRegularSSHPortArgs args port = (if port = 22 then args else args @ [''-p'', show_int port])"

text \<open>\<open>regularSSHRemoteSpec\<close> is a target and the arguments of the remote command.\<close>

definition regularSSHRemoteCommand :: "'a ssh_target_scheme \<Rightarrow> string list \<Rightarrow> SSHCommand" where
  "regularSSHRemoteCommand spec remoteArgs =
     \<lparr>sc_Args = appendRegularSSHPortArgs ([''ssh''] @ concat (map ssh_option
         [''BatchMode=yes'', ''StrictHostKeyChecking=yes'', ''UserKnownHostsFile='' @ rt_KnownHostsPath spec,
          ''GlobalKnownHostsFile=/dev/null'', ''PermitLocalCommand=no'', ''RequestTTY=no'',
          ''ClearAllForwardings=yes'', ''LogLevel=ERROR''])) (rt_Port spec) @
         [rt_User spec @ ''@'' @ rt_Host spec, shellQuoteCommand remoteArgs],
      sc_Stdin = []\<rparr>"

definition RegularSSHInstallAuthorizedKeyCommand :: "RegularSSHInstallAuthorizedKeySpec \<Rightarrow> SSHCommand res" where
  "RegularSSHInstallAuthorizedKeyCommand spec =
     and_then (normalizeRegularSSHInstallAuthorizedKeySpec spec) (\<lambda>normalized.
     Inr (regularSSHRemoteCommand normalized
       [ia_InstallPath normalized, ''ssh-install-authorized-key'', ''--peer'', ia_PeerID normalized,
        ''--key-id'', ia_KeyID normalized, ''--gateway-path'', ia_GatewayPath normalized,
        ''--public-key'', ia_PublicKey normalized]))"

definition RegularSSHEnsureSyncKeyCommand :: "RegularSSHEnsureSyncKeySpec \<Rightarrow> SSHCommand res" where
  "RegularSSHEnsureSyncKeyCommand spec =
     and_then (normalizeRegularSSHEnsureSyncKeySpec spec) (\<lambda>normalized.
     Inr (regularSSHRemoteCommand normalized
       [es_InstallPath normalized, ''ssh-ensure-sync-key'', ''--host-id'', es_HostID normalized,
        ''--key-path'', es_KeyPath normalized]))"

definition RegularSSHInstallKnownHostCommand :: "RegularSSHInstallKnownHostSpec \<Rightarrow> SSHCommand res" where
  "RegularSSHInstallKnownHostCommand spec =
     and_then (normalizeRegularSSHInstallKnownHostSpec spec) (\<lambda>(normalized, pin).
     Inr (regularSSHRemoteCommand normalized
       [ik_InstallPath normalized, ''ssh-install-known-host'', ''--known-hosts'', ik_TargetKnownHostsPath normalized,
        ''--host'', ik_TargetHost normalized, ''--port'', show_int (ik_TargetPort normalized),
        ''--key-type'', kp_KeyType pin, ''--public-key'', kp_PublicKey pin]))"

definition RegularSSHRunProbeCommand :: "RegularSSHRunProbeSpec \<Rightarrow> SSHCommand res" where
  "RegularSSHRunProbeCommand spec =
     and_then (normalizeRegularSSHRunProbeSpec spec) (\<lambda>normalized.
     let probe = rp_Probe normalized in
     Inr (regularSSHRemoteCommand normalized
       ([rp_InstallPath normalized, ''ssh-run-probe'', ''--user'', pc_User probe, ''--host'', pc_Host probe,
         ''--port'', show_int (pc_Port probe)] @
        (if pc_DirectGateway probe then [''--gateway-path'', pc_GatewayPath probe, ''--direct-gateway'']
         else [''--private-key'', pc_PrivateKeyPath probe]) @
        [''--known-hosts'', pc_KnownHostsPath probe, ''--expect-peer'', rp_ExpectPeerID normalized,
         ''--expect-key-id'', rp_ExpectKeyID normalized])))"

definition RegularSSHRosterReadCommand :: "RegularSSHRosterReadSpec \<Rightarrow> SSHCommand res" where
  "RegularSSHRosterReadCommand spec =
     and_then (normalizeRegularSSHRosterReadSpec spec) (\<lambda>normalized.
     Inr (regularSSHRemoteCommand normalized [rr_InstallPath normalized, ''roster-read'']))"

definition RegularSSHShellCommand :: "RegularSSHShellSpec \<Rightarrow> SSHCommand res" where
  "RegularSSHShellCommand spec =
     and_then (normalize_target spec) (\<lambda>normalized.
     if sh_Script spec = [] then Inl (ErrInvalidRegularSSHCommand @ '': empty script'')
     else Inr (regularSSHRemoteCommand normalized [''sh'', ''-c'', sh_Script spec]))"

definition RegularSSHApplyDirectConfigCommand :: "RegularSSHApplyDirectConfigSpec \<Rightarrow> SSHCommand res" where
  "RegularSSHApplyDirectConfigCommand spec =
     and_then (normalizeRegularSSHApplyDirectConfigSpec spec) (\<lambda>normalized.
     Inr ((regularSSHRemoteCommand normalized [ad_InstallPath normalized, ''ssh-apply-direct-config'', ''--payload-stdin''])
            \<lparr>sc_Stdin := ad_PayloadBase64 normalized\<rparr>))"

section \<open>Sync key material\<close>

record SyncKeyMetadata =
  km_Schema :: string
  km_HostID :: string
  km_KeyID :: string
  km_PublicKeySHA256 :: string
  km_PublicKey :: string
  km_CreatedAt :: string

record SyncKeyCreateResult =
  kr_PrivateKeyPath :: string
  kr_PublicKeyPath :: string
  kr_SidecarPath :: string
  kr_KeyID :: string
  kr_PublicKeySHA256 :: string
  kr_PublicKey :: string
  kr_Metadata :: SyncKeyMetadata

record SyncKeyMaterial =
  sm_PrivateKeyPath :: string
  sm_PublicKey :: string
  sm_KeyID :: string

definition syncKeyIDFromPublicBlob :: "bytes \<Rightarrow> string" where
  "syncKeyIDFromPublicBlob blob = hex_encode (take 8 (sha256 blob))"

definition validateSyncKeyMaterial :: "SyncKeyMaterial \<Rightarrow> unit res" where
  "validateSyncKeyMaterial key =
     and_then (wrap_err ''invalid sync private key path'' (ValidateSSHExecutablePath (sm_PrivateKeyPath key))) (\<lambda>_.
     and_then (ValidateManagedAuthorizedKeyID (sm_KeyID key)) (\<lambda>_.
     and_then (publicKeyType (sm_PublicKey key)) (\<lambda>keyType.
     require (keyType = managedKeyType) (ErrInvalidAuthorizedKey @ '': unsupported public key type''))))"

definition SyncKeyMaterialFromConfig :: "SyncKeyCreateResult \<Rightarrow> SyncKeyMaterial res" where
  "SyncKeyMaterialFromConfig result =
     (case str_fields (kr_PublicKey result) of
        f0 # f1 # _ \<Rightarrow>
          (if f0 \<noteq> managedKeyType then Inl (ErrInvalidAuthorizedKey @ '': invalid sync public key'')
           else and_then (wrap_err (ErrInvalidAuthorizedKey @ '': invalid sync public key'') (decodeKnownHostPublicKeyBlob f1)) (\<lambda>blob.
             let derivedKeyID = syncKeyIDFromPublicBlob blob in
             if kr_KeyID result \<noteq> [] \<and> kr_KeyID result \<noteq> derivedKeyID
             then Inl (ErrInvalidAuthorizedKey @ '': sync key id mismatch'')
             else let material = \<lparr>sm_PrivateKeyPath = kr_PrivateKeyPath result, sm_PublicKey = f1, sm_KeyID = derivedKeyID\<rparr>
             in and_then (validateSyncKeyMaterial material) (\<lambda>_. Inr material)))
      | _ \<Rightarrow> Inl (ErrInvalidAuthorizedKey @ '': invalid sync public key''))"

section \<open>What the shell reads\<close>

text \<open>A POSIX shell's splitting of a line into words: blanks separate, single quotes keep everything, a backslash
  keeps the next character. An unquoted character with any other meaning to the shell gives \<open>None\<close>.\<close>

definition sh_special :: "char \<Rightarrow> bool" where
  "sh_special c \<longleftrightarrow> c \<in> {CHR 0x0A, CHR 0x21, CHR 0x22, CHR 0x23, CHR 0x24, CHR 0x25, CHR 0x26, CHR 0x28, CHR 0x29, CHR 0x2A,
     CHR 0x3B, CHR 0x3C, CHR 0x3D, CHR 0x3E, CHR 0x3F, CHR 0x5B, CHR 0x60, CHR 0x7B, CHR 0x7C, CHR 0x7D, CHR 0x7E}"

definition so_far :: "string option \<Rightarrow> string" where
  "so_far word = (case word of None \<Rightarrow> [] | Some w \<Rightarrow> w)"

fun sh_lex :: "bool \<Rightarrow> string option \<Rightarrow> string \<Rightarrow> string list option" where
  "sh_lex quoted word [] =
     (if quoted then None else Some (case word of None \<Rightarrow> [] | Some w \<Rightarrow> [rev w]))"
| "sh_lex True word (c # cs) =
     (if c = CHR 0x27 then sh_lex False word cs else sh_lex True (Some (c # so_far word)) cs)"
| "sh_lex False word (c # cs) =
     (if c = CHR 0x27 then sh_lex True (Some (so_far word)) cs
      else if c = CHR 0x5C then
        (case cs of [] \<Rightarrow> None
         | d # ds \<Rightarrow> (if d = CHR 0x0A then None else sh_lex False (Some (d # so_far word)) ds))
      else if c = CHR 0x20 \<or> c = CHR 0x09 then
        (case word of None \<Rightarrow> sh_lex False None cs | Some w \<Rightarrow> map_option (Cons (rev w)) (sh_lex False None cs))
      else if sh_special c then None
      else sh_lex False (Some (c # so_far word)) cs)"

definition sh_words :: "string \<Rightarrow> string list option" where
  "sh_words line = sh_lex False None line"

lemma sh_lex_quoted:
  "sh_lex True (Some acc) (replace_char (CHR 0x27) [CHR 0x27, CHR 0x5C, CHR 0x27, CHR 0x27] s @ CHR 0x27 # rest) =
     sh_lex False (Some (rev s @ acc)) rest"
  by (induction s arbitrary: acc) (auto simp: replace_char_def so_far_def)

lemma sh_lex_arg: "sh_lex False None (shellQuoteArg arg @ rest) = sh_lex False (Some (rev arg)) rest"
  by (simp add: shellQuoteArg_def sh_lex_quoted so_far_def)

lemma sh_lex_command: "sh_lex False None (shellQuoteCommand args) = Some args"
proof (induction args rule: induct_list012)
  case (2 a)
  show ?case using sh_lex_arg [of a "[]"] by (simp add: shellQuoteCommand_def)
next
  case (3 a b args)
  have "shellQuoteCommand (a # b # args) = shellQuoteArg a @ CHR 0x20 # shellQuoteCommand (b # args)"
    by (simp add: shellQuoteCommand_def)
  then show ?case using 3 by (simp add: sh_lex_arg)
qed (simp add: shellQuoteCommand_def)

section \<open>What ssh reads\<close>

text \<open>The argument vector as ssh takes it apart: options up to the destination, options after it, and the command.
  \<open>ssh_setting\<close> is the value in force, the first one given.\<close>

definition ssh_takes_value :: "string \<Rightarrow> bool" where
  "ssh_takes_value a \<longleftrightarrow> a \<in> (\<lambda>c. [CHR ''-'', c]) ` set ''BbcDEeFIiJLlmOoPpQRSWw''"

fun ssh_options :: "string list \<Rightarrow> (string \<times> string) list \<times> string list" where
  "ssh_options [] = ([], [])"
| "ssh_options (a # as) =
     (if ssh_takes_value a then
        (case as of [] \<Rightarrow> ([(a, [])], []) | v # rest \<Rightarrow> (case ssh_options rest of (os, r) \<Rightarrow> ((a, v) # os, r)))
      else if has_prefix a ''-'' then (case ssh_options as of (os, r) \<Rightarrow> ((a, []) # os, r))
      else ([], a # as))"

definition ssh_parse :: "string list \<Rightarrow> ((string \<times> string) list \<times> string \<times> string list) option" where
  "ssh_parse args = (case ssh_options args of
     (os, []) \<Rightarrow> None
   | (os, dest # rest) \<Rightarrow> (case ssh_options rest of (os', command) \<Rightarrow> Some (os @ os', dest, command)))"

definition ssh_setting :: "string \<Rightarrow> (string \<times> string) list \<Rightarrow> string option" where
  "ssh_setting name opts = (case filter (\<lambda>(k, v). k = ''-o'' \<and> has_prefix v (name @ ''='')) opts of
     [] \<Rightarrow> None | (_, v) # _ \<Rightarrow> Some (drop (length name + 1) v))"

lemma user_no_dash: "ValidateSSHUser u = Inr () \<Longrightarrow> \<not> has_prefix (u @ rest) ''-''"
  by (cases u) (auto simp: ValidateSSHUser_def sshUserPattern_def has_prefix_def split: if_splits)

lemma no_dash_no_option: "\<not> has_prefix a ''-'' \<Longrightarrow> ssh_options (a # as) = ([], a # as)"
  by (auto simp: ssh_takes_value_def has_prefix_def)

lemma takes_value: "ssh_takes_value ''-o''" "ssh_takes_value ''-F''" "ssh_takes_value ''-i''" "ssh_takes_value ''-p''" "ssh_takes_value ''-l''"
  by code_simp+

lemma options_value:
  "ssh_takes_value a \<Longrightarrow> ssh_options (a # v # rest) = (case ssh_options rest of (os, r) \<Rightarrow> ((a, v) # os, r))"
  by simp

lemma options_o: "ssh_options (ssh_option v @ rest) = (case ssh_options rest of (os, r) \<Rightarrow> ((''-o'', v) # os, r))"
  by (simp add: ssh_option_def takes_value)

lemma options_all_o:
  "ssh_options (concat (map ssh_option vs) @ rest) = (case ssh_options rest of (os, r) \<Rightarrow> (map (Pair ''-o'') vs @ os, r))"
  by (induction vs) (auto simp: options_o split: prod.splits simp del: ssh_options.simps)

lemma setting_all_o:
  "ssh_setting name (map (Pair ''-o'') vs @ os) = (case filter (\<lambda>v. has_prefix v (name @ ''='')) vs of
     [] \<Rightarrow> ssh_setting name os | v # _ \<Rightarrow> Some (drop (length name + 1) v))"
proof -
  have "filter (\<lambda>(k, v). k = ''-o'' \<and> has_prefix v (name @ ''='')) (map (Pair ''-o'') vs) =
      map (Pair ''-o'') (filter (\<lambda>v. has_prefix v (name @ ''='')) vs)" by (induction vs) auto
  then show ?thesis by (cases "filter (\<lambda>v. has_prefix v (name @ ''='')) vs") (simp_all add: ssh_setting_def)
qed

lemma quoted_no_dash: "args \<noteq> [] \<Longrightarrow> \<not> has_prefix (shellQuoteCommand args) ''-''"
  by (induction args rule: induct_list012) (auto simp: shellQuoteCommand_def shellQuoteArg_def has_prefix_def)

text \<open>The keys of a host are checked against the pinned file alone.\<close>

definition checks_host_keys :: "string \<Rightarrow> (string \<times> string) list \<Rightarrow> bool" where
  "checks_host_keys knownHosts opts \<longleftrightarrow> ssh_setting ''StrictHostKeyChecking'' opts = Some ''yes'' \<and>
     ssh_setting ''UserKnownHostsFile'' opts = Some knownHosts \<and>
     ssh_setting ''GlobalKnownHostsFile'' opts = Some ''/dev/null'' \<and>
     ssh_setting ''BatchMode'' opts = Some ''yes'' \<and> ssh_setting ''PermitLocalCommand'' opts = Some ''no'' \<and>
     ssh_setting ''ClearAllForwardings'' opts = Some ''yes''"

lemma regular_parses:
  assumes "ValidateSSHUser (rt_User spec) = Inr ()" and "args \<noteq> []"
  shows "\<exists>opts. sc_Args (regularSSHRemoteCommand spec args) = ''ssh'' # tl (sc_Args (regularSSHRemoteCommand spec args)) \<and>
    ssh_parse (tl (sc_Args (regularSSHRemoteCommand spec args))) =
      Some (opts, rt_User spec @ ''@'' @ rt_Host spec, [shellQuoteCommand args]) \<and>
    checks_host_keys (rt_KnownHostsPath spec) opts \<and>
    (rt_Port spec = 22 \<or> (''-p'', show_int (rt_Port spec)) \<in> set opts)"
proof -
  let ?vs = "[''BatchMode=yes'', ''StrictHostKeyChecking=yes'', ''UserKnownHostsFile='' @ rt_KnownHostsPath spec,
          ''GlobalKnownHostsFile=/dev/null'', ''PermitLocalCommand=no'', ''RequestTTY=no'',
          ''ClearAllForwardings=yes'', ''LogLevel=ERROR'']"
  let ?p = "if rt_Port spec = 22 then [] else [(''-p'', show_int (rt_Port spec))]"
  let ?rest = "[rt_User spec @ ''@'' @ rt_Host spec, shellQuoteCommand args]"
  have e: "ssh_options ?rest = ([], ?rest)" by (rule no_dash_no_option [OF user_no_dash [OF assms(1)]])
  have c: "ssh_options [shellQuoteCommand args] = ([], [shellQuoteCommand args])"
    by (rule no_dash_no_option [OF quoted_no_dash [OF assms(2)]])
  have "tl (sc_Args (regularSSHRemoteCommand spec args)) =
      concat (map ssh_option ?vs) @ (if rt_Port spec = 22 then ?rest else ''-p'' # show_int (rt_Port spec) # ?rest)"
    by (simp add: regularSSHRemoteCommand_def appendRegularSSHPortArgs_def)
  moreover have "ssh_options (if rt_Port spec = 22 then ?rest else ''-p'' # show_int (rt_Port spec) # ?rest) = (?p, ?rest)"
    using e by (simp add: takes_value)
  ultimately have "ssh_options (tl (sc_Args (regularSSHRemoteCommand spec args))) = (map (Pair ''-o'') ?vs @ ?p, ?rest)"
    by (simp only: options_all_o prod.case)
  then have "ssh_parse (tl (sc_Args (regularSSHRemoteCommand spec args))) =
      Some (map (Pair ''-o'') ?vs @ ?p, rt_User spec @ ''@'' @ rt_Host spec, [shellQuoteCommand args])"
    using c by (simp add: ssh_parse_def del: ssh_options.simps)
  moreover have "checks_host_keys (rt_KnownHostsPath spec) (map (Pair ''-o'') ?vs @ ?p)"
    unfolding checks_host_keys_def setting_all_o by (simp add: has_prefix_def)
  moreover have "sc_Args (regularSSHRemoteCommand spec args) = ''ssh'' # tl (sc_Args (regularSSHRemoteCommand spec args))"
    by (simp add: regularSSHRemoteCommand_def appendRegularSSHPortArgs_def)
  ultimately show ?thesis by (intro exI [where x = "map (Pair ''-o'') ?vs @ ?p"]) auto
qed

definition gateway_commands :: "string list" where
  "gateway_commands = [SSHGatewayProbeCommand, SSHGatewaySyncStreamCommand, SSHGatewayFleetSnapshotCommand]"

lemma gateway_command_word:
  assumes "c \<in> set gateway_commands"
  shows "\<not> has_prefix c ''-''" and "sh_words c = Some [c]"
proof -
  have "list_all (\<lambda>c. \<not> has_prefix c ''-'' \<and> sh_words c = Some [c]) gateway_commands" by code_simp
  with assms show "\<not> has_prefix c ''-''" "sh_words c = Some [c]" by (auto simp: list_all_iff)
qed

text \<open>The pinned options in front of further options, a destination and a command.\<close>

lemma pinned_parses:
  assumes "\<not> has_prefix dest ''-''" and "\<not> has_prefix command ''-''" and "ssh_options (opts @ [dest, command]) = (more_opts, [dest, command])"
  shows "\<exists>os. ssh_parse (pinned_options kh @ opts @ [dest, command]) = Some (os, dest, [command]) \<and> checks_host_keys kh os \<and>
    ssh_setting ''IdentityAgent'' os = Some ''none'' \<and> ssh_setting ''ProxyCommand'' os = Some ''none'' \<and> set more_opts \<subseteq> set os"
proof -
  let ?vs = "[''BatchMode=yes'', ''IdentitiesOnly=yes'', ''IdentityFile=none'', ''IdentityAgent=none'', ''ConnectTimeout=5'',
      ''ConnectionAttempts=1'', ''StrictHostKeyChecking=yes'', ''UserKnownHostsFile='' @ kh,
      ''GlobalKnownHostsFile=/dev/null'', ''ProxyCommand=none'', ''ProxyJump=none'', ''PermitLocalCommand=no'',
      ''RequestTTY=no'', ''ClearAllForwardings=yes'', ''LogLevel=ERROR'']"
  let ?os = "(''-F'', ''/dev/null'') # map (Pair ''-o'') ?vs @ more_opts"
  have "ssh_options (pinned_options kh @ opts @ [dest, command]) = (?os, [dest, command])"
  proof -
    have "ssh_options (concat (map ssh_option ?vs) @ opts @ [dest, command]) = (map (Pair ''-o'') ?vs @ more_opts, [dest, command])"
      by (simp only: options_all_o assms(3) prod.case)
    then have "ssh_options (''-F'' # ''/dev/null'' # (concat (map ssh_option ?vs) @ opts @ [dest, command])) = (?os, [dest, command])"
      by (subst ssh_options.simps) (simp only: takes_value if_True list.case prod.case)
    then show ?thesis by (simp only: pinned_options_def append_Cons append_Nil append_assoc)
  qed
  then have "ssh_parse (pinned_options kh @ opts @ [dest, command]) = Some (?os, dest, [command])"
    using no_dash_no_option [OF assms(2), of "[]"] by (simp add: ssh_parse_def del: ssh_options.simps)
  moreover have F: "ssh_setting name ((''-F'', v) # os) = ssh_setting name os" for name v os by (simp add: ssh_setting_def)
  have "checks_host_keys kh ?os \<and> ssh_setting ''IdentityAgent'' ?os = Some ''none'' \<and> ssh_setting ''ProxyCommand'' ?os = Some ''none''"
    unfolding checks_host_keys_def F setting_all_o by (simp add: has_prefix_def)
  ultimately show ?thesis by (intro exI [where x = ?os]) auto
qed

text \<open>The host that a pin was made for is the canonical one.\<close>

lemma pin_target_host:
  assumes "NewKnownHostPin host port kt key = Inr pin"
  shows "\<exists>h. CanonicalSSHHost host = Inr h \<and>
    trim_prefix (trim_suffix (kp_Pattern pin) ('']:'' @ show_int port)) ''['' = h"
proof -
  from assms obtain h where h: "CanonicalSSHHost host = Inr h"
    and p: "kp_Pattern pin = (if port = 22 then h else ''['' @ h @ '']:'' @ show_int port)"
    by (auto simp: NewKnownHostPin_def KnownHostsPattern_def Let_def split: if_splits)
  have n: "CHR 0x5B \<notin> set h" "CHR 0x5D \<notin> set h"
    using CanonicalSSHHost_chars [OF h] by (auto simp: list_all_iff host_char_def lower_letter_def is_digit_def)
  show ?thesis
  proof (cases "port = 22")
    case True
    have "\<not> has_suffix h ('']:'' @ show_int port)" using n(2) by (auto simp: has_suffix_iff)
    moreover have "\<not> has_prefix h ''[''" using n(1) by (auto simp: has_prefix_iff)
    ultimately show ?thesis using True h p by (simp add: trim_suffix_def trim_prefix_def)
  next
    case False
    have "trim_suffix ((''['' @ h) @ ('']:'' @ show_int port)) ('']:'' @ show_int port) = ''['' @ h" by (rule trim_suffix_append)
    then have "trim_suffix (kp_Pattern pin) ('']:'' @ show_int port) = ''['' @ h" using False p by simp
    then show ?thesis using h by (simp add: trim_prefix_def has_prefix_def)
  qed
qed

section \<open>Requests\<close>

text \<open>What the program can ask ssh to do, how the code builds the command, the target it names, and the words the
  remote host is to run.\<close>

datatype ssh_request =
    GatewayProbe PinnedSSHCommand
  | GatewaySync PinnedSSHCommand
  | GatewayFleet PinnedSSHCommand
  | InstallKey RegularSSHInstallAuthorizedKeySpec
  | EnsureKey RegularSSHEnsureSyncKeySpec
  | InstallHost RegularSSHInstallKnownHostSpec
  | RunProbe RegularSSHRunProbeSpec
  | RosterRead RegularSSHRosterReadSpec
  | Shell RegularSSHShellSpec
  | ApplyConfig RegularSSHApplyDirectConfigSpec

fun ssh_build :: "ssh_request \<Rightarrow> SSHCommand res" where
  "ssh_build (GatewayProbe spec) = PinnedSSHProbeCommand spec"
| "ssh_build (GatewaySync spec) = PinnedSSHSyncStreamCommand spec"
| "ssh_build (GatewayFleet spec) = PinnedSSHFleetSnapshotCommand spec"
| "ssh_build (InstallKey spec) = RegularSSHInstallAuthorizedKeyCommand spec"
| "ssh_build (EnsureKey spec) = RegularSSHEnsureSyncKeyCommand spec"
| "ssh_build (InstallHost spec) = RegularSSHInstallKnownHostCommand spec"
| "ssh_build (RunProbe spec) = RegularSSHRunProbeCommand spec"
| "ssh_build (RosterRead spec) = RegularSSHRosterReadCommand spec"
| "ssh_build (Shell spec) = RegularSSHShellCommand spec"
| "ssh_build (ApplyConfig spec) = RegularSSHApplyDirectConfigCommand spec"

definition target_of :: "'a ssh_target_scheme \<Rightarrow> ssh_target" where
  "target_of spec = ssh_target.truncate spec"

definition pinned_target :: "PinnedSSHCommand \<Rightarrow> ssh_target" where
  "pinned_target spec =
     \<lparr>rt_User = pc_User spec, rt_Host = pc_Host spec, rt_Port = pc_Port spec, rt_KnownHostsPath = pc_KnownHostsPath spec\<rparr>"

fun ssh_request_target :: "ssh_request \<Rightarrow> ssh_target" where
  "ssh_request_target (GatewayProbe spec) = pinned_target spec"
| "ssh_request_target (GatewaySync spec) = pinned_target spec"
| "ssh_request_target (GatewayFleet spec) = pinned_target spec"
| "ssh_request_target (InstallKey spec) = target_of spec"
| "ssh_request_target (EnsureKey spec) = target_of spec"
| "ssh_request_target (InstallHost spec) = target_of spec"
| "ssh_request_target (RunProbe spec) = target_of spec"
| "ssh_request_target (RosterRead spec) = target_of spec"
| "ssh_request_target (Shell spec) = target_of spec"
| "ssh_request_target (ApplyConfig spec) = target_of spec"

definition canonical :: "string \<Rightarrow> string" where
  "canonical host = (case CanonicalSSHHost host of Inr h \<Rightarrow> h | Inl _ \<Rightarrow> [])"

definition gateway_words :: "PinnedSSHCommand \<Rightarrow> string \<Rightarrow> string list" where
  "gateway_words spec c =
     (if pc_DirectGateway spec then [pc_GatewayPath spec, ''ssh-gateway'', ''--authorized-peer'', pc_AuthorizedPeer spec,
        ''--authorized-key-id'', pc_AuthorizedKeyID spec, ''--direct-command'', c] else [c])"

fun ssh_request_words :: "ssh_request \<Rightarrow> string list" where
  "ssh_request_words (GatewayProbe spec) = gateway_words spec SSHGatewayProbeCommand"
| "ssh_request_words (GatewaySync spec) = gateway_words spec SSHGatewaySyncStreamCommand"
| "ssh_request_words (GatewayFleet spec) = gateway_words spec SSHGatewayFleetSnapshotCommand"
| "ssh_request_words (InstallKey spec) = [ia_InstallPath spec, ''ssh-install-authorized-key'', ''--peer'', ia_PeerID spec,
     ''--key-id'', ia_KeyID spec, ''--gateway-path'', ia_GatewayPath spec, ''--public-key'', ia_PublicKey spec]"
| "ssh_request_words (EnsureKey spec) = [es_InstallPath spec, ''ssh-ensure-sync-key'', ''--host-id'', es_HostID spec,
     ''--key-path'', es_KeyPath spec]"
| "ssh_request_words (InstallHost spec) = [ik_InstallPath spec, ''ssh-install-known-host'', ''--known-hosts'',
     ik_TargetKnownHostsPath spec, ''--host'', canonical (ik_TargetHost spec), ''--port'', show_int (ik_TargetPort spec),
     ''--key-type'', ik_KeyType spec, ''--public-key'', ik_PublicKey spec]"
| "ssh_request_words (RunProbe spec) = (let probe = rp_Probe spec in
     [rp_InstallPath spec, ''ssh-run-probe'', ''--user'', pc_User probe, ''--host'', canonical (pc_Host probe),
      ''--port'', show_int (pc_Port probe)] @
     (if pc_DirectGateway probe then [''--gateway-path'', pc_GatewayPath probe, ''--direct-gateway'']
      else [''--private-key'', pc_PrivateKeyPath probe]) @
     [''--known-hosts'', pc_KnownHostsPath probe, ''--expect-peer'', rp_ExpectPeerID spec, ''--expect-key-id'', rp_ExpectKeyID spec])"
| "ssh_request_words (RosterRead spec) = [rr_InstallPath spec, ''roster-read'']"
| "ssh_request_words (Shell spec) = [''sh'', ''-c'', sh_Script spec]"
| "ssh_request_words (ApplyConfig spec) = [ad_InstallPath spec, ''ssh-apply-direct-config'', ''--payload-stdin'']"

lemma normalize_target_Inr:
  "normalize_target spec = Inr n \<longleftrightarrow> (\<exists>host. CanonicalSSHHost (rt_Host spec) = Inr host \<and> n = spec\<lparr>rt_Host := host\<rparr> \<and>
     ValidateSSHUser (rt_User spec) = Inr () \<and> valid_port ErrInvalidRegularSSHCommand (rt_Port spec) = Inr () \<and>
     ValidateSSHExecutablePath (rt_KnownHostsPath spec) = Inr ())"
  by (auto simp: normalize_target_def normalizeRegularSSHTarget_def)

lemma target_of_simps [simp]:
  "rt_User (target_of spec) = rt_User spec" "rt_Host (target_of spec) = rt_Host spec"
  "rt_Port (target_of spec) = rt_Port spec" "rt_KnownHostsPath (target_of spec) = rt_KnownHostsPath spec"
  by (simp_all add: target_of_def ssh_target.defs)

lemma canonical_Inr: "CanonicalSSHHost host = Inr h \<Longrightarrow> canonical host = h"
  by (simp add: canonical_def)

text \<open>Every regular command is a remote command for a normalised target.\<close>

definition runs_regular :: "ssh_request \<Rightarrow> SSHCommand \<Rightarrow> bool" where
  "runs_regular req cmd \<longleftrightarrow> (\<exists>host. CanonicalSSHHost (rt_Host (ssh_request_target req)) = Inr host \<and>
     ValidateSSHUser (rt_User (ssh_request_target req)) = Inr () \<and>
     sc_Args cmd = sc_Args (regularSSHRemoteCommand ((ssh_request_target req)\<lparr>rt_Host := host\<rparr>) (ssh_request_words req)))"

lemma regular_args_cong:
  assumes "rt_User a = rt_User b" "rt_Host a = rt_Host b" "rt_Port a = rt_Port b" "rt_KnownHostsPath a = rt_KnownHostsPath b"
  shows "sc_Args (regularSSHRemoteCommand a ws) = sc_Args (regularSSHRemoteCommand b ws)"
  using assms by (simp add: regularSSHRemoteCommand_def)

lemma runs_regularI:
  assumes "normalize_target spec = Inr n" and "ssh_request_target req = target_of spec" and "words = ssh_request_words req"
    and "sc_Args cmd = sc_Args (regularSSHRemoteCommand n words)"
  shows "runs_regular req cmd"
proof -
  from assms(1) obtain host where h: "CanonicalSSHHost (rt_Host spec) = Inr host" and n: "n = spec\<lparr>rt_Host := host\<rparr>"
    and u: "ValidateSSHUser (rt_User spec) = Inr ()" by (auto simp: normalize_target_Inr)
  have "sc_Args (regularSSHRemoteCommand n words) =
      sc_Args (regularSSHRemoteCommand ((target_of spec)\<lparr>rt_Host := host\<rparr>) words)"
    by (rule regular_args_cong) (simp_all add: n)
  with h u assms show ?thesis by (auto simp: runs_regular_def)
qed

lemma normalize_pinned_Inr:
  assumes "normalizePinnedSSHCommand spec = Inr n"
  shows "\<exists>h. CanonicalSSHHost (pc_Host spec) = Inr h \<and> n = spec\<lparr>pc_Host := h\<rparr> \<and> ValidateSSHUser (pc_User spec) = Inr ()"
  using assms by (auto simp: normalizePinnedSSHCommand_def)

lemma built_regular:
  assumes "ssh_build req = Inr cmd" and "\<And>spec. req \<noteq> GatewayProbe spec \<and> req \<noteq> GatewaySync spec \<and> req \<noteq> GatewayFleet spec"
  shows "runs_regular req cmd"
proof (cases req)
  case (InstallKey spec)
  with assms show ?thesis
    by (auto simp: RegularSSHInstallAuthorizedKeyCommand_def normalizeRegularSSHInstallAuthorizedKeySpec_def normalize_target_Inr
        intro!: runs_regularI [where spec = spec])
next
  case (EnsureKey spec)
  with assms show ?thesis
    by (auto simp: RegularSSHEnsureSyncKeyCommand_def normalizeRegularSSHEnsureSyncKeySpec_def normalize_target_Inr
        intro!: runs_regularI [where spec = spec])
next
  case (InstallHost spec)
  with assms(1) obtain n pin where n: "normalize_target spec = Inr n"
    and pin: "NewKnownHostPin (ik_TargetHost spec) (ik_TargetPort spec) (ik_KeyType spec) (ik_PublicKey spec) = Inr pin"
    and c: "cmd = regularSSHRemoteCommand n [ik_InstallPath n, ''ssh-install-known-host'', ''--known-hosts'', ik_TargetKnownHostsPath n,
        ''--host'', trim_prefix (trim_suffix (kp_Pattern pin) ('']:'' @ show_int (ik_TargetPort spec))) ''['',
        ''--port'', show_int (ik_TargetPort n), ''--key-type'', kp_KeyType pin, ''--public-key'', kp_PublicKey pin]"
    by (auto simp: RegularSSHInstallKnownHostCommand_def normalizeRegularSSHInstallKnownHostSpec_def regularSSHRemoteCommand_def)
  have "kp_KeyType pin = ik_KeyType spec" "kp_PublicKey pin = ik_PublicKey spec"
    using pin by (auto simp: NewKnownHostPin_def Let_def)
  then show ?thesis using InstallHost n c pin_target_host [OF pin]
    by (intro runs_regularI [OF n]) (auto simp: normalize_target_Inr canonical_def)
next
  case (RunProbe spec)
  with assms(1) obtain n p where n: "normalize_target spec = Inr n" and p: "normalizePinnedSSHCommand (rp_Probe spec) = Inr p"
    and c: "RegularSSHRunProbeCommand spec = Inr cmd" "normalizeRegularSSHRunProbeSpec spec = Inr (n\<lparr>rp_Probe := p\<rparr>)"
    by (auto simp: RegularSSHRunProbeCommand_def normalizeRegularSSHRunProbeSpec_def)
  from normalize_pinned_Inr [OF p] n c RunProbe show ?thesis
    by (intro runs_regularI [OF n])
      (auto simp: RegularSSHRunProbeCommand_def normalize_target_Inr canonical_def Let_def regularSSHRemoteCommand_def)
next
  case (RosterRead spec)
  with assms show ?thesis
    by (auto simp: RegularSSHRosterReadCommand_def normalizeRegularSSHRosterReadSpec_def normalize_target_Inr
        intro!: runs_regularI [where spec = spec])
next
  case (Shell spec)
  with assms show ?thesis
    by (auto simp: RegularSSHShellCommand_def normalize_target_Inr split: if_splits intro!: runs_regularI [where spec = spec])
next
  case (ApplyConfig spec)
  with assms show ?thesis
    by (auto simp: RegularSSHApplyDirectConfigCommand_def normalizeRegularSSHApplyDirectConfigSpec_def normalize_target_Inr
        intro!: runs_regularI [where spec = spec])
qed (use assms(2) in simp_all)

text \<open>A command that names its destination, checks the host's keys against the pinned file, and hands the remote
  shell exactly the given words.\<close>

definition runs_exactly :: "SSHCommand \<Rightarrow> ssh_target \<Rightarrow> string list \<Rightarrow> bool" where
  "runs_exactly cmd target ws \<longleftrightarrow> (\<exists>opts host remote.
     sc_Args cmd = ''ssh'' # tl (sc_Args cmd) \<and>
     ssh_parse (tl (sc_Args cmd)) = Some (opts, rt_User target @ ''@'' @ host, [remote]) \<and>
     CanonicalSSHHost (rt_Host target) = Inr host \<and>
     checks_host_keys (rt_KnownHostsPath target) opts \<and>
     (rt_Port target = 22 \<or> (''-p'', show_int (rt_Port target)) \<in> set opts) \<and>
     sh_words remote = Some ws)"

lemma regular_exactly:
  assumes "runs_regular req cmd" and "ssh_request_words req \<noteq> []"
  shows "runs_exactly cmd (ssh_request_target req) (ssh_request_words req)"
proof -
  let ?t = "ssh_request_target req"
  from assms(1) obtain host where h: "CanonicalSSHHost (rt_Host ?t) = Inr host" and u: "ValidateSSHUser (rt_User ?t) = Inr ()"
    and c: "sc_Args cmd = sc_Args (regularSSHRemoteCommand (?t\<lparr>rt_Host := host\<rparr>) (ssh_request_words req))"
    by (auto simp: runs_regular_def)
  have "ValidateSSHUser (rt_User (?t\<lparr>rt_Host := host\<rparr>)) = Inr ()" using u by simp
  from regular_parses [OF this assms(2)] obtain opts where
    o: "sc_Args cmd = ''ssh'' # tl (sc_Args cmd)"
      "ssh_parse (tl (sc_Args cmd)) = Some (opts, rt_User ?t @ ''@'' @ host, [shellQuoteCommand (ssh_request_words req)])"
      "checks_host_keys (rt_KnownHostsPath ?t) opts" "rt_Port ?t = 22 \<or> (''-p'', show_int (rt_Port ?t)) \<in> set opts"
    by (auto simp: c)
  moreover have "sh_words (shellQuoteCommand (ssh_request_words req)) = Some (ssh_request_words req)"
    by (simp add: sh_words_def sh_lex_command)
  ultimately show ?thesis using h unfolding runs_exactly_def by blast
qed

lemma pinned_exactly:
  assumes "pinnedSSHGatewayCommand spec c = Inr cmd" and c: "c \<in> set gateway_commands"
  shows "runs_exactly cmd (pinned_target spec) (gateway_words spec c)"
proof -
  from assms(1) obtain n where n: "normalizePinnedSSHCommand spec = Inr n"
    and b: "(if pc_DirectGateway n then directSSHGatewayCommand n c
       else Inr \<lparr>sc_Args = [''ssh''] @ pinned_options (pc_KnownHostsPath n) @
          [''-i'', pc_PrivateKeyPath n, ''-p'', show_int (pc_Port n), pc_User n @ ''@'' @ pc_Host n, c], sc_Stdin = []\<rparr>) = Inr cmd"
    by (auto simp: pinnedSSHGatewayCommand_def)
  from normalize_pinned_Inr [OF n] obtain h where h: "CanonicalSSHHost (pc_Host spec) = Inr h" and nn: "n = spec\<lparr>pc_Host := h\<rparr>"
    and u: "ValidateSSHUser (pc_User spec) = Inr ()" by blast
  let ?d = "pc_User spec @ ''@'' @ h" and ?q = "shellQuoteCommand (gateway_words spec c)"
  let ?opts = "if pc_DirectGateway spec then [''-p'', show_int (pc_Port spec)]
       else [''-i'', pc_PrivateKeyPath spec, ''-p'', show_int (pc_Port spec)]"
  let ?cmd = "if pc_DirectGateway spec then ?q else c"
  have args: "sc_Args cmd = ''ssh'' # pinned_options (pc_KnownHostsPath spec) @ ?opts @ [?d, ?cmd]"
    using b by (auto simp: nn directSSHGatewayCommand_def gateway_words_def split: if_splits)
  have d: "\<not> has_prefix ?d ''-''" by (rule user_no_dash [OF u])
  have "gateway_words spec c \<noteq> []" by (simp add: gateway_words_def)
  then have q: "\<not> has_prefix ?cmd ''-''" using gateway_command_word(1) [OF c] quoted_no_dash by simp
  have "ssh_options [?d, ?cmd] = ([], [?d, ?cmd])" by (rule no_dash_no_option [OF d])
  then have "\<exists>os. ssh_options (?opts @ [?d, ?cmd]) = (os, [?d, ?cmd]) \<and> (''-p'', show_int (pc_Port spec)) \<in> set os"
    by (auto simp: options_value takes_value simp del: ssh_options.simps)
  then obtain os where os: "ssh_options (?opts @ [?d, ?cmd]) = (os, [?d, ?cmd])" "(''-p'', show_int (pc_Port spec)) \<in> set os" by blast
  from pinned_parses [OF d q os(1), of "pc_KnownHostsPath spec"] os(2) obtain all where
    "ssh_parse (tl (sc_Args cmd)) = Some (all, ?d, [?cmd])" "checks_host_keys (pc_KnownHostsPath spec) all"
    "(''-p'', show_int (pc_Port spec)) \<in> set all" using args by auto
  moreover have "sh_words ?cmd = Some (gateway_words spec c)"
    using gateway_command_word(2) [OF c] by (simp add: sh_words_def sh_lex_command gateway_words_def)
  ultimately show ?thesis using h args unfolding runs_exactly_def pinned_target_def by auto
qed

section \<open>Properties\<close>

text \<open>C20. Whatever the arguments hold, quotes and newlines included, the remote shell splits the quoted command back
  into exactly these arguments.\<close>

theorem shell_quote_roundtrip: "sh_words (shellQuoteCommand args) = Some args"
  by (simp add: sh_words_def sh_lex_command)

text \<open>C18. Every ssh command the program builds does what was asked and nothing else: ssh takes the user and the
  canonical host for its destination and none of the data for an option, checks the host's key strictly against the
  given file and no other, and the remote shell runs exactly the words of the request.\<close>

theorem ssh_command_exact:
  assumes "ssh_build req = Inr cmd"
  shows "runs_exactly cmd (ssh_request_target req) (ssh_request_words req)"
proof (cases "\<exists>spec. req = GatewayProbe spec \<or> req = GatewaySync spec \<or> req = GatewayFleet spec")
  case True
  then show ?thesis using assms
    by (auto simp: PinnedSSHProbeCommand_def PinnedSSHSyncStreamCommand_def PinnedSSHFleetSnapshotCommand_def gateway_commands_def
        intro!: pinned_exactly)
next
  case False
  then have "runs_regular req cmd" by (intro built_regular [OF assms]) blast
  moreover have "ssh_request_words req \<noteq> []" using False by (cases req) (auto simp: Let_def)
  ultimately show ?thesis by (rule regular_exactly)
qed

definition roster_example :: RegularSSHRosterReadSpec where
  "roster_example = \<lparr>rt_User = ''u'', rt_Host = ''h'', rt_Port = 22, rt_KnownHostsPath = ''/k'', rr_InstallPath = ''/b''\<rparr>"

lemma roster_example_builds: "\<not> isl (ssh_build (RosterRead roster_example))"
  by code_simp

theorem ssh_command_exact_witness:
  "\<exists>cmd. ssh_build (RosterRead roster_example) = Inr cmd \<and> runs_exactly cmd (target_of roster_example) [''/b'', ''roster-read'']"
proof -
  obtain cmd where c: "ssh_build (RosterRead roster_example) = Inr cmd"
    using roster_example_builds by (cases "ssh_build (RosterRead roster_example)") auto
  from ssh_command_exact [OF c] c show ?thesis by (auto simp: roster_example_def)
qed

end
