(* ===== verification/Clipfan_Pair.thy ===== *)
theory Clipfan_Pair
  imports Clipfan_SSHCommand
begin

text \<open>
  Provisioning a pair of hosts: \<open>internal/sshprovision/pair_plan.go\<close> and \<open>pair_executor.go\<close>. A plan names the
  connecting and the accepting host, the steps and the two configuration entries; the executor runs the steps
  through a driver. The driver is an interface of the code; here it is a record of functions on a world of any
  type, each of which may fail, so that a theorem about the executor holds for every driver.
\<close>

section \<open>Plans\<close>

record DirectPairHost =
  dh_ID :: string
  dh_SSHHost :: string
  dh_SSHUser :: string
  dh_SSHPort :: int
  dh_InstallPath :: string
  dh_GatewayPath :: string
  dh_SSHServerMode :: string

record DirectPairPlanInput =
  pi_Local :: DirectPairHost
  pi_Remote :: DirectPairHost

datatype DirectPairStepKind =
    StepConfirmHostKey | StepUpsertKnownHostPin | StepEnsureConnectorSyncKey | StepInstallAcceptorAuthorizedKey
  | StepProbeForcedCommand | StepWriteConnectorPeerConfig | StepWriteAcceptorPeerConfig | StepPatchDirectionalProofs
  | StepTransitionSSHMaterialStaged | StepTransitionSSHKeysReady

record DirectPairStep =
  st_Kind :: DirectPairStepKind
  st_ConfigWrite :: bool

record DirectPairConfigWrite =
  cw_TargetHostID :: string
  cw_PeerID :: string
  cw_SSHHost :: string
  cw_SSHUser :: string
  cw_SSHPort :: int
  cw_InstallPath :: string
  cw_GatewayPath :: string
  cw_TargetGatewayPath :: string
  cw_Enabled :: bool
  cw_Accept :: bool
  cw_Connect :: bool
  cw_Persistent :: bool
  cw_OnDemand :: bool
  cw_MigrationState :: string
  cw_AcceptVerifiedBy :: string
  cw_ConnectVerifiedBy :: string

record DirectPairPlan =
  pp_PairID :: string
  pp_ConnectHostID :: string
  pp_AcceptHostID :: string
  pp_Steps :: "DirectPairStep list"
  pp_ConfigWrites :: "DirectPairConfigWrite list"

record DirectMeshPlan =
  mp_Pairs :: "DirectPairPlan list"

definition normalizeDirectPairHost :: "DirectPairHost \<Rightarrow> DirectPairHost res" where
  "normalizeDirectPairHost host =
     and_then (ValidateHostID (dh_ID host)) (\<lambda>_.
     and_then (wrap_err ''invalid ssh host'' (CanonicalSSHHost (dh_SSHHost host))) (\<lambda>sshHost.
     and_then (wrap_err ''invalid ssh user'' (ValidateSSHUser (dh_SSHUser host))) (\<lambda>_.
     and_then (require (\<not> (dh_SSHPort host < 1 \<or> dh_SSHPort host > 65535)) (''invalid ssh port: '' @ show_int (dh_SSHPort host))) (\<lambda>_.
     and_then (wrap_err ''invalid install path'' (ValidateSSHExecutablePath (dh_InstallPath host))) (\<lambda>_.
     and_then (wrap_err ''invalid gateway path'' (ValidateSSHExecutablePath (dh_GatewayPath host))) (\<lambda>_.
     and_then (NormalizeSSHServerMode (dh_SSHServerMode host)) (\<lambda>mode.
     Inr (host\<lparr>dh_SSHHost := sshHost, dh_SSHServerMode := mode\<rparr>))))))))"

definition reciprocalPeerConfigWrite :: "DirectPairHost \<Rightarrow> DirectPairHost \<Rightarrow> DirectPairConfigWrite" where
  "reciprocalPeerConfigWrite target peer =
     \<lparr>cw_TargetHostID = dh_ID target, cw_PeerID = dh_ID peer, cw_SSHHost = dh_SSHHost peer, cw_SSHUser = dh_SSHUser peer,
      cw_SSHPort = dh_SSHPort peer, cw_InstallPath = dh_InstallPath peer, cw_GatewayPath = dh_GatewayPath peer,
      cw_TargetGatewayPath = dh_GatewayPath target, cw_Enabled = True, cw_Accept = True, cw_Connect = True,
      cw_Persistent = True, cw_OnDemand = False, cw_MigrationState = MigrationStateLoopbackUnprovisioned,
      cw_AcceptVerifiedBy = ProofVerifiedByForSSHServerMode (dh_SSHServerMode target),
      cw_ConnectVerifiedBy = ProofVerifiedByForSSHServerMode (dh_SSHServerMode peer)\<rparr>"

definition plan_steps :: "DirectPairStep list" where
  "plan_steps = map (\<lambda>k. \<lparr>st_Kind = k, st_ConfigWrite = False\<rparr>)
       [StepConfirmHostKey, StepUpsertKnownHostPin, StepEnsureConnectorSyncKey, StepInstallAcceptorAuthorizedKey,
        StepProbeForcedCommand] @
     map (\<lambda>k. \<lparr>st_Kind = k, st_ConfigWrite = True\<rparr>)
       [StepWriteConnectorPeerConfig, StepWriteAcceptorPeerConfig, StepPatchDirectionalProofs,
        StepTransitionSSHMaterialStaged, StepTransitionSSHKeysReady]"

definition BuildDirectPairPlan :: "DirectPairPlanInput \<Rightarrow> DirectPairPlan res" where
  "BuildDirectPairPlan input =
     and_then (wrap_err ''invalid local host'' (normalizeDirectPairHost (pi_Local input))) (\<lambda>local.
     and_then (wrap_err ''invalid remote host'' (normalizeDirectPairHost (pi_Remote input))) (\<lambda>remote.
     if dh_ID local = dh_ID remote then Inl (''duplicate host id: '' @ dh_ID local)
     else let (connector, acceptor) = (if dh_ID remote < dh_ID local then (remote, local) else (local, remote)) in
       Inr \<lparr>pp_PairID = dh_ID connector @ ''--'' @ dh_ID acceptor, pp_ConnectHostID = dh_ID connector,
            pp_AcceptHostID = dh_ID acceptor, pp_Steps = plan_steps,
            pp_ConfigWrites = [reciprocalPeerConfigWrite connector acceptor, reciprocalPeerConfigWrite acceptor connector]\<rparr>))"

text \<open>The three loops of \<open>BuildDirectMeshPlan\<close>: normalising with the index for the message, looking for equal
  neighbours, and the pairs.\<close>

fun normalize_hosts :: "nat \<Rightarrow> DirectPairHost list \<Rightarrow> DirectPairHost list res" where
  "normalize_hosts i [] = Inr []"
| "normalize_hosts i (host # hosts) =
     and_then (wrap_err (''invalid host '' @ show_nat i) (normalizeDirectPairHost host)) (\<lambda>h.
     and_then (normalize_hosts (Suc i) hosts) (\<lambda>hs. Inr (h # hs)))"

fun no_equal_neighbours :: "DirectPairHost list \<Rightarrow> unit res" where
  "no_equal_neighbours (a # b # hs) =
     (if dh_ID a = dh_ID b then Inl (''duplicate host id: '' @ dh_ID b) else no_equal_neighbours (b # hs))"
| "no_equal_neighbours _ = Inr ()"

fun pair_with :: "DirectPairHost \<Rightarrow> DirectPairHost list \<Rightarrow> DirectPairPlan list res" where
  "pair_with a [] = Inr []"
| "pair_with a (b # hs) =
     and_then (BuildDirectPairPlan \<lparr>pi_Local = a, pi_Remote = b\<rparr>) (\<lambda>plan.
     and_then (pair_with a hs) (\<lambda>plans. Inr (plan # plans)))"

fun mesh_pairs :: "DirectPairHost list \<Rightarrow> DirectPairPlan list res" where
  "mesh_pairs [] = Inr []"
| "mesh_pairs (a # hs) = and_then (pair_with a hs) (\<lambda>ps. and_then (mesh_pairs hs) (\<lambda>qs. Inr (ps @ qs)))"

definition BuildDirectMeshPlan :: "DirectPairHost list \<Rightarrow> DirectMeshPlan res" where
  "BuildDirectMeshPlan hosts =
     and_then (normalize_hosts 0 hosts) (\<lambda>ns.
     let sorted_hosts = sort_key dh_ID ns in
     and_then (no_equal_neighbours sorted_hosts) (\<lambda>_.
     and_then (mesh_pairs sorted_hosts) (\<lambda>pairs. Inr \<lparr>mp_Pairs = pairs\<rparr>)))"

section \<open>The executor\<close>

definition ErrDirectPairProvisionerNotReady :: string where
  "ErrDirectPairProvisionerNotReady = ''direct_pair_provisioner_not_ready''"

record DirectPairProvisionHost =
  ph_Host :: DirectPairHost
  ph_AdminHost :: DirectPairHost
  ph_KnownHostsPath :: string
  ph_SyncKeyPath :: string

record DirectPairProvisionInput =
  pv_Local :: DirectPairProvisionHost
  pv_Remote :: DirectPairProvisionHost
  pv_SharedKey :: string

record DirectPairConfigMutation =
  cm_Plan :: DirectPairPlan
  cm_Writes :: "DirectPairConfigWrite list"
  cm_SharedKey :: string
  cm_SyncKeys :: "(string \<times> SyncKeyMaterial) list"
  cm_KnownHostsPaths :: "(string \<times> string) list"
  cm_ConnectorSyncKey :: SyncKeyMaterial
  cm_ConnectorKnownHostsPath :: string

record DirectPairProvisionResult =
  ps_Plan :: DirectPairPlan
  ps_CompletedSteps :: "DirectPairStepKind list"
  ps_ConfigWrites :: "DirectPairConfigWrite list"
  ps_KnownHostPins :: "(string \<times> KnownHostPin) list"
  ps_KnownHostPin :: KnownHostPin
  ps_SyncKeys :: "(string \<times> SyncKeyMaterial) list"
  ps_ConnectorSyncKey :: SyncKeyMaterial

record 'w DirectPairProvisionDriver =
  dv_ConfirmHostKey :: "DirectPairHost \<Rightarrow> 'w \<Rightarrow> string res \<times> 'w"
  dv_UpsertKnownHostPin :: "DirectPairHost \<Rightarrow> DirectPairHost \<Rightarrow> string \<Rightarrow> KnownHostPin \<Rightarrow> 'w \<Rightarrow> unit res \<times> 'w"
  dv_EnsureSyncKey :: "DirectPairProvisionHost \<Rightarrow> 'w \<Rightarrow> SyncKeyMaterial res \<times> 'w"
  dv_InstallAuthorizedKey :: "DirectPairHost \<Rightarrow> ManagedAuthorizedKey \<Rightarrow> 'w \<Rightarrow> unit res \<times> 'w"
  dv_RunProbe :: "PinnedSSHCommand \<Rightarrow> DirectPairProvisionHost \<Rightarrow> string \<Rightarrow> string \<Rightarrow> 'w \<Rightarrow> unit res \<times> 'w"
  dv_WriteConfig :: "DirectPairConfigMutation \<Rightarrow> 'w \<Rightarrow> unit res \<times> 'w"

record directPairProvisionDirection =
  dd_source :: DirectPairProvisionHost
  dd_target :: DirectPairProvisionHost

definition normalizeDirectPairProvisionHost :: "DirectPairProvisionHost \<Rightarrow> DirectPairProvisionHost res" where
  "normalizeDirectPairProvisionHost host =
     and_then (normalizeDirectPairHost (ph_Host host)) (\<lambda>normalizedHost.
     and_then (if dh_ID (ph_AdminHost host) \<noteq> [] then
         and_then (wrap_err ''invalid admin host'' (normalizeDirectPairHost (ph_AdminHost host))) (\<lambda>admin.
         if dh_ID admin \<noteq> dh_ID normalizedHost then Inl (''admin host id mismatch: '' @ dh_ID normalizedHost) else Inr admin)
       else Inr normalizedHost) (\<lambda>normalizedAdminHost.
     and_then (wrap_err ''invalid known_hosts path'' (ValidateSSHExecutablePath (ph_KnownHostsPath host))) (\<lambda>_.
     and_then (wrap_err ''invalid sync key path'' (ValidateSyncKeyPath (ph_SyncKeyPath host))) (\<lambda>_.
     and_then (wrap_err ''invalid sync key ssh path'' (ValidateSSHExecutablePath (ph_SyncKeyPath host))) (\<lambda>_.
     Inr (host\<lparr>ph_Host := normalizedHost, ph_AdminHost := normalizedAdminHost\<rparr>))))))"

definition normalizeDirectPairProvisionInput :: "DirectPairProvisionInput \<Rightarrow> DirectPairProvisionInput res" where
  "normalizeDirectPairProvisionInput input =
     and_then (wrap_err ''invalid local host'' (normalizeDirectPairProvisionHost (pv_Local input))) (\<lambda>local.
     and_then (wrap_err ''invalid remote host'' (normalizeDirectPairProvisionHost (pv_Remote input))) (\<lambda>remote.
     Inr \<lparr>pv_Local = local, pv_Remote = remote, pv_SharedKey = pv_SharedKey input\<rparr>))"

definition directPairProvisionHostByID :: "DirectPairProvisionInput \<Rightarrow> string \<Rightarrow> DirectPairProvisionHost res" where
  "directPairProvisionHostByID input hostID =
     (if hostID = dh_ID (ph_Host (pv_Local input)) then Inr (pv_Local input)
      else if hostID = dh_ID (ph_Host (pv_Remote input)) then Inr (pv_Remote input)
      else Inl (''missing provision host: '' @ hostID))"

definition knownHostsPathsByHost :: "DirectPairProvisionHost list \<Rightarrow> (string \<times> string) list" where
  "knownHostsPathsByHost hosts = foldl (\<lambda>out host. AList.update (dh_ID (ph_Host host)) (ph_KnownHostsPath host) out) [] hosts"

text \<open>A computation of the executor: it changes the result that is returned even on failure, and the world.\<close>

type_synonym ('w, 'a) prov = "DirectPairProvisionResult \<times> 'w \<Rightarrow> 'a res \<times> (DirectPairProvisionResult \<times> 'w)"

definition prov_return :: "'a \<Rightarrow> ('w, 'a) prov" where
  "prov_return x s = (Inr x, s)"

definition prov_bind :: "('w, 'a) prov \<Rightarrow> ('a \<Rightarrow> ('w, 'b) prov) \<Rightarrow> ('w, 'b) prov" where
  "prov_bind m f s = (case m s of (Inl e, s') \<Rightarrow> (Inl e, s') | (Inr x, s') \<Rightarrow> f x s')"

definition prov_res :: "'a res \<Rightarrow> ('w, 'a) prov" where
  "prov_res r s = (r, s)"

definition prov_call :: "('w \<Rightarrow> 'a res \<times> 'w) \<Rightarrow> ('w, 'a) prov" where
  "prov_call f = (\<lambda>(r, w). case f w of (x, w') \<Rightarrow> (x, (r, w')))"

definition prov_get :: "('w, DirectPairProvisionResult) prov" where
  "prov_get s = (Inr (fst s), s)"

definition prov_set :: "(DirectPairProvisionResult \<Rightarrow> DirectPairProvisionResult) \<Rightarrow> ('w, unit) prov" where
  "prov_set f s = (Inr (), apfst f s)"

fun prov_each :: "('x \<Rightarrow> ('w, unit) prov) \<Rightarrow> 'x list \<Rightarrow> ('w, unit) prov" where
  "prov_each f [] = prov_return ()"
| "prov_each f (x # xs) = prov_bind (f x) (\<lambda>_. prov_each f xs)"

definition completed :: "DirectPairStepKind list \<Rightarrow> ('w, unit) prov" where
  "completed kinds = prov_set (\<lambda>r. r\<lparr>ps_CompletedSteps := ps_CompletedSteps r @ kinds\<rparr>)"

definition zero_pin :: KnownHostPin where
  "zero_pin = \<lparr>kp_Pattern = [], kp_KeyType = [], kp_PublicKey = []\<rparr>"

definition zero_material :: SyncKeyMaterial where
  "zero_material = \<lparr>sm_PrivateKeyPath = [], sm_PublicKey = [], sm_KeyID = []\<rparr>"

definition zero_plan :: DirectPairPlan where
  "zero_plan = \<lparr>pp_PairID = [], pp_ConnectHostID = [], pp_AcceptHostID = [], pp_Steps = [], pp_ConfigWrites = []\<rparr>"

definition result_of_plan :: "DirectPairPlan \<Rightarrow> DirectPairProvisionResult" where
  "result_of_plan plan = \<lparr>ps_Plan = plan, ps_CompletedSteps = [], ps_ConfigWrites = pp_ConfigWrites plan, ps_KnownHostPins = [],
     ps_KnownHostPin = zero_pin, ps_SyncKeys = [], ps_ConnectorSyncKey = zero_material\<rparr>"

definition pin_of :: "DirectPairProvisionResult \<Rightarrow> string \<Rightarrow> KnownHostPin" where
  "pin_of r hostID = (case map_of (ps_KnownHostPins r) hostID of None \<Rightarrow> zero_pin | Some p \<Rightarrow> p)"

definition key_of_host :: "DirectPairProvisionResult \<Rightarrow> string \<Rightarrow> SyncKeyMaterial" where
  "key_of_host r hostID = (case map_of (ps_SyncKeys r) hostID of None \<Rightarrow> zero_material | Some k \<Rightarrow> k)"

abbreviation host_id :: "DirectPairProvisionHost \<Rightarrow> string" where
  "host_id h \<equiv> dh_ID (ph_Host h)"

text \<open>The bodies of the loops of \<open>Provision\<close>.\<close>

definition confirm_direction :: "'w DirectPairProvisionDriver \<Rightarrow> DirectPairProvisionHost \<Rightarrow> directPairProvisionDirection \<Rightarrow> ('w, unit) prov" where
  "confirm_direction drv acceptor direction =
     (let host = ph_Host (dd_target direction) in
      prov_bind (prov_call (dv_ConfirmHostKey drv host)) (\<lambda>confirmedHostKeyLine.
      prov_bind (prov_res (ParseKnownHostScanLine (dh_SSHHost host) (dh_SSHPort host) confirmedHostKeyLine)) (\<lambda>pin.
      prov_set (\<lambda>r. let r1 = r\<lparr>ps_KnownHostPins := AList.update (dh_ID host) pin (ps_KnownHostPins r)\<rparr>
        in if dh_ID host = host_id acceptor then r1\<lparr>ps_KnownHostPin := pin\<rparr> else r1))))"

definition pin_direction :: "'w DirectPairProvisionDriver \<Rightarrow> directPairProvisionDirection \<Rightarrow> ('w, unit) prov" where
  "pin_direction drv direction =
     prov_bind prov_get (\<lambda>result.
     prov_call (dv_UpsertKnownHostPin drv (ph_Host (dd_source direction)) (ph_Host (dd_target direction))
       (ph_KnownHostsPath (dd_source direction)) (pin_of result (host_id (dd_target direction)))))"

definition ensure_key :: "'w DirectPairProvisionDriver \<Rightarrow> DirectPairProvisionHost \<Rightarrow> DirectPairProvisionHost \<Rightarrow> ('w, unit) prov" where
  "ensure_key drv connector host =
     prov_bind (prov_call (dv_EnsureSyncKey drv host)) (\<lambda>key.
     prov_bind (prov_res (validateSyncKeyMaterial key)) (\<lambda>_.
     prov_set (\<lambda>r. let r1 = r\<lparr>ps_SyncKeys := AList.update (host_id host) key (ps_SyncKeys r)\<rparr>
       in if host_id host = host_id connector then r1\<lparr>ps_ConnectorSyncKey := key\<rparr> else r1)))"

definition direction_key :: "directPairProvisionDirection \<Rightarrow> SyncKeyMaterial \<Rightarrow> ManagedAuthorizedKey" where
  "direction_key direction key =
     \<lparr>ak_PeerID = host_id (dd_source direction), ak_KeyID = sm_KeyID key,
      ak_GatewayPath = dh_GatewayPath (ph_Host (dd_target direction)), ak_PublicKey = sm_PublicKey key\<rparr>"

definition install_direction :: "'w DirectPairProvisionDriver \<Rightarrow> directPairProvisionDirection \<Rightarrow> ('w, unit) prov" where
  "install_direction drv direction =
     prov_bind prov_get (\<lambda>result.
     prov_bind (prov_res (NewManagedAuthorizedKey (direction_key direction (key_of_host result (host_id (dd_source direction)))))) (\<lambda>authKey.
     prov_call (dv_InstallAuthorizedKey drv (ph_Host (dd_target direction)) authKey)))"

definition direction_probe :: "directPairProvisionDirection \<Rightarrow> SyncKeyMaterial \<Rightarrow> PinnedSSHCommand" where
  "direction_probe direction key =
     (let target = ph_Host (dd_target direction) in
      \<lparr>pc_User = dh_SSHUser target, pc_Host = dh_SSHHost target, pc_Port = dh_SSHPort target,
       pc_PrivateKeyPath = sm_PrivateKeyPath key, pc_KnownHostsPath = ph_KnownHostsPath (dd_source direction),
       pc_GatewayPath = dh_GatewayPath target, pc_AuthorizedPeer = host_id (dd_source direction),
       pc_AuthorizedKeyID = sm_KeyID key, pc_DirectGateway = (dh_SSHServerMode target = SSHServerModeTailscaleSSH)\<rparr>)"

definition probe_direction :: "'w DirectPairProvisionDriver \<Rightarrow> directPairProvisionDirection \<Rightarrow> ('w, unit) prov" where
  "probe_direction drv direction =
     prov_bind prov_get (\<lambda>result.
     let key = key_of_host result (host_id (dd_source direction)) in
     prov_call (dv_RunProbe drv (direction_probe direction key) (dd_source direction) (host_id (dd_source direction)) (sm_KeyID key)))"

definition config_mutation :: "DirectPairPlan \<Rightarrow> string \<Rightarrow> DirectPairProvisionHost \<Rightarrow> DirectPairProvisionHost \<Rightarrow>
    DirectPairProvisionResult \<Rightarrow> DirectPairConfigMutation" where
  "config_mutation plan sharedKey connector acceptor result =
     \<lparr>cm_Plan = plan, cm_Writes = pp_ConfigWrites plan, cm_SharedKey = sharedKey, cm_SyncKeys = ps_SyncKeys result,
      cm_KnownHostsPaths = knownHostsPathsByHost [connector, acceptor], cm_ConnectorSyncKey = ps_ConnectorSyncKey result,
      cm_ConnectorKnownHostsPath = ph_KnownHostsPath connector\<rparr>"

text \<open>A loop and the step it completes.\<close>

definition phase :: "('x \<Rightarrow> ('w, unit) prov) \<Rightarrow> 'x list \<Rightarrow> DirectPairStepKind \<Rightarrow> ('w, unit) prov" where
  "phase body xs kind = prov_bind (prov_each body xs) (\<lambda>_. completed [kind])"

definition run_steps :: "'w DirectPairProvisionDriver \<Rightarrow> DirectPairPlan \<Rightarrow> string \<Rightarrow> DirectPairProvisionHost \<Rightarrow>
    DirectPairProvisionHost \<Rightarrow> ('w, unit) prov" where
  "run_steps drv plan sharedKey connector acceptor =
     (let directions = [\<lparr>dd_source = connector, dd_target = acceptor\<rparr>, \<lparr>dd_source = acceptor, dd_target = connector\<rparr>] in
      prov_bind (phase (confirm_direction drv acceptor) directions StepConfirmHostKey) (\<lambda>_.
      prov_bind (phase (pin_direction drv) directions StepUpsertKnownHostPin) (\<lambda>_.
      prov_bind (phase (ensure_key drv connector) [connector, acceptor] StepEnsureConnectorSyncKey) (\<lambda>_.
      prov_bind (phase (install_direction drv) directions StepInstallAcceptorAuthorizedKey) (\<lambda>_.
      prov_bind (phase (probe_direction drv) directions StepProbeForcedCommand) (\<lambda>_.
      prov_bind prov_get (\<lambda>result.
      prov_bind (prov_call (dv_WriteConfig drv (config_mutation plan sharedKey connector acceptor result))) (\<lambda>_.
      completed (map st_Kind (filter st_ConfigWrite (pp_Steps plan)))))))))))"

definition run_checks :: "bool \<Rightarrow> DirectPairPlan \<Rightarrow> DirectPairProvisionInput \<Rightarrow> (DirectPairProvisionHost \<times> DirectPairProvisionHost) res" where
  "run_checks configV2WriteEnabled plan normalized =
     and_then (directPairProvisionHostByID normalized (pp_ConnectHostID plan)) (\<lambda>connector.
     and_then (directPairProvisionHostByID normalized (pp_AcceptHostID plan)) (\<lambda>acceptor.
     and_then (require (SharedKeyIsStandard32Bytes (pv_SharedKey normalized)) ''invalid_shared_key'') (\<lambda>_.
     and_then (require configV2WriteEnabled ErrConfigV2WritesDisabled) (\<lambda>_. Inr (connector, acceptor)))))"

text \<open>The result, the error if any, and the world. A missing driver is \<open>None\<close>.\<close>

definition Provision :: "'w DirectPairProvisionDriver option \<Rightarrow> bool \<Rightarrow> DirectPairProvisionInput \<Rightarrow> 'w \<Rightarrow>
    unit res \<times> (DirectPairProvisionResult \<times> 'w)" where
  "Provision driver configV2WriteEnabled input w = (case driver of
     None \<Rightarrow> (Inl ErrDirectPairProvisionerNotReady, (result_of_plan zero_plan, w))
   | Some drv \<Rightarrow>
       (case normalizeDirectPairProvisionInput input of
          Inl e \<Rightarrow> (Inl e, (result_of_plan zero_plan, w))
        | Inr normalized \<Rightarrow>
            (case BuildDirectPairPlan \<lparr>pi_Local = ph_Host (pv_Local normalized), pi_Remote = ph_Host (pv_Remote normalized)\<rparr> of
               Inl e \<Rightarrow> (Inl e, (result_of_plan zero_plan, w))
             | Inr plan \<Rightarrow>
                 (case run_checks configV2WriteEnabled plan normalized of
                    Inl e \<Rightarrow> (Inl e, (result_of_plan plan, w))
                  | Inr (connector, acceptor) \<Rightarrow>
                      run_steps drv plan (pv_SharedKey normalized) connector acceptor (result_of_plan plan, w)))))"

section \<open>The calls of a run\<close>

text \<open>Any driver, keeping a log of the calls made to it, of the host keys and sync keys it returned, and of whether the
  calls succeeded.\<close>

datatype driver_call =
    CallConfirm DirectPairHost "string res"
  | CallPin DirectPairHost DirectPairHost string KnownHostPin
  | CallKey DirectPairProvisionHost "SyncKeyMaterial res"
  | CallInstall DirectPairHost ManagedAuthorizedKey
  | CallProbe PinnedSSHCommand DirectPairProvisionHost string string
  | CallWrite DirectPairConfigMutation

definition logged :: "('a res \<Rightarrow> driver_call) \<Rightarrow> ('w \<Rightarrow> 'a res \<times> 'w) \<Rightarrow> 'w \<times> (driver_call \<times> bool) list \<Rightarrow> 'a res \<times> 'w \<times> (driver_call \<times> bool) list" where
  "logged c f = (\<lambda>(w, l). case f w of (x, w') \<Rightarrow> (x, (w', l @ [(c x, \<not> isl x)])))"

definition recorded :: "'w DirectPairProvisionDriver \<Rightarrow> ('w \<times> (driver_call \<times> bool) list) DirectPairProvisionDriver" where
  "recorded drv =
     \<lparr>dv_ConfirmHostKey = (\<lambda>h. logged (CallConfirm h) (dv_ConfirmHostKey drv h)),
      dv_UpsertKnownHostPin = (\<lambda>a b p pin. logged (\<lambda>_. CallPin a b p pin) (dv_UpsertKnownHostPin drv a b p pin)),
      dv_EnsureSyncKey = (\<lambda>h. logged (CallKey h) (dv_EnsureSyncKey drv h)),
      dv_InstallAuthorizedKey = (\<lambda>h k. logged (\<lambda>_. CallInstall h k) (dv_InstallAuthorizedKey drv h k)),
      dv_RunProbe = (\<lambda>c h i k. logged (\<lambda>_. CallProbe c h i k) (dv_RunProbe drv c h i k)),
      dv_WriteConfig = (\<lambda>m. logged (\<lambda>_. CallWrite m) (dv_WriteConfig drv m))\<rparr>"

definition prov_ok :: "(DirectPairProvisionResult \<times> 'w \<Rightarrow> bool) \<Rightarrow> ('w, 'a) prov \<Rightarrow> ('a \<Rightarrow> DirectPairProvisionResult \<times> 'w \<Rightarrow> bool) \<Rightarrow>
    (DirectPairProvisionResult \<times> 'w \<Rightarrow> bool) \<Rightarrow> bool" where
  "prov_ok P m Q E \<longleftrightarrow> (\<forall>s. P s \<longrightarrow> (case m s of (Inl e, s') \<Rightarrow> E s' | (Inr x, s') \<Rightarrow> Q x s'))"

lemma prov_ok_bind:
  assumes "prov_ok P m Q E" and "\<And>x. prov_ok (Q x) (f x) R E"
  shows "prov_ok P (prov_bind m f) R E"
  using assms by (fastforce simp: prov_ok_def prov_bind_def split: prod.splits sum.splits)

lemma prov_ok_ex:
  assumes "\<And>x. prov_ok (P x) m Q E" shows "prov_ok (\<lambda>s. \<exists>x. P x s) m Q E"
  unfolding prov_ok_def
proof (intro allI impI, elim exE)
  fix s x assume "P x s"
  then show "case m s of (Inl e, s') \<Rightarrow> E s' | (Inr y, s') \<Rightarrow> Q y s'"
    by (rule assms [of x, unfolded prov_ok_def, THEN spec, THEN mp])
qed

lemma prov_ok_if:
  assumes "C \<Longrightarrow> prov_ok P m Q E" shows "prov_ok (\<lambda>s. C \<and> P s) m Q E"
  using assms by (auto simp: prov_ok_def)

lemma prov_ok_post: "prov_ok P m Q E \<Longrightarrow> (\<And>x s. Q x s \<Longrightarrow> Q' x s) \<Longrightarrow> prov_ok P m Q' E"
  by (fastforce simp: prov_ok_def split: prod.splits sum.splits)

lemma prov_okD:
  assumes "prov_ok P m Q E" and "P s" and "m s = (r, s')"
  shows "case r of Inl e \<Rightarrow> E s' | Inr x \<Rightarrow> Q x s'"
proof -
  have "case m s of (Inl e, s') \<Rightarrow> E s' | (Inr x, s') \<Rightarrow> Q x s'"
    using assms(2) by (rule assms(1) [unfolded prov_ok_def, THEN spec, THEN mp])
  with assms(3) show ?thesis by (cases r) simp_all
qed

lemma prov_ok_each2:
  assumes "prov_ok P (f a) (\<lambda>_. Q) E" and "prov_ok Q (f b) (\<lambda>_. R) E"
  shows "prov_ok P (prov_each f [a, b]) (\<lambda>_. R) E"
proof -
  have "prov_ok R (prov_return ()) (\<lambda>_. R) E" by (simp add: prov_ok_def prov_return_def)
  from prov_ok_bind [OF assms(2) this] have "prov_ok Q (prov_each f [b]) (\<lambda>_. R) E" by simp
  from prov_ok_bind [OF assms(1) this] show ?thesis by simp
qed

text \<open>Where a run is: the calls so far, all successful, what they returned, and the steps that are complete. A run that
  stops has made one more call at most, and none that writes the configuration.\<close>

type_synonym 'w logged_state = "DirectPairProvisionResult \<times> 'w \<times> (driver_call \<times> bool) list"

definition run_at :: "DirectPairPlan \<Rightarrow> driver_call list \<Rightarrow> (string \<times> KnownHostPin) list \<Rightarrow> (string \<times> SyncKeyMaterial) list \<Rightarrow> nat \<Rightarrow>
    'w logged_state \<Rightarrow> bool" where
  "run_at plan calls pins keys n = (\<lambda>(r, w, l). l = map (\<lambda>c. (c, True)) calls \<and> ps_Plan r = plan \<and> ps_KnownHostPins r = pins \<and>
     ps_SyncKeys r = keys \<and> ps_CompletedSteps r = take n (map st_Kind plan_steps))"

definition no_write :: "driver_call list \<Rightarrow> bool" where
  "no_write calls \<longleftrightarrow> (\<forall>m. CallWrite m \<notin> set calls)"

definition stopped :: "DirectPairPlan \<Rightarrow> 'w logged_state \<Rightarrow> bool" where
  "stopped plan = (\<lambda>(r, w, l). no_write (map fst l) \<and> ps_Plan r = plan \<and> (\<exists>n. ps_CompletedSteps r = take n (map st_Kind plan_steps)))"

lemmas run_defs = prov_ok_def run_at_def stopped_def prov_bind_def prov_call_def prov_res_def prov_set_def prov_get_def
  recorded_def logged_def no_write_def

text \<open>The line a host key was confirmed with, and the pin it stands for.\<close>

definition scan_of :: "DirectPairProvisionHost \<Rightarrow> string \<times> KnownHostPin \<Rightarrow> bool" where
  "scan_of h v \<longleftrightarrow> ParseKnownHostScanLine (dh_SSHHost (ph_Host h)) (dh_SSHPort (ph_Host h)) (fst v) = Inr (snd v)"

lemma confirm_ok:
  assumes "no_write cs"
  shows "prov_ok (run_at plan cs pins keys n) (confirm_direction (recorded drv) acceptor d)
    (\<lambda>_ s. \<exists>v. scan_of (dd_target d) v \<and>
       run_at plan (cs @ [CallConfirm (ph_Host (dd_target d)) (Inr (fst v))]) (AList.update (host_id (dd_target d)) (snd v) pins) keys n s) (stopped plan)"
  using assms unfolding confirm_direction_def
  by (auto simp: run_defs Let_def scan_of_def split: prod.splits sum.splits)

lemma pin_ok:
  assumes "no_write cs"
  shows "prov_ok (run_at plan cs pins keys n) (pin_direction (recorded drv) d)
    (\<lambda>_. run_at plan (cs @ [CallPin (ph_Host (dd_source d)) (ph_Host (dd_target d)) (ph_KnownHostsPath (dd_source d))
       (case map_of pins (host_id (dd_target d)) of None \<Rightarrow> zero_pin | Some p \<Rightarrow> p)]) pins keys n) (stopped plan)"
  using assms unfolding pin_direction_def
  by (auto simp: run_defs pin_of_def split: prod.splits sum.splits)

lemma key_ok:
  assumes "no_write cs"
  shows "prov_ok (run_at plan cs pins keys n) (ensure_key (recorded drv) connector h)
    (\<lambda>_ s. \<exists>key. validateSyncKeyMaterial key = Inr () \<and> run_at plan (cs @ [CallKey h (Inr key)]) pins (AList.update (host_id h) key keys) n s) (stopped plan)"
  using assms unfolding ensure_key_def
  by (auto simp: run_defs Let_def split: prod.splits sum.splits)

definition key_in :: "(string \<times> SyncKeyMaterial) list \<Rightarrow> string \<Rightarrow> SyncKeyMaterial" where
  "key_in keys i = (case map_of keys i of None \<Rightarrow> zero_material | Some k \<Rightarrow> k)"

lemma install_ok:
  assumes "no_write cs"
  shows "prov_ok (run_at plan cs pins keys n) (install_direction (recorded drv) d)
    (\<lambda>_. run_at plan (cs @ [CallInstall (ph_Host (dd_target d)) (direction_key d (key_in keys (host_id (dd_source d))))]) pins keys n) (stopped plan)"
  using assms unfolding install_direction_def
  by (auto simp: run_defs key_of_host_def key_in_def new_key(1) split: prod.splits sum.splits)

lemma probe_ok:
  assumes "no_write cs"
  shows "prov_ok (run_at plan cs pins keys n) (probe_direction (recorded drv) d)
    (\<lambda>_. run_at plan (cs @ [CallProbe (direction_probe d (key_in keys (host_id (dd_source d)))) (dd_source d) (host_id (dd_source d))
       (sm_KeyID (key_in keys (host_id (dd_source d))))]) pins keys n) (stopped plan)"
  using assms unfolding probe_direction_def
  by (auto simp: run_defs key_of_host_def key_in_def Let_def split: prod.splits sum.splits)

lemma completed_ok:
  assumes "take n (map st_Kind plan_steps) @ ks = take n' (map st_Kind plan_steps)"
  shows "prov_ok (run_at plan cs pins keys n) (completed ks) (\<lambda>_. run_at plan cs pins keys n') E"
  using assms unfolding completed_def by (auto simp: run_defs)

text \<open>The calls of a complete run, up to the one that writes the configuration.\<close>

definition provision_calls :: "DirectPairProvisionHost \<Rightarrow> DirectPairProvisionHost \<Rightarrow> string \<times> KnownHostPin \<Rightarrow> string \<times> KnownHostPin \<Rightarrow>
    SyncKeyMaterial \<Rightarrow> SyncKeyMaterial \<Rightarrow> driver_call list" where
  "provision_calls c a scan_a scan_c key_c key_a =
     (let there = \<lparr>dd_source = c, dd_target = a\<rparr>; back = \<lparr>dd_source = a, dd_target = c\<rparr> in
      [CallConfirm (ph_Host a) (Inr (fst scan_a)), CallConfirm (ph_Host c) (Inr (fst scan_c)),
       CallPin (ph_Host c) (ph_Host a) (ph_KnownHostsPath c) (snd scan_a), CallPin (ph_Host a) (ph_Host c) (ph_KnownHostsPath a) (snd scan_c),
       CallKey c (Inr key_c), CallKey a (Inr key_a),
       CallInstall (ph_Host a) (direction_key there key_c), CallInstall (ph_Host c) (direction_key back key_a),
       CallProbe (direction_probe there key_c) c (host_id c) (sm_KeyID key_c),
       CallProbe (direction_probe back key_a) a (host_id a) (sm_KeyID key_a)])"

lemma no_write_simps [simp]:
  "no_write []" "no_write (cs @ ds) \<longleftrightarrow> no_write cs \<and> no_write ds" "no_write (c # cs) \<longleftrightarrow> (\<forall>m. c \<noteq> CallWrite m) \<and> no_write cs"
  by (auto simp: no_write_def)

lemma phase_ok:
  assumes "prov_ok (run_at plan cs pins keys n) (f x) (\<lambda>_. Q) (stopped plan)"
    and "prov_ok Q (f y) (\<lambda>_ s. \<exists>v. C v \<and> run_at plan (cs' v) (pins' v) (keys' v) n s) (stopped plan)"
    and "take n (map st_Kind plan_steps) @ [kind] = take n' (map st_Kind plan_steps)"
  shows "prov_ok (run_at plan cs pins keys n) (phase f [x, y] kind) (\<lambda>_ s. \<exists>v. C v \<and> run_at plan (cs' v) (pins' v) (keys' v) n' s) (stopped plan)"
proof -
  have "prov_ok (\<lambda>s. \<exists>v. C v \<and> run_at plan (cs' v) (pins' v) (keys' v) n s) (completed [kind])
     (\<lambda>_ s. \<exists>v. C v \<and> run_at plan (cs' v) (pins' v) (keys' v) n' s) (stopped plan)"
    by (rule prov_ok_ex, rule prov_ok_if, rule prov_ok_post [OF completed_ok [OF assms(3)]]) blast
  with prov_ok_each2 [OF assms(1,2)] show ?thesis unfolding phase_def by (rule prov_ok_bind)
qed

lemma phase_plain:
  assumes "prov_ok (run_at plan cs pins keys n) (f x) (\<lambda>_. run_at plan cs1 pins keys n) (stopped plan)"
    and "prov_ok (run_at plan cs1 pins keys n) (f y) (\<lambda>_. run_at plan cs2 pins keys n) (stopped plan)"
    and "take n (map st_Kind plan_steps) @ [kind] = take n' (map st_Kind plan_steps)"
  shows "prov_ok (run_at plan cs pins keys n) (phase f [x, y] kind) (\<lambda>_. run_at plan cs2 pins keys n') (stopped plan)"
  unfolding phase_def by (rule prov_ok_bind [OF prov_ok_each2 [OF assms(1,2)]], rule completed_ok, fact)

text \<open>The five phases between two hosts \<open>c\<close> and \<open>a\<close>.\<close>

lemma confirm_phase:
  assumes "host_id c \<noteq> host_id a"
  shows "prov_ok (run_at plan [] [] [] 0)
      (phase (confirm_direction (recorded drv) a) [\<lparr>dd_source = c, dd_target = a\<rparr>, \<lparr>dd_source = a, dd_target = c\<rparr>] StepConfirmHostKey)
      (\<lambda>_ s. \<exists>v. (scan_of a (fst v) \<and> scan_of c (snd v)) \<and> run_at plan [CallConfirm (ph_Host a) (Inr (fst (fst v))), CallConfirm (ph_Host c) (Inr (fst (snd v)))]
        [(host_id a, snd (fst v)), (host_id c, snd (snd v))] [] 1 s) (stopped plan)"
proof (rule phase_ok)
  let ?first = "\<lambda>u. run_at plan [CallConfirm (ph_Host a) (Inr (fst u))] [(host_id a, snd u)] [] 0"
  let ?both = "\<lambda>s. \<exists>v. (scan_of a (fst v) \<and> scan_of c (snd v)) \<and> run_at plan [CallConfirm (ph_Host a) (Inr (fst (fst v))), CallConfirm (ph_Host c) (Inr (fst (snd v)))]
        [(host_id a, snd (fst v)), (host_id c, snd (snd v))] [] 0 s"
  show "prov_ok (run_at plan [] [] [] 0) (confirm_direction (recorded drv) a \<lparr>dd_source = c, dd_target = a\<rparr>)
    (\<lambda>_ s. \<exists>u. scan_of a u \<and> ?first u s) (stopped plan)"
    using confirm_ok [of "[]" plan "[]" "[]" 0 drv a "\<lparr>dd_source = c, dd_target = a\<rparr>"] by simp
  have "prov_ok (?first u) (confirm_direction (recorded drv) a \<lparr>dd_source = a, dd_target = c\<rparr>) (\<lambda>_. ?both) (stopped plan)" if "scan_of a u" for u
    using confirm_ok [of "[CallConfirm (ph_Host a) (Inr (fst u))]" plan "[(host_id a, snd u)]" "[]" 0 drv a "\<lparr>dd_source = a, dd_target = c\<rparr>"] assms that
    by (cases u) (fastforce elim!: prov_ok_post)
  then show "prov_ok (\<lambda>s. \<exists>u. scan_of a u \<and> ?first u s) (confirm_direction (recorded drv) a \<lparr>dd_source = a, dd_target = c\<rparr>) (\<lambda>_. ?both) (stopped plan)"
    by (intro prov_ok_ex prov_ok_if)
qed (simp add: plan_steps_def)

lemma key_phase:
  assumes "host_id c \<noteq> host_id a" and cs: "no_write cs"
  shows "prov_ok (run_at plan cs pins [] 2) (phase (ensure_key (recorded drv) c) [c, a] StepEnsureConnectorSyncKey)
      (\<lambda>_ s. \<exists>v. (validateSyncKeyMaterial (fst v) = Inr () \<and> validateSyncKeyMaterial (snd v) = Inr ()) \<and>
        run_at plan (cs @ [CallKey c (Inr (fst v)), CallKey a (Inr (snd v))]) pins [(host_id c, fst v), (host_id a, snd v)] 3 s) (stopped plan)"
proof (rule phase_ok)
  let ?first = "\<lambda>key. run_at plan (cs @ [CallKey c (Inr key)]) pins [(host_id c, key)] 2"
  let ?both = "\<lambda>s. \<exists>v. (validateSyncKeyMaterial (fst v) = Inr () \<and> validateSyncKeyMaterial (snd v) = Inr ()) \<and>
        run_at plan (cs @ [CallKey c (Inr (fst v)), CallKey a (Inr (snd v))]) pins [(host_id c, fst v), (host_id a, snd v)] 2 s"
  show "prov_ok (run_at plan cs pins [] 2) (ensure_key (recorded drv) c c)
    (\<lambda>_ s. \<exists>key. validateSyncKeyMaterial key = Inr () \<and> ?first key s) (stopped plan)"
    using key_ok [OF cs, of plan pins "[]" 2 drv c c] by simp
  have "prov_ok (?first key) (ensure_key (recorded drv) c a) (\<lambda>_. ?both) (stopped plan)" if "validateSyncKeyMaterial key = Inr ()" for key
    using key_ok [of "cs @ [CallKey c (Inr key)]" plan pins "[(host_id c, key)]" 2 drv c a] assms that by (auto elim!: prov_ok_post)
  then show "prov_ok (\<lambda>s. \<exists>key. validateSyncKeyMaterial key = Inr () \<and> ?first key s) (ensure_key (recorded drv) c a) (\<lambda>_. ?both) (stopped plan)"
    by (intro prov_ok_ex prov_ok_if)
qed (simp add: plan_steps_def numeral_eq_Suc)

lemma pin_phase:
  assumes "host_id c \<noteq> host_id a" and cs: "no_write cs"
  shows "prov_ok (run_at plan cs [(host_id a, pa), (host_id c, pc)] keys 1)
      (phase (pin_direction (recorded drv)) [\<lparr>dd_source = c, dd_target = a\<rparr>, \<lparr>dd_source = a, dd_target = c\<rparr>] StepUpsertKnownHostPin)
      (\<lambda>_. run_at plan (cs @ [CallPin (ph_Host c) (ph_Host a) (ph_KnownHostsPath c) pa, CallPin (ph_Host a) (ph_Host c) (ph_KnownHostsPath a) pc])
        [(host_id a, pa), (host_id c, pc)] keys 2) (stopped plan)"
  using assms pin_ok [OF cs, of plan "[(host_id a, pa), (host_id c, pc)]" keys 1 drv "\<lparr>dd_source = c, dd_target = a\<rparr>"]
    pin_ok [of "cs @ [CallPin (ph_Host c) (ph_Host a) (ph_KnownHostsPath c) pa]" plan "[(host_id a, pa), (host_id c, pc)]" keys 1 drv
      "\<lparr>dd_source = a, dd_target = c\<rparr>"]
  by (intro phase_plain) (auto simp: plan_steps_def numeral_eq_Suc)

lemma install_phase:
  assumes "host_id c \<noteq> host_id a" and cs: "no_write cs"
  defines "there \<equiv> \<lparr>dd_source = c, dd_target = a\<rparr>" and "back \<equiv> \<lparr>dd_source = a, dd_target = c\<rparr>"
  shows "prov_ok (run_at plan cs pins [(host_id c, kc), (host_id a, ka)] 3)
      (phase (install_direction (recorded drv)) [there, back] StepInstallAcceptorAuthorizedKey)
      (\<lambda>_. run_at plan (cs @ [CallInstall (ph_Host a) (direction_key there kc), CallInstall (ph_Host c) (direction_key back ka)])
        pins [(host_id c, kc), (host_id a, ka)] 4) (stopped plan)"
  using assms install_ok [OF cs, of plan pins "[(host_id c, kc), (host_id a, ka)]" 3 drv there]
    install_ok [of "cs @ [CallInstall (ph_Host a) (direction_key there kc)]" plan pins "[(host_id c, kc), (host_id a, ka)]" 3 drv "back"]
  by (intro phase_plain) (auto simp: plan_steps_def numeral_eq_Suc key_in_def)

lemma probe_phase:
  assumes "host_id c \<noteq> host_id a" and cs: "no_write cs"
  defines "there \<equiv> \<lparr>dd_source = c, dd_target = a\<rparr>" and "back \<equiv> \<lparr>dd_source = a, dd_target = c\<rparr>"
  shows "prov_ok (run_at plan cs pins [(host_id c, kc), (host_id a, ka)] 4)
      (phase (probe_direction (recorded drv)) [there, back] StepProbeForcedCommand)
      (\<lambda>_. run_at plan (cs @ [CallProbe (direction_probe there kc) c (host_id c) (sm_KeyID kc),
         CallProbe (direction_probe back ka) a (host_id a) (sm_KeyID ka)]) pins [(host_id c, kc), (host_id a, ka)] 5) (stopped plan)"
  using assms probe_ok [OF cs, of plan pins "[(host_id c, kc), (host_id a, ka)]" 4 drv there]
    probe_ok [of "cs @ [CallProbe (direction_probe there kc) c (host_id c) (sm_KeyID kc)]" plan pins "[(host_id c, kc), (host_id a, ka)]" 4 drv "back"]
  by (intro phase_plain) (auto simp: plan_steps_def numeral_eq_Suc key_in_def)

text \<open>A run that reached the configuration, which was written if \<open>ok\<close>.\<close>

definition reached :: "DirectPairPlan \<Rightarrow> string \<Rightarrow> DirectPairProvisionHost \<Rightarrow> DirectPairProvisionHost \<Rightarrow> bool \<Rightarrow> 'w logged_state \<Rightarrow> bool" where
  "reached plan sharedKey c a ok = (\<lambda>(r, w, l). \<exists>scan_a scan_c key_c key_a m.
     l = map (\<lambda>x. (x, True)) (provision_calls c a scan_a scan_c key_c key_a) @ [(CallWrite m, ok)] \<and>
     scan_of a scan_a \<and> scan_of c scan_c \<and> validateSyncKeyMaterial key_c = Inr () \<and> validateSyncKeyMaterial key_a = Inr () \<and>
     cm_Plan m = plan \<and> cm_SharedKey m = sharedKey \<and> cm_SyncKeys m = [(host_id c, key_c), (host_id a, key_a)] \<and>
     ps_KnownHostPins r = [(host_id a, snd scan_a), (host_id c, snd scan_c)] \<and>
     ps_CompletedSteps r = (if ok then map st_Kind plan_steps else take 5 (map st_Kind plan_steps)))"

lemma prov_ok_err: "prov_ok P m Q E \<Longrightarrow> (\<And>s. E s \<Longrightarrow> E' s) \<Longrightarrow> prov_ok P m Q E'"
  by (fastforce simp: prov_ok_def split: prod.splits sum.splits)

lemma write_ok:
  assumes "pp_Steps plan = plan_steps"
    and "scan_of a scan_a" "scan_of c scan_c" "validateSyncKeyMaterial key_c = Inr ()" "validateSyncKeyMaterial key_a = Inr ()"
  shows "prov_ok (run_at plan (provision_calls c a scan_a scan_c key_c key_a) [(host_id a, snd scan_a), (host_id c, snd scan_c)]
      [(host_id c, key_c), (host_id a, key_a)] 5)
    (prov_bind prov_get (\<lambda>result.
      prov_bind (prov_call (dv_WriteConfig (recorded drv) (config_mutation plan sharedKey c a result))) (\<lambda>_.
      completed (map st_Kind (filter st_ConfigWrite (pp_Steps plan))))))
    (\<lambda>_. reached plan sharedKey c a True) (reached plan sharedKey c a False)"
proof -
  obtain la pa lc pc where sc: "scan_a = (la, pa)" "scan_c = (lc, pc)" by fastforce
  show ?thesis using assms(2-) unfolding assms(1) sc prov_ok_def
    by (fastforce simp: run_at_def prov_bind_def prov_call_def prov_set_def prov_get_def recorded_def logged_def completed_def
        reached_def config_mutation_def plan_steps_def split: prod.splits sum.splits)
qed

lemma run_steps_ok:
  assumes ne: "host_id c \<noteq> host_id a" and plan: "pp_Steps plan = plan_steps"
  shows "prov_ok (run_at plan [] [] [] 0) (run_steps (recorded drv) plan sharedKey c a)
    (\<lambda>_. reached plan sharedKey c a True) (\<lambda>s. stopped plan s \<or> reached plan sharedKey c a False s)"
proof -
  let ?E = "\<lambda>s. stopped plan s \<or> reached plan sharedKey c a False s"
  show ?thesis unfolding run_steps_def Let_def
    apply (rule prov_ok_bind [OF prov_ok_err [OF confirm_phase [OF ne]]], blast)
    apply (rule prov_ok_ex, rule prov_ok_if)
    apply (rule prov_ok_bind [OF prov_ok_err [OF pin_phase [OF ne]]], simp, blast)
    apply (rule prov_ok_bind [OF prov_ok_err [OF key_phase [OF ne]]], simp, blast)
    apply (rule prov_ok_ex, rule prov_ok_if)
    apply (rule prov_ok_bind [OF prov_ok_err [OF install_phase [OF ne]]], simp, blast)
    apply (rule prov_ok_bind [OF prov_ok_err [OF probe_phase [OF ne]]], simp, blast)
    subgoal for _ v _ _ w
      using write_ok [OF plan, of a "fst v" c "snd v" "fst w" "snd w"]
      by (auto simp: provision_calls_def Let_def intro: prov_ok_err)
    done
qed

lemma plan_hosts:
  assumes "BuildDirectPairPlan \<lparr>pi_Local = l, pi_Remote = r\<rparr> = Inr plan"
  shows "pp_Steps plan = plan_steps" and "pp_ConnectHostID plan < pp_AcceptHostID plan"
    and "{pp_ConnectHostID plan, pp_AcceptHostID plan} = {dh_ID l, dh_ID r}"
proof -
  have i: "dh_ID n = dh_ID h" if "normalizeDirectPairHost h = Inr n" for h n
    using that by (auto simp: normalizeDirectPairHost_def)
  show "pp_Steps plan = plan_steps" "pp_ConnectHostID plan < pp_AcceptHostID plan"
    "{pp_ConnectHostID plan, pp_AcceptHostID plan} = {dh_ID l, dh_ID r}"
    using assms by (auto simp: BuildDirectPairPlan_def Let_def dest!: i split: if_splits)
qed

lemma hostByID: "directPairProvisionHostByID input i = Inr h \<Longrightarrow> host_id h = i"
  by (auto simp: directPairProvisionHostByID_def split: if_splits)

section \<open>Properties\<close>

text \<open>C19. Provisioning a pair writes the configuration last, and only on proof: with any driver, a run that stops
  early has completed a first part of the plan's steps and made no call that writes the configuration. A run that
  reaches it has confirmed the keys of both hosts, pinned on each host exactly the key that the other's confirmation line
  states, obtained a valid sync key from each, installed each host's key on the other under that host's name, and
  probed both directions with these keys, all successfully and in this order; the configuration it writes has these sync
  keys. It reports success exactly if the configuration was written, and then every step of the plan is complete.\<close>

theorem provision_config_last:
  assumes "Provision (Some (recorded drv)) gate input (w, []) = (r, (res, (w', log)))"
  shows "(r \<noteq> Inr () \<and> (\<forall>m b. (CallWrite m, b) \<notin> set log) \<and> (\<exists>n. ps_CompletedSteps res = take n (map st_Kind plan_steps))) \<or>
    (\<exists>c a line_a line_c pin_a pin_c key_c key_a m. host_id c < host_id a \<and>
       log = map (\<lambda>x. (x, True)) (provision_calls c a (line_a, pin_a) (line_c, pin_c) key_c key_a) @ [(CallWrite m, r = Inr ())] \<and>
       ParseKnownHostScanLine (dh_SSHHost (ph_Host a)) (dh_SSHPort (ph_Host a)) line_a = Inr pin_a \<and>
       ParseKnownHostScanLine (dh_SSHHost (ph_Host c)) (dh_SSHPort (ph_Host c)) line_c = Inr pin_c \<and>
       validateSyncKeyMaterial key_c = Inr () \<and> validateSyncKeyMaterial key_a = Inr () \<and>
       ps_KnownHostPins res = [(host_id a, pin_a), (host_id c, pin_c)] \<and>
       cm_SharedKey m = pv_SharedKey input \<and> cm_SyncKeys m = [(host_id c, key_c), (host_id a, key_a)] \<and>
       (r = Inr () \<longrightarrow> ps_CompletedSteps res = map st_Kind plan_steps))"
proof (cases "\<exists>n plan c a. normalizeDirectPairProvisionInput input = Inr n \<and>
    BuildDirectPairPlan \<lparr>pi_Local = ph_Host (pv_Local n), pi_Remote = ph_Host (pv_Remote n)\<rparr> = Inr plan \<and>
    run_checks gate plan n = Inr (c, a)")
  case False
  with assms have "r \<noteq> Inr ()" "log = []" "ps_CompletedSteps res = take 0 (map st_Kind plan_steps)"
    by (auto simp: Provision_def result_of_plan_def split: sum.splits)
  then show ?thesis by auto
next
  case True
  then obtain n plan c a where n: "normalizeDirectPairProvisionInput input = Inr n"
    and plan: "BuildDirectPairPlan \<lparr>pi_Local = ph_Host (pv_Local n), pi_Remote = ph_Host (pv_Remote n)\<rparr> = Inr plan"
    and ch: "run_checks gate plan n = Inr (c, a)" by blast
  have k: "pv_SharedKey n = pv_SharedKey input" using n by (auto simp: normalizeDirectPairProvisionInput_def)
  have lt: "host_id c < host_id a"
    using plan_hosts(2) [OF plan] ch by (auto simp: run_checks_def dest!: hostByID)
  have "run_at plan [] [] [] 0 (result_of_plan plan, w, [])" by (simp add: run_at_def result_of_plan_def)
  moreover have "run_steps (recorded drv) plan (pv_SharedKey input) c a (result_of_plan plan, w, []) = (r, (res, (w', log)))"
    using assms n plan ch k by (simp add: Provision_def)
  ultimately have out: "case r of Inl e \<Rightarrow> stopped plan (res, w', log) \<or> reached plan (pv_SharedKey input) c a False (res, w', log)
      | Inr u \<Rightarrow> reached plan (pv_SharedKey input) c a True (res, w', log)"
    using lt by (intro prov_okD [OF run_steps_ok [OF _ plan_hosts(1) [OF plan]]]) auto
  show ?thesis
  proof (cases r)
    case (Inl e)
    with out consider "stopped plan (res, w', log)" | "reached plan (pv_SharedKey input) c a False (res, w', log)" by auto
    then show ?thesis
    proof cases
      case 1
      then show ?thesis using Inl by (auto simp: stopped_def no_write_def) (metis fst_conv image_eqI)
    next
      case 2
      then show ?thesis using Inl lt unfolding reached_def scan_of_def by fastforce
    qed
  next
    case (Inr u)
    with out lt show ?thesis unfolding reached_def scan_of_def by fastforce
  qed
qed

definition pair_host_example :: "string \<Rightarrow> DirectPairProvisionHost" where
  "pair_host_example name =
     (let h = \<lparr>dh_ID = name, dh_SSHHost = name, dh_SSHUser = ''u'', dh_SSHPort = 22, dh_InstallPath = ''/b'', dh_GatewayPath = ''/g'',
              dh_SSHServerMode = []\<rparr>
      in \<lparr>ph_Host = h, ph_AdminHost = h, ph_KnownHostsPath = ''/k'', ph_SyncKeyPath = ''/s''\<rparr>)"

definition material_example :: SyncKeyMaterial where
  "material_example = \<lparr>sm_PrivateKeyPath = ''/s'', sm_PublicKey = key_example, sm_KeyID = ''key00001''\<rparr>"

definition driver_example :: "unit DirectPairProvisionDriver" where
  "driver_example =
     \<lparr>dv_ConfirmHostKey = (\<lambda>h w. (Inr (dh_SSHHost h @ '' ssh-ed25519 '' @ key_example), w)),
      dv_UpsertKnownHostPin = (\<lambda>a b p pin w. (Inr (), w)), dv_EnsureSyncKey = (\<lambda>h w. (Inr material_example, w)),
      dv_InstallAuthorizedKey = (\<lambda>h k w. (Inr (), w)), dv_RunProbe = (\<lambda>c h i k w. (Inr (), w)), dv_WriteConfig = (\<lambda>m w. (Inr (), w))\<rparr>"

definition pair_example :: DirectPairProvisionInput where
  "pair_example = \<lparr>pv_Local = pair_host_example ''b'', pv_Remote = pair_host_example ''a'',
     pv_SharedKey = replicate 43 (CHR ''A'') @ ''=''\<rparr>"

lemma example_names:
  assumes "name \<in> {''a'', ''b''}"
  shows "ValidateHostID name = Inr ()" and "CanonicalSSHHost name = Inr name"
proof -
  have "list_all (\<lambda>n. ValidateHostID n = Inr () \<and> CanonicalSSHHost n = Inr n) [''a'', ''b'']" by code_simp
  with assms show "ValidateHostID name = Inr ()" "CanonicalSSHHost name = Inr name" by auto
qed

lemma pair_example_host:
  assumes "name \<in> {''a'', ''b''}"
  shows "normalizeDirectPairHost (ph_Host (pair_host_example name)) = Inr (ph_Host (pair_host_example name))"
    and "normalizeDirectPairProvisionHost (pair_host_example name) = Inr (pair_host_example name)"
proof -
  have v: "ValidateSSHUser ''u'' = Inr ()" "ValidateSSHExecutablePath ''/b'' = Inr ()" "ValidateSSHExecutablePath ''/g'' = Inr ()"
    "ValidateSSHExecutablePath ''/k'' = Inr ()" "ValidateSSHExecutablePath ''/s'' = Inr ()" "ValidateSyncKeyPath ''/s'' = Inr ()"
    "NormalizeSSHServerMode [] = Inr []" by code_simp+
  then show h: "normalizeDirectPairHost (ph_Host (pair_host_example name)) = Inr (ph_Host (pair_host_example name))"
    using example_names [OF assms] by (simp add: normalizeDirectPairHost_def pair_host_example_def Let_def)
  have e: "ph_AdminHost (pair_host_example name) = ph_Host (pair_host_example name)" "dh_ID (ph_Host (pair_host_example name)) = name"
    "ph_KnownHostsPath (pair_host_example name) = ''/k''" "ph_SyncKeyPath (pair_host_example name) = ''/s''"
    by (simp_all add: pair_host_example_def Let_def)
  show "normalizeDirectPairProvisionHost (pair_host_example name) = Inr (pair_host_example name)"
    using v by (simp add: normalizeDirectPairProvisionHost_def h e) (simp add: pair_host_example_def Let_def)
qed

lemma pair_example_input:
  "normalizeDirectPairProvisionInput pair_example = Inr pair_example"
  "run_checks True \<lparr>pp_PairID = [], pp_ConnectHostID = ''a'', pp_AcceptHostID = ''b'', pp_Steps = [], pp_ConfigWrites = []\<rparr> pair_example =
     Inr (pair_host_example ''a'', pair_host_example ''b'')"
  "normalizeDirectPairHost (ph_Host (pair_host_example ''a'')) = Inr (ph_Host (pair_host_example ''a''))"
  "normalizeDirectPairHost (ph_Host (pair_host_example ''b'')) = Inr (ph_Host (pair_host_example ''b''))"
  "''a'' < ''b''"
proof -
  show "normalizeDirectPairProvisionInput pair_example = Inr pair_example"
    by (simp add: normalizeDirectPairProvisionInput_def pair_example_def pair_example_host)
  have "SharedKeyIsStandard32Bytes (replicate 43 (CHR ''A'') @ ''='')" by code_simp
  then show "run_checks True \<lparr>pp_PairID = [], pp_ConnectHostID = ''a'', pp_AcceptHostID = ''b'', pp_Steps = [], pp_ConfigWrites = []\<rparr> pair_example =
     Inr (pair_host_example ''a'', pair_host_example ''b'')"
    by (simp add: run_checks_def directPairProvisionHostByID_def pair_example_def pair_host_example_def Let_def)
  show "''a'' < ''b''" by code_simp
qed (simp_all add: pair_example_host)

lemma material_example_ok:
  assumes "name \<in> {''a'', ''b''}"
  shows "validateSyncKeyMaterial material_example = Inr ()"
    and "NewManagedAuthorizedKey \<lparr>ak_PeerID = name, ak_KeyID = ''key00001'', ak_GatewayPath = ''/g'', ak_PublicKey = key_example\<rparr> =
       Inr \<lparr>ak_PeerID = name, ak_KeyID = ''key00001'', ak_GatewayPath = ''/g'', ak_PublicKey = key_example\<rparr>"
proof -
  have k: "publicKeyType key_example = Inr managedKeyType"
    using new_key(5) [OF auth_key_example_ok] by (simp add: auth_key_example_def)
  have v: "ValidateManagedAuthorizedKeyID ''key00001'' = Inr ()" "ValidateSSHExecutablePath ''/s'' = Inr ()"
    "ValidateSSHExecutablePath ''/g'' = Inr ()" "ValidateHostID ''a'' = Inr ()" "ValidateHostID ''b'' = Inr ()" by code_simp+
  from k v show "validateSyncKeyMaterial material_example = Inr ()"
    by (simp add: validateSyncKeyMaterial_def material_example_def)
  from k v assms show "NewManagedAuthorizedKey \<lparr>ak_PeerID = name, ak_KeyID = ''key00001'', ak_GatewayPath = ''/g'', ak_PublicKey = key_example\<rparr> =
       Inr \<lparr>ak_PeerID = name, ak_KeyID = ''key00001'', ak_GatewayPath = ''/g'', ak_PublicKey = key_example\<rparr>"
    by (auto simp: NewManagedAuthorizedKey_def)
qed

lemma validate_other_pattern:
  "validateKnownHostPin pin = Inr () \<Longrightarrow> validateKnownHostPattern p = Inr () \<Longrightarrow> validateKnownHostPin (pin\<lparr>kp_Pattern := p\<rparr>) = Inr ()"
  by (auto simp: validateKnownHostPin_def split: if_splits sum.splits)

lemma scan_example_ok:
  assumes "name \<in> {''a'', ''b''}"
  shows "ParseKnownHostScanLine name 22 (name @ '' ssh-ed25519 '' @ key_example) = Inr (pin_example\<lparr>kp_Pattern := name\<rparr>)"
proof -
  have c: "KnownHostsPattern ''a'' 22 = Inr ''a''" "KnownHostsPattern ''b'' 22 = Inr ''b''"
    "validateKnownHostPattern ''a'' = Inr ()" "validateKnownHostPattern ''b'' = Inr ()"
    "str_fields (trim_space (''a'' @ '' ssh-ed25519 '' @ key_example)) = [''a'', ''ssh-ed25519'', key_example]"
    "str_fields (trim_space (''b'' @ '' ssh-ed25519 '' @ key_example)) = [''b'', ''ssh-ed25519'', key_example]"
    "knownHostPatternListContains ''a'' ''a''" "knownHostPatternListContains ''b'' ''b''"
    by code_simp+
  have "validateKnownHostPin pin_example = Inr ()" using pin_example_new by (auto simp: NewKnownHostPin_def Let_def c(1))
  then have "validateKnownHostPin (pin_example\<lparr>kp_Pattern := name\<rparr>) = Inr ()"
    using c(3,4) assms validate_other_pattern [of pin_example name] by blast
  then have "NewKnownHostPin name 22 ''ssh-ed25519'' key_example = Inr (pin_example\<lparr>kp_Pattern := name\<rparr>)"
    using c(1,2) assms by (auto simp: NewKnownHostPin_def Let_def pin_example_def)
  then show ?thesis using c assms by (auto simp: ParseKnownHostScanLine_def Let_def has_prefix_def)
qed

lemma pair_example_runs: "fst (Provision (Some (recorded driver_example)) True pair_example ((), [])) = Inr ()"
proof -
  have "BuildDirectPairPlan \<lparr>pi_Local = ph_Host (pv_Local pair_example), pi_Remote = ph_Host (pv_Remote pair_example)\<rparr> =
    Inr \<lparr>pp_PairID = ''a--b'', pp_ConnectHostID = ''a'', pp_AcceptHostID = ''b'', pp_Steps = plan_steps,
      pp_ConfigWrites = [reciprocalPeerConfigWrite (ph_Host (pair_host_example ''a'')) (ph_Host (pair_host_example ''b'')),
        reciprocalPeerConfigWrite (ph_Host (pair_host_example ''b'')) (ph_Host (pair_host_example ''a''))]\<rparr>"
    using pair_example_input(3-5) by (simp add: BuildDirectPairPlan_def pair_example_def) (simp add: pair_host_example_def Let_def)
  moreover have "run_checks True \<lparr>pp_PairID = ''a--b'', pp_ConnectHostID = ''a'', pp_AcceptHostID = ''b'', pp_Steps = st, pp_ConfigWrites = cw\<rparr> pair_example =
     Inr (pair_host_example ''a'', pair_host_example ''b'')" for st cw
    using pair_example_input(2) by (simp add: run_checks_def)
  ultimately show ?thesis
    using scan_example_ok [of "''a''"] scan_example_ok [of "''b''"] material_example_ok [of "''a''"] material_example_ok [of "''b''"]
    by (simp add: Provision_def pair_example_input run_steps_def Let_def phase_def confirm_direction_def pin_direction_def ensure_key_def
        install_direction_def probe_direction_def run_defs completed_def driver_example_def prov_return_def pair_host_example_def
        direction_key_def key_of_host_def material_example_def)
qed

theorem provision_config_last_witness:
  "\<exists>res log m. Provision (Some (recorded driver_example)) True pair_example ((), []) = (Inr (), (res, ((), log))) \<and>
     (CallWrite m, True) \<in> set log \<and> ps_CompletedSteps res = map st_Kind plan_steps"
proof -
  obtain res log where r: "Provision (Some (recorded driver_example)) True pair_example ((), []) = (Inr (), (res, ((), log)))"
    using pair_example_runs by (cases "Provision (Some (recorded driver_example)) True pair_example ((), [])") auto
  from provision_config_last [OF r] r show ?thesis by fastforce
qed

section \<open>Meshes\<close>

lemma normalize_hosts_ids: "normalize_hosts i hosts = Inr ns \<Longrightarrow> map dh_ID ns = map dh_ID hosts"
  by (induction hosts arbitrary: i ns) (auto simp: normalizeDirectPairHost_def)

lemma strictly_sorted:
  "sorted (map dh_ID hs) \<Longrightarrow> no_equal_neighbours hs = Inr () \<Longrightarrow> sorted_wrt (<) (map dh_ID hs)"
proof (induction hs rule: no_equal_neighbours.induct)
  case (1 a b hs)
  then have "dh_ID a < dh_ID b" "sorted_wrt (<) (map dh_ID (b # hs))" by (auto split: if_splits)
  then show ?case by (auto intro: less_trans)
qed auto

definition plan_ends :: "DirectPairPlan \<Rightarrow> string \<times> string" where
  "plan_ends plan = (pp_ConnectHostID plan, pp_AcceptHostID plan)"

lemma pair_with_ends:
  "pair_with a hs = Inr ps \<Longrightarrow> \<forall>b \<in> set hs. dh_ID a < dh_ID b \<Longrightarrow> map plan_ends ps = map (\<lambda>b. (dh_ID a, dh_ID b)) hs"
proof (induction hs arbitrary: ps)
  case (Cons b hs)
  then obtain p ps' where p: "BuildDirectPairPlan \<lparr>pi_Local = a, pi_Remote = b\<rparr> = Inr p" and ps: "ps = p # ps'" "pair_with a hs = Inr ps'" by auto
  have "plan_ends p = (dh_ID a, dh_ID b)"
    using plan_hosts(2,3) [OF p] Cons.prems(2) by (auto simp: plan_ends_def doubleton_eq_iff)
  then show ?case using Cons ps by simp
qed simp

fun ordered_pairs :: "string list \<Rightarrow> (string \<times> string) list" where
  "ordered_pairs [] = []"
| "ordered_pairs (a # as) = map (Pair a) as @ ordered_pairs as"

lemma mesh_pairs_ends:
  "mesh_pairs hs = Inr ps \<Longrightarrow> sorted_wrt (<) (map dh_ID hs) \<Longrightarrow> map plan_ends ps = ordered_pairs (map dh_ID hs)"
proof (induction hs arbitrary: ps)
  case (Cons a hs)
  then obtain qs rs where q: "pair_with a hs = Inr qs" "mesh_pairs hs = Inr rs" "ps = qs @ rs" by auto
  with pair_with_ends [OF q(1)] Cons show ?case by (auto simp: comp_def)
qed simp

lemma ordered_pairs_correct:
  "sorted_wrt (<) is \<Longrightarrow> distinct (ordered_pairs is) \<and> set (ordered_pairs is) = {(a, b). a \<in> set is \<and> b \<in> set is \<and> a < b}"
proof (induction "is")
  case (Cons a as)
  then have d: "distinct as" by (auto simp: strict_sorted_iff)
  have "set (ordered_pairs as) = {(x, b). x \<in> set as \<and> b \<in> set as \<and> x < b}" "distinct (ordered_pairs as)"
    "\<forall>b \<in> set as. a < b" using Cons by auto
  then show ?case using d by (auto simp: distinct_map inj_on_def dest: less_asym)
qed simp

text \<open>C21. The plan of a mesh joins every two hosts once: a plan is made only for hosts with distinct identifiers, and
  then for each two of them there is exactly one pair, in which the host with the smaller identifier connects.\<close>

theorem mesh_joins_every_pair:
  assumes "BuildDirectMeshPlan hosts = Inr mesh"
  shows "distinct (map dh_ID hosts) \<and> distinct (map plan_ends (mp_Pairs mesh)) \<and>
    set (map plan_ends (mp_Pairs mesh)) = {(a, b). a \<in> dh_ID ` set hosts \<and> b \<in> dh_ID ` set hosts \<and> a < b}"
proof -
  from assms obtain ns where ns: "normalize_hosts 0 hosts = Inr ns" and ne: "no_equal_neighbours (sort_key dh_ID ns) = Inr ()"
    and ps: "mesh_pairs (sort_key dh_ID ns) = Inr (mp_Pairs mesh)"
    by (auto simp: BuildDirectMeshPlan_def Let_def)
  let ?is = "map dh_ID (sort_key dh_ID ns)"
  have s: "sorted_wrt (<) ?is" by (rule strictly_sorted [OF _ ne]) simp
  have i: "mset ?is = mset (map dh_ID hosts)"
    using normalize_hosts_ids [OF ns] by (metis mset_map mset_sort)
  have "set ?is = dh_ID ` set hosts" using i by (metis list.set_map set_mset_mset)
  moreover have "distinct (map dh_ID hosts)" using s i by (metis mset_eq_imp_distinct_iff strict_sorted_iff)
  ultimately show ?thesis using ordered_pairs_correct [OF s] mesh_pairs_ends [OF ps s] by simp
qed

lemma mesh_example_ok: "\<not> isl (BuildDirectMeshPlan [ph_Host (pair_host_example ''b''), ph_Host (pair_host_example ''a'')])"
proof -
  have "dh_ID (ph_Host (pair_host_example name)) = name" for name by (simp add: pair_host_example_def Let_def)
  then show ?thesis using pair_example_input(5)
    by (simp add: BuildDirectMeshPlan_def BuildDirectPairPlan_def pair_example_host Let_def not_less less_imp_le)
qed

theorem mesh_joins_every_pair_witness:
  "\<exists>mesh. BuildDirectMeshPlan [ph_Host (pair_host_example ''b''), ph_Host (pair_host_example ''a'')] = Inr mesh \<and>
     (''a'', ''b'') \<in> set (map plan_ends (mp_Pairs mesh))"
proof -
  obtain mesh where m: "BuildDirectMeshPlan [ph_Host (pair_host_example ''b''), ph_Host (pair_host_example ''a'')] = Inr mesh"
    using mesh_example_ok by (cases "BuildDirectMeshPlan [ph_Host (pair_host_example ''b''), ph_Host (pair_host_example ''a'')]") auto
  from mesh_joins_every_pair [OF m] pair_example_input(5) m show ?thesis by (auto simp: pair_host_example_def Let_def)
qed

end
