(* ===== verification/Clipfan_Gateway.thy ===== *)
theory Clipfan_Gateway
  imports Clipfan_Session Clipfan_Pair
begin

text \<open>
  The accepting end of a stream: \<open>internal/cli/ssh_gateway.go\<close>. sshd runs the forced command of an authorized
  key; the gateway takes the identity from its arguments and the command from the environment, checks the
  peer against the configuration, answers the hello, and then serves the stream: clips of the peer go to the
  local daemon, and the daemon's current clip goes to the peer. What the operating system, the configuration
  loader and the local daemon return are arguments.
\<close>

section \<open>Arguments and commands\<close>

definition ErrSSHGatewayCommandRejected :: string where "ErrSSHGatewayCommandRejected = ''ssh_gateway_command_rejected''"

record SSHGatewayIdentity =
  gi_PeerID :: string
  gi_KeyID :: string

text \<open>Go's \<open>flag\<close> package for a set of string flags: the values set, the last one winning, and the arguments left.\<close>

definition flag_name :: "string \<Rightarrow> string option res" where
  "flag_name s =
     (if length s < 2 \<or> hd s \<noteq> CHR ''-'' then Inr None
      else let name = (if s ! 1 = CHR ''-'' then drop 2 s else drop 1 s) in
        if name = [] then Inr None
        else if hd name = CHR ''-'' \<or> hd name = CHR ''='' then Inl (''bad flag syntax: '' @ s)
        else Inr (Some name))"

fun parse_flags :: "string list \<Rightarrow> string list \<Rightarrow> (string \<rightharpoonup> string) \<Rightarrow> ((string \<rightharpoonup> string) \<times> string list) res" where
  "parse_flags names [] vals = Inr (vals, [])"
| "parse_flags names (s # args) vals = (case flag_name s of
     Inl e \<Rightarrow> Inl e
   | Inr None \<Rightarrow> Inr (vals, if s = ''--'' then args else s # args)
   | Inr (Some text) \<Rightarrow>
       (let name = takeWhile (\<lambda>c. c \<noteq> CHR ''='') text in
        if name \<notin> set names
        then Inl (if name = ''help'' \<or> name = ''h'' then ''flag: help requested'' else ''flag provided but not defined: -'' @ name)
        else if CHR ''='' \<in> set text
        then parse_flags names args (vals(name \<mapsto> tl (dropWhile (\<lambda>c. c \<noteq> CHR ''='') text)))
        else case args of
          [] \<Rightarrow> Inl (''flag needs an argument: -'' @ name)
        | v # rest \<Rightarrow> parse_flags names rest (vals(name \<mapsto> v))))"

definition flag_value :: "(string \<rightharpoonup> string) \<Rightarrow> string \<Rightarrow> string" where
  "flag_value vals name = (case vals name of None \<Rightarrow> [] | Some v \<Rightarrow> v)"

text \<open>Which handlers there are, and which of them runs.\<close>

record SSHGatewayHandlers =
  gh_Probe :: bool
  gh_SyncStream :: bool
  gh_FleetSnapshot :: bool

datatype gateway_action =
    ServeProbe SSHGatewayIdentity
  | ServeSyncStream SSHGatewayIdentity
  | ServeFleetSnapshot SSHGatewayIdentity

definition runSSHGatewayWithHandlers :: "string list \<Rightarrow> string \<Rightarrow> SSHGatewayHandlers \<Rightarrow> gateway_action res" where
  "runSSHGatewayWithHandlers args originalCommand handlers =
     and_then (parse_flags [''authorized-peer'', ''authorized-key-id'', ''direct-command''] args Map.empty) (\<lambda>(vals, left).
     if left \<noteq> [] then Inl ''unexpected ssh-gateway argument''
     else let peerID = flag_value vals ''authorized-peer''; keyID = flag_value vals ''authorized-key-id'' in
       and_then (wrap_err ''invalid authorized peer'' (ValidateHostID peerID)) (\<lambda>_.
       and_then (wrap_err ''invalid authorized key id'' (ValidateManagedAuthorizedKeyID keyID)) (\<lambda>_.
       let identity = \<lparr>gi_PeerID = peerID, gi_KeyID = keyID\<rparr>;
           command = (if originalCommand = [] then flag_value vals ''direct-command'' else originalCommand) in
       if command = SSHGatewayProbeCommand then
         (if \<not> gh_Probe handlers then Inl ErrSSHGatewayCommandRejected else Inr (ServeProbe identity))
       else if command = SSHGatewaySyncStreamCommand then
         (if \<not> gh_SyncStream handlers then Inl ErrSSHGatewayCommandRejected else Inr (ServeSyncStream identity))
       else if command = SSHGatewayFleetSnapshotCommand then
         (if \<not> gh_FleetSnapshot handlers then Inl ErrSSHGatewayCommandRejected else Inr (ServeFleetSnapshot identity))
       else Inl ErrSSHGatewayCommandRejected)))"

definition defaultSSHGatewayHandlers :: "bool \<Rightarrow> SSHGatewayHandlers" where
  "defaultSSHGatewayHandlers syncStreamEnabled =
     \<lparr>gh_Probe = True, gh_SyncStream = syncStreamEnabled, gh_FleetSnapshot = True\<rparr>"

text \<open>What the default probe handler prints.\<close>

definition probe_answer :: "string \<Rightarrow> SSHGatewayIdentity \<Rightarrow> json" where
  "probe_answer version identity = JObj
     [(''key_id'', jstr (gi_KeyID identity)), (''peer_id'', jstr (gi_PeerID identity)), (''status'', jstr ''ok''), (''version'', jstr version)]"

section \<open>Opening a stream\<close>

definition validateSSHGatewaySyncPeer :: "Config option \<Rightarrow> SSHGatewayIdentity \<Rightarrow> unit res" where
  "validateSSHGatewaySyncPeer cfg identity = (case cfg of
     None \<Rightarrow> Inl ErrSSHGatewayCommandRejected
   | Some c \<Rightarrow>
       (if cf_Transport c \<noteq> TransportSSH then Inl ErrSSHGatewayCommandRejected
        else case cf_SSH c of
          None \<Rightarrow> Inl ErrSSHGatewayCommandRejected
        | Some ssh \<Rightarrow>
            (case dropWhile (\<lambda>peer. sp_ID peer \<noteq> gi_PeerID identity) (s_Peers ssh) of
               [] \<Rightarrow> Inl ErrSSHGatewayCommandRejected
             | peer # _ \<Rightarrow>
                 (if \<not> sp_Enabled peer \<or> \<not> sp_Accept peer \<or> \<not> sp_Connect peer \<or> \<not> sp_Persistent peer \<or>
                      sp_MigrationState peer \<noteq> MigrationStateSSHKeysReady
                  then Inl ErrSSHGatewayCommandRejected
                  else if s_SyncKey ssh = [] \<or> s_KnownHosts ssh = [] then Inl ErrSSHGatewayCommandRejected
                  else if pr_AcceptKeyID (sp_Proof peer) \<noteq> gi_KeyID identity then Inl ErrSSHGatewayCommandRejected
                  else Inr ()))))"

definition validateSSHGatewayFleetSnapshotPeer :: "Config option \<Rightarrow> SSHGatewayIdentity \<Rightarrow> unit res" where
  "validateSSHGatewayFleetSnapshotPeer cfg identity = validateSSHGatewaySyncPeer cfg identity"

definition sshGatewayLocalID :: "string res \<Rightarrow> Config option \<Rightarrow> string res" where
  "sshGatewayLocalID os_hostname cfg = (case cfg of
     None \<Rightarrow> Inl ErrSSHGatewayCommandRejected
   | Some c \<Rightarrow>
       (let localID = (if cf_Hostname c = []
            then (case os_hostname of Inl _ \<Rightarrow> [] | Inr host \<Rightarrow> trim_suffix (hd (split_on (CHR ''.'') host)) ''.local'')
            else cf_Hostname c)
        in and_then (wrap_err ''invalid local host id'' (ValidateHostID localID)) (\<lambda>_. Inr localID)))"

definition isSSHGatewayLoopbackHost :: "string \<Rightarrow> bool" where
  "isSSHGatewayLoopbackHost host =
     (if fold_case host = ''localhost'' then True
      else case ParseIP host of None \<Rightarrow> False | Some ip \<Rightarrow> IsLoopback ip)"

definition sshGatewayLocalDaemonTarget :: "bool \<Rightarrow> Config option \<Rightarrow> (string \<times> int) res" where
  "sshGatewayLocalDaemonTarget loopbackDefaults cfg = (case cfg of
     None \<Rightarrow> Inl ErrSSHGatewayCommandRejected
   | Some c \<Rightarrow>
       (let plan = PlanListener c loopbackDefaults in
        if lp_SafeMode plan then Inl (''ssh gateway listener safe mode: '' @ lp_ParseError plan)
        else case SplitHostPort (lp_BindListen plan) of
          None \<Rightarrow> Inl ''invalid planned listen''
        | Some (host0, portText) \<Rightarrow>
            (case parse_int64 portText of
               None \<Rightarrow> Inl ''invalid planned listen port''
             | Some port \<Rightarrow>
                 (if port \<le> 0 \<or> port > 65535 then Inl ''invalid planned listen port''
                  else let host = (if host0 \<in> {[], ''0.0.0.0'', ''::'', ''[::]''} then ''127.0.0.1'' else host0) in
                    if \<not> isSSHGatewayLoopbackHost host then Inl (''planned listen is not loopback: '' @ host)
                    else Inr (host, port)))))"

text \<open>The start of \<open>runDefaultSSHGatewaySyncStream\<close>: \<open>statOK\<close> and \<open>loaded\<close> are what \<open>os.Stat\<close> and \<open>config.Load\<close>
  returned, \<open>doc\<close> is the first frame of the peer, \<open>rnd\<close> the random bytes of the nonce. It gives the stream, the hello to
  write, and the address of the local daemon.\<close>

definition gateway_open :: "bool \<Rightarrow> bool \<Rightarrow> Config res \<Rightarrow> string res \<Rightarrow> SSHStreamHelloNonceCache \<Rightarrow> bytes option \<Rightarrow> gotime \<Rightarrow> gotime \<Rightarrow> json_doc \<Rightarrow>
    SSHGatewayIdentity \<Rightarrow> (SSHSyncStream \<times> bytes \<times> string \<times> int) stream_res" where
  "gateway_open loopbackDefaults statOK loaded os_hostname cache rnd now1 now2 doc identity =
     (if \<not> statOK then Inl (ErrStream ErrSSHGatewayCommandRejected)
      else and_then (lift_res loaded) (\<lambda>cfg.
        and_then (lift_res (sshGatewayLocalID os_hostname (Some cfg))) (\<lambda>localID.
        and_then (lift_res (validateSSHGatewaySyncPeer (Some cfg) identity)) (\<lambda>_.
        and_then (lift_res (NewAuth (cf_SharedKey cfg))) (\<lambda>auth.
        let stream = NewSSHSyncStream (Some auth) localID (gi_PeerID identity) in
        and_then (fst (ReadHello stream doc now1 cache)) (\<lambda>_.
        and_then (lift_res (NewSSHStreamHello (Some auth) rnd SSHStreamPurposeSyncStream localID (gi_PeerID identity) now2 [])) (\<lambda>hello.
        and_then (WriteHello False stream hello) (\<lambda>out.
        and_then (lift_res (sshGatewayLocalDaemonTarget loopbackDefaults (Some cfg))) (\<lambda>(localHost, localPort).
        Inr (stream, out, localHost, localPort))))))))))"

section \<open>Serving a stream\<close>

text \<open>What becomes of a write that \<open>writeSSHGatewayFrame\<close> started: it is done, it fails, or it is still under way after ten
  seconds. In the last case an error is returned too, but the goroutine goes on, and the frame goes out later.\<close>

datatype write_outcome = Written | WriteFails stream_error | WritesLate

text \<open>The variables of the loop and, for the proofs, the frames that went out or will, in the order in which their writes
  were started and with whether the write was reported as done, and the clips the local daemon took. \<open>io\<close> is the outcome of a
  write of the given bytes, \<open>push\<close> whether the local daemon takes a clip.\<close>

datatype gateway_frame =
    AckFrame "64 word" string string string
  | StateFrame "64 word" content string

record gateway_loop =
  gl_seq :: "64 word"
  gl_sentCurrent :: "string list"
  gl_pollFailures :: int
  gl_written :: "(gateway_frame \<times> bool) list"
  gl_pushed :: "(content \<times> string) list"

definition start_loop :: gateway_loop where
  "start_loop = \<lparr>gl_seq = 0, gl_sentCurrent = [], gl_pollFailures = 0, gl_written = [], gl_pushed = []\<rparr>"

definition maxConsecutiveCurrentPollFailures :: int where "maxConsecutiveCurrentPollFailures = 40"

definition write_frame :: "(bytes \<Rightarrow> write_outcome) \<Rightarrow> gateway_frame \<Rightarrow> bytes stream_res \<Rightarrow> gateway_loop \<Rightarrow> unit stream_res \<times> gateway_loop" where
  "write_frame io frame data g = (case data of
     Inl e \<Rightarrow> (Inl e, g)
   | Inr bytes \<Rightarrow> (case io bytes of
       Written \<Rightarrow> (Inr (), g\<lparr>gl_written := gl_written g @ [(frame, True)]\<rparr>)
     | WriteFails e \<Rightarrow> (Inl e, g)
     | WritesLate \<Rightarrow> (Inl (ErrStream ''context deadline exceeded''), g\<lparr>gl_written := gl_written g @ [(frame, False)]\<rparr>)))"

definition write_ack :: "(bytes \<Rightarrow> write_outcome) \<Rightarrow> 64 word \<Rightarrow> string \<Rightarrow> string \<Rightarrow> string \<Rightarrow> gateway_loop \<Rightarrow> unit stream_res \<times> gateway_loop" where
  "write_ack io seq clipID status reason = write_frame io (AckFrame seq clipID status reason) (WriteAck False seq clipID status reason)"

text \<open>A state without a reason has a content; the empty content that Go would have otherwise has no identifier to
  acknowledge.\<close>

definition handleSSHGatewayState :: "(bytes \<Rightarrow> write_outcome) \<Rightarrow> (content \<Rightarrow> string \<Rightarrow> bool) \<Rightarrow> SSHStreamStateResult \<Rightarrow> gateway_loop \<Rightarrow>
    unit stream_res \<times> gateway_loop" where
  "handleSSHGatewayState io push state g =
     (if sr_NullReason state \<noteq> [] then write_ack io (sr_Seq state) [] ''no_state'' [] g
      else case sr_Content state of
        None \<Rightarrow> write_ack io (sr_Seq state) [] ''applied'' [] g
      | Some content \<Rightarrow>
          (if \<not> push content (sr_Origin state)
           then write_ack io (sr_Seq state) (c_ID content) ''rejected'' ''local_apply_failed'' g
           else write_ack io (sr_Seq state) (c_ID content) ''applied'' []
                  (g\<lparr>gl_pushed := gl_pushed g @ [(content, sr_Origin state)]\<rparr>)))"

definition publishSSHGatewayCurrent :: "(bytes \<Rightarrow> write_outcome) \<Rightarrow> SSHSyncStream \<Rightarrow> bytes option \<Rightarrow> CurrentPayload stream_res \<Rightarrow> gateway_loop \<Rightarrow>
    unit stream_res \<times> gateway_loop" where
  "publishSSHGatewayCurrent io stream rnd current g = (case current of
     Inl e \<Rightarrow> (if e = ErrSSHStreamFrameTooLarge then Inr () else Inl e, g)
   | Inr payload \<Rightarrow>
       (case payload_content payload of
          Inl e \<Rightarrow> (Inl (ErrStream e), g)
        | Inr None \<Rightarrow> (Inr (), g)
        | Inr (Some content) \<Rightarrow>
            (if c_ID content = [] \<or> HostsMatch (p_Origin payload) (ss_remoteID stream) then (Inr (), g)
             else if int (length (c_Bytes content)) > MaxSSHStreamPayloadBytes then (Inr (), g)
             else if c_ID content \<in> set (gl_sentCurrent g) then (Inr (), g)
             else let currentSeq = gl_seq g + 1 in
               (case write_frame io (StateFrame currentSeq content (p_Origin payload))
                       (WriteState False stream rnd currentSeq content (p_Origin payload)) (g\<lparr>gl_seq := currentSeq\<rparr>) of
                  (Inl e, g') \<Rightarrow> (Inl e, g')
                | (Inr _, g') \<Rightarrow> (Inr (), g'\<lparr>gl_sentCurrent := c_ID content # gl_sentCurrent g'\<rparr>)))))"

datatype gateway_event =
    StreamError stream_error
  | StreamDone
  | StreamFrame SSHStreamEvent
  | CurrentTick "bytes option" "CurrentPayload stream_res"

datatype gateway_outcome = Continues | Returns "unit stream_res"

text \<open>One turn of the loop's \<open>select\<close>.\<close>

definition gateway_turn :: "(bytes \<Rightarrow> write_outcome) \<Rightarrow> (content \<Rightarrow> string \<Rightarrow> bool) \<Rightarrow> SSHSyncStream \<Rightarrow> gateway_event \<Rightarrow> gateway_loop \<Rightarrow>
    gateway_outcome \<times> gateway_loop" where
  "gateway_turn io push stream event g = (case event of
     StreamError e \<Rightarrow> (Returns (Inl e), g)
   | StreamDone \<Rightarrow> (Returns (Inr ()), g)
   | StreamFrame (StateEvent state) \<Rightarrow>
       (case handleSSHGatewayState io push state g of
          (Inl e, g') \<Rightarrow> (Returns (Inl e), g') | (Inr _, g') \<Rightarrow> (Continues, g'))
   | StreamFrame (AckEvent _) \<Rightarrow> (Continues, g)
   | StreamFrame (ErrorEvent code) \<Rightarrow> (Returns (Inl (ErrStream (''ssh stream error frame: '' @ code))), g)
   | CurrentTick rnd current \<Rightarrow>
       (case publishSSHGatewayCurrent io stream rnd current g of
          (Inl e, g') \<Rightarrow>
            (let failures = gl_pollFailures g' + 1; g'' = g'\<lparr>gl_pollFailures := failures\<rparr> in
             if failures \<ge> maxConsecutiveCurrentPollFailures then (Returns (Inl (ErrStream ''local current poll failing persistently'')), g'')
             else (Continues, g''))
        | (Inr _, g') \<Rightarrow> (Continues, g'\<lparr>gl_pollFailures := 0\<rparr>)))"

text \<open>The reader's side, \<open>readSSHGatewayStreamEvents\<close>: the end of the input ends the stream without an error.\<close>

definition stream_event :: "SSHStreamEvent stream_res \<Rightarrow> gateway_event" where
  "stream_event r = (case r of
     Inl e \<Rightarrow> (if e = ErrSSHStreamUnexpectedEOF then StreamDone else StreamError e)
   | Inr event \<Rightarrow> StreamFrame event)"

text \<open>The runs of the loop: the events so far, whether it goes on, and its state.\<close>

inductive gateway_runs :: "SSHSyncStream \<Rightarrow> gateway_event list \<Rightarrow> gateway_outcome \<Rightarrow> gateway_loop \<Rightarrow> bool" for stream where
  start: "gateway_runs stream [] Continues start_loop"
| turn: "gateway_runs stream es Continues g \<Longrightarrow> gateway_turn io push stream e g = (oc, g') \<Longrightarrow> gateway_runs stream (es @ [e]) oc g'"

section \<open>Lemmas\<close>

definition acks :: "gateway_loop \<Rightarrow> (64 word \<times> string) list" where
  "acks g = List.map_filter (\<lambda>(f, _). case f of AckFrame seq i _ _ \<Rightarrow> Some (seq, i) | _ \<Rightarrow> None) (gl_written g)"

definition states_sent :: "gateway_loop \<Rightarrow> (64 word \<times> content \<times> string \<times> bool) list" where
  "states_sent g = List.map_filter (\<lambda>(f, done). case f of StateFrame seq c origin \<Rightarrow> Some (seq, c, origin, done) | _ \<Rightarrow> None) (gl_written g)"

text \<open>The clips whose write was reported as done, the last first.\<close>

definition confirmed :: "gateway_loop \<Rightarrow> string list" where
  "confirmed g = rev (List.map_filter (\<lambda>(_, c, _, done). if done then Some (c_ID c) else None) (states_sent g))"

definition states_received :: "gateway_event list \<Rightarrow> SSHStreamStateResult list" where
  "states_received es = List.map_filter (\<lambda>e. case e of StreamFrame (StateEvent st) \<Rightarrow> Some st | _ \<Rightarrow> None) es"

definition ack_due :: "SSHStreamStateResult \<Rightarrow> 64 word \<times> string" where
  "ack_due st = (sr_Seq st, if sr_NullReason st \<noteq> [] then [] else case sr_Content st of None \<Rightarrow> [] | Some c \<Rightarrow> c_ID c)"

lemma map_filter_snoc [simp]: "List.map_filter f (xs @ [x]) = List.map_filter f xs @ (case f x of None \<Rightarrow> [] | Some y \<Rightarrow> [y])"
  by (simp add: map_filter_def split: option.splits)

lemma map_filter_Nil [simp]: "List.map_filter f [] = []"
  by (simp add: map_filter_def)

lemma write_frame_cases:
  assumes "write_frame io f d g = (r, g')"
  obtains e where "r = Inl e" and "g' = g" | e where "r = Inl e" and "g' = g\<lparr>gl_written := gl_written g @ [(f, False)]\<rparr>"
    | "r = Inr ()" and "g' = g\<lparr>gl_written := gl_written g @ [(f, True)]\<rparr>"
  using assms that by (auto simp: write_frame_def split: sum.splits write_outcome.splits)

lemma written_simps [simp]:
  "acks (g\<lparr>gl_written := gl_written h @ [(AckFrame n i st rs, done)]\<rparr>) = acks h @ [(n, i)]"
  "acks (g\<lparr>gl_written := gl_written h @ [(StateFrame n c origin, done)]\<rparr>) = acks h"
  "states_sent (g\<lparr>gl_written := gl_written h @ [(AckFrame n i st rs, done)]\<rparr>) = states_sent h"
  "states_sent (g\<lparr>gl_written := gl_written h @ [(StateFrame n c origin, done)]\<rparr>) = states_sent h @ [(n, c, origin, done)]"
  "acks (g\<lparr>gl_seq := q\<rparr>) = acks g" "states_sent (g\<lparr>gl_seq := q\<rparr>) = states_sent g"
  "acks (g\<lparr>gl_sentCurrent := l\<rparr>) = acks g" "states_sent (g\<lparr>gl_sentCurrent := l\<rparr>) = states_sent g"
  "acks (g\<lparr>gl_pushed := u\<rparr>) = acks g" "states_sent (g\<lparr>gl_pushed := u\<rparr>) = states_sent g"
  "acks (g\<lparr>gl_pollFailures := n'\<rparr>) = acks g" "states_sent (g\<lparr>gl_pollFailures := n'\<rparr>) = states_sent g"
  by (simp_all add: acks_def states_sent_def)

lemma handle_state:
  assumes "handleSSHGatewayState io push st g = (r, g')"
  shows "gl_seq g' = gl_seq g \<and> gl_sentCurrent g' = gl_sentCurrent g \<and> states_sent g' = states_sent g \<and>
    (r = Inr () \<and> acks g' = acks g @ [ack_due st] \<or> r \<noteq> Inr () \<and> acks g' \<in> {acks g, acks g @ [ack_due st]}) \<and>
    set (gl_pushed g') \<subseteq> set (gl_pushed g) \<union> {(c, sr_Origin st) | c. sr_Content st = Some c}"
  using assms unfolding handleSSHGatewayState_def write_ack_def
  by (auto simp: ack_due_def split: if_splits option.splits elim!: write_frame_cases)

text \<open>A poll sends nothing, or one clip that was not confirmed before; it counts as confirmed when the poll succeeds.\<close>

definition sends_one :: "SSHSyncStream \<Rightarrow> gateway_loop \<Rightarrow> unit stream_res \<Rightarrow> gateway_loop \<Rightarrow> bool" where
  "sends_one stream g r g' \<longleftrightarrow> (\<exists>c origin. states_sent g' = states_sent g @ [(gl_seq g + 1, c, origin, r = Inr ())] \<and>
     gl_sentCurrent g' = (if r = Inr () then c_ID c # gl_sentCurrent g else gl_sentCurrent g) \<and>
     c_ID c \<notin> set (gl_sentCurrent g) \<and> \<not> HostsMatch origin (ss_remoteID stream) \<and> int (length (c_Bytes c)) \<le> MaxSSHStreamPayloadBytes)"

lemma publish_current:
  assumes "publishSSHGatewayCurrent io stream rnd current g = (r, g')"
  shows "gl_pollFailures g' = gl_pollFailures g \<and> acks g' = acks g \<and> gl_pushed g' = gl_pushed g \<and>
    (gl_sentCurrent g' = gl_sentCurrent g \<and> states_sent g' = states_sent g \<or> sends_one stream g r g')"
proof -
  consider "g' = g" | c origin where "c_ID c \<notin> set (gl_sentCurrent g)" "\<not> HostsMatch origin (ss_remoteID stream)"
      "int (length (c_Bytes c)) \<le> MaxSSHStreamPayloadBytes"
      "(case write_frame io (StateFrame (gl_seq g + 1) c origin) (WriteState False stream rnd (gl_seq g + 1) c origin) (g\<lparr>gl_seq := gl_seq g + 1\<rparr>) of
          (Inl e, g') \<Rightarrow> (Inl e, g') | (Inr _, g') \<Rightarrow> (Inr (), g'\<lparr>gl_sentCurrent := c_ID c # gl_sentCurrent g'\<rparr>)) = (r, g')"
    using assms unfolding publishSSHGatewayCurrent_def by (auto simp: Let_def split: sum.splits option.splits if_splits)
  then show ?thesis
  proof cases
    case 2
    obtain r1 g1 where w: "write_frame io (StateFrame (gl_seq g + 1) c origin) (WriteState False stream rnd (gl_seq g + 1) c origin)
        (g\<lparr>gl_seq := gl_seq g + 1\<rparr>) = (r1, g1)" by fastforce
    then show ?thesis by (rule write_frame_cases) (use 2 w in \<open>auto simp: sends_one_def\<close>)
  qed simp
qed

definition clips_of :: "SSHStreamStateResult list \<Rightarrow> (content \<times> string) set" where
  "clips_of sts = {(c, sr_Origin st) | c st. st \<in> set sts \<and> sr_Content st = Some c}"

lemma clips_of_snoc: "clips_of (sts @ [st]) = clips_of sts \<union> {(c, sr_Origin st) | c. sr_Content st = Some c}"
  by (auto simp: clips_of_def)

text \<open>A clip whose write was reported as done does not come again.\<close>

definition no_repeat :: "64 word \<times> content \<times> string \<times> bool \<Rightarrow> 64 word \<times> content \<times> string \<times> bool \<Rightarrow> bool" where
  "no_repeat x y \<longleftrightarrow> (case (x, y) of ((_, c, _, done), (_, d, _, _)) \<Rightarrow> done \<longrightarrow> c_ID c \<noteq> c_ID d)"

text \<open>What a run keeps true.\<close>

definition gateway_inv :: "SSHSyncStream \<Rightarrow> gateway_event list \<Rightarrow> gateway_outcome \<Rightarrow> gateway_loop \<Rightarrow> bool" where
  "gateway_inv stream es oc g \<longleftrightarrow>
     (if oc = Continues then acks g = map ack_due (states_received es)
      else acks g = map ack_due (states_received es) \<or> acks g = map ack_due (butlast (states_received es))) \<and>
     set (gl_pushed g) \<subseteq> clips_of (states_received es) \<and>
     gl_sentCurrent g = confirmed g \<and> sorted_wrt no_repeat (states_sent g) \<and>
     (\<forall>(_, c, origin, _) \<in> set (states_sent g). \<not> HostsMatch origin (ss_remoteID stream) \<and> int (length (c_Bytes c)) \<le> MaxSSHStreamPayloadBytes)"

lemma set_confirmed: "(n, c, origin, True) \<in> set (states_sent g) \<Longrightarrow> c_ID c \<in> set (confirmed g)"
  by (force simp: confirmed_def List.map_filter_def image_iff)

lemma sends_one_inv:
  assumes "sends_one stream g r g'" and "gl_sentCurrent g = confirmed g" and "sorted_wrt no_repeat (states_sent g)"
  shows "gl_sentCurrent g' = confirmed g' \<and> sorted_wrt no_repeat (states_sent g')"
proof -
  from assms(1) obtain c origin where s: "states_sent g' = states_sent g @ [(gl_seq g + 1, c, origin, r = Inr ())]"
    "gl_sentCurrent g' = (if r = Inr () then c_ID c # gl_sentCurrent g else gl_sentCurrent g)" "c_ID c \<notin> set (gl_sentCurrent g)"
    by (auto simp: sends_one_def)
  have "no_repeat x (gl_seq g + 1, c, origin, r = Inr ())" if "x \<in> set (states_sent g)" for x
  proof -
    obtain n d o' b where x: "x = (n, d, o', b)" by (metis prod_cases4)
    with that have "b \<Longrightarrow> c_ID d \<in> set (confirmed g)" using set_confirmed by fastforce
    with x s(3) assms(2) show ?thesis by (auto simp: no_repeat_def)
  qed
  with s assms(2,3) show ?thesis by (auto simp: confirmed_def sorted_wrt_append)
qed

lemma turn_inv:
  assumes i: "gateway_inv stream es Continues g" and t: "gateway_turn io push stream e g = (oc, g')"
  shows "gateway_inv stream (es @ [e]) oc g'"
proof (cases "\<exists>st. e = StreamFrame (StateEvent st)")
  case True
  then obtain st where e: "e = StreamFrame (StateEvent st)" by blast
  obtain r g1 where h: "handleSSHGatewayState io push st g = (r, g1)" by fastforce
  with t e have "g' = g1" "oc = Continues \<longleftrightarrow> r = Inr ()" by (auto simp: gateway_turn_def split: sum.splits)
  moreover have "states_received (es @ [e]) = states_received es @ [st]" by (simp add: states_received_def e)
  ultimately show ?thesis using handle_state [OF h] i unfolding gateway_inv_def
    by (auto simp: clips_of_snoc butlast_append confirmed_def)
next
  case False
  then have r: "states_received (es @ [e]) = states_received es" by (auto simp: states_received_def split: gateway_event.splits SSHStreamEvent.splits)
  show ?thesis
  proof (cases e)
    case (CurrentTick rnd current)
    obtain x g1 where p: "publishSSHGatewayCurrent io stream rnd current g = (x, g1)" by fastforce
    with t CurrentTick obtain n where n: "g' = g1\<lparr>gl_pollFailures := n\<rparr>"
      by (auto simp: gateway_turn_def Let_def split: sum.splits if_splits)
    have keep: "confirmed (g1\<lparr>gl_pollFailures := n\<rparr>) = confirmed g1" by (simp add: confirmed_def)
    from publish_current [OF p] show ?thesis
    proof (elim conjE disjE)
      assume "sends_one stream g x g1" "acks g1 = acks g" "gl_pushed g1 = gl_pushed g"
      moreover from this(1) i have "gl_sentCurrent g1 = confirmed g1 \<and> sorted_wrt no_repeat (states_sent g1)"
        by (intro sends_one_inv) (auto simp: gateway_inv_def)
      ultimately show ?thesis using i r unfolding n by (auto simp: gateway_inv_def keep sends_one_def)
    qed (use i r in \<open>auto simp: n gateway_inv_def keep confirmed_def\<close>)
  qed (use False i t r in \<open>auto simp: gateway_inv_def gateway_turn_def split: SSHStreamEvent.splits\<close>)
qed

lemma run_inv: "gateway_runs stream es oc g \<Longrightarrow> gateway_inv stream es oc g"
proof (induction rule: gateway_runs.induct)
  case start
  show ?case by (simp add: gateway_inv_def start_loop_def acks_def states_sent_def states_received_def confirmed_def)
next
  case (turn es g io push e oc g')
  then show ?case by (auto intro: turn_inv)
qed

text \<open>The count of failed polls.\<close>

fun is_tick :: "gateway_event \<Rightarrow> bool" where
  "is_tick (CurrentTick _ _) = True"
| "is_tick _ = False"

definition failed_poll :: "gateway_event \<Rightarrow> bool" where
  "failed_poll e \<longleftrightarrow> (\<exists>rnd err. e = CurrentTick rnd (Inl err) \<and> err \<noteq> ErrSSHStreamFrameTooLarge)"

lemma handle_state_polls: "handleSSHGatewayState io push st g = (r, g') \<Longrightarrow> gl_pollFailures g' = gl_pollFailures g"
  unfolding handleSSHGatewayState_def write_ack_def by (auto split: if_splits option.splits elim!: write_frame_cases)

lemma turn_polls:
  assumes "gateway_turn io push stream e g = (Continues, g')"
  shows "\<not> is_tick e \<Longrightarrow> gl_pollFailures g' = gl_pollFailures g" "failed_poll e \<Longrightarrow> gl_pollFailures g' = gl_pollFailures g + 1"
    "gl_pollFailures g < maxConsecutiveCurrentPollFailures \<Longrightarrow> gl_pollFailures g' < maxConsecutiveCurrentPollFailures"
proof -
  have zero: "0 < maxConsecutiveCurrentPollFailures" by (simp add: maxConsecutiveCurrentPollFailures_def)
  show "\<not> is_tick e \<Longrightarrow> gl_pollFailures g' = gl_pollFailures g" "failed_poll e \<Longrightarrow> gl_pollFailures g' = gl_pollFailures g + 1"
    using assms by (auto simp: gateway_turn_def failed_poll_def publishSSHGatewayCurrent_def Let_def handle_state_polls
        split: gateway_event.splits SSHStreamEvent.splits prod.splits sum.splits if_splits)
  show "gl_pollFailures g < maxConsecutiveCurrentPollFailures \<Longrightarrow> gl_pollFailures g' < maxConsecutiveCurrentPollFailures"
    using assms zero by (auto simp: gateway_turn_def Let_def handle_state_polls
        split: gateway_event.splits SSHStreamEvent.splits prod.splits sum.splits if_splits)
qed

lemma polls_bounded: "gateway_runs stream es Continues g \<Longrightarrow> gl_pollFailures g < maxConsecutiveCurrentPollFailures"
proof (induction es Continues g rule: gateway_runs.induct)
  case start
  show ?case by (simp add: start_loop_def maxConsecutiveCurrentPollFailures_def)
qed (auto dest: turn_polls(3))

inductive_cases runs_snoc: "gateway_runs stream (es @ [e]) oc g"

lemma polls_nonneg: "gateway_runs stream es oc g \<Longrightarrow> 0 \<le> gl_pollFailures g"
proof (induction rule: gateway_runs.induct)
  case (turn es g io push e oc g')
  then show ?case by (auto simp: gateway_turn_def Let_def handle_state_polls publish_current
      split: gateway_event.splits SSHStreamEvent.splits prod.splits sum.splits if_splits)
qed (simp add: start_loop_def)

lemma polls_counted:
  assumes "gateway_runs stream (es @ fs) Continues g" and "\<forall>e \<in> set fs. is_tick e \<longrightarrow> failed_poll e"
  shows "int (length (filter is_tick fs)) \<le> gl_pollFailures g"
  using assms
proof (induction fs arbitrary: g rule: rev_induct)
  case Nil
  then show ?case using polls_nonneg by fastforce
next
  case (snoc e fs)
  from snoc.prems(1) obtain g0 io push where r: "gateway_runs stream (es @ fs) Continues g0" and t: "gateway_turn io push stream e g0 = (Continues, g)"
    by (auto simp flip: append_assoc elim: runs_snoc)
  from snoc.IH [OF r] snoc.prems(2) turn_polls(1,2) [OF t] show ?case by (cases "is_tick e") auto
qed

lemma failing_run:
  assumes "failed_poll e" and "int n < maxConsecutiveCurrentPollFailures"
  shows "gateway_runs stream (replicate n e) Continues (start_loop\<lparr>gl_pollFailures := int n\<rparr>)"
  using assms(2)
proof (induction n)
  case 0
  have "start_loop\<lparr>gl_pollFailures := 0\<rparr> = start_loop" by (simp add: start_loop_def)
  then show ?case by (simp add: gateway_runs.start)
next
  case (Suc n)
  then have r: "gateway_runs stream (replicate n e) Continues (start_loop\<lparr>gl_pollFailures := int n\<rparr>)" by simp
  have "gateway_turn (\<lambda>_. Written) (\<lambda>_ _. True) stream e (start_loop\<lparr>gl_pollFailures := int n\<rparr>) = (Continues, start_loop\<lparr>gl_pollFailures := int (Suc n)\<rparr>)"
    using assms(1) Suc.prems by (auto simp: failed_poll_def gateway_turn_def publishSSHGatewayCurrent_def Let_def)
  from gateway_runs.turn [OF r this] show ?case by (simp add: replicate_append_same)
qed

text \<open>A line of plain words is split at the blanks.\<close>

definition sh_plain :: "char \<Rightarrow> bool" where
  "sh_plain c \<longleftrightarrow> \<not> sh_special c \<and> c \<notin> {CHR 0x27, CHR 0x5C, CHR 0x20, CHR 0x09}"

lemma sh_lex_plain: "list_all sh_plain w \<Longrightarrow> sh_lex False (Some acc) (w @ rest) = sh_lex False (Some (rev w @ acc)) rest"
  by (induction w arbitrary: acc) (auto simp: sh_plain_def so_far_def)

lemma sh_lex_word: "list_all sh_plain w \<Longrightarrow> w \<noteq> [] \<Longrightarrow> sh_lex False None (w @ rest) = sh_lex False (Some (rev w)) rest"
  using sh_lex_plain [of "tl w" "[hd w]" rest] by (cases w) (auto simp: sh_plain_def so_far_def)

lemma sh_words_plain: "list_all (\<lambda>w. w \<noteq> [] \<and> list_all sh_plain w) ws \<Longrightarrow> sh_words (join_with '' '' ws) = Some ws"
proof (induction ws rule: induct_list012)
  case (2 w)
  then show ?case using sh_lex_word [of w "[]"] by (simp add: sh_words_def)
next
  case (3 v w ws)
  then show ?case using sh_lex_word [of v "CHR 0x20 # join_with '' '' (w # ws)"] by (simp add: sh_words_def)
qed (simp add: sh_words_def)

lemma name_char_sh_plain: "name_char c \<Longrightarrow> sh_plain c"
  by (auto simp: name_char_def sh_plain_def sh_special_def upper_letter_def lower_letter_def is_digit_def)

definition forced_args :: "ManagedAuthorizedKey \<Rightarrow> string list" where
  "forced_args entry = [''--authorized-peer'', ak_PeerID entry, ''--authorized-key-id'', ak_KeyID entry]"

lemma forced_command_words:
  assumes "NewManagedAuthorizedKey entry = Inr e"
  shows "sh_words (ForcedCommand entry) = Some (ak_GatewayPath entry # ''ssh-gateway'' # forced_args entry)"
proof -
  note n = new_key [OF assms]
  have g: "ak_GatewayPath entry \<noteq> []" "list_all sh_plain (ak_GatewayPath entry)"
  proof -
    have "sh_plain slash" "sh_plain (CHR 0x40)" "sh_plain (CHR 0x2B)" by code_simp+
    then have "sh_plain c" if "name_char c \<or> c \<in> {slash, CHR 0x40, CHR 0x2B}" for c
      using that name_char_sh_plain by blast
    then show "ak_GatewayPath entry \<noteq> []" "list_all sh_plain (ak_GatewayPath entry)"
      using n(4) by (auto simp: ValidateSSHExecutablePath_def sshPathPattern_def list_all_iff split: if_splits)
  qed
  have "list_all sh_plain (ak_PeerID entry) \<and> ak_PeerID entry \<noteq> []" "list_all sh_plain (ak_KeyID entry) \<and> ak_KeyID entry \<noteq> []"
    using ValidateHostID_chars [OF n(2)] authorizedKeyID_chars [OF n(3)] name_char_sh_plain by (auto simp: list_all_iff)
  moreover have "list_all sh_plain ''ssh-gateway''" "list_all sh_plain ''--authorized-peer''" "list_all sh_plain ''--authorized-key-id''"
    by code_simp+
  ultimately have "sh_words (join_with '' '' (ak_GatewayPath entry # ''ssh-gateway'' # forced_args entry)) =
      Some (ak_GatewayPath entry # ''ssh-gateway'' # forced_args entry)"
    using g by (intro sh_words_plain) (simp add: forced_args_def)
  moreover have "join_with '' '' (ak_GatewayPath entry # ''ssh-gateway'' # forced_args entry) = ForcedCommand entry"
    by (simp add: ForcedCommand_def command_suffix_def forced_args_def)
  ultimately show ?thesis by simp
qed

lemma forced_flags:
  "parse_flags [''authorized-peer'', ''authorized-key-id'', ''direct-command''] (forced_args entry) Map.empty =
     Inr ([''authorized-peer'' \<mapsto> ak_PeerID entry, ''authorized-key-id'' \<mapsto> ak_KeyID entry], [])"
proof -
  have "flag_name ''--authorized-peer'' = Inr (Some ''authorized-peer'')" "flag_name ''--authorized-key-id'' = Inr (Some ''authorized-key-id'')"
    by code_simp+
  then show ?thesis by (simp add: forced_args_def Let_def)
qed

text \<open>What the checks of a peer come to.\<close>

definition served_peer :: "Config \<Rightarrow> SSHGatewayIdentity \<Rightarrow> SSHPeer \<Rightarrow> bool" where
  "served_peer cfg identity peer \<longleftrightarrow> cf_Transport cfg = TransportSSH \<and>
     (\<exists>ssh. cf_SSH cfg = Some ssh \<and> peer \<in> set (s_Peers ssh) \<and> s_SyncKey ssh \<noteq> [] \<and> s_KnownHosts ssh \<noteq> []) \<and>
     sp_ID peer = gi_PeerID identity \<and> pr_AcceptKeyID (sp_Proof peer) = gi_KeyID identity \<and>
     sp_Enabled peer \<and> sp_Accept peer \<and> sp_Connect peer \<and> sp_Persistent peer \<and> sp_MigrationState peer = MigrationStateSSHKeysReady"

lemma sync_peer_served:
  assumes "validateSSHGatewaySyncPeer (Some cfg) identity = Inr ()"
  shows "\<exists>peer. served_peer cfg identity peer"
proof -
  from assms obtain ssh peer rest where ssh: "cf_Transport cfg = TransportSSH" "cf_SSH cfg = Some ssh" "s_SyncKey ssh \<noteq> []" "s_KnownHosts ssh \<noteq> []"
    and d: "dropWhile (\<lambda>peer. sp_ID peer \<noteq> gi_PeerID identity) (s_Peers ssh) = peer # rest"
    and p: "sp_Enabled peer" "sp_Accept peer" "sp_Connect peer" "sp_Persistent peer" "sp_MigrationState peer = MigrationStateSSHKeysReady"
      "pr_AcceptKeyID (sp_Proof peer) = gi_KeyID identity"
    by (auto simp: validateSSHGatewaySyncPeer_def split: option.splits list.splits if_splits)
  have "peer \<in> set (s_Peers ssh)" using d set_dropWhileD [of peer "\<lambda>peer. sp_ID peer \<noteq> gi_PeerID identity" "s_Peers ssh"] by simp
  moreover have "sp_ID peer = gi_PeerID identity" using d by (auto simp: dropWhile_eq_Cons_conv)
  ultimately show ?thesis using ssh p unfolding served_peer_def by blast
qed

lemma read_hello:
  assumes "fst (ReadHello stream doc now cache) = Inr h" and "ss_auth stream = Some k"
  shows "verifySSHStreamHelloIdentity h (ss_purpose stream) (ss_remoteID stream) (ss_localID stream) = Inr ()"
    and "verifySSHStreamHelloSignature (Some k) h = Inr ()"
  using assms unfolding ReadHello_def verifyHello_def verifySSHStreamHello_def
  by (auto simp: Let_def split: sum.splits prod.splits if_splits)

lemma target_loopback:
  assumes "sshGatewayLocalDaemonTarget ld cfg = Inr (host, port)"
  shows "isSSHGatewayLoopbackHost host \<and> 1 \<le> port \<and> port \<le> 65535"
  using assms by (auto simp: sshGatewayLocalDaemonTarget_def Let_def split: option.splits if_splits)

section \<open>Properties\<close>

text \<open>C15. A key can only act as the peer it was installed for: the shell splits the forced command of an installed
  key into the gateway, its verb and the arguments that name this peer and key, and with these arguments the gateway
  serves nothing but its three commands, whatever the client asks for, and always as this peer and key.\<close>

theorem forced_command_binds_identity:
  assumes "NewManagedAuthorizedKey entry = Inr e"
  defines "identity \<equiv> \<lparr>gi_PeerID = ak_PeerID entry, gi_KeyID = ak_KeyID entry\<rparr>"
  shows "\<exists>args. sh_words (ForcedCommand entry) = Some (ak_GatewayPath entry # ''ssh-gateway'' # args) \<and>
    (\<forall>command handlers act. runSSHGatewayWithHandlers args command handlers = Inr act \<longrightarrow>
       command \<in> set gateway_commands \<and> act \<in> {ServeProbe identity, ServeSyncStream identity, ServeFleetSnapshot identity}) \<and>
    (\<forall>command \<in> set gateway_commands. \<exists>act. runSSHGatewayWithHandlers args command (defaultSSHGatewayHandlers True) = Inr act)"
proof -
  note n = new_key [OF assms(1)]
  have c: "SSHGatewayProbeCommand \<noteq> []" "SSHGatewaySyncStreamCommand \<noteq> []" "SSHGatewayFleetSnapshotCommand \<noteq> []" by code_simp+
  have v: "ValidateManagedAuthorizedKeyID (ak_KeyID entry) = Inr ()" using n(3) by (simp add: ValidateManagedAuthorizedKeyID_def)
  have "\<forall>command handlers act. runSSHGatewayWithHandlers (forced_args entry) command handlers = Inr act \<longrightarrow>
       command \<in> set gateway_commands \<and> act \<in> {ServeProbe identity, ServeSyncStream identity, ServeFleetSnapshot identity}"
    by (auto simp: runSSHGatewayWithHandlers_def forced_flags flag_value_def Let_def gateway_commands_def identity_def c split: if_splits)
  moreover have "\<forall>command \<in> set gateway_commands. \<exists>act. runSSHGatewayWithHandlers (forced_args entry) command (defaultSSHGatewayHandlers True) = Inr act"
    using n(2) v c by (auto simp: runSSHGatewayWithHandlers_def forced_flags flag_value_def Let_def gateway_commands_def defaultSSHGatewayHandlers_def)
  ultimately show ?thesis using forced_command_words [OF assms(1)] by blast
qed

theorem forced_command_binds_identity_witness:
  "\<exists>args act. sh_words (ForcedCommand auth_key_example) = Some (''/g'' # ''ssh-gateway'' # args) \<and>
     runSSHGatewayWithHandlers args SSHGatewayProbeCommand (defaultSSHGatewayHandlers True) = Inr act"
  using forced_command_binds_identity [OF auth_key_example_ok] by (auto simp: auth_key_example_def gateway_commands_def)

text \<open>C17. The gateway keeps the stream in order: every state of the peer is acknowledged once and in order, with its
  own number and identifier, but perhaps for the last one when the loop ends; the local daemon gets no clip but the
  peer's; no clip is sent to the peer above the size limit or back to where it came from; and once a clip's write was
  reported as done, no later frame carries the clip again. Only a clip whose write was still under way when the time for it
  was over can be sent a second time.\<close>

theorem gateway_stream_discipline:
  assumes "gateway_runs stream es oc g"
  shows "(acks g = map ack_due (states_received es) \<or> oc \<noteq> Continues \<and> acks g = map ack_due (butlast (states_received es))) \<and>
    set (gl_pushed g) \<subseteq> clips_of (states_received es) \<and>
    sorted_wrt no_repeat (states_sent g) \<and>
    (\<forall>(_, c, origin, _) \<in> set (states_sent g). \<not> HostsMatch origin (ss_remoteID stream) \<and> int (length (c_Bytes c)) \<le> MaxSSHStreamPayloadBytes)"
  using run_inv [OF assms] by (auto simp: gateway_inv_def split: if_splits)

definition stream_example :: SSHSyncStream where
  "stream_example = NewSSHSyncStream None ''a'' ''b''"

definition null_state_example :: SSHStreamStateResult where
  "null_state_example = \<lparr>sr_Seq = 1, sr_Sender = ''b'', sr_Content = None, sr_Origin = [], sr_NullReason = ''no_current''\<rparr>"

lemma turn_example:
  "gateway_turn (\<lambda>_. Written) (\<lambda>_ _. True) stream_example (StreamFrame (StateEvent null_state_example)) start_loop =
     (Continues, start_loop\<lparr>gl_written := [(AckFrame 1 [] ''no_state'' [], True)]\<rparr>)"
  by code_simp

theorem gateway_stream_discipline_witness:
  "\<exists>g. gateway_runs stream_example [StreamFrame (StateEvent null_state_example)] Continues g \<and> acks g = [(1, [])]"
proof -
  have "gateway_runs stream_example ([] @ [StreamFrame (StateEvent null_state_example)]) Continues
      (start_loop\<lparr>gl_written := [(AckFrame 1 [] ''no_state'' [], True)]\<rparr>)"
    by (rule gateway_runs.turn [OF gateway_runs.start turn_example])
  then have r: "gateway_runs stream_example [StreamFrame (StateEvent null_state_example)] Continues
      (start_loop\<lparr>gl_written := [(AckFrame 1 [] ''no_state'' [], True)]\<rparr>)" by simp
  from gateway_stream_discipline [OF r] r show ?thesis
    by (auto simp: states_received_def List.map_filter_def ack_due_def null_state_example_def)
qed

lemma length_json_escape: "length (json_escape s) \<le> 6 * length s"
proof -
  have "length (json_escape_char c) \<le> 6" for c by (simp add: json_escape_char_def json_hex4_def)
  note c = this
  show ?thesis
  proof (induction s rule: json_escape.induct)
    case (1 a b d s)
    then show ?case using c [of a] by auto
  next
    case (2 a b)
    then show ?case using c [of a] c [of b] by simp
  next
    case (3 a)
    then show ?case using c [of a] by simp
  qed simp
qed

text \<open>A configuration that serves peer \<open>a\<close>, and a stream opened for it.\<close>

definition gateway_config_example :: Config where
  "gateway_config_example = empty_config\<lparr>cf_Hostname := ''b'', cf_Transport := TransportSSH, cf_Listen := ''127.0.0.1:80'',
     cf_SharedKey := ''MDEyMzQ1Njc4OWFiY2RlZg=='',
     cf_SSH := Some (empty_ssh\<lparr>s_SyncKey := ''k'', s_KnownHosts := ''h'', s_PeersNil := False,
       s_Peers := [empty_peer\<lparr>sp_ID := ''a'', sp_Enabled := True, sp_Accept := True, sp_Connect := True, sp_Persistent := True,
         sp_MigrationState := MigrationStateSSHKeysReady, sp_Proof := empty_proof\<lparr>pr_AcceptKeyID := ''abcdef012345''\<rparr>\<rparr>]\<rparr>)\<rparr>"


lemma gateway_config_example_ok:
  defines "i \<equiv> \<lparr>gi_PeerID = ''a'', gi_KeyID = ''abcdef012345''\<rparr>"
  shows "sshGatewayLocalID hn (Some gateway_config_example) = Inr ''b''"
    "validateSSHGatewaySyncPeer (Some gateway_config_example) i = Inr ()"
    "NewAuth (cf_SharedKey gateway_config_example) = Inr ''0123456789abcdef''"
    "sshGatewayLocalDaemonTarget True (Some gateway_config_example) = Inr (''127.0.0.1'', 80)"
    "runSSHGatewayWithHandlers [''--authorized-peer'', ''a'', ''--authorized-key-id'', ''abcdef012345''] SSHGatewaySyncStreamCommand (defaultSSHGatewayHandlers True)
       = Inr (ServeSyncStream i)"
  subgoal unfolding i_def sshGatewayLocalID_def  gateway_config_example_def by (simp add: empty_config_def) code_simp
  subgoal unfolding i_def by code_simp
  subgoal by code_simp
  subgoal by code_simp
  subgoal unfolding i_def by code_simp
  done

lemma hello_written:
  assumes h: "NewSSHStreamHello (Some k) None SSHStreamPurposeSyncStream ''b'' ''a'' (unix_time 1000) ''6d'' = Inr h"
  shows "\<exists>out. WriteHello False (NewSSHSyncStream (Some k) ''b'' ''a'') h = Inr out"
proof -
  have tu: "time_unix (unix_time 1000) = 1000" by (simp add: time_unix_def unix_time_def second_def)
  note sig = NewSSHStreamHello_signed [OF h, simplified tu, simplified SSHStreamPurposeSyncStream_def, simplified]
  obtain key where "sshHelloHMACKey (Some k) = Inr key" using sshHelloHMACKey_Some by blast
  then have "length (hl_Sig h) = 64" using h by (auto simp: NewSSHStreamHello_def signSSHStreamHello_def Let_def)
  then have q: "length (json_quote (hl_Sig h)) \<le> 386" using length_json_escape [of "hl_Sig h"] by (simp add: json_quote_def)
  have ns: "hl_Sig h \<noteq> []" using \<open>length (hl_Sig h) = 64\<close> by auto
  have js: "json_string (hl_Sig h) = hl_Sig h" using sig by (simp add: json_string_ascii)
  define fs where "fs = [(''type'', jstr ''hello''), (''protocols'', JArr [JNum ''1'']), (''purpose'', jstr ''sync-stream''),
    (''host_id'', jstr ''b''), (''peer_id'', jstr ''a''), (''ts'', JNum ''1000''), (''nonce'', jstr ''6d'')]"
  have v: "MarshalJSON (helloFrame h) = Inr (JObj (fs @ [(''sig'', jstr (hl_Sig h))]))"
    using sig ns by (simp add: MarshalJSON_def helloFrame_def empty_frame_def frame_fields_def if_set_def SSHStreamFrameHello_def SSHStreamFrameState_def
        SSHStreamPurposeSyncStream_def fs_def) code_simp
  have "length (concat (map (\<lambda>x. x @ '','') (map (\<lambda>(k, v). json_quote k @ '':'' @ json_print v) fs))) \<le> 1000" "length (json_quote ''sig'') = 5"
    unfolding fs_def by code_simp+
  then have l: "length (json_print (JObj (fs @ [(''sig'', jstr (hl_Sig h))]))) \<le> 2000"
    using q by (simp add: jstr_def js join_with_snoc)
  have "verifySSHStreamHelloIdentity h SSHStreamPurposeSyncStream ''b'' ''a'' = Inr ()"
    using sig by (simp add: verifySSHStreamHelloIdentity_def SSHStreamPurposeSyncStream_def)
  with sig v l show ?thesis by (simp add: WriteHello_def NewSSHSyncStream_def writeFrame_def MaxSSHStreamFrameBytes_def)
qed

lemma gateway_open_example:
  defines "i \<equiv> \<lparr>gi_PeerID = ''a'', gi_KeyID = ''abcdef012345''\<rparr>"
  shows "\<exists>doc stream out. gateway_open True True (Inr gateway_config_example) (Inl []) NewSSHStreamHelloNonceCache (Some ''m'') (unix_time 1000) (unix_time 1000) doc i =
    Inr (stream, out, ''127.0.0.1'', 80)"
proof -
  let ?k = "''0123456789abcdef''"
  note ex = gateway_config_example_ok [folded i_def]
  have new: "\<exists>h. NewSSHStreamHello (Some ?k) None SSHStreamPurposeSyncStream x y (unix_time 1000) n = Inr h" if "n \<noteq> []" for x y n
    using that sshHelloHMACKey_Some [of ?k] by (auto simp: NewSSHStreamHello_def signSSHStreamHello_def Let_def)
  obtain h where h: "NewSSHStreamHello (Some ?k) None SSHStreamPurposeSyncStream ''a'' ''b'' (unix_time 1000) ''n'' = Inr h" using new by blast
  obtain v where v: "MarshalJSON (helloFrame h) = Inr v"
    by (simp add: MarshalJSON_def helloFrame_def empty_frame_def)
  have rd: "fst (ReadHello (NewSSHSyncStream (Some ?k) ''b'' ''a'') (Values [v]) (unix_time 1000) NewSSHStreamHelloNonceCache) = Inr h"
    by (rule hello_delivered [OF h _ _ _ _ _ _ _ v])
      (simp_all add: valid_text_ascii is_ascii_def time_unix_def unix_time_def second_def signatureSkew_def remember_new)
  obtain h' where h': "NewSSHStreamHello (Some ?k) None SSHStreamPurposeSyncStream ''b'' ''a'' (unix_time 1000) ''6d'' = Inr h'" using new by blast
  have "hex_encode ''m'' = ''6d''" by code_simp
  then have hn: "NewSSHStreamHello (Some ?k) (Some ''m'') SSHStreamPurposeSyncStream ''b'' ''a'' (unix_time 1000) [] = Inr h'"
    using h' by (simp add: NewSSHStreamHello_def)
  obtain out where "WriteHello False (NewSSHSyncStream (Some ?k) ''b'' ''a'') h' = Inr out" using hello_written [OF h'] by blast
  with ex rd hn show ?thesis by (intro exI [of _ "Values [v]"]) (simp add: gateway_open_def Let_def i_def)
qed

text \<open>C14. A stream is opened for nobody else: if the gateway starts to serve, the configuration has the peer that the
  arguments name, enabled in both directions, ready, and with the very key that the arguments name as its proof; the
  hello it read is from that peer to this host and signed with the shared key; and the daemon it will talk to listens on
  this machine.\<close>

theorem gateway_serves_authorized_peer:
  assumes "runSSHGatewayWithHandlers args command handlers = Inr (ServeSyncStream identity)"
    and "gateway_open loopbackDefaults statOK loaded hostname cache rnd now1 now2 doc identity = Inr (stream, out, host, port)"
  shows "\<exists>cfg peer auth h. loaded = Inr cfg \<and> served_peer cfg identity peer \<and> NewAuth (cf_SharedKey cfg) = Inr auth \<and>
    fst (ReadHello stream doc now1 cache) = Inr h \<and> hl_HostID h = gi_PeerID identity \<and> hl_PeerID h = ss_localID stream \<and>
    (\<exists>key. sshHelloHMACKey (Some auth) = Inr key \<and> hex_decode (hl_Sig h) = Some (hmac_sha256 key (sshStreamHelloCanonical h))) \<and>
    isSSHGatewayLoopbackHost host"
proof -
  from assms(2) obtain cfg localID auth h where l: "loaded = Inr cfg" and i: "sshGatewayLocalID hostname (Some cfg) = Inr localID"
    and v: "validateSSHGatewaySyncPeer (Some cfg) identity = Inr ()" and a: "NewAuth (cf_SharedKey cfg) = Inr auth"
    and s: "stream = NewSSHSyncStream (Some auth) localID (gi_PeerID identity)" and h: "fst (ReadHello stream doc now1 cache) = Inr h"
    and t: "sshGatewayLocalDaemonTarget loopbackDefaults (Some cfg) = Inr (host, port)"
    by (auto simp: gateway_open_def Let_def split: if_splits)
  obtain peer where p: "served_peer cfg identity peer" using sync_peer_served [OF v] by blast
  have auth: "ss_auth stream = Some auth" by (simp add: s NewSSHSyncStream_def)
  note r = read_hello [OF h auth]
  have "localID \<noteq> []" using i by (auto simp: sshGatewayLocalID_def Let_def ValidateHostID_def split: if_splits)
  moreover have "gi_PeerID identity \<noteq> []" using assms(1)
    by (auto simp: runSSHGatewayWithHandlers_def Let_def ValidateHostID_def split: if_splits)
  ultimately have "hl_HostID h = gi_PeerID identity" "hl_PeerID h = ss_localID stream"
    using r(1) by (auto simp: s NewSSHSyncStream_def verifySSHStreamHelloIdentity_def split: if_splits)
  then show ?thesis using l p a h r(2) target_loopback [OF t] unfolding signature_iff
    by blast
qed

theorem gateway_serves_authorized_peer_witness:
  "\<exists>peer. served_peer gateway_config_example \<lparr>gi_PeerID = ''a'', gi_KeyID = ''abcdef012345''\<rparr> peer \<and>
     isSSHGatewayLoopbackHost ''127.0.0.1''"
proof -
  obtain doc stream out where o: "gateway_open True True (Inr gateway_config_example) (Inl []) NewSSHStreamHelloNonceCache (Some ''m'')
      (unix_time 1000) (unix_time 1000) doc \<lparr>gi_PeerID = ''a'', gi_KeyID = ''abcdef012345''\<rparr> = Inr (stream, out, ''127.0.0.1'', 80)"
    using gateway_open_example by blast
  show ?thesis using gateway_serves_authorized_peer [OF gateway_config_example_ok(5) o] by auto
qed

text \<open>C16. The loop does not hang on a dead daemon: once forty polls have failed with no successful poll since the first of
  them, the loop has returned, whatever frames of the peer came in between.\<close>

theorem gateway_gives_up:
  assumes "gateway_runs stream (es @ fs) oc g" and "\<forall>e \<in> set fs. is_tick e \<longrightarrow> failed_poll e"
    and "maxConsecutiveCurrentPollFailures \<le> int (length (filter is_tick fs))"
  shows "\<exists>r. oc = Returns r"
proof (rule ccontr)
  assume "\<nexists>r. oc = Returns r"
  then have "oc = Continues" by (cases oc) auto
  with assms(1) have r: "gateway_runs stream (es @ fs) Continues g" by simp
  have "int (length (filter is_tick fs)) \<le> gl_pollFailures g" by (rule polls_counted [OF r assms(2)])
  with polls_bounded [OF r] assms(3) show False by simp
qed

theorem gateway_gives_up_witness:
  "\<exists>r g. gateway_runs stream_example (replicate 40 (CurrentTick None (Inl (ErrStream ''refused'')))) (Returns r) g"
proof -
  let ?t = "CurrentTick None (Inl (ErrStream ''refused''))"
  have "gateway_runs stream_example (replicate 39 ?t) Continues (start_loop\<lparr>gl_pollFailures := int 39\<rparr>)"
    by (rule failing_run) (simp_all add: maxConsecutiveCurrentPollFailures_def failed_poll_def)
  moreover obtain oc g where "gateway_turn (\<lambda>_. Written) (\<lambda>_ _. True) stream_example ?t (start_loop\<lparr>gl_pollFailures := int 39\<rparr>) = (oc, g)"
    by fastforce
  ultimately have "gateway_runs stream_example (replicate 39 ?t @ [?t]) oc g" by (rule gateway_runs.turn)
  moreover have "replicate 39 ?t @ [?t] = replicate 40 ?t" by (simp add: replicate_append_same numeral_eq_Suc)
  ultimately have run: "gateway_runs stream_example ([] @ replicate 40 ?t) oc g" by simp
  from gateway_gives_up [OF run] obtain r where "oc = Returns r"
    by (auto simp: maxConsecutiveCurrentPollFailures_def failed_poll_def)
  with run show ?thesis by auto
qed

end
