(* ===== verification/Spec2Isabelle.thy ===== *)
theory Spec2Isabelle
  imports Clipfan_Daemon Clipfan_Session Clipfan_PeerRules Clipfan_Gateway
begin

text \<open>
  \<^bold>\<open>Clipfan\<close> keeps the clipboards of several machines in step. A daemon on each machine polls the local
  clipboard, records what it sees in a history, and passes it to its peers over persistent SSH
  streams; what a peer sends is written to the local clipboard and passed on. This development
  models the Go code under \<open>src/internal\<close> and proves the properties that make it correct.

  \<^bold>\<open>Parts and theories.\<close>
  \<^item> \<open>Clipfan_Prelude\<close>: Go strings, byte slices, times, results and maps, the functions of \<open>strings\<close>,
    \<open>path\<close>, \<open>strconv\<close> and \<open>sort\<close> the program calls, and the lemmas every component shares.
  \<^item> \<open>Clipfan_FS\<close>: a file system with a schedule of faults, and the file routines of
    \<open>store/state.go\<close>, \<open>config/config.go\<close> and \<open>config/v2.go\<close> (\<open>writeAtomic\<close>, \<open>writeConfigAtomic\<close>,
    \<open>writeConfigV2Atomic\<close>). Every system call may fail or write short; the theorems hold for all schedules.
  \<^item> \<open>Clipfan_Crypto\<close>, \<open>Clipfan_GCM\<close>: SHA-256, HMAC, HKDF, hexadecimal, base64 and AES-256-GCM,
    executable, since the Go standard library is part of the language.
  \<^item> \<open>Clipfan_Store\<close>: \<open>store/history.go\<close>, \<open>store/store.go\<close>, \<open>store/state.go\<close>, \<open>store/imagepath.go\<close>. The
    locale \<open>history_update\<close> is the contract of a history change; it is interpreted for each operation.
  \<^item> \<open>Clipfan_Replay\<close>: \<open>transport/hostnames.go\<close>, \<open>daemon/seen.go\<close>, \<open>transport/nonce.go\<close>. The locale
    \<open>recency_memory\<close> is the contract of a bounded memory, interpreted for the seen set.
  \<^item> \<open>Clipfan_Auth\<close>: \<open>transport/auth.go\<close>, \<open>transport/crypto.go\<close>, \<open>transport/envelope.go\<close>,
    \<open>transport/current.go\<close>.
  \<^item> \<open>Clipfan_Json\<close>: JSON value trees, the printer, the struct decoder and RFC 3339 times.
  \<^item> \<open>Clipfan_Stream\<close>: \<open>transport/ssh_stream.go\<close>, the frames, the hello and its nonce cache.
  \<^item> \<open>Clipfan_Daemon\<close>: the clipboard core of \<open>daemon/daemon.go\<close> as a transition system, and the abstract
    relay it refines (\<open>abs_relay\<close>, \<open>relay_step\<close>).
  \<^item> \<open>Clipfan_Net\<close>: the functions of Go's \<open>net\<close> the configuration calls.
  \<^item> \<open>Clipfan_Config\<close>: the structs of the configuration, the validators of \<open>config/ssh.go\<close>,
    \<open>config/hostid.go\<close>, and the listener plan of \<open>config/listener.go\<close>.
  \<^item> \<open>Clipfan_Session\<close>: \<open>daemon/ssh_session.go\<close>, the outgoing streams as a transition system over a
    heap of sessions, one rule per critical section or turn of a goroutine's loop.
  \<^item> \<open>Clipfan_ConfigDoc\<close>: \<open>config/v2.go\<close>, \<open>config/config.go\<close>, \<open>config/hostid.go\<close>: the configuration document with the
    members the program does not know, its revision, and the update of the file under its lock.
  \<^item> \<open>Clipfan_PeerConfig\<close>: \<open>config/ssh_peer_config.go\<close>: the requests on a peer, their decoders and their effect
    on the raw document; \<open>Clipfan_PeerRules\<close>: the properties of these requests and of the migration of a peer.
  \<^item> \<open>Clipfan_SSHFiles\<close>: what the two editors of SSH files share; \<open>Clipfan_KnownHosts\<close>:
    \<open>sshprovision/known_hosts.go\<close>; \<open>Clipfan_AuthKeys\<close>: \<open>sshprovision/authorized_keys.go\<close>.
  \<^item> \<open>Clipfan_SSHCommand\<close>: \<open>sshprovision/ssh_command.go\<close> and \<open>ssh_server_mode.go\<close>, with the word splitting of the
    remote shell; \<open>Clipfan_Pair\<close>: \<open>sshprovision/pair_plan.go\<close> and \<open>pair_executor.go\<close>, plans and the provisioning
    of a pair with the driver's calls as arguments.
  \<^item> \<open>Clipfan_Gateway\<close>: \<open>cli/ssh_gateway.go\<close>, the accepting end of a stream.
  \<^bold>\<open>How they interact.\<close> The daemon calls the store for every clip it takes and hands it to the session
  manager (\<open>publishSSH\<close>, \<open>Publish\<close>); a session seals it into an envelope and writes it as a state
  frame; the peer opens the envelope and calls its own \<open>onReceive\<close>. In \<open>Clipfan_Daemon\<close> the calls of
  \<open>Publish\<close> are the log \<open>d_published\<close>; in \<open>Clipfan_Session\<close> the calls of \<open>onReceive\<close> are the log
  \<open>m_received\<close>.

  \<^bold>\<open>What is shown.\<close> Files are replaced whole or not at all under every fault; the history keeps its
  identifiers distinct, its order and its cap, and the collector spares referenced images; sealed
  envelopes and signed requests are accepted exactly when they were made with the key, for this
  recipient and within the time window, and are not accepted twice within the retention; the frames of
  the stream survive encoding and decoding, and the sequence numbers are consecutive; nothing
  concealed leaves the daemon, no clip is published twice while the memory lasts, the daemon's own
  writes are not taken for copies; a clip that is pending for a peer stays so until it is replaced, acknowledged by its
  identifier, or the peer is removed;
  a validated configuration is well formed and the listener stays on loopback; an update of the
  configuration based on an old revision is refused, and one that fails leaves the old document; a request
  on a peer touches no other peer, follows the migration state machine, leaves its record in the log, a
  tombstone after a deletion and no secret after a reset; a pinned host key verifies, and an authorized
  key is granted with its forced command by one line only; every command sent to another machine is split
  there into exactly the words that were meant, a pair is written into the configurations only after the probes in both
  directions, and the gateway serves only the peer and the key its forced command names.

  \<^bold>\<open>Bounds and fuel.\<close> \<open>hkdf_expand\<close> runs at most \<open>len div 32 + 1\<close> rounds, one per 32 bytes of output, and
  \<open>v6_loop\<close> at most eight, one per group of an IPv6 address; both are the bounds of the code's own
  loops. All other loops recurse on their data or have a termination proof. Sequence numbers, revisions
  and word arithmetic are kept at 64, 32 and 8 bits; a session is assumed to send fewer than \<open>2 ^ 64\<close> frames.

  \<^bold>\<open>Choices of the model.\<close> A Go map is an association list, and a loop over it goes in list order; where the
  order could matter the lemmas do not depend on it. JSON text is a value tree, so its syntax errors
  are one constructor. A directory that is missing above a file is a fault of the file system's schedule. A frame whose write was still
  under way when the gateway's time for it was over goes out later, and counts as sent but not as confirmed. Times are nanoseconds since Go's zero time and are printed in UTC. The store's
  operations and the critical sections of the daemon are atomic, as the code's locks make them;
  the publication that \<open>onReceive\<close> starts as a goroutine happens at its end. Identifiers minted by a poll
  or a restore are fresh.

  \<^bold>\<open>Not modelled.\<close> Listener repair, fleet reset, host removal, the files of sync keys, the fleet view, and the HTTP server
  and client; the drivers that run the provisioning commands.
  Starting ssh processes, clipboard programs, tmux, tailscale and the storage probes are effects
  of the operating system. Every file belongs to the user and has one link, so that the checks of owners,
  links and inodes always pass; they are left out. The rest of the command line and the Mac application are shells around these packages.
\<close>


end
